(* ===== verification/Prelude.thy ===== *)
theory Prelude
  imports Complex_Main "HOL-Library.Char_ord" "HOL-Library.List_Lexorder"
begin

text \<open>
  Shared vocabulary of the development.

  \<^item> Python exceptions as the values of one datatype \<open>exn\<close>, with the subclass tests that an
    \<^verbatim>\<open>except\<close> clause performs.
  \<^item> Fallible pure code as \<open>exn + 'a\<close> with \<open>bindR\<close>, \<open>check\<close> (raise unless a condition holds)
    and \<open>each\<close> (a \<^verbatim>\<open>for\<close> loop that only checks).
  \<^item> Stateful code as \<open>'s \<Rightarrow> (exn + 'a) \<times> 's\<close> with \<open>bindP\<close> and \<open>liftR\<close>. The state survives an
    exception, as mutated Python objects and committed SQL transactions do.
  \<^item> Instants are aware datetimes, represented exactly by their integer number of microseconds.
  \<^item> A Python string is a list of characters; a character is a code point below 256, so the
    functions on strings are those of Python restricted to Latin-1 text.
\<close>

named_theorems payops_defs "definitions that component proofs unfold together"
named_theorems result_simps "rewriting of fallible computations"

type_synonym instant = int
type_synonym seconds = int

section \<open>Exceptions\<close>

datatype exn =
    ValueError string
  | EvidenceIntegrityError string
  | IdempotencyConflict string
  | KeyError string
  | OSError string
  | FileExistsError string
  | PermissionError string
  | AuthenticationDenied string
  | RuntimeError string
  | TransitionConflict string
  | BudgetConflict string
  | AssertionError string
  | TypeError string
  | HTTPException nat string
  | IntegrityError string
  | TimeoutError string
  | LoopStopped string
  | OtherError string

text \<open>\<^verbatim>\<open>except ValueError\<close> also catches the subclasses the code declares, and
  \<^verbatim>\<open>except OSError\<close> catches \<^verbatim>\<open>PermissionError\<close> (and its subclass \<^verbatim>\<open>AuthenticationDenied\<close>), \<^verbatim>\<open>FileExistsError\<close> and \<^verbatim>\<open>TimeoutError\<close>,
  which Python derives from it.\<close>

fun is_ValueError :: "exn \<Rightarrow> bool" where
  "is_ValueError (ValueError _) = True"
| "is_ValueError (EvidenceIntegrityError _) = True"
| "is_ValueError (IdempotencyConflict _) = True"
| "is_ValueError _ = False"

fun is_OSError :: "exn \<Rightarrow> bool" where
  "is_OSError (OSError _) = True"
| "is_OSError (FileExistsError _) = True"
| "is_OSError (PermissionError _) = True"
| "is_OSError (AuthenticationDenied _) = True"
| "is_OSError (TimeoutError _) = True"
| "is_OSError _ = False"

fun is_KeyError :: "exn \<Rightarrow> bool" where
  "is_KeyError (KeyError _) = True"
| "is_KeyError _ = False"

fun is_PermissionError :: "exn \<Rightarrow> bool" where
  "is_PermissionError (PermissionError _) = True"
| "is_PermissionError (AuthenticationDenied _) = True"
| "is_PermissionError _ = False"

fun is_AuthenticationDenied :: "exn \<Rightarrow> bool" where
  "is_AuthenticationDenied (AuthenticationDenied _) = True"
| "is_AuthenticationDenied _ = False"

fun is_TransitionConflict :: "exn \<Rightarrow> bool" where
  "is_TransitionConflict (TransitionConflict _) = True"
| "is_TransitionConflict _ = False"

fun is_IdempotencyConflict :: "exn \<Rightarrow> bool" where
  "is_IdempotencyConflict (IdempotencyConflict _) = True"
| "is_IdempotencyConflict _ = False"

fun is_IntegrityFailure :: "exn \<Rightarrow> bool" where
  "is_IntegrityFailure (EvidenceIntegrityError _) = True"
| "is_IntegrityFailure _ = False"

section \<open>Fallible pure code\<close>

definition bindR :: "exn + 'a \<Rightarrow> ('a \<Rightarrow> exn + 'b) \<Rightarrow> exn + 'b" where
  "bindR m f = (case m of Inl e \<Rightarrow> Inl e | Inr x \<Rightarrow> f x)"

definition check :: "bool \<Rightarrow> exn \<Rightarrow> exn + unit" where
  "check b e = (if b then Inr () else Inl e)"

fun each :: "('a \<Rightarrow> exn + unit) \<Rightarrow> 'a list \<Rightarrow> exn + unit" where
  "each f [] = Inr ()"
| "each f (x # xs) = bindR (f x) (\<lambda>_. each f xs)"

fun mapR :: "('a \<Rightarrow> exn + 'b) \<Rightarrow> 'a list \<Rightarrow> exn + 'b list" where
  "mapR f [] = Inr []"
| "mapR f (x # xs) = bindR (f x) (\<lambda>y. bindR (mapR f xs) (\<lambda>ys. Inr (y # ys)))"

definition of_option :: "exn \<Rightarrow> 'a option \<Rightarrow> exn + 'a" where
  "of_option e m = (case m of None \<Rightarrow> Inl e | Some x \<Rightarrow> Inr x)"

lemma bindR_simps [simp, result_simps]:
  "bindR (Inl e) f = Inl e"
  "bindR (Inr x) f = f x"
  by (simp_all add: bindR_def)

lemma bindR_Inr_iff [simp]: "bindR m f = Inr y \<longleftrightarrow> (\<exists>x. m = Inr x \<and> f x = Inr y)"
  by (cases m) simp_all

lemma bindR_Inl_iff: "bindR m f = Inl e \<longleftrightarrow> m = Inl e \<or> (\<exists>x. m = Inr x \<and> f x = Inl e)"
  by (cases m) simp_all

lemma bindR_assoc: "bindR (bindR m f) g = bindR m (\<lambda>x. bindR (f x) g)"
  by (cases m) simp_all

lemma check_Inr_iff [simp]: "check b e = Inr u \<longleftrightarrow> b"
  by (simp add: check_def)

lemma check_Inl_iff [simp]: "check b e = Inl e' \<longleftrightarrow> \<not> b \<and> e' = e"
  by (auto simp: check_def)

lemma check_simps [simp]: "check True e = Inr ()" "check False e = Inl e"
  by (simp_all add: check_def)

lemma each_Inr_iff [simp]: "each f xs = Inr u \<longleftrightarrow> (\<forall>x \<in> set xs. f x = Inr ())"
  by (induction xs) auto

lemma each_InlD: "each f xs = Inl e \<Longrightarrow> \<exists>x \<in> set xs. f x = Inl e"
  by (induction xs) (auto simp: bindR_Inl_iff)

lemma mapR_Inr_length: "mapR f xs = Inr ys \<Longrightarrow> length ys = length xs"
  by (induction xs arbitrary: ys) auto

lemma mapR_Inr_iff: "mapR f xs = Inr ys \<longleftrightarrow> list_all2 (\<lambda>x y. f x = Inr y) xs ys"
  by (induction xs arbitrary: ys) (auto simp: list_all2_Cons1)

lemma of_option_Inr_iff [simp]: "of_option e m = Inr x \<longleftrightarrow> m = Some x"
  by (cases m) (simp_all add: of_option_def)

lemma of_option_simps [simp]: "of_option e None = Inl e" "of_option e (Some x) = Inr x"
  by (simp_all add: of_option_def)

section \<open>Stateful code\<close>

type_synonym ('s, 'a) prog = "'s \<Rightarrow> (exn + 'a) \<times> 's"

definition returnP :: "'a \<Rightarrow> ('s, 'a) prog" where
  "returnP x s = (Inr x, s)"

definition raiseP :: "exn \<Rightarrow> ('s, 'a) prog" where
  "raiseP e s = (Inl e, s)"

definition bindP :: "('s, 'a) prog \<Rightarrow> ('a \<Rightarrow> ('s, 'b) prog) \<Rightarrow> ('s, 'b) prog" where
  "bindP m f s = (case m s of (Inl e, s') \<Rightarrow> (Inl e, s') | (Inr x, s') \<Rightarrow> f x s')"

definition liftR :: "exn + 'a \<Rightarrow> ('s, 'a) prog" where
  "liftR r s = (r, s)"

definition checkP :: "bool \<Rightarrow> exn \<Rightarrow> ('s, unit) prog" where
  "checkP b e = liftR (check b e)"

text \<open>\<open>tryP m p h\<close> runs \<open>m\<close> and hands an exception that satisfies \<open>p\<close> to the handler \<open>h\<close>;
  any other exception propagates.\<close>

definition tryP :: "('s, 'a) prog \<Rightarrow> (exn \<Rightarrow> bool) \<Rightarrow> (exn \<Rightarrow> ('s, 'a) prog) \<Rightarrow> ('s, 'a) prog" where
  "tryP m p h s = (case m s of (Inl e, s') \<Rightarrow> (if p e then h e s' else (Inl e, s'))
                             | (Inr x, s') \<Rightarrow> (Inr x, s'))"

text \<open>Reading the fields of the state at the start of a method.\<close>

definition getP :: "('s \<Rightarrow> ('s, 'a) prog) \<Rightarrow> ('s, 'a) prog" where
  "getP f s = f s s"

lemma returnP_apply [simp]: "returnP x s = (Inr x, s)"
  by (simp add: returnP_def)

lemma raiseP_apply [simp]: "raiseP e s = (Inl e, s)"
  by (simp add: raiseP_def)

lemma liftR_apply [simp]: "liftR r s = (r, s)"
  by (simp add: liftR_def)

lemma checkP_apply [simp]: "checkP b e s = (check b e, s)"
  by (simp add: checkP_def)

lemma bindP_eqs:
  "m s = (Inl e, s') \<Longrightarrow> bindP m f s = (Inl e, s')"
  "m s = (Inr x, s') \<Longrightarrow> bindP m f s = f x s'"
  by (simp_all add: bindP_def)

lemma bindP_Inr_iff:
  "bindP m f s = (Inr y, t) \<longleftrightarrow> (\<exists>x s'. m s = (Inr x, s') \<and> f x s' = (Inr y, t))"
  by (auto simp: bindP_def split: prod.splits sum.splits)

lemma bindP_Inl_iff:
  "bindP m f s = (Inl e, t) \<longleftrightarrow>
     m s = (Inl e, t) \<or> (\<exists>x s'. m s = (Inr x, s') \<and> f x s' = (Inl e, t))"
  by (auto simp: bindP_def split: prod.splits sum.splits)

lemma tryP_Inr_iff:
  "tryP m p h s = (Inr y, t) \<longleftrightarrow>
     m s = (Inr y, t) \<or> (\<exists>e s'. m s = (Inl e, s') \<and> p e \<and> h e s' = (Inr y, t))"
  by (auto simp: tryP_def split: prod.splits sum.splits)

text \<open>\<open>attempt m p\<close> is the \<^verbatim>\<open>try\<close> of a body whose handler goes on: an exception that satisfies \<open>p\<close> becomes a value.\<close>

definition attempt :: "('s, 'a) prog \<Rightarrow> (exn \<Rightarrow> bool) \<Rightarrow> ('s, exn + 'a) prog" where
  "attempt m p = tryP (bindP m (\<lambda>x. returnP (Inr x))) p (\<lambda>e. returnP (Inl e))"

lemma attempt_run: "attempt m p s =
    (case m s of (Inl e, s') \<Rightarrow> (if p e then Inr (Inl e) else Inl e, s') | (Inr x, s') \<Rightarrow> (Inr (Inr x), s'))"
  by (simp add: attempt_def tryP_def bindP_def split: prod.split sum.split)

lemma snd_attempt [simp]: "snd (attempt m p s) = snd (m s)"
  by (simp add: attempt_run split: prod.split sum.split)

text \<open>A comprehension whose body has effects.\<close>

fun map_prog :: "('a \<Rightarrow> ('s, 'b) prog) \<Rightarrow> 'a list \<Rightarrow> ('s, 'b list) prog" where
  "map_prog f [] = returnP []"
| "map_prog f (x # xs) = bindP (f x) (\<lambda>y. bindP (map_prog f xs) (\<lambda>ys. returnP (y # ys)))"

lemma map_prog_Inr:
  "map_prog f xs s = (Inr ys, s') \<Longrightarrow> list_all2 (\<lambda>x y. \<exists>t t'. f x t = (Inr y, t')) xs ys"
proof (induction xs arbitrary: ys s)
  case (Cons x xs)
  then obtain y zs t where "f x s = (Inr y, t)" "map_prog f xs t = (Inr zs, s')" "ys = y # zs"
    by (auto simp: bindP_Inr_iff)
  with Cons.IH [of t zs] show ?case by auto
qed simp

text \<open>A relation between the states before and after that every part keeps is kept by the
  composition. The component invariants and frame conditions go through these rules.\<close>

definition keeps :: "('s \<Rightarrow> 's \<Rightarrow> bool) \<Rightarrow> ('s, 'a) prog \<Rightarrow> bool" where
  "keeps R m \<longleftrightarrow> (\<forall>s. R s (snd (m s)))"

lemma keepsD: "keeps R m \<Longrightarrow> m s = (r, t) \<Longrightarrow> R s t"
  by (metis keeps_def snd_conv)

lemma keeps_weaken: "keeps R m \<Longrightarrow> (\<And>a b. R a b \<Longrightarrow> S a b) \<Longrightarrow> keeps S m"
  by (simp add: keeps_def)

lemma keeps_bindP:
  assumes "keeps R m" and "\<And>x. keeps R (f x)" and "\<And>a b c. R a b \<Longrightarrow> R b c \<Longrightarrow> R a c"
  shows "keeps R (bindP m f)"
  using assms unfolding keeps_def bindP_def
  by (auto split: prod.splits sum.splits) (metis snd_conv)+

lemma keeps_liftR: "(\<And>s. R s s) \<Longrightarrow> keeps R (liftR r)"
  by (simp add: keeps_def)

lemma keeps_tryP:
  assumes "keeps R m" and "\<And>e. keeps R (h e)" and "\<And>a b c. R a b \<Longrightarrow> R b c \<Longrightarrow> R a c"
  shows "keeps R (tryP m p h)"
  using assms unfolding keeps_def tryP_def
  by (auto split: prod.splits sum.splits) (metis snd_conv)+

text \<open>A frame is a reflexive and transitive relation between the states before and after a program. The
  programs that keep it are closed under the constructs of the code.\<close>

locale frame =
  fixes R :: "'s \<Rightarrow> 's \<Rightarrow> bool"
  assumes same: "R s s" and comp: "R a b \<Longrightarrow> R b c \<Longrightarrow> R a c"
begin

lemma frame_pure [intro!]:
  "keeps R (returnP x)" "keeps R (raiseP e)" "keeps R (liftR r)" "keeps R (checkP b e)"
  by (simp_all add: keeps_def same)

lemma frame_bindP [intro!]: "keeps R m \<Longrightarrow> (\<And>x. keeps R (f x)) \<Longrightarrow> keeps R (bindP m f)"
  by (rule keeps_bindP) (auto intro: comp)

lemma frame_tryP [intro!]: "keeps R m \<Longrightarrow> (\<And>e. keeps R (h e)) \<Longrightarrow> keeps R (tryP m p h)"
  by (rule keeps_tryP) (auto intro: comp)

lemma frame_getP [intro!]: "(\<And>s. keeps R (f s)) \<Longrightarrow> keeps R (getP f)"
  by (simp add: keeps_def getP_def)

lemma frame_attempt [intro!]: "keeps R m \<Longrightarrow> keeps R (attempt m p)"
  by (simp add: keeps_def)

lemma frame_map_prog [intro!]: "(\<And>x. keeps R (f x)) \<Longrightarrow> keeps R (map_prog f xs)"
  by (induction xs) auto

lemma frame_bind_body: "keeps R m \<Longrightarrow> (\<And>x s. R s (snd (f x s))) \<Longrightarrow> keeps R (bindP m f)"
  by (rule frame_bindP) (simp_all add: keeps_def)

lemma frame_bind_result: "keeps R m \<Longrightarrow> (\<And>s x t. m s = (Inr x, t) \<Longrightarrow> keeps R (f x)) \<Longrightarrow> keeps R (bindP m f)"
  unfolding keeps_def bindP_def by (auto split: prod.splits sum.splits) (metis comp snd_conv)+

end

section \<open>Lists without duplicates\<close>

text \<open>\<^verbatim>\<open>len({...}) == len(items)\<close> is how the code tests for duplicates.\<close>

definition no_duplicates :: "'a list \<Rightarrow> bool" where
  "no_duplicates xs \<longleftrightarrow> card (set xs) = length xs"

lemma no_duplicates_distinct [simp]: "no_duplicates xs \<longleftrightarrow> distinct xs"
  by (auto simp: no_duplicates_def card_distinct distinct_card)

section \<open>Text\<close>

definition is_digit :: "char \<Rightarrow> bool" where
  "is_digit c \<longleftrightarrow> 48 \<le> (of_char c :: nat) \<and> (of_char c :: nat) \<le> 57"

definition is_lower_hex :: "char \<Rightarrow> bool" where
  "is_lower_hex c \<longleftrightarrow> is_digit c \<or> 97 \<le> (of_char c :: nat) \<and> (of_char c :: nat) \<le> 102"

text \<open>The class \<^verbatim>\<open>\\w\<close> on code points below 256: ASCII letters, digits, underscore, and the
  Latin-1 letters.\<close>

definition is_word_char :: "char \<Rightarrow> bool" where
  "is_word_char c \<longleftrightarrow>
     (let n = (of_char c :: nat) in
        48 \<le> n \<and> n \<le> 57 \<or> 65 \<le> n \<and> n \<le> 90 \<or> n = 95 \<or> 97 \<le> n \<and> n \<le> 122
        \<or> n = 170 \<or> n = 181 \<or> n = 186
        \<or> 192 \<le> n \<and> n \<noteq> 215 \<and> n \<noteq> 247)"

text \<open>\<^verbatim>\<open>str(n)\<close> for a natural number.\<close>

fun nat_str :: "nat \<Rightarrow> string" where
  "nat_str n = (if n < 10 then [char_of (48 + n)] else nat_str (n div 10) @ [char_of (48 + n mod 10)])"

declare nat_str.simps [simp del]

definition int_str :: "int \<Rightarrow> string" where
  "int_str i = (if i < 0 then CHR ''-'' # nat_str (nat (- i)) else nat_str (nat i))"

fun digits_value :: "nat \<Rightarrow> string \<Rightarrow> nat" where
  "digits_value acc [] = acc"
| "digits_value acc (c # cs) = digits_value (10 * acc + (of_char c - 48)) cs"

lemma digits_value_append: "digits_value acc (xs @ ys) = digits_value (digits_value acc xs) ys"
  by (induction xs arbitrary: acc) auto

lemma of_char_digit: "n < 10 \<Longrightarrow> (of_char (char_of (48 + n) :: char) :: nat) = 48 + n"
  by simp

lemma digits_value_nat_str [simp]: "digits_value 0 (nat_str n) = n"
proof (induction n rule: nat_str.induct)
  case (1 n)
  show ?case
  proof (cases "n < 10")
    case True
    then show ?thesis by (simp add: nat_str.simps [of n] of_char_digit)
  next
    case False
    with "1.IH" have "digits_value 0 (nat_str (n div 10)) = n div 10" by simp
    with False show ?thesis
      by (simp add: nat_str.simps [of n] digits_value_append of_char_digit)
  qed
qed

lemma nat_str_inj [simp]: "nat_str m = nat_str n \<longleftrightarrow> m = n"
  by (metis digits_value_nat_str)

lemma nat_str_digits: "c \<in> set (nat_str n) \<Longrightarrow> is_digit c"
proof (induction n rule: nat_str.induct)
  case (1 n)
  have d: "k < 10 \<Longrightarrow> is_digit (char_of (48 + k))" for k :: nat
    by (simp add: is_digit_def)
  show ?case
  proof (cases "n < 10")
    case True
    with "1.prems" show ?thesis by (simp add: nat_str.simps [of n] d)
  next
    case False
    with "1.prems" have "c \<in> set (nat_str (n div 10)) \<or> c = char_of (48 + n mod 10)"
      by (auto simp: nat_str.simps [of n])
    with "1.IH" False show ?thesis by (auto intro: d)
  qed
qed

lemma nat_str_nonempty [simp]: "nat_str n \<noteq> []"
  by (subst nat_str.simps) simp

end
