(* ===== verification/Sha256.thy ===== *)
theory Sha256
  imports Prelude "HOL-Library.Word"
begin

unbundle bit_operations_syntax

text \<open>
  \<^verbatim>\<open>hashlib.sha256(...).hexdigest()\<close> of Python's standard library, which names every artifact,
  action and lock in the repository. Bytes are characters. The message is padded, cut into blocks
  of 64 bytes, and each block updates eight 32-bit words. The rest of the development uses only
  that the digest is a function of the bytes and that its text is 64 lower-case hexadecimal
  digits (\<open>sha256_hex_digest\<close>); collisions are never assumed away globally.
\<close>

type_synonym w32 = "32 word"

definition round_constants :: "w32 list" where
  "round_constants =
    [1116352408, 1899447441, 3049323471, 3921009573, 961987163, 1508970993,
     2453635748, 2870763221, 3624381080, 310598401, 607225278, 1426881987,
     1925078388, 2162078206, 2614888103, 3248222580, 3835390401, 4022224774,
     264347078, 604807628, 770255983, 1249150122, 1555081692, 1996064986,
     2554220882, 2821834349, 2952996808, 3210313671, 3336571891, 3584528711,
     113926993, 338241895, 666307205, 773529912, 1294757372, 1396182291,
     1695183700, 1986661051, 2177026350, 2456956037, 2730485921, 2820302411,
     3259730800, 3345764771, 3516065817, 3600352804, 4094571909, 275423344,
     430227734, 506948616, 659060556, 883997877, 958139571, 1322822218,
     1537002063, 1747873779, 1955562222, 2024104815, 2227730452, 2361852424,
     2428436474, 2756734187, 3204031479, 3329325298]"

definition initial_words :: "w32 list" where
  "initial_words =
    [1779033703, 3144134277, 1013904242, 2773480762,
     1359893119, 2600822924, 528734635, 1541459225]"

definition pad_message :: "string \<Rightarrow> string" where
  "pad_message bs =
     (let n = length bs; z = (119 - n mod 64) mod 64; bits = 8 * n in
        bs @ [char_of (128 :: nat)] @ replicate z (char_of (0 :: nat))
           @ map (\<lambda>i. char_of (bits div 256 ^ i mod 256)) (rev [0..<8]))"

definition byte_word :: "char \<Rightarrow> w32" where
  "byte_word c = of_nat (of_char c)"

fun words_of :: "string \<Rightarrow> w32 list" where
  "words_of (a # b # c # d # rest) =
     (push_bit 24 (byte_word a) OR push_bit 16 (byte_word b)
        OR push_bit 8 (byte_word c) OR byte_word d) # words_of rest"
| "words_of _ = []"

text \<open>The message schedule, newest word first.\<close>

definition small_sigma0 :: "w32 \<Rightarrow> w32" where
  "small_sigma0 x = word_rotr 7 x XOR word_rotr 18 x XOR drop_bit 3 x"

definition small_sigma1 :: "w32 \<Rightarrow> w32" where
  "small_sigma1 x = word_rotr 17 x XOR word_rotr 19 x XOR drop_bit 10 x"

fun expand_schedule :: "nat \<Rightarrow> w32 list \<Rightarrow> w32 list" where
  "expand_schedule 0 ws = ws"
| "expand_schedule (Suc n) ws =
     expand_schedule n
       ((small_sigma1 (ws ! 1) + ws ! 6 + small_sigma0 (ws ! 14) + ws ! 15) # ws)"

definition big_sigma0 :: "w32 \<Rightarrow> w32" where
  "big_sigma0 x = word_rotr 2 x XOR word_rotr 13 x XOR word_rotr 22 x"

definition big_sigma1 :: "w32 \<Rightarrow> w32" where
  "big_sigma1 x = word_rotr 6 x XOR word_rotr 11 x XOR word_rotr 25 x"

fun compress_round :: "w32 list \<Rightarrow> w32 \<times> w32 \<Rightarrow> w32 list" where
  "compress_round [a, b, c, d, e, f, g, h] (k, w) =
     (let t1 = h + big_sigma1 e + ((e AND f) XOR (NOT e AND g)) + k + w;
          t2 = big_sigma0 a + ((a AND b) XOR (a AND c) XOR (b AND c))
      in [t1 + t2, a, b, c, d + t1, e, f, g])"
| "compress_round st _ = st"

definition compress_block :: "w32 list \<Rightarrow> string \<Rightarrow> w32 list" where
  "compress_block st block =
     (let ws = rev (expand_schedule 48 (rev (words_of block)));
          st' = foldl compress_round st (zip round_constants ws)
      in map2 (+) st st')"

fun compress_blocks :: "nat \<Rightarrow> w32 list \<Rightarrow> string \<Rightarrow> w32 list" where
  "compress_blocks 0 st bs = st"
| "compress_blocks (Suc n) st bs = compress_blocks n (compress_block st (take 64 bs)) (drop 64 bs)"

definition sha256_words :: "string \<Rightarrow> w32 list" where
  "sha256_words bs =
     (let m = pad_message bs in compress_blocks (length m div 64) initial_words m)"

definition hex_digit :: "nat \<Rightarrow> char" where
  "hex_digit n = char_of (if n < 10 then 48 + n else 87 + n)"

definition word_hex :: "w32 \<Rightarrow> string" where
  "word_hex w = map (\<lambda>i. hex_digit (unat w div 16 ^ i mod 16)) (rev [0..<8])"

definition sha256_hex :: "string \<Rightarrow> string" where
  "sha256_hex bs = concat (map word_hex (sha256_words bs))"

section \<open>Shape of a digest\<close>

definition is_digest :: "string \<Rightarrow> bool" where
  "is_digest s \<longleftrightarrow> length s = 64 \<and> list_all is_lower_hex s"

lemma compress_round_length [simp]: "length (compress_round st kw) = length st"
  by (cases "(st, kw)" rule: compress_round.cases) (simp_all add: Let_def)

lemma foldl_compress_round_length [simp]: "length (foldl compress_round st kws) = length st"
  by (induction kws arbitrary: st) simp_all

lemma compress_block_length [simp]: "length (compress_block st b) = length st"
  by (simp add: compress_block_def Let_def)

lemma compress_blocks_length [simp]: "length (compress_blocks n st bs) = length st"
  by (induction n arbitrary: st bs) simp_all

lemma sha256_words_length [simp]: "length (sha256_words bs) = 8"
  by (simp add: sha256_words_def Let_def initial_words_def)

lemma hex_digit_lower: "n < 16 \<Longrightarrow> is_lower_hex (hex_digit n)"
  by (auto simp: hex_digit_def is_lower_hex_def is_digit_def)

lemma word_hex_shape: "length (word_hex w) = 8" "list_all is_lower_hex (word_hex w)"
  by (auto simp: word_hex_def list_all_iff intro: hex_digit_lower)

lemma sha256_hex_digest [simp]: "is_digest (sha256_hex bs)"
proof -
  have "length (sha256_hex bs) = 8 * length (sha256_words bs)"
    unfolding sha256_hex_def by (induction "sha256_words bs") (auto simp: length_concat word_hex_shape comp_def sum_list_triv)
  moreover have "list_all is_lower_hex (sha256_hex bs)"
    using word_hex_shape(2) by (auto simp: sha256_hex_def list_all_iff)
  ultimately show ?thesis by (simp add: is_digest_def)
qed

end
