(* ===== verification/Json.thy ===== *)
theory Json
  imports Sha256
begin

text \<open>
  JSON values as the code handles them after decoding, and \<^verbatim>\<open>json.dumps\<close> with sorted keys and
  compact separators, which the code hashes. An object is the list of its items in insertion order;
  decoders never produce a repeated key. A float is represented by its Python \<^verbatim>\<open>repr\<close>, which
  identifies it and is what \<^verbatim>\<open>json.dumps\<close> writes.

  Main facts: one character, a string and a list of strings can be read back from the text that
  follows them (\<open>dump_string_inj\<close>, \<open>dump_strings_inj\<close>), the base of the canonical-content
  theorem about action digests.
\<close>

datatype json =
    JNull
  | JBool bool
  | JInt int
  | JFloat string
  | JStr string
  | JArr "json list"
  | JObj "(string \<times> json) list"

type_synonym json_object = "(string \<times> json) list"

section \<open>Objects\<close>

text \<open>\<^verbatim>\<open>obj.get(key)\<close>, \<^verbatim>\<open>obj[key] = value\<close> and \<^verbatim>\<open>set(obj)\<close>.\<close>

abbreviation get_field :: "json_object \<Rightarrow> string \<Rightarrow> json option" where
  "get_field \<equiv> map_of"

fun set_field :: "json_object \<Rightarrow> string \<Rightarrow> json \<Rightarrow> json_object" where
  "set_field [] k v = [(k, v)]"
| "set_field ((k', v') # kvs) k v =
     (if k' = k then (k, v) # kvs else (k', v') # set_field kvs k v)"

definition keys :: "json_object \<Rightarrow> string list" where
  "keys kvs = map fst kvs"

lemma get_set_field [simp]: "get_field (set_field kvs k v) = (get_field kvs)(k \<mapsto> v)"
  by (induction kvs) (auto simp: fun_eq_iff)

lemma set_field_keys: "set (keys (set_field kvs k v)) = insert k (set (keys kvs))"
  by (induction kvs k v rule: set_field.induct) (auto simp: keys_def)

lemma set_field_distinct: "distinct (keys kvs) \<Longrightarrow> distinct (keys (set_field kvs k v))"
proof (induction kvs)
  case (Cons p kvs)
  then show ?case using set_field_keys [of kvs k v] by (cases p) (auto simp: keys_def)
qed (simp add: keys_def)

section \<open>Numbers and Python equality\<close>

definition signed_digits :: "string \<Rightarrow> int" where
  "signed_digits s =
     (case s of
        [] \<Rightarrow> 0
      | c # cs \<Rightarrow> if c = CHR ''-'' then - int (digits_value 0 cs)
                  else if c = CHR ''+'' then int (digits_value 0 cs)
                  else int (digits_value 0 s))"

definition float_value :: "string \<Rightarrow> rat" where
  "float_value s =
     (let neg = (case s of c # _ \<Rightarrow> c = CHR ''-'' | [] \<Rightarrow> False);
          body = (if neg then drop 1 s else s);
          mant = takeWhile (\<lambda>c. c \<noteq> CHR ''e'') body;
          ex = signed_digits (drop 1 (dropWhile (\<lambda>c. c \<noteq> CHR ''e'') body));
          ip = takeWhile (\<lambda>c. c \<noteq> CHR ''.'') mant;
          fp = drop 1 (dropWhile (\<lambda>c. c \<noteq> CHR ''.'') mant);
          m = of_nat (digits_value 0 (ip @ fp));
          p = ex - int (length fp);
          v = (if 0 \<le> p then m * 10 ^ nat p else m / 10 ^ nat (- p))
      in if neg then - v else v)"

fun num_value :: "json \<Rightarrow> rat option" where
  "num_value (JBool b) = Some (if b then 1 else 0)"
| "num_value (JInt i) = Some (of_int i)"
| "num_value (JFloat s) = Some (float_value s)"
| "num_value _ = None"

text \<open>\<^verbatim>\<open>==\<close> on decoded JSON: booleans, integers and floats compare by value, objects ignore the order
  of their items.\<close>

function (sequential) py_eq :: "json \<Rightarrow> json \<Rightarrow> bool" where
  "py_eq JNull JNull = True"
| "py_eq (JStr s) (JStr t) = (s = t)"
| "py_eq (JArr xs) (JArr ys) = list_all2 py_eq xs ys"
| "py_eq (JObj xs) (JObj ys) =
     (length xs = length ys \<and>
      list_all (\<lambda>p. case get_field ys (fst p) of None \<Rightarrow> False | Some w \<Rightarrow> py_eq (snd p) w) xs)"
| "py_eq x y = (num_value x \<noteq> None \<and> num_value x = num_value y)"
  by pat_completeness auto
termination
proof (relation "measure (\<lambda>(x, y). size x)", goal_cases)
  case 1
  then show ?case by simp
next
  case (2 xs ys z w)
  then have "size z \<le> size_list size xs"
    by (simp add: size_list_estimation')
  then show ?case by simp
next
  case (3 xs ys z w)
  have "size (snd z) \<le> size_prod (\<lambda>x. 0) size z"
    by (cases z) simp
  also have "size_prod (\<lambda>x. 0) size z \<le> size_list (size_prod (\<lambda>x. 0) size) xs"
    using 3 by (simp add: size_list_estimation')
  finally show ?case by simp
qed

section \<open>\<^verbatim>\<open>json.dumps\<close>\<close>

text \<open>\<open>ascii\<close> is \<^verbatim>\<open>ensure_ascii\<close>.\<close>

definition dump_char :: "bool \<Rightarrow> char \<Rightarrow> string" where
  "dump_char ascii c =
     (let n = (of_char c :: nat) in
        if n = 34 then [CHR 0x5C, CHR 0x22]
        else if n = 92 then [CHR 0x5C, CHR 0x5C]
        else if n = 8 then [CHR 0x5C, CHR ''b'']
        else if n = 9 then [CHR 0x5C, CHR ''t'']
        else if n = 10 then [CHR 0x5C, CHR ''n'']
        else if n = 12 then [CHR 0x5C, CHR ''f'']
        else if n = 13 then [CHR 0x5C, CHR ''r'']
        else if n < 32 \<or> ascii \<and> 126 < n
          then [CHR 0x5C, CHR ''u'', CHR ''0'', CHR ''0'', hex_digit (n div 16), hex_digit (n mod 16)]
        else [c])"

definition dump_string :: "bool \<Rightarrow> string \<Rightarrow> string" where
  "dump_string ascii s = CHR 0x22 # concat (map (dump_char ascii) s) @ [CHR 0x22]"

fun join :: "string \<Rightarrow> string list \<Rightarrow> string" where
  "join sep [] = []"
| "join sep [x] = x"
| "join sep (x # y # xs) = x @ sep @ join sep (y # xs)"

primrec dumps :: "bool \<Rightarrow> json \<Rightarrow> string" where
  "dumps ascii JNull = ''null''"
| "dumps ascii (JBool b) = (if b then ''true'' else ''false'')"
| "dumps ascii (JInt i) = int_str i"
| "dumps ascii (JFloat s) = s"
| "dumps ascii (JStr s) = dump_string ascii s"
| "dumps ascii (JArr xs) = ''['' @ join '','' (map (dumps ascii) xs) @ '']''"
| "dumps ascii (JObj kvs) =
     ''{'' @ join '','' (map (\<lambda>(k, t). dump_string ascii k @ '':'' @ t)
                          (sort_key fst (map (map_prod id (dumps ascii)) kvs))) @ ''}''"

text \<open>Without \<^verbatim>\<open>sort_keys\<close> the items keep their insertion order.\<close>

primrec dumps_in_order :: "bool \<Rightarrow> json \<Rightarrow> string" where
  "dumps_in_order ascii JNull = ''null''"
| "dumps_in_order ascii (JBool b) = (if b then ''true'' else ''false'')"
| "dumps_in_order ascii (JInt i) = int_str i"
| "dumps_in_order ascii (JFloat s) = s"
| "dumps_in_order ascii (JStr s) = dump_string ascii s"
| "dumps_in_order ascii (JArr xs) = ''['' @ join '','' (map (dumps_in_order ascii) xs) @ '']''"
| "dumps_in_order ascii (JObj kvs) =
     ''{'' @ join '','' (map (\<lambda>(k, t). dump_string ascii k @ '':'' @ t)
                          (map (map_prod id (dumps_in_order ascii)) kvs)) @ ''}''"

section \<open>Reading text back\<close>

fun unhex :: "char \<Rightarrow> nat" where
  "unhex c = (let n = of_char c in if n < 58 then n - 48 else n - 87)"

fun read_char :: "string \<Rightarrow> (char \<times> string) option" where
  "read_char (c # r) =
     (if c \<noteq> CHR 0x5C then Some (c, r)
      else (case r of
              d # r' \<Rightarrow>
                if d = CHR ''b'' then Some (char_of (8 :: nat), r')
                else if d = CHR ''t'' then Some (char_of (9 :: nat), r')
                else if d = CHR ''n'' then Some (char_of (10 :: nat), r')
                else if d = CHR ''f'' then Some (char_of (12 :: nat), r')
                else if d = CHR ''r'' then Some (char_of (13 :: nat), r')
                else if d = CHR ''u'' then Some (char_of (16 * unhex (r' ! 2) + unhex (r' ! 3)), drop 4 r')
                else Some (d, r')
            | [] \<Rightarrow> None))"
| "read_char [] = None"

lemma unhex_hex_digit: "n < 16 \<Longrightarrow> unhex (hex_digit n) = n"
  by (auto simp: hex_digit_def Let_def)

lemma of_char_eqD: "(of_char c :: nat) = n \<Longrightarrow> c = char_of n"
  by auto

lemma quote_chars: "char_of (34 :: nat) = CHR 0x22" "char_of (92 :: nat) = CHR 0x5C"
  by (simp_all add: char_of_def bit_0)

lemma read_dump_char: "read_char (dump_char a c @ r) = Some (c, r)"
proof -
  have lt: "(of_char c :: nat) < 256"
    by (rule nat_of_char_less_256)
  then have d: "of_char c div 16 < (16 :: nat)"
    by (intro less_mult_imp_div_less) simp
  have "char_of (16 * (of_char c div 16) + of_char c mod 16 :: nat) = c" by simp
  then show ?thesis using d
    by (auto simp: dump_char_def Let_def unhex_hex_digit quote_chars simp del: unhex.simps
        dest!: of_char_eqD)
qed

lemma dump_char_not_quote: "dump_char a c @ r \<noteq> CHR 0x22 # r'"
  by (auto simp: dump_char_def Let_def)

lemma dump_char_inj: "dump_char a c @ r = dump_char a d @ r' \<Longrightarrow> c = d \<and> r = r'"
  by (metis read_dump_char option.inject prod.inject)

lemma dump_chars_inj:
  "concat (map (dump_char a) s) @ CHR 0x22 # r = concat (map (dump_char a) t) @ CHR 0x22 # r'
     \<Longrightarrow> s = t \<and> r = r'"
proof (induction s arbitrary: t)
  case Nil
  then show ?case
    by (cases t) (auto dest: sym [THEN dump_char_not_quote [THEN notE]])
next
  case (Cons c s)
  then obtain d t' where t: "t = d # t'"
    by (cases t) (auto dest: dump_char_not_quote [THEN notE])
  with Cons.prems have "dump_char a c @ (concat (map (dump_char a) s) @ CHR 0x22 # r)
      = dump_char a d @ (concat (map (dump_char a) t') @ CHR 0x22 # r')"
    by simp
  from dump_char_inj [OF this] Cons.IH [of t'] t show ?case by simp
qed

lemma dump_string_inj: "dump_string a s @ r = dump_string a t @ r' \<longleftrightarrow> s = t \<and> r = r'"
proof
  assume "dump_string a s @ r = dump_string a t @ r'"
  then have "concat (map (dump_char a) s) @ CHR 0x22 # r = concat (map (dump_char a) t) @ CHR 0x22 # r'"
    by (simp add: dump_string_def)
  then show "s = t \<and> r = r'" by (rule dump_chars_inj)
qed simp

text \<open>A bracketed list of strings is determined, with the text after it.\<close>

lemma join_Cons: "join sep (x # xs) = x @ concat (map (\<lambda>y. sep @ y) xs)"
  by (induction xs arbitrary: x) simp_all

lemma join_tail_inj:
  "concat (map (\<lambda>s. CHR '','' # dump_string a s) xs) @ CHR '']'' # r
     = concat (map (\<lambda>s. CHR '','' # dump_string a s) ys) @ CHR '']'' # r' \<Longrightarrow> xs = ys \<and> r = r'"
proof (induction xs arbitrary: ys)
  case Nil
  then show ?case by (cases ys) auto
next
  case (Cons x xs)
  from Cons.prems obtain y ys' where ys: "ys = y # ys'"
    by (cases ys) auto
  with Cons.prems Cons.IH [of ys'] show ?case by (simp add: dump_string_inj)
qed

lemma dump_strings_inj:
  "dumps a (JArr (map JStr xs)) @ r = dumps a (JArr (map JStr ys)) @ r' \<longleftrightarrow> xs = ys \<and> r = r'"
proof
  assume eq: "dumps a (JArr (map JStr xs)) @ r = dumps a (JArr (map JStr ys)) @ r'"
  show "xs = ys \<and> r = r'"
  proof (cases xs)
    case Nil
    with eq show ?thesis by (cases ys) (auto simp: join_Cons dump_string_def)
  next
    case (Cons x xs')
    with eq obtain y ys' where "ys = y # ys'"
      by (cases ys) (auto simp: join_Cons dump_string_def)
    with eq Cons show ?thesis
      by (auto simp: join_Cons comp_def dump_string_inj dest: join_tail_inj)
  qed
qed simp

text \<open>A decimal number is determined when no digit follows it.\<close>

lemma nat_str_prefix_inj:
  assumes "nat_str m @ c # r = nat_str n @ d # r'" and "\<not> is_digit c" and "\<not> is_digit d"
  shows "m = n \<and> c # r = d # r'"
proof -
  have take: "takeWhile is_digit (nat_str k @ c # r) = nat_str k" if "\<not> is_digit c" for k c r
    using that nat_str_digits by (subst takeWhile_append2) auto
  with assms have "nat_str m = nat_str n" by metis
  with assms(1) show ?thesis by simp
qed

lemma int_str_prefix_inj:
  assumes "int_str m @ c # r = int_str n @ d # r'" and "\<not> is_digit c" and "\<not> is_digit d"
  shows "m = n \<and> c # r = d # r'"
proof -
  have no_minus: "nat_str i @ s \<noteq> CHR ''-'' # t" for i s t
  proof
    assume "nat_str i @ s = CHR ''-'' # t"
    then have "CHR ''-'' \<in> set (nat_str i)" by (cases "nat_str i") auto
    then have "is_digit (CHR ''-'')" by (rule nat_str_digits)
    then show False by (simp add: is_digit_def)
  qed
  consider "m < 0" "n < 0" | "0 \<le> m" "0 \<le> n"
    using assms(1) no_minus no_minus [THEN not_sym] by (fastforce simp: int_str_def split: if_splits)
  then show ?thesis
  proof cases
    case 1
    with assms(1) have "nat_str (nat (- m)) @ c # r = nat_str (nat (- n)) @ d # r'"
      by (simp add: int_str_def)
    from nat_str_prefix_inj [OF this assms(2,3)] 1 show ?thesis by auto
  next
    case 2
    with assms(1) have "nat_str (nat m) @ c # r = nat_str (nat n) @ d # r'"
      by (simp add: int_str_def)
    from nat_str_prefix_inj [OF this assms(2,3)] 2 show ?thesis by auto
  qed
qed

end
