(* ===== verification/Contracts.thy ===== *)
theory Contracts
  imports Json
begin

text \<open>
  The public contracts of \<^verbatim>\<open>src/payops/contracts/__init__.py\<close>: incidents, evidence items, root-cause
  hypotheses and reports, with the field constraints of each class as a bool-valued predicate and
  the two \<^verbatim>\<open>model_validator\<close> methods as fallible functions. A value that satisfies the predicate of
  its class is what pydantic's constructor returns.

  Main facts: a report passes \<open>validate_citations\<close> exactly when it is grounded
  (\<open>validate_citations_iff\<close>), and an incident only carries a report of its own.
\<close>

section \<open>Constrained strings\<close>

definition is_identifier :: "string \<Rightarrow> bool" where
  "is_identifier s \<longleftrightarrow>
     1 \<le> length s \<and> length s \<le> 128
     \<and> list_all (\<lambda>c. is_word_char c \<or> c = CHR ''.'' \<or> c = CHR ''-'') s"

definition is_space :: "char \<Rightarrow> bool" where
  "is_space c \<longleftrightarrow>
     (let n = (of_char c :: nat) in 9 \<le> n \<and> n \<le> 13 \<or> n = 32 \<or> n = 133 \<or> n = 160)"

definition strip :: "string \<Rightarrow> string" where
  "strip s = rev (dropWhile is_space (rev (dropWhile is_space s)))"

text \<open>A \<^verbatim>\<open>strip_whitespace\<close> string has been stripped before its length is checked.\<close>

definition is_stripped :: "nat \<Rightarrow> string \<Rightarrow> bool" where
  "is_stripped bound s \<longleftrightarrow> strip s = s \<and> 1 \<le> length s \<and> length s \<le> bound"

definition is_summary :: "string \<Rightarrow> bool" where
  "is_summary s \<longleftrightarrow> is_stripped 4000 s"

section \<open>Vocabularies\<close>

datatype source =
  KUBERNETES | PROMETHEUS | LOG | TRACE | DEPLOYMENT | PAYMENT | RUNBOOK | MEMORY

datatype terminal_state =
    ESCALATED
  | RESOLVED
  | RESOLVED_WITHOUT_ACTION
  | SECURITY_BLOCK
  | EVIDENCE_INSUFFICIENT
  | BUDGET_EXHAUSTED
  | DEPENDENCY_UNAVAILABLE
  | ACTION_FAILED
  | UNRECOVERABLE

datatype ranking_method = Deterministic | Model_fixture | Model_provider

datatype severity = Warning | Critical

text \<open>One vocabulary for report modes and operation modes, which the policy compares;
  \<^verbatim>\<open>OperationMode\<close> excludes \<^verbatim>\<open>mock\<close>.\<close>

datatype run_mode = Mock | Fixture_replay | Local_kind | Cloud_gke

definition is_operation_mode :: "run_mode \<Rightarrow> bool" where
  "is_operation_mode m \<longleftrightarrow> m \<noteq> Mock"

text \<open>The services whose state may be read; the incident routes and the investigation
  use this set (\<^verbatim>\<open>tools/kubernetes.py\<close>), wider by the ledger than the set policy allows actions on.\<close>

definition READ_SERVICES :: "string list" where
  "READ_SERVICES = [''payments-api'', ''risk-sim'', ''processor-adapter'', ''ledger-sim'', ''webhook-sim'']"

section \<open>Records\<close>

record incident_create =
  ic_title :: string
  ic_namespace :: string
  ic_service :: string
  ic_severity :: severity

record evidence_item =
  ev_id :: string
  ev_incident :: string
  ev_source :: source
  ev_observed :: instant
  ev_collected :: instant
  ev_query :: string
  ev_resource :: string
  ev_uri :: string
  ev_sha256 :: string
  ev_summary :: string

record hypothesis =
  hy_cause :: string
  hy_confidence :: rat
  hy_supports :: "string list"
  hy_refutes :: "string list"
  hy_missing :: "string list"

record incident_report =
  rp_incident :: string
  rp_evidence :: "evidence_item list"
  rp_causes :: "hypothesis list"
  rp_terminal :: terminal_state
  rp_mode :: run_mode
  rp_duration :: rat
  rp_method :: ranking_method
  rp_stop_reason :: "string option"
  rp_receipts :: "string list"
  rp_trace_id :: string

record incident =
  in_id :: string
  in_request :: incident_create
  in_created :: instant
  in_report :: "incident_report option"

section \<open>Field constraints\<close>

definition valid_incident_create :: "incident_create \<Rightarrow> bool" where
  "valid_incident_create r \<longleftrightarrow>
     is_stripped 200 (ic_title r) \<and> is_identifier (ic_namespace r) \<and> is_identifier (ic_service r)"

definition valid_evidence_item :: "evidence_item \<Rightarrow> bool" where
  "valid_evidence_item e \<longleftrightarrow>
     is_identifier (ev_id e) \<and> is_identifier (ev_incident e) \<and> is_summary (ev_query e)
     \<and> is_identifier (ev_resource e) \<and> is_summary (ev_uri e) \<and> is_digest (ev_sha256 e)
     \<and> is_summary (ev_summary e)"

definition valid_hypothesis :: "hypothesis \<Rightarrow> bool" where
  "valid_hypothesis h \<longleftrightarrow>
     is_identifier (hy_cause h) \<and> 0 \<le> hy_confidence h \<and> hy_confidence h \<le> 1
     \<and> list_all is_identifier (hy_supports h) \<and> list_all is_identifier (hy_refutes h)
     \<and> list_all is_summary (hy_missing h)"

definition valid_report_fields :: "incident_report \<Rightarrow> bool" where
  "valid_report_fields r \<longleftrightarrow>
     is_identifier (rp_incident r) \<and> list_all valid_evidence_item (rp_evidence r)
     \<and> list_all valid_hypothesis (rp_causes r) \<and> 0 \<le> rp_duration r
     \<and> (case rp_stop_reason r of None \<Rightarrow> True | Some s \<Rightarrow> is_identifier s)
     \<and> list_all is_digest (rp_receipts r) \<and> length (rp_receipts r) \<le> 20"

section \<open>Validators\<close>

definition validate_hypothesis_citations :: "string set \<Rightarrow> hypothesis \<Rightarrow> exn + unit" where
  "validate_hypothesis_citations ids h =
     (let supports = set (hy_supports h); refutes = set (hy_refutes h) in
      bindR (check (supports \<union> refutes \<subseteq> ids) (ValueError ''unresolved evidence citation'')) (\<lambda>_.
      check (supports \<inter> refutes = {})
        (ValueError ''evidence cannot support and refute the same cause'')))"

definition validate_citations :: "incident_report \<Rightarrow> exn + incident_report" where
  "validate_citations r =
     (let ids = set (map ev_id (rp_evidence r)) in
      bindR (check (no_duplicates (map ev_id (rp_evidence r)))
               (ValueError ''duplicate evidence IDs'')) (\<lambda>_.
      bindR (check (\<not> list_ex (\<lambda>e. ev_incident e \<noteq> rp_incident r) (rp_evidence r))
               (ValueError ''cross-incident evidence'')) (\<lambda>_.
      bindR (check (no_duplicates (map hy_cause (rp_causes r)))
               (ValueError ''duplicate root causes'')) (\<lambda>_.
      bindR (each (validate_hypothesis_citations ids) (rp_causes r)) (\<lambda>_.
      Inr r)))))"

definition validate_report :: "incident_report \<Rightarrow> exn + incident_report" where
  "validate_report r =
     bindR (check (valid_report_fields r) (ValueError ''field constraint'')) (\<lambda>_.
       validate_citations r)"

definition validate_report_scope :: "incident \<Rightarrow> exn + incident" where
  "validate_report_scope i =
     bindR (check (case in_report i of None \<Rightarrow> True | Some r \<Rightarrow> rp_incident r = in_id i)
              (ValueError ''report belongs to a different incident'')) (\<lambda>_. Inr i)"

text \<open>\<^verbatim>\<open>Incident.model_validate\<close>: the nested report is validated first.\<close>

definition validate_incident :: "incident \<Rightarrow> exn + incident" where
  "validate_incident i =
     bindR (check (is_identifier (in_id i) \<and> valid_incident_create (in_request i))
              (ValueError ''field constraint'')) (\<lambda>_.
     bindR (case in_report i of None \<Rightarrow> Inr () | Some r \<Rightarrow> bindR (validate_report r) (\<lambda>_. Inr ()))
       (\<lambda>_. validate_report_scope i))"

section \<open>Groundedness\<close>

text \<open>What the report class promises: distinct evidence of one incident, distinct causes, and every
  citation resolved and unambiguous.\<close>

definition grounded :: "incident_report \<Rightarrow> bool" where
  "grounded r \<longleftrightarrow>
     distinct (map ev_id (rp_evidence r))
     \<and> (\<forall>e \<in> set (rp_evidence r). ev_incident e = rp_incident r)
     \<and> distinct (map hy_cause (rp_causes r))
     \<and> (\<forall>h \<in> set (rp_causes r).
          set (hy_supports h) \<union> set (hy_refutes h) \<subseteq> ev_id ` set (rp_evidence r)
          \<and> set (hy_supports h) \<inter> set (hy_refutes h) = {})"

lemma validate_citations_iff: "validate_citations r = Inr r' \<longleftrightarrow> r' = r \<and> grounded r"
  by (auto simp: validate_citations_def validate_hypothesis_citations_def grounded_def
      list_ex_iff Let_def)

lemma validate_report_iff:
  "validate_report r = Inr r' \<longleftrightarrow> r' = r \<and> valid_report_fields r \<and> grounded r"
  by (auto simp: validate_report_def validate_citations_iff)

lemma validate_incident_iff:
  "validate_incident i = Inr i' \<longleftrightarrow>
     i' = i \<and> is_identifier (in_id i) \<and> valid_incident_create (in_request i)
     \<and> (\<forall>r. in_report i = Some r \<longrightarrow>
            valid_report_fields r \<and> grounded r \<and> rp_incident r = in_id i)"
  by (cases "in_report i")
     (auto simp: validate_incident_def validate_report_scope_def validate_report_iff)

lemma validate_incident_Inl: "validate_incident i = Inl e \<Longrightarrow> \<exists>m. e = ValueError m"
  by (auto simp: validate_incident_def validate_report_scope_def validate_report_def
      validate_citations_def bindR_Inl_iff Let_def validate_hypothesis_citations_def
      split: option.splits dest!: each_InlD)

section \<open>Artifact addresses\<close>

lemma strip_no_space:
  assumes "list_all (\<lambda>c. \<not> is_space c) s"
  shows "strip s = s"
proof -
  have "dropWhile is_space t = t" if "list_all (\<lambda>c. \<not> is_space c) t" for t
    using that by (cases t) auto
  from this [OF assms] this [of "rev s"] assms show ?thesis by (simp add: strip_def list_all_iff)
qed

lemma digest_uri_summary: "is_digest d \<Longrightarrow> is_summary (''sha256://'' @ d)"
proof -
  have "is_lower_hex c \<Longrightarrow> \<not> is_space c" for c
    by (auto simp: is_lower_hex_def is_digit_def is_space_def Let_def)
  moreover have "list_all (\<lambda>c. \<not> is_space c) ''sha256://''" by code_simp
  ultimately show "is_digest d \<Longrightarrow> ?thesis"
    unfolding is_summary_def is_stripped_def
    by (auto simp: is_digest_def list_all_iff intro!: strip_no_space)
qed

section \<open>Properties\<close>

text \<open>C23: An incident is accepted exactly when its own fields are well typed and any report it carries
  is well typed, belongs to this incident, holds distinct evidence of this incident only, and cites
  in every distinct cause only evidence of the report, never the same item for and against.\<close>

theorem incident_validation:
  "validate_incident i = Inr i' \<longleftrightarrow>
     i' = i \<and> is_identifier (in_id i) \<and> valid_incident_create (in_request i)
     \<and> pred_option (\<lambda>r. valid_report_fields r \<and> grounded r \<and> rp_incident r = in_id i) (in_report i)"
  by (auto simp: validate_incident_iff pred_option_def elim!: option.set_cases)

end
