(* ===== verification/Artifacts.thy ===== *)
theory Artifacts
  imports Contracts
begin

text \<open>
  The content-addressed evidence store of \<^verbatim>\<open>src/payops/evidence/artifacts.py\<close>.

  The store is the set of files under its root: a map from digest to bytes. Files can be missing or
  altered by anything outside the process, so the map is arbitrary. Decoding the bytes of a file is
  pydantic's \<^verbatim>\<open>JSON_OBJECT.validate_json\<close>, a field \<open>st_decode\<close> of the store. Names of files are
  digests, so no path leaves the root; symbolic links are not modelled.

  Main facts: writing never changes an existing file (\<open>store_write_mono\<close>), what \<open>store_verify\<close>
  accepts is a file whose bytes hash to the digest the item cites and whose metadata is the item's
  own (\<open>store_verify_iff\<close>), and verification is stable under later writes.
\<close>

section \<open>ISO timestamps\<close>

definition zero_pad :: "nat \<Rightarrow> nat \<Rightarrow> string" where
  "zero_pad width n = (let s = nat_str n in replicate (width - length s) (CHR ''0'') @ s)"

definition civil_date :: "int \<Rightarrow> int \<times> int \<times> int" where
  "civil_date days =
     (let z = days + 719468; era = z div 146097; doe = z - era * 146097;
          yoe = (doe - doe div 1460 + doe div 36524 - doe div 146096) div 365;
          doy = doe - (365 * yoe + yoe div 4 - yoe div 100);
          mp = (5 * doy + 2) div 153;
          d = doy - (153 * mp + 2) div 5 + 1;
          m = (if mp < 10 then mp + 3 else mp - 9);
          y = yoe + era * 400 + (if m \<le> 2 then 1 else 0)
      in (y, m, d))"

text \<open>The JSON form of an aware UTC datetime.\<close>

definition iso_utc :: "instant \<Rightarrow> string" where
  "iso_utc t =
     (let days = t div 86400000000; us = t mod 86400000000; (y, m, d) = civil_date days;
          secs = us div 1000000; frac = us mod 1000000
      in zero_pad 4 (nat y) @ ''-'' @ zero_pad 2 (nat m) @ ''-'' @ zero_pad 2 (nat d) @ ''T''
         @ zero_pad 2 (nat (secs div 3600)) @ '':'' @ zero_pad 2 (nat (secs div 60 mod 60)) @ '':''
         @ zero_pad 2 (nat (secs mod 60))
         @ (if frac = 0 then [] else CHR ''.'' # zero_pad 6 (nat frac)) @ ''Z'')"

text \<open>\<^verbatim>\<open>datetime.isoformat\<close> of an aware UTC instant.\<close>

definition isoformat :: "instant \<Rightarrow> string" where
  "isoformat t = butlast (iso_utc t) @ ''+00:00''"

fun source_name :: "source \<Rightarrow> string" where
  "source_name KUBERNETES = ''KUBERNETES''"
| "source_name PROMETHEUS = ''PROMETHEUS''"
| "source_name LOG = ''LOG''"
| "source_name TRACE = ''TRACE''"
| "source_name DEPLOYMENT = ''DEPLOYMENT''"
| "source_name PAYMENT = ''PAYMENT''"
| "source_name RUNBOOK = ''RUNBOOK''"
| "source_name MEMORY = ''MEMORY''"

text \<open>\<^verbatim>\<open>evidence.model_dump(mode="json", exclude={"artifact_uri", "artifact_sha256"})\<close>\<close>

definition evidence_json :: "evidence_item \<Rightarrow> json" where
  "evidence_json e =
     JObj [(''evidence_id'', JStr (ev_id e)), (''incident_id'', JStr (ev_incident e)),
           (''source'', JStr (source_name (ev_source e))),
           (''observed_at'', JStr (iso_utc (ev_observed e))),
           (''collected_at'', JStr (iso_utc (ev_collected e))),
           (''query'', JStr (ev_query e)), (''resource'', JStr (ev_resource e)),
           (''summary'', JStr (ev_summary e)), (''untrusted_text'', JBool True)]"

section \<open>The store\<close>

record artifact_store =
  st_files :: "string \<Rightarrow> string option"
  st_decode :: "string \<Rightarrow> exn + json_object"

definition MAX_ARTIFACT_BYTES :: nat where
  "MAX_ARTIFACT_BYTES = 1048576"

text \<open>UTF-8 of Latin-1 text.\<close>

definition utf8_char :: "char \<Rightarrow> string" where
  "utf8_char c =
     (let n = (of_char c :: nat) in
        if n < 128 then [c] else [char_of (192 + n div 64), char_of (128 + n mod 64)])"

definition utf8 :: "string \<Rightarrow> string" where
  "utf8 s = concat (map utf8_char s)"

definition artifact_bytes :: "json_object \<Rightarrow> string" where
  "artifact_bytes payload = utf8 (dumps False (JObj payload))"

definition path_for :: "string \<Rightarrow> exn + string" where
  "path_for digest =
     bindR (check (is_digest digest) (EvidenceIntegrityError ''invalid artifact digest''))
       (\<lambda>_. Inr digest)"

definition publish_once ::
  "('r artifact_store_scheme) \<Rightarrow> string \<Rightarrow> string \<Rightarrow> exn + 'r artifact_store_scheme" where
  "publish_once st path content =
     (case st_files st path of
        None \<Rightarrow> Inr (st\<lparr>st_files := (st_files st)(path \<mapsto> content)\<rparr>)
      | Some old \<Rightarrow>
          if old \<noteq> content then Inl (EvidenceIntegrityError ''existing artifact is corrupt'')
          else Inr st)"

definition store_write ::
  "('r artifact_store_scheme) \<Rightarrow> json_object \<Rightarrow> exn + (string \<times> string) \<times> 'r artifact_store_scheme"
where
  "store_write st payload =
     (let content = artifact_bytes payload in
      bindR (check (length content \<le> MAX_ARTIFACT_BYTES)
               (EvidenceIntegrityError ''artifact exceeds byte budget'')) (\<lambda>_.
      let digest = sha256_hex content in
      bindR (path_for digest) (\<lambda>path.
      bindR (publish_once st path content) (\<lambda>st'.
      Inr ((''sha256://'' @ digest, digest), st')))))"

text \<open>Reading at most \<^verbatim>\<open>MAX_ARTIFACT_BYTES + 1\<close> bytes and rejecting more than
  \<^verbatim>\<open>MAX_ARTIFACT_BYTES\<close> of them.\<close>

definition store_read :: "('r artifact_store_scheme) \<Rightarrow> string \<Rightarrow> exn + string" where
  "store_read st digest =
     bindR (path_for digest) (\<lambda>path.
     bindR (of_option (EvidenceIntegrityError ''artifact unavailable'') (st_files st path)) (\<lambda>bytes.
     let content = take (MAX_ARTIFACT_BYTES + 1) bytes in
     bindR (check (length content \<le> MAX_ARTIFACT_BYTES \<and> sha256_hex content = digest)
              (EvidenceIntegrityError ''artifact digest mismatch'')) (\<lambda>_.
     Inr content)))"

definition store_verify :: "('r artifact_store_scheme) \<Rightarrow> evidence_item \<Rightarrow> exn + json_object" where
  "store_verify st e =
     bindR (check (ev_uri e = ''sha256://'' @ ev_sha256 e)
              (EvidenceIntegrityError ''artifact URI and digest disagree'')) (\<lambda>_.
     bindR (store_read st (ev_sha256 e)) (\<lambda>content.
     bindR (st_decode st content) (\<lambda>payload.
     bindR (check (case get_field payload ''evidence'' of
                     None \<Rightarrow> False | Some m \<Rightarrow> py_eq m (evidence_json e))
              (EvidenceIntegrityError ''artifact metadata mismatch'')) (\<lambda>_.
     Inr payload))))"

section \<open>Integrity\<close>

lemma store_read_iff:
  "store_read st digest = Inr content \<longleftrightarrow>
     st_files st digest = Some content \<and> length content \<le> MAX_ARTIFACT_BYTES
     \<and> sha256_hex content = digest"
proof -
  have "is_digest digest" if "sha256_hex content = digest"
    using that sha256_hex_digest by blast
  moreover have "take (Suc MAX_ARTIFACT_BYTES) bs = bs"
    if "length (take (Suc MAX_ARTIFACT_BYTES) bs) \<le> MAX_ARTIFACT_BYTES" for bs :: string
    using that by simp
  ultimately show ?thesis
    by (auto simp: store_read_def path_for_def Let_def of_option_def min_def
        split: option.splits if_splits)
qed

lemma store_verify_iff:
  "store_verify st e = Inr payload \<longleftrightarrow>
     ev_uri e = ''sha256://'' @ ev_sha256 e
     \<and> (\<exists>content. st_files st (ev_sha256 e) = Some content
          \<and> length content \<le> MAX_ARTIFACT_BYTES \<and> sha256_hex content = ev_sha256 e
          \<and> st_decode st content = Inr payload)
     \<and> (\<exists>m. get_field payload ''evidence'' = Some m \<and> py_eq m (evidence_json e))"
  by (auto simp: store_verify_def store_read_iff split: option.splits)

lemma store_write_mono:
  assumes "store_write st payload = Inr (uri, st')"
  shows "st_files st \<subseteq>\<^sub>m st_files st'" and "st_decode st' = st_decode st"
  using assms
  by (auto simp: store_write_def Let_def publish_once_def path_for_def map_le_def
      split: option.splits if_splits)

lemma store_write_content:
  assumes "store_write st payload = Inr ((uri, digest), st')"
  shows "digest = sha256_hex (artifact_bytes payload)" and "uri = ''sha256://'' @ digest"
    and "store_read st' digest = Inr (artifact_bytes payload)"
  using assms
  by (auto simp: store_write_def Let_def publish_once_def path_for_def store_read_iff
      split: option.splits if_splits)

lemma store_verify_mono:
  assumes "store_verify st e = Inr payload" and "st_files st \<subseteq>\<^sub>m st_files st'"
    and "st_decode st' = st_decode st"
  shows "store_verify st' e = Inr payload"
  using assms by (fastforce simp: store_verify_iff map_le_def dom_def)

section \<open>Sizes\<close>

fun text_bound :: "json \<Rightarrow> nat" where
  "text_bound JNull = 4"
| "text_bound (JBool b) = 5"
| "text_bound (JInt i) = length (int_str i)"
| "text_bound (JFloat t) = length t"
| "text_bound (JStr t) = 6 * length t + 2"
| "text_bound (JArr xs) = 2 + sum_list (map (\<lambda>x. text_bound x + 1) xs)"
| "text_bound (JObj kvs) = 2 + sum_list (map (\<lambda>(k, v). 6 * length k + 4 + text_bound v) kvs)"

lemma length_dump_string: "length (dump_string a t) \<le> 6 * length t + 2"
  by (induction t) (auto simp: dump_string_def dump_char_def Let_def)

lemma length_join: "length (join '','' ts) \<le> sum_list (map (\<lambda>t. length t + 1) ts)"
  by (induction "'',''" ts rule: join.induct) auto

lemma sum_list_sort_key: "sum_list (map f (sort_key g xs)) = (sum_list (map f xs) :: nat)"
proof -
  have "sum_list (map f (insort_key g x ys)) = f x + sum_list (map f ys)" for x ys
    by (induction ys) auto
  then show ?thesis by (induction xs) auto
qed

lemma length_dumps: "length (dumps a v) \<le> text_bound v"
proof (induction v)
  case (JArr xs)
  have "sum_list (map (\<lambda>t. length t + 1) (map (dumps a) xs)) \<le> sum_list (map (\<lambda>x. text_bound x + 1) xs)"
    unfolding map_map comp_def by (rule sum_list_mono) (use JArr in auto)
  with length_join [of "map (dumps a) xs"] show ?case by simp
next
  case (JObj kvs)
  let ?items = "sort_key fst (map (map_prod id (dumps a)) kvs)"
  let ?f = "\<lambda>(k, t). dump_string a k @ '':'' @ t"
  have "sum_list (map (\<lambda>t. length t + 1) (map ?f ?items)) = sum_list (map (\<lambda>p. length (?f p) + 1) (map (map_prod id (dumps a)) kvs))"
    by (simp only: map_map comp_def sum_list_sort_key)
  also have "\<dots> \<le> sum_list (map (\<lambda>(k, v). 6 * length k + 4 + text_bound v) kvs)"
    unfolding map_map
  proof (rule sum_list_mono)
    fix p assume p: "p \<in> set kvs"
    obtain k v where kv: "p = (k, v)" by force
    with JObj p have "length (dumps a v) \<le> text_bound v" by auto
    with length_dump_string [of a k] kv
    show "((\<lambda>p. length (?f p) + 1) \<circ> map_prod id (dumps a)) p \<le> (case p of (k, v) \<Rightarrow> 6 * length k + 4 + text_bound v)"
      by simp
  qed
  finally show ?case using length_join [of "map ?f ?items"] by simp
qed (use length_dump_string in \<open>auto simp: numeral_2_eq_2\<close>)

lemma length_utf8: "length (utf8 t) \<le> 2 * length t"
  by (induction t) (auto simp: utf8_def utf8_char_def Let_def)

lemma length_artifact: "length (artifact_bytes kvs) \<le> 2 * text_bound (JObj kvs)"
  unfolding artifact_bytes_def using length_utf8 length_dumps by (meson le_trans mult_le_mono2)

lemma length_zero_pad: "length (zero_pad w n) = max w (length (nat_str n))"
  by (simp add: zero_pad_def Let_def)

text \<open>Numbers and times of bounded length; on the first day of the epoch the date is short.\<close>

lemma length_nat_str: "n < 10 ^ k \<Longrightarrow> 1 \<le> k \<Longrightarrow> length (nat_str n) \<le> k"
proof (induction k arbitrary: n)
  case (Suc k)
  show ?case
  proof (cases "n < 10")
    case True
    then show ?thesis by (simp add: nat_str.simps [of n])
  next
    case False
    with Suc.prems have "n div 10 < 10 ^ k" "1 \<le> k" by (cases k; auto simp: less_mult_imp_div_less)+
    with Suc.IH [of "n div 10"] False show ?thesis by (simp add: nat_str.simps [of n])
  qed
qed simp

lemma length_padded: "n < 10 ^ k \<Longrightarrow> 1 \<le> k \<Longrightarrow> length (zero_pad k n) = k"
  using length_nat_str [of n k] by (simp add: length_zero_pad)

lemma iso_epoch:
  assumes "t div 86400000000 = 0" "t mod 86400000000 = t"
  shows "iso_utc t = zero_pad 4 1970 @ ''-'' @ zero_pad 2 1 @ ''-'' @ zero_pad 2 1 @ ''T''
         @ zero_pad 2 (nat (t div 1000000 div 3600)) @ '':'' @ zero_pad 2 (nat (t div 1000000 div 60 mod 60)) @ '':''
         @ zero_pad 2 (nat (t div 1000000 mod 60))
         @ (if t mod 1000000 = 0 then [] else CHR ''.'' # zero_pad 6 (nat (t mod 1000000))) @ ''Z''"
proof -
  have epoch: "civil_date 0 = (1970, 1, 1)" by code_simp
  have "nat 1970 = 1970" "nat 1 = 1" by simp_all
  then show ?thesis unfolding iso_utc_def Let_def assms epoch prod.case by (simp only: append_assoc)
qed

lemma length_iso_epoch:
  assumes "0 \<le> t" "t < 86400000000"
  shows "length (iso_utc t) \<le> 27"
proof -
  have day: "t div 86400000000 = 0" "t mod 86400000000 = t" using assms by simp_all
  have "t div 1000000 < 86400" "0 \<le> t div 1000000" using assms by simp_all
  then have small: "nat (t div 1000000 div 3600) < 10 ^ 2" "nat (t div 1000000 div 60 mod 60) < 10 ^ 2"
      "nat (t div 1000000 mod 60) < 10 ^ 2" "nat (t mod 1000000) < 10 ^ 6" "(1970 :: nat) < 10 ^ 4" "(1 :: nat) < 10 ^ 2"
    by (simp_all add: nat_less_iff)
  note pads = small [THEN length_padded]
  have "length (iso_utc t) \<le> 4 + 1 + 2 + 1 + 2 + 1 + 2 + 1 + 2 + 1 + 2 + (1 + 6) + 1"
    unfolding iso_epoch [OF day] length_append
    by (simp add: pads pads(6) [unfolded One_nat_def] split: if_split del: power_numeral)
  then show ?thesis by simp
qed

section \<open>Properties\<close>

text \<open>Evidence verifies exactly when its address names its digest, a file of bounded size with
  exactly that digest is stored, the file decodes to the returned payload, and the metadata inside
  the file is the item's own.\<close>

theorem artifact_verification:
  "store_verify st e = Inr payload \<longleftrightarrow>
     ev_uri e = ''sha256://'' @ ev_sha256 e
     \<and> (\<exists>content. st_files st (ev_sha256 e) = Some content
          \<and> length content \<le> MAX_ARTIFACT_BYTES \<and> sha256_hex content = ev_sha256 e
          \<and> st_decode st content = Inr payload)
     \<and> (\<exists>m. get_field payload ''evidence'' = Some m \<and> py_eq m (evidence_json e))"
  by (rule store_verify_iff)

end
