(* ===== verification/PyText.thy ===== *)
theory PyText
  imports Contracts
begin

text \<open>
  The operations of Python's \<^verbatim>\<open>str\<close> and \<^verbatim>\<open>re\<close> that several components use, on code points below 256:
  white space, lines, the first blank, prefixes, case-insensitive literals and \<^verbatim>\<open>re.sub\<close> for a pattern
  that starts at a word boundary.

  Main facts: lines carry no line break (\<open>splitlines_no_break\<close>), and substitution leaves a text alone in
  which the pattern matches nowhere (\<open>sub_unmatched\<close>).
\<close>

section \<open>White space and lines\<close>

text \<open>\<^verbatim>\<open>\\s\<close> and \<^verbatim>\<open>str.isspace\<close>, which have four more characters than the stripping of pydantic.\<close>

definition py_space :: "char \<Rightarrow> bool" where
  "py_space c \<longleftrightarrow> is_space c \<or> 28 \<le> (of_char c :: nat) \<and> (of_char c :: nat) \<le> 31"

definition is_line_break :: "char \<Rightarrow> bool" where
  "is_line_break c \<longleftrightarrow>
     (let n = (of_char c :: nat) in 10 \<le> n \<and> n \<le> 13 \<or> 28 \<le> n \<and> n \<le> 30 \<or> n = 133)"

function splitlines_from :: "string \<Rightarrow> string \<Rightarrow> string list" where
  "splitlines_from line [] = (if line = [] then [] else [rev line])"
| "splitlines_from line (c # cs) =
     (if \<not> is_line_break c then splitlines_from (c # line) cs
      else rev line # splitlines_from []
             (case cs of
                d # ds \<Rightarrow> if (of_char c :: nat) = 13 \<and> (of_char d :: nat) = 10 then ds else cs
              | [] \<Rightarrow> []))"
  by pat_completeness auto
termination by (relation "measure (\<lambda>(line, s). length s)") (auto split: list.splits)

definition splitlines :: "string \<Rightarrow> string list" where
  "splitlines s = splitlines_from [] s"

text \<open>\<^verbatim>\<open>line.partition(" ")\<close>: the text before the first blank, whether there is one, and the rest.\<close>

definition partition_blank :: "string \<Rightarrow> string \<times> bool \<times> string" where
  "partition_blank s =
     (let before = takeWhile (\<lambda>c. c \<noteq> CHR '' '') s; rest = dropWhile (\<lambda>c. c \<noteq> CHR '' '') s in
      (before, rest \<noteq> [], drop 1 rest))"

definition is_prefix :: "string \<Rightarrow> string \<Rightarrow> bool" where
  "is_prefix p s \<longleftrightarrow> take (length p) s = p"

lemma splitlines_from_no_break:
  "list_all (\<lambda>c. \<not> is_line_break c) line \<Longrightarrow> l \<in> set (splitlines_from line s)
     \<Longrightarrow> list_all (\<lambda>c. \<not> is_line_break c) l"
  by (induction line s rule: splitlines_from.induct) (auto split: if_splits)

lemma splitlines_no_break: "l \<in> set (splitlines s) \<Longrightarrow> list_all (\<lambda>c. \<not> is_line_break c) l"
  unfolding splitlines_def by (rule splitlines_from_no_break) simp_all

section \<open>Patterns\<close>

definition lower_ascii :: "char \<Rightarrow> char" where
  "lower_ascii c =
     (let n = (of_char c :: nat) in if 65 \<le> n \<and> n \<le> 90 then char_of (n + 32) else c)"

text \<open>A literal under \<^verbatim>\<open>re.I\<close>: below 256 only ASCII letters fold onto ASCII letters.\<close>

definition starts_ci :: "string \<Rightarrow> string \<Rightarrow> bool" where
  "starts_ci literal s \<longleftrightarrow> map lower_ascii (take (length literal) s) = literal"

fun search_ci :: "(string \<Rightarrow> bool) \<Rightarrow> string \<Rightarrow> bool" where
  "search_ci p [] = p []"
| "search_ci p (c # cs) \<longleftrightarrow> p (c # cs) \<or> search_ci p cs"

text \<open>\<^verbatim>\<open>pattern.sub\<close> for a pattern that begins with \<^verbatim>\<open>\\b\<close> and a letter. \<open>f\<close> is the match at a position, as
  the number of characters it consumes after the first one and the replacement text; \<open>word\<close> says whether the character before
  is a word character. The scan resumes after the match.\<close>

function sub_from :: "(string \<Rightarrow> (nat \<times> string) option) \<Rightarrow> bool \<Rightarrow> string \<Rightarrow> string" where
  "sub_from f word [] = []"
| "sub_from f word (c # cs) =
     (case (if word then None else f (c # cs)) of
        None \<Rightarrow> c # sub_from f (is_word_char c) cs
      | Some (n, replacement) \<Rightarrow> replacement @ sub_from f (is_word_char ((c # take n cs) ! length (take n cs))) (drop n cs))"
  by pat_completeness auto
termination by (relation "measure (\<lambda>(f, word, s). length s)") auto

definition sub_all :: "(string \<Rightarrow> (nat \<times> string) option) \<Rightarrow> string \<Rightarrow> string" where
  "sub_all f s = sub_from f False s"

fun matches_nowhere :: "(string \<Rightarrow> (nat \<times> string) option) \<Rightarrow> bool \<Rightarrow> string \<Rightarrow> bool" where
  "matches_nowhere f word [] \<longleftrightarrow> True"
| "matches_nowhere f word (c # cs) \<longleftrightarrow> (word \<or> f (c # cs) = None) \<and> matches_nowhere f (is_word_char c) cs"

lemma sub_unmatched: "matches_nowhere f word s \<Longrightarrow> sub_from f word s = s"
  by (induction s arbitrary: word) auto

section \<open>Decoded objects\<close>

text \<open>A decoder keeps every item of an object; the hook that rejects a repeated key sees them all.\<close>

fun unique_fields :: "json \<Rightarrow> bool" where
  "unique_fields (JObj kvs) \<longleftrightarrow> distinct (map fst kvs) \<and> list_all (\<lambda>(k, v). unique_fields v) kvs"
| "unique_fields (JArr xs) \<longleftrightarrow> list_all unique_fields xs"
| "unique_fields _ \<longleftrightarrow> True"

text \<open>What a decoder reads back from a text written with \<^verbatim>\<open>sort_keys=True\<close>.\<close>

primrec canonical :: "json \<Rightarrow> json" where
  "canonical JNull = JNull"
| "canonical (JBool b) = JBool b"
| "canonical (JInt i) = JInt i"
| "canonical (JFloat s) = JFloat s"
| "canonical (JStr s) = JStr s"
| "canonical (JArr xs) = JArr (map canonical xs)"
| "canonical (JObj kvs) = JObj (sort_key fst (map (map_prod id canonical) kvs))"

definition canonical_object :: "json_object \<Rightarrow> json_object" where
  "canonical_object kvs = sort_key fst (map (map_prod id canonical) kvs)"

lemma canonical_JObj [simp]: "canonical (JObj kvs) = JObj (canonical_object kvs)"
  by (simp add: canonical_object_def)

declare canonical.simps(7) [simp del]

lemma distinct_keys_sort: "distinct (map fst (sort_key f xs)) \<longleftrightarrow> distinct (map fst xs)"
  by (simp add: distinct_map)

lemma get_sort: "distinct (map fst kvs) \<Longrightarrow> get_field (sort_key f kvs) = get_field kvs"
  by (rule map_of_eqI) (auto simp: distinct_keys_sort)

lemma get_map_values: "get_field (map (map_prod id f) kvs) k = map_option f (get_field kvs k)"
  by (induction kvs) auto

lemma get_canonical:
  "distinct (map fst kvs) \<Longrightarrow> get_field (canonical_object kvs) k = map_option canonical (get_field kvs k)"
  by (simp add: canonical_object_def get_sort get_map_values)

lemma py_eq_canonical: "unique_fields v \<Longrightarrow> py_eq (canonical v) v"
proof (induction v)
  case (JArr xs)
  then show ?case by (simp add: list_all2_conv_all_nth list_all_length)
next
  case (JObj kvs)
  from JObj.prems have d: "distinct (map fst kvs)" and u: "\<And>k v. (k, v) \<in> set kvs \<Longrightarrow> unique_fields v"
    by (auto simp: list_all_iff)
  have "py_eq (canonical v) v" if "(k, v) \<in> set kvs" for k v
    using JObj.IH [of "(k, v)" v] u that by auto
  with d show ?case
    by (auto simp: canonical_object_def list_all_iff)
qed simp_all

end
