(* ===== verification/Normalize.thy ===== *)
theory Normalize
  imports Artifacts PyText
begin

text \<open>
  Redaction and normalisation: \<^verbatim>\<open>src/payops/evidence/redact.py\<close> and \<^verbatim>\<open>src/payops/evidence/normalize.py\<close>.

  The three regular expressions are matchers at one position, scanned by \<open>sub_all\<close> or \<open>search_ci\<close>. The
  random identifier and the wall clock of \<^verbatim>\<open>normalize\<close> are arguments.

  Main facts: below the top level nothing survives under a sensitive key or next to a sensitive
  name (\<open>redact_same_public\<close>: hidden values do not influence the result), a normalised item is in its window and verifies against the store that holds it (\<open>normalize_Inr\<close>, \<open>normalize_verifies\<close>),
  and a selected context is a verified subsequence within its budget (\<open>select_context_Inr\<close>).
\<close>

section \<open>Secrets in text\<close>

definition REDACTED :: string where
  "REDACTED = ''[REDACTED]''"

text \<open>\<^verbatim>\<open>password|secret|token|authorization|cookie|api.?key|credential\<close>, anywhere.\<close>

definition sensitive_here :: "string \<Rightarrow> bool" where
  "sensitive_here s \<longleftrightarrow>
     list_ex (\<lambda>word. starts_ci word s)
       [''password'', ''secret'', ''token'', ''authorization'', ''cookie'', ''apikey'', ''credential'']
     \<or> starts_ci ''api'' s \<and> 3 < length s \<and> (of_char (s ! 3) :: nat) \<noteq> 10 \<and> starts_ci ''key'' (drop 4 s)"

definition SENSITIVE_KEY :: "string \<Rightarrow> bool" where
  "SENSITIVE_KEY s \<longleftrightarrow> search_ci sensitive_here s"

text \<open>\<^verbatim>\<open>\\bBearer\\s+\\S+\<close>\<close>

definition BEARER :: "string \<Rightarrow> (nat \<times> string) option" where
  "BEARER s =
     (let spaces = takeWhile py_space (drop 6 s); word = takeWhile (\<lambda>c. \<not> py_space c) (dropWhile py_space (drop 6 s)) in
      if starts_ci ''bearer'' s \<and> spaces \<noteq> [] \<and> word \<noteq> []
      then Some (5 + length spaces + length word, ''Bearer '' @ REDACTED) else None)"

definition secret_words :: "string list" where
  "secret_words = [''password'', ''secret'', ''token'', ''api_key'', ''api-key'', ''apikey'']"

text \<open>The quoted or bare value after the sign; an unclosed quote is part of a bare value.\<close>

definition value_length :: "string \<Rightarrow> nat" where
  "value_length s =
     (case s of
        [] \<Rightarrow> 0
      | c # cs \<Rightarrow>
          if c \<in> {CHR 0x22, CHR 0x27} \<and> c \<in> set cs then length (takeWhile (\<lambda>x. x \<noteq> c) cs) + 2
          else length (takeWhile (\<lambda>x. \<not> py_space x \<and> x \<noteq> CHR '','' \<and> x \<noteq> CHR '';'') s))"

definition ASSIGNMENT :: "string \<Rightarrow> (nat \<times> string) option" where
  "ASSIGNMENT s =
     (case find (\<lambda>word. starts_ci word s) secret_words of
        None \<Rightarrow> None
      | Some word \<Rightarrow>
          let n = length word; a = length (takeWhile py_space (drop n s)) in
          (case drop (n + a) s of
             [] \<Rightarrow> None
           | c # rest \<Rightarrow>
               let b = length (takeWhile py_space rest); v = value_length (drop b rest) in
               if c \<in> {CHR ''='', CHR '':''} \<and> 0 < v then Some (n + a + b + v, take n s @ CHR ''='' # REDACTED) else None))"

definition redact_text :: "string \<Rightarrow> string" where
  "redact_text text = sub_all ASSIGNMENT (sub_all BEARER text)"

section \<open>Secrets in payloads\<close>

definition sensitive_name :: "json_object \<Rightarrow> bool" where
  "sensitive_name kvs = (case get_field kvs ''name'' of Some (JStr name) \<Rightarrow> SENSITIVE_KEY name | _ \<Rightarrow> False)"

definition hides :: "bool \<Rightarrow> string \<Rightarrow> bool" where
  "hides named key \<longleftrightarrow> SENSITIVE_KEY key \<or> named \<and> key \<in> {''value'', ''valueFrom''}"

text \<open>An object with \<^verbatim>\<open>k\<close> items is walked in order; \<open>named\<close> is \<^verbatim>\<open>sensitive_name\<close>.\<close>

fun redact :: "nat \<Rightarrow> json \<Rightarrow> exn + json"
  and redact_list :: "nat \<Rightarrow> json list \<Rightarrow> exn + json list"
  and redact_items :: "nat \<Rightarrow> bool \<Rightarrow> json_object \<Rightarrow> exn + json_object"
where
  "redact depth v =
     bindR (check (depth \<le> 16) (ValueError ''telemetry nesting exceeds budget'')) (\<lambda>_.
     case v of
       JObj kvs \<Rightarrow> bindR (redact_items depth (sensitive_name kvs) kvs) (\<lambda>xs. Inr (JObj xs))
     | JArr vs \<Rightarrow> bindR (redact_list depth vs) (\<lambda>xs. Inr (JArr xs))
     | JStr s \<Rightarrow> Inr (JStr (redact_text s))
     | _ \<Rightarrow> Inr v)"
| "redact_list depth [] = Inr []"
| "redact_list depth (v # vs) =
     bindR (redact (Suc depth) v) (\<lambda>x. bindR (redact_list depth vs) (\<lambda>xs. Inr (x # xs)))"
| "redact_items depth named [] = Inr []"
| "redact_items depth named ((k, v) # kvs) =
     bindR (if hides named k then Inr (JStr REDACTED) else redact (Suc depth) v) (\<lambda>x.
     bindR (redact_items depth named kvs) (\<lambda>xs. Inr ((k, x) # xs)))"

declare redact.simps [simp del]

lemma redact_eqs [simp]:
  "redact depth (JObj kvs) = bindR (check (depth \<le> 16) (ValueError ''telemetry nesting exceeds budget'')) (\<lambda>_.
     bindR (redact_items depth (sensitive_name kvs) kvs) (\<lambda>xs. Inr (JObj xs)))"
  "redact depth (JArr vs) = bindR (check (depth \<le> 16) (ValueError ''telemetry nesting exceeds budget'')) (\<lambda>_.
     bindR (redact_list depth vs) (\<lambda>xs. Inr (JArr xs)))"
  "redact depth (JStr s) = bindR (check (depth \<le> 16) (ValueError ''telemetry nesting exceeds budget'')) (\<lambda>_.
     Inr (JStr (redact_text s)))"
  by (simp_all add: redact.simps)

section \<open>Normalisation\<close>

record observation =
  obv_source :: source
  obv_resource :: string
  obv_observed :: instant
  obv_query :: string
  obv_summary :: string
  obv_payload :: json_object

text \<open>Constructing the contract strips the two texts.\<close>

definition make_observation ::
  "source \<Rightarrow> string \<Rightarrow> instant \<Rightarrow> string \<Rightarrow> string \<Rightarrow> json_object \<Rightarrow> exn + observation" where
  "make_observation src resource observed query summary payload =
     bindR (check (is_identifier resource \<and> is_summary (strip query) \<and> is_summary (strip summary))
              (ValueError ''field constraint'')) (\<lambda>_.
     Inr \<lparr>obv_source = src, obv_resource = resource, obv_observed = observed, obv_query = strip query,
          obv_summary = strip summary, obv_payload = payload\<rparr>)"

definition validate_evidence :: "evidence_item \<Rightarrow> exn + evidence_item" where
  "validate_evidence e =
     bindR (check (valid_evidence_item e) (ValueError ''field constraint'')) (\<lambda>_. Inr e)"

definition evidence_metadata :: "string \<Rightarrow> instant \<Rightarrow> observation \<Rightarrow> string \<Rightarrow> evidence_item" where
  "evidence_metadata new_id now o1 incident_id =
     \<lparr>ev_id = new_id, ev_incident = incident_id, ev_source = obv_source o1, ev_observed = obv_observed o1,
      ev_collected = now, ev_query = strip (redact_text (obv_query o1)), ev_resource = obv_resource o1,
      ev_uri = ''pending://artifact'', ev_sha256 = replicate 64 (CHR ''0''),
      ev_summary = strip (redact_text (obv_summary o1))\<rparr>"

definition evidence_envelope :: "evidence_item \<Rightarrow> json \<Rightarrow> json_object" where
  "evidence_envelope e payload =
     [(''evidence'', evidence_json e), (''payload'', payload),
      (''transformation'', JStr ''common-secret-redaction-v1'')]"

definition normalize ::
  "string \<Rightarrow> instant \<Rightarrow> observation \<Rightarrow> string \<Rightarrow> instant \<Rightarrow> instant \<Rightarrow> ('r artifact_store_scheme)
     \<Rightarrow> exn + evidence_item \<times> 'r artifact_store_scheme" where
  "normalize new_id now o1 incident_id start stop st =
     bindR (check (start \<le> obv_observed o1 \<and> obv_observed o1 \<le> stop)
              (ValueError ''observation outside aware incident window'')) (\<lambda>_.
     bindR (validate_evidence (evidence_metadata new_id now o1 incident_id)) (\<lambda>provisional.
     bindR (redact 0 (JObj (obv_payload o1))) (\<lambda>payload.
     bindR (store_write st (evidence_envelope provisional payload)) (\<lambda>((uri, digest), st').
     bindR (validate_evidence (provisional\<lparr>ev_uri := uri, ev_sha256 := digest\<rparr>)) (\<lambda>item.
     Inr (item, st'))))))"

text \<open>\<open>size\<close> is the length of the item's JSON text.\<close>

fun select_items ::
  "(evidence_item \<Rightarrow> nat) \<Rightarrow> ('r artifact_store_scheme) \<Rightarrow> nat \<Rightarrow> nat \<Rightarrow> nat \<Rightarrow> evidence_item list \<Rightarrow> evidence_item list
     \<Rightarrow> exn + evidence_item list" where
  "select_items sz st max_characters max_items used selected [] = Inr selected"
| "select_items sz st max_characters max_items used selected (item # items) =
     bindR (store_verify st item) (\<lambda>_.
     if length selected < max_items \<and> used + sz item \<le> max_characters
     then select_items sz st max_characters max_items (used + sz item) (selected @ [item]) items
     else select_items sz st max_characters max_items used selected items)"

definition select_context ::
  "(evidence_item \<Rightarrow> nat) \<Rightarrow> evidence_item list \<Rightarrow> ('r artifact_store_scheme) \<Rightarrow> int \<Rightarrow> int \<Rightarrow> exn + evidence_item list"
where
  "select_context sz evidence st max_characters max_items =
     bindR (check (0 \<le> max_characters \<and> 0 \<le> max_items \<and> max_items \<le> 64) (ValueError ''invalid context budget'')) (\<lambda>_.
     bindR (check (card (set (map ev_incident evidence)) \<le> 1) (EvidenceIntegrityError ''mixed incident context'')) (\<lambda>_.
     bindR (check (no_duplicates (map ev_id evidence)) (EvidenceIntegrityError ''duplicate context evidence'')) (\<lambda>_.
     select_items sz st (nat max_characters) (nat max_items) 0 [] evidence)))"

section \<open>What survives\<close>

text \<open>Two payloads look the same when they differ only in what an object holds under a sensitive key, or
  under \<^verbatim>\<open>value\<close> and \<^verbatim>\<open>valueFrom\<close> beside a sensitive name.\<close>

fun same_public :: "json \<Rightarrow> json \<Rightarrow> bool"
  and same_public_list :: "json list \<Rightarrow> json list \<Rightarrow> bool"
  and same_public_items :: "bool \<Rightarrow> json_object \<Rightarrow> json_object \<Rightarrow> bool"
where
  "same_public (JObj kvs) (JObj kvs') \<longleftrightarrow>
     sensitive_name kvs = sensitive_name kvs' \<and> same_public_items (sensitive_name kvs) kvs kvs'"
| "same_public (JArr xs) (JArr ys) \<longleftrightarrow> same_public_list xs ys"
| "same_public v w \<longleftrightarrow> v = w"
| "same_public_list (x # xs) (y # ys) \<longleftrightarrow> same_public x y \<and> same_public_list xs ys"
| "same_public_list xs ys \<longleftrightarrow> xs = [] \<and> ys = []"
| "same_public_items named ((k, v) # kvs) ((k', w) # kvs') \<longleftrightarrow>
     k = k' \<and> (hides named k \<or> same_public v w) \<and> same_public_items named kvs kvs'"
| "same_public_items named xs ys \<longleftrightarrow> xs = [] \<and> ys = []"

lemma redact_same_public:
  "same_public v w \<Longrightarrow> redact depth v = redact depth w"
  "same_public_list vs ws \<Longrightarrow> redact_list depth vs = redact_list depth ws"
  "same_public_items named kvs kvs' \<Longrightarrow> redact_items depth named kvs = redact_items depth named kvs'"
  by (induction v w and vs ws and named kvs kvs' arbitrary: depth and depth and depth
        rule: same_public_same_public_list_same_public_items.induct)
     auto

section \<open>Normalised evidence\<close>

lemma normalize_Inr:
  assumes "normalize new_id now o1 incident_id start stop st = Inr (item, st')"
  obtains payload where
    "start \<le> obv_observed o1" "obv_observed o1 \<le> stop" "redact 0 (JObj (obv_payload o1)) = Inr payload"
    "store_write st (evidence_envelope (evidence_metadata new_id now o1 incident_id) payload) = Inr ((ev_uri item, ev_sha256 item), st')"
    "item = (evidence_metadata new_id now o1 incident_id)\<lparr>ev_uri := ev_uri item, ev_sha256 := ev_sha256 item\<rparr>"
    "valid_evidence_item item"
  using assms by (auto simp: normalize_def validate_evidence_def)

lemma normalize_item:
  assumes "normalize new_id now o1 incident_id start stop st = Inr (item, st')"
  shows "ev_id item = new_id" "ev_incident item = incident_id" "ev_source item = obv_source o1"
    "ev_observed item = obv_observed o1" "ev_collected item = now" "ev_resource item = obv_resource o1"
    "ev_query item = strip (redact_text (obv_query o1))" "ev_summary item = strip (redact_text (obv_summary o1))"
    "valid_evidence_item item" "start \<le> ev_observed item" "ev_observed item \<le> stop"
proof -
  from assms obtain u d where item: "item = (evidence_metadata new_id now o1 incident_id)\<lparr>ev_uri := u, ev_sha256 := d\<rparr>"
    and window: "start \<le> obv_observed o1" "obv_observed o1 \<le> stop" "valid_evidence_item item"
    by (blast elim: normalize_Inr)
  then show "ev_id item = new_id" "ev_incident item = incident_id" "ev_source item = obv_source o1"
    "ev_observed item = obv_observed o1" "ev_collected item = now" "ev_resource item = obv_resource o1"
    "ev_query item = strip (redact_text (obv_query o1))" "ev_summary item = strip (redact_text (obv_summary o1))"
    "valid_evidence_item item" "start \<le> ev_observed item" "ev_observed item \<le> stop"
    by (simp_all add: evidence_metadata_def)
qed

lemma evidence_json_metadata [simp]:
  "evidence_json (e\<lparr>ev_uri := u, ev_sha256 := d\<rparr>) = evidence_json e"
  by (simp add: evidence_json_def)

text \<open>\<open>reads_back st p\<close>: decoding the bytes \<open>p\<close> was written as gives \<open>p\<close> with sorted keys.\<close>

definition reads_back :: "('r artifact_store_scheme) \<Rightarrow> json_object \<Rightarrow> bool" where
  "reads_back st p \<longleftrightarrow> st_decode st (artifact_bytes p) = Inr (canonical_object p)"

lemma envelope_fields:
  "get_field (canonical_object (evidence_envelope e payload)) ''evidence'' = Some (canonical (evidence_json e))"
  "get_field (canonical_object (evidence_envelope e payload)) ''payload'' = Some (canonical payload)"
  by (simp_all add: evidence_envelope_def get_canonical)

lemma evidence_json_read: "py_eq (canonical (evidence_json e)) (evidence_json e)"
  by (rule py_eq_canonical) (simp add: evidence_json_def)

lemma store_write_verifies:
  assumes "store_write st (evidence_envelope e payload) = Inr ((ev_uri item, ev_sha256 item), st')"
    and "evidence_json item = evidence_json e" and "reads_back st (evidence_envelope e payload)"
  shows "store_verify st' item = Inr (canonical_object (evidence_envelope e payload))"
proof -
  note c = store_write_content [OF assms(1)]
  have "st_decode st' = st_decode st" by (rule store_write_mono [OF assms(1)])
  with assms(3) c show ?thesis
    by (auto simp: store_verify_iff store_read_iff reads_back_def envelope_fields assms(2) evidence_json_read)
qed

lemma normalize_verifies:
  assumes "normalize new_id now o1 incident_id start stop st = Inr (item, st')"
    and "redact 0 (JObj (obv_payload o1)) = Inr payload"
    and "reads_back st (evidence_envelope (evidence_metadata new_id now o1 incident_id) payload)"
  shows "store_verify st' item = Inr (canonical_object (evidence_envelope (evidence_metadata new_id now o1 incident_id) payload))"
  using assms(1)
proof (rule normalize_Inr)
  fix p
  assume "redact 0 (JObj (obv_payload o1)) = Inr p"
    and w: "store_write st (evidence_envelope (evidence_metadata new_id now o1 incident_id) p) = Inr ((ev_uri item, ev_sha256 item), st')"
    and i: "item = (evidence_metadata new_id now o1 incident_id)\<lparr>ev_uri := ev_uri item, ev_sha256 := ev_sha256 item\<rparr>"
  with assms(2) have [simp]: "p = payload" by (auto simp del: redact_eqs)
  have "evidence_json item = evidence_json (evidence_metadata new_id now o1 incident_id)"
    by (subst i) simp
  with w assms(3) show ?thesis by (intro store_write_verifies) simp_all
qed

lemma normalize_mono:
  assumes "normalize new_id now o1 incident_id start stop st = Inr (item, st')"
  shows "st_files st \<subseteq>\<^sub>m st_files st'" and "st_decode st' = st_decode st"
  using assms by (auto elim!: normalize_Inr dest: store_write_mono)

text \<open>Short texts on the first day of the epoch fit an artifact.\<close>

lemma source_name_short: "length (source_name src) \<le> 10"
  by (cases src) simp_all

lemma envelope_short:
  assumes "0 \<le> ev_observed e" "ev_observed e < 86400000000" "0 \<le> ev_collected e" "ev_collected e < 86400000000"
    and "length (ev_id e) + length (ev_incident e) + length (ev_query e) + length (ev_resource e) + length (ev_summary e) \<le> 8000"
    and "text_bound payload \<le> 400000"
  shows "length (artifact_bytes (evidence_envelope e payload)) \<le> MAX_ARTIFACT_BYTES"
proof -
  have "length (iso_utc (ev_observed e)) \<le> 27" "length (iso_utc (ev_collected e)) \<le> 27"
    using assms(1-4) length_iso_epoch by simp_all
  then have "text_bound (JObj (evidence_envelope e payload)) \<le> 500000"
    using assms(5,6) source_name_short [of "ev_source e"] by (simp add: evidence_envelope_def evidence_json_def)
  with length_artifact [of "evidence_envelope e payload"] show ?thesis by (simp add: MAX_ARTIFACT_BYTES_def)
qed

lemma store_write_fresh:
  assumes "length (artifact_bytes payload) \<le> MAX_ARTIFACT_BYTES" "st_files st (sha256_hex (artifact_bytes payload)) = None"
  shows "store_write st payload = Inr ((''sha256://'' @ sha256_hex (artifact_bytes payload), sha256_hex (artifact_bytes payload)),
      st\<lparr>st_files := (st_files st)(sha256_hex (artifact_bytes payload) \<mapsto> artifact_bytes payload)\<rparr>)"
  using assms by (simp add: store_write_def Let_def path_for_def publish_once_def)

lemma normalize_fresh:
  assumes "evidence_metadata new_id now o1 incident_id = e" "start \<le> obv_observed o1" "obv_observed o1 \<le> stop" "redact 0 (JObj (obv_payload o1)) = Inr payload"
    and "valid_evidence_item e" "length (artifact_bytes (evidence_envelope e payload)) \<le> MAX_ARTIFACT_BYTES"
    and "st_files st (sha256_hex (artifact_bytes (evidence_envelope e payload))) = None"
  shows "normalize new_id now o1 incident_id start stop st
    = Inr (e\<lparr>ev_uri := ''sha256://'' @ sha256_hex (artifact_bytes (evidence_envelope e payload)),
             ev_sha256 := sha256_hex (artifact_bytes (evidence_envelope e payload))\<rparr>,
           st\<lparr>st_files := (st_files st)(sha256_hex (artifact_bytes (evidence_envelope e payload)) \<mapsto> artifact_bytes (evidence_envelope e payload))\<rparr>)"
proof -
  have "valid_evidence_item (e\<lparr>ev_uri := ''sha256://'' @ sha256_hex x, ev_sha256 := sha256_hex x\<rparr>)" for x
    using assms(5) digest_uri_summary [of "sha256_hex x"] by (simp add: valid_evidence_item_def)
  with assms show ?thesis
    by (simp add: normalize_def validate_evidence_def store_write_fresh del: redact_eqs)
qed

section \<open>Selected context\<close>

lemma select_items_Inr:
  "select_items sz st limit most used selected items = Inr out \<Longrightarrow>
     (\<exists>more1. out = selected @ more1 \<and> set more1 \<subseteq> set items
        \<and> (used \<le> limit \<longrightarrow> used + sum_list (map sz more1) \<le> limit)
        \<and> (length selected \<le> most \<longrightarrow> length out \<le> most))
     \<and> (\<forall>item \<in> set items. \<exists>envelope. store_verify st item = Inr envelope)"
proof (induction items arbitrary: used selected)
  case (Cons item items)
  show ?case
  proof (cases "length selected < most \<and> used + sz item \<le> limit")
    case True
    with Cons.prems have "select_items sz st limit most (used + sz item) (selected @ [item]) items = Inr out"
      and v: "\<exists>envelope. store_verify st item = Inr envelope" by auto
    from Cons.IH [OF this(1)] obtain more1 where "out = selected @ item # more1" "set more1 \<subseteq> set items"
        "used + sz item \<le> limit \<longrightarrow> used + sz item + sum_list (map sz more1) \<le> limit"
        "Suc (length selected) \<le> most \<longrightarrow> length out \<le> most"
        "\<forall>item \<in> set items. \<exists>envelope. store_verify st item = Inr envelope" by auto
    with True v show ?thesis by (auto intro!: exI [of _ "item # more1"])
  next
    case False
    with Cons.prems have "select_items sz st limit most used selected items = Inr out"
      and v: "\<exists>envelope. store_verify st item = Inr envelope" by auto
    from Cons.IH [OF this(1)] v show ?thesis by auto
  qed
qed simp

lemma select_context_Inr:
  assumes "select_context sz evidence st max_characters max_items = Inr out"
  shows "set out \<subseteq> set evidence" and "int (sum_list (map sz out)) \<le> max_characters" and "int (length out) \<le> max_items"
    and "\<And>item. item \<in> set evidence \<Longrightarrow> \<exists>envelope. store_verify st item = Inr envelope"
proof -
  from assms have b: "0 \<le> max_characters" "0 \<le> max_items"
    and s: "select_items sz st (nat max_characters) (nat max_items) 0 [] evidence = Inr out"
    by (auto simp: select_context_def)
  from select_items_Inr [OF s] b
  show "set out \<subseteq> set evidence" and "int (sum_list (map sz out)) \<le> max_characters" and "int (length out) \<le> max_items"
    and "\<And>item. item \<in> set evidence \<Longrightarrow> \<exists>envelope. store_verify st item = Inr envelope"
    by auto
qed

section \<open>Properties\<close>

text \<open>C16: Redaction does not depend on what it hides. Two observations whose payloads differ only in the values
  under sensitive keys, at any depth, or in \<^verbatim>\<open>value\<close> and \<^verbatim>\<open>valueFrom\<close> beside a sensitive name, give the same
  evidence item, the same stored bytes and the same error.\<close>

theorem normalized_evidence_hides_secrets:
  assumes "same_public (JObj p) (JObj p')"
  shows "normalize new_id now (o1\<lparr>obv_payload := p\<rparr>) incident_id start stop st
       = normalize new_id now (o1\<lparr>obv_payload := p'\<rparr>) incident_id start stop st"
proof -
  have "redact 0 (JObj p) = redact 0 (JObj p')" by (rule redact_same_public(1) [OF assms])
  then show ?thesis by (simp add: normalize_def evidence_metadata_def del: redact_eqs)
qed

definition sample_secret :: "string \<Rightarrow> json_object" where
  "sample_secret s = [(''env'', JArr [JObj [(''name'', JStr ''DB_PASSWORD''), (''value'', JStr s)]])]"

theorem normalized_evidence_hides_secrets_witness:
  "normalize ''e1'' 5 \<lparr>obv_source = LOG, obv_resource = ''ledger-sim'', obv_observed = 4, obv_query = ''q'', obv_summary = ''s'',
       obv_payload = sample_secret ''a''\<rparr> ''inc-1'' 0 9 \<lparr>st_files = Map.empty, st_decode = (\<lambda>_. Inr [])\<rparr>
   = normalize ''e1'' 5 \<lparr>obv_source = LOG, obv_resource = ''ledger-sim'', obv_observed = 4, obv_query = ''q'', obv_summary = ''s'',
       obv_payload = sample_secret ''b''\<rparr> ''inc-1'' 0 9 \<lparr>st_files = Map.empty, st_decode = (\<lambda>_. Inr [])\<rparr>
   \<and> sample_secret ''a'' \<noteq> sample_secret ''b''"
proof -
  have "SENSITIVE_KEY ''DB_PASSWORD''" by code_simp
  then have "same_public (JObj (sample_secret ''a'')) (JObj (sample_secret ''b''))"
    by (simp add: sample_secret_def sensitive_name_def hides_def)
  from normalized_evidence_hides_secrets [OF this, of "''e1''" 5 "\<lparr>obv_source = LOG, obv_resource = ''ledger-sim'', obv_observed = 4,
      obv_query = ''q'', obv_summary = ''s'', obv_payload = []\<rparr>"]
  show ?thesis by (simp add: sample_secret_def)
qed

end
