(* ===== verification/Window.thy ===== *)
theory Window
  imports Normalize "HOL-Library.Product_Lexorder"
begin

text \<open>
  Two-snapshot payment arithmetic, \<^verbatim>\<open>src/payops/evidence/payment_window.py\<close>: parsing of retained
  Prometheus snapshots, coverage of the requested interval, counter deltas and the verification of a
  derived window by recomputation.

  Numbers are rationals: a float is the exact value of its \<^verbatim>\<open>repr\<close>, and differences are exact (the
  rounding of double arithmetic is not modelled). Rebuilding a \<^verbatim>\<open>PaymentWindow\<close> from its JSON is
  pydantic's work and is the field \<open>st_window\<close> of the store.

  Main facts: a complete window covers its interval with scrapes of one process epoch and every delta
  is the non-negative difference of the two counters (\<open>window_delta_Complete\<close>); request counts and
  histogram counts agree per processor and region; a window that is not complete carries no numbers;
  and a verified window is the recomputed one (\<open>verify_payment_window_iff\<close>).
\<close>

section \<open>Data\<close>

type_synonym labels = "(string \<times> string) list"
type_synonym series_key = "string \<times> labels"
type_synonym readings = "(series_key \<times> rat) list"

datatype window_status = Complete | Missing | Reset | Mixed_epoch

record measurement_interval =
  mi_incident :: string
  mi_start :: instant
  mi_end :: instant

record delta =
  de_metric :: string
  de_labels :: labels
  de_value :: rat

record payment_window =
  pw_service :: string
  pw_interval :: measurement_interval
  pw_inputs :: "evidence_item \<times> evidence_item"
  pw_status :: window_status
  pw_start :: "instant option"
  pw_end :: "instant option"
  pw_before_epoch :: "rat option"
  pw_after_epoch :: "rat option"
  pw_requests :: "delta list"
  pw_latency :: "delta list"
  pw_conflicts :: "delta list"

record parsed_snapshot =
  pa_evaluated :: rat
  pa_watermark :: "rat option"
  pa_epoch :: "rat option"
  pa_available :: bool
  pa_values :: readings

record window_store = artifact_store +
  st_window :: "json_object \<Rightarrow> exn + payment_window"

definition one_second :: int where
  "one_second = 1000000"

definition validate_interval :: "measurement_interval \<Rightarrow> exn + measurement_interval" where
  "validate_interval i =
     bindR (check (0 < mi_end i - mi_start i \<and> mi_end i - mi_start i \<le> 180 * one_second)
              (ValueError ''measurement interval must be positive and at most 180 seconds''))
       (\<lambda>_. Inr i)"

definition SERVICE_NAMES :: "string list" where
  "SERVICE_NAMES =
     [''payments-api'', ''processor-adapter'', ''risk-sim'', ''ledger-sim'', ''webhook-sim'']"

definition REQUESTS :: string where "REQUESTS = ''payment_requests_total''"
definition COUNT :: string where "COUNT = ''payment_authorization_latency_seconds_count''"
definition LATENCY_SUM :: string where "LATENCY_SUM = ''payment_authorization_latency_seconds_sum''"
definition CONFLICTS :: string where "CONFLICTS = ''payment_idempotency_conflicts_total''"
definition EPOCH :: string where "EPOCH = ''sandbox_process_start_time_seconds''"

lemmas metric_names = REQUESTS_def COUNT_def LATENCY_SUM_def CONFLICTS_def EPOCH_def

definition DERIVED_QUERY :: string where "DERIVED_QUERY = ''payment.window.v1''"

section \<open>Queries and the required series\<close>

definition quoted :: "string \<Rightarrow> string" where
  "quoted s = CHR 0x22 # s @ [CHR 0x22]"

definition validate_service :: "string \<Rightarrow> exn + string" where
  "validate_service s = bindR (check (s \<in> set SERVICE_NAMES) (ValueError ''service'')) (\<lambda>_. Inr s)"

definition snapshot_queries :: "string \<Rightarrow> exn + string \<times> string" where
  "snapshot_queries service =
     bindR (validate_service service) (\<lambda>selected.
     let scope = ''job='' @ quoted ''payops-sandbox'' @ '',service='' @ quoted selected in
     Inr (''{__name__=~'' @ quoted (join ''|'' [REQUESTS, COUNT, LATENCY_SUM, CONFLICTS, EPOCH, ''up''])
            @ '','' @ scope @ ''}'',
          ''timestamp('' @ EPOCH @ ''{'' @ scope @ ''})''))"

text \<open>The keys of \<^verbatim>\<open>_required\<close>; the label pairs of a request series are sorted by name.\<close>

definition request_keys :: "string \<Rightarrow> string \<Rightarrow> series_key list" where
  "request_keys processor region =
     [(REQUESTS, [(''payment_method'', meth), (''processor'', processor), (''region'', region),
                  (''status'', status)]).
        meth \<leftarrow> [''credit'', ''debit''], status \<leftarrow> [''accepted'', ''declined'', ''error'']]"

definition slices :: "(string \<times> string) list" where
  "slices = [(processor, region). processor \<leftarrow> [''A'', ''B''], region \<leftarrow> [''us'', ''eu'']]"

definition slice_labels :: "string \<times> string \<Rightarrow> labels" where
  "slice_labels s = [(''processor'', fst s), (''region'', snd s)]"

definition required_keys :: "series_key list" where
  "required_keys =
     (CONFLICTS, []) # concat (map (\<lambda>(p, r). request_keys p r) slices)
       @ concat (map (\<lambda>s. [(COUNT, slice_labels s), (LATENCY_SUM, slice_labels s)]) slices)"

section \<open>Source parsing\<close>

definition integrity :: "string \<Rightarrow> exn" where
  "integrity m = EvidenceIntegrityError m"

definition as_object :: "json option \<Rightarrow> exn + json_object" where
  "as_object v =
     (case v of Some (JObj kvs) \<Rightarrow> Inr kvs | _ \<Rightarrow> Inl (integrity ''expected source object''))"

fun truthy :: "json \<Rightarrow> bool" where
  "truthy JNull = False"
| "truthy (JBool b) = b"
| "truthy (JInt i) = (i \<noteq> 0)"
| "truthy (JFloat s) = (float_value s \<noteq> 0)"
| "truthy (JStr s) = (s \<noteq> [])"
| "truthy (JArr xs) = (xs \<noteq> [])"
| "truthy (JObj kvs) = (kvs \<noteq> [])"

text \<open>A number of this size or more overflows a double: a literal is read as infinity, and an integer cannot
  be converted.\<close>

definition float_overflow :: int where
  "float_overflow = 2 ^ 1024 - 2 ^ 970"

definition finite_value :: "json option \<Rightarrow> exn + rat" where
  "finite_value v =
     (case v of
        Some (JInt i) \<Rightarrow>
          if float_overflow \<le> abs i then Inl (integrity ''numeric value exceeds finite range'')
          else if i < 0 then Inl (integrity ''expected finite nonnegative value'')
          else Inr (of_int i)
      | Some (JFloat s) \<Rightarrow>
          if of_int float_overflow \<le> abs (float_value s) \<or> float_value s < 0
          then Inl (integrity ''expected finite nonnegative value'')
          else Inr (float_value s)
      | _ \<Rightarrow> Inl (integrity ''expected numeric timestamp''))"

text \<open>\<^verbatim>\<open>float(text)\<close> for the decimal literals Python accepts, as an exact value; the one that overflows is
  rejected by \<^verbatim>\<open>_finite\<close> where the value is used. The words for infinities and NaN are rejected by \<^verbatim>\<open>_finite\<close>
  with the same exception type, so they are not distinguished here.\<close>

definition digit_group :: "string \<Rightarrow> bool" where
  "digit_group s \<longleftrightarrow>
     s \<noteq> [] \<and> is_digit (hd s) \<and> is_digit (last s)
     \<and> list_all (\<lambda>c. is_digit c \<or> c = CHR ''_'') s
     \<and> list_all (\<lambda>(a, b). \<not> (a = CHR ''_'' \<and> b = CHR ''_'')) (zip s (tl s))"

definition unsign :: "string \<Rightarrow> string" where
  "unsign s = (case s of c # cs \<Rightarrow> (if c = CHR ''-'' \<or> c = CHR ''+'' then cs else s) | [] \<Rightarrow> [])"

definition is_decimal :: "string \<Rightarrow> bool" where
  "is_decimal s \<longleftrightarrow>
     (let body = unsign s; mant = takeWhile (\<lambda>c. c \<noteq> CHR ''e'' \<and> c \<noteq> CHR ''E'') body;
          ex = dropWhile (\<lambda>c. c \<noteq> CHR ''e'' \<and> c \<noteq> CHR ''E'') body;
          ip = takeWhile (\<lambda>c. c \<noteq> CHR ''.'') mant; fp = dropWhile (\<lambda>c. c \<noteq> CHR ''.'') mant
      in (ip = [] \<or> digit_group ip) \<and> (drop 1 fp = [] \<or> digit_group (drop 1 fp))
         \<and> (ip \<noteq> [] \<or> drop 1 fp \<noteq> []) \<and> (ex = [] \<or> digit_group (unsign (drop 1 ex))))"

definition plain_literal :: "string \<Rightarrow> string" where
  "plain_literal s =
     map (\<lambda>c. if c = CHR ''E'' then CHR ''e'' else c)
       (filter (\<lambda>c. c \<noteq> CHR ''_'') (if s \<noteq> [] \<and> hd s = CHR ''+'' then tl s else s))"

definition parse_float :: "string \<Rightarrow> rat option" where
  "parse_float text =
     (let s = rev (dropWhile py_space (rev (dropWhile py_space text)))
      in if is_decimal s then Some (float_value (plain_literal s)) else None)"

definition sample_value :: "json_object \<Rightarrow> rat \<Rightarrow> exn + rat" where
  "sample_value row evaluated_at =
     (case get_field row ''value'' of
        Some (JArr [stamp, JStr text]) \<Rightarrow>
          bindR (finite_value (Some stamp)) (\<lambda>t.
          bindR (check (abs (t - evaluated_at) \<le> 1 / 1000)
                   (integrity ''sample timestamp disagrees with pinned evaluation'')) (\<lambda>_.
          bindR (of_option (integrity ''invalid counter value'') (parse_float text)) (\<lambda>v.
          if of_int float_overflow \<le> abs v \<or> v < 0
          then Inl (integrity ''expected finite nonnegative value'') else Inr v)))
      | _ \<Rightarrow> Inl (integrity ''expected Prometheus timestamp/string pair''))"

definition vector_rows :: "json option \<Rightarrow> exn + json_object list" where
  "vector_rows value =
     bindR (as_object value) (\<lambda>response.
     bindR (check (get_field response ''status'' = Some (JStr ''success'')
                   \<and> (case get_field response ''warnings'' of None \<Rightarrow> True | Some w \<Rightarrow> \<not> truthy w))
              (integrity ''Prometheus query failed or warned'')) (\<lambda>_.
     bindR (as_object (get_field response ''data'')) (\<lambda>data.
     case (get_field data ''resultType'', get_field data ''result'') of
       (Some (JStr ty), Some (JArr rows)) \<Rightarrow>
         bindR (check (ty = ''vector'' \<and> length rows \<le> 128)
                  (integrity ''bounded instant vector required'')) (\<lambda>_.
         mapR (\<lambda>row. as_object (Some row)) rows)
     | _ \<Rightarrow> Inl (integrity ''bounded instant vector required''))))"

definition row_labels :: "json_object \<Rightarrow> string \<Rightarrow> exn + json_object" where
  "row_labels row service =
     bindR (as_object (get_field row ''metric'')) (\<lambda>labels.
     bindR (check (get_field labels ''job'' = Some (JStr ''payops-sandbox'')
                   \<and> get_field labels ''service'' = Some (JStr service)
                   \<and> get_field labels ''instance''
                       = Some (JStr (service @ ''.payops-sandbox.svc.cluster.local:8080'')))
              (integrity ''metric target is outside snapshot scope'')) (\<lambda>_.
     bindR (check (list_all (\<lambda>(k, v). case v of JStr _ \<Rightarrow> True | _ \<Rightarrow> False) labels)
              (integrity ''metric labels must be strings'')) (\<lambda>_.
     Inr labels)))"

definition label_text :: "json \<Rightarrow> string" where
  "label_text v = (case v of JStr s \<Rightarrow> s | _ \<Rightarrow> [])"

definition series_of :: "json_object \<Rightarrow> series_key" where
  "series_of labels =
     (case get_field labels ''__name__'' of Some v \<Rightarrow> label_text v | None \<Rightarrow> ''None'',
      sort (map (\<lambda>(k, v). (k, label_text v))
             (filter (\<lambda>(k, v). k \<notin> set [''__name__'', ''job'', ''service'', ''instance'']) labels)))"

definition allowed_series :: "series_key list" where
  "allowed_series = (EPOCH, []) # (''up'', []) # required_keys"

fun collect_series :: "string \<Rightarrow> rat \<Rightarrow> readings \<Rightarrow> json_object list \<Rightarrow> exn + readings" where
  "collect_series service now_at values [] = Inr values"
| "collect_series service now_at values (row # rows) =
     bindR (row_labels row service) (\<lambda>labels.
     bindR (check (series_of labels \<in> set allowed_series
                   \<and> series_of labels \<notin> set (map fst values))
              (integrity ''unknown or duplicated metric series'')) (\<lambda>_.
     bindR (sample_value row now_at) (\<lambda>v.
     collect_series service now_at (values @ [(series_of labels, v)]) rows)))"

definition metric_values :: "json_object \<Rightarrow> string \<Rightarrow> rat \<Rightarrow> exn + readings" where
  "metric_values raw service now_at =
     bindR (vector_rows (get_field raw ''metrics'')) (\<lambda>rows. collect_series service now_at [] rows)"

definition scrape_watermark :: "json_object \<Rightarrow> string \<Rightarrow> rat \<Rightarrow> exn + rat option" where
  "scrape_watermark raw service now_at =
     bindR (vector_rows (get_field raw ''watermark'')) (\<lambda>rows.
     case rows of
       [] \<Rightarrow> Inr None
     | [row] \<Rightarrow>
         bindR (row_labels row service) (\<lambda>labels.
         bindR (check (set (keys labels) = {''job'', ''service'', ''instance''})
                  (integrity ''unexpected watermark labels'')) (\<lambda>_.
         bindR (sample_value row now_at) (\<lambda>mark.
         bindR (check (mark \<le> now_at) (integrity ''future scrape watermark'')) (\<lambda>_.
         Inr (Some mark)))))
     | _ \<Rightarrow> Inl (integrity ''ambiguous scrape watermark''))"

definition parse_payload :: "json_object \<Rightarrow> string \<Rightarrow> exn + parsed_snapshot" where
  "parse_payload payload service =
     bindR (check (set (keys payload)
                     = {''evaluated_at'', ''query'', ''watermark_query'', ''metrics'', ''watermark''})
              (integrity ''unexpected raw snapshot payload fields'')) (\<lambda>_.
     bindR (snapshot_queries service) (\<lambda>(query, watermark_query).
     bindR (check (get_field payload ''query'' = Some (JStr query)
                   \<and> get_field payload ''watermark_query'' = Some (JStr watermark_query))
              (integrity ''snapshot query provenance disagrees'')) (\<lambda>_.
     bindR (finite_value (get_field payload ''evaluated_at'')) (\<lambda>now_at.
     bindR (metric_values payload service now_at) (\<lambda>values.
     bindR (scrape_watermark payload service now_at) (\<lambda>mark.
     let epoch = map_of values (EPOCH, []);
         available = (map_of values (''up'', []) = Some 1);
         rest = filter (\<lambda>(k, v). k \<noteq> (EPOCH, []) \<and> k \<noteq> (''up'', [])) values
     in bindR (check (case (epoch, mark) of (Some e, Some m) \<Rightarrow> e \<le> m | _ \<Rightarrow> True)
                 (integrity ''process epoch is after its scrape'')) (\<lambda>_.
        Inr \<lparr>pa_evaluated = now_at, pa_watermark = mark, pa_epoch = epoch, pa_available = available,
             pa_values = sort_key fst rest\<rparr>)))))))"

definition timestamp :: "instant \<Rightarrow> rat" where
  "timestamp t = of_int t / 1000000"

definition parse_snapshot :: "evidence_item \<Rightarrow> json_object \<Rightarrow> string \<Rightarrow> exn + parsed_snapshot" where
  "parse_snapshot item payload service =
     bindR (parse_payload payload service) (\<lambda>parsed.
     bindR (snapshot_queries service) (\<lambda>(query, _).
     bindR (check (ev_query item = query) (integrity ''snapshot query provenance disagrees'')) (\<lambda>_.
     bindR (check (pa_evaluated parsed \<le> timestamp (ev_collected item)
                   \<and> ev_observed item \<le> ev_collected item)
              (integrity ''snapshot timestamp is after collection'')) (\<lambda>_.
     let observed = (case pa_watermark parsed of Some m \<Rightarrow> m | None \<Rightarrow> pa_evaluated parsed) in
     bindR (check (abs (timestamp (ev_observed item) - observed) \<le> 1 / 1000)
              (integrity ''observation metadata disagrees with source time'')) (\<lambda>_.
     Inr parsed)))))"

section \<open>Arithmetic\<close>

definition coverage :: "parsed_snapshot \<Rightarrow> parsed_snapshot \<Rightarrow> measurement_interval \<Rightarrow> window_status" where
  "coverage initial final interval =
     (let start = timestamp (mi_start interval); stop = timestamp (mi_end interval) in
      if \<not> pa_available initial \<or> \<not> pa_available final then Missing
      else case (pa_epoch initial, pa_epoch final, pa_watermark initial, pa_watermark final) of
        (Some e1, Some e2, Some w1, Some w2) \<Rightarrow>
          if e1 \<noteq> e2 then Mixed_epoch
          else if \<not> (start - 15 \<le> w1 \<and> w1 \<le> pa_evaluated initial \<and> pa_evaluated initial \<le> start)
               \<or> \<not> (stop \<le> w2 \<and> w2 \<le> pa_evaluated final \<and> pa_evaluated final \<le> stop + 30)
          then Missing
          else if set (map fst (pa_values initial)) \<noteq> set required_keys
               \<or> set (map fst (pa_values final)) \<noteq> set required_keys
          then Missing
          else if list_ex (\<lambda>(k, v). case map_of (pa_values final) k of
                                       Some u \<Rightarrow> u < v | None \<Rightarrow> False) (pa_values initial)
          then Reset else Complete
      | _ \<Rightarrow> Missing)"

definition lookup_series :: "readings \<Rightarrow> series_key \<Rightarrow> exn + rat" where
  "lookup_series d k = of_option (KeyError (fst k)) (map_of d k)"

definition in_slice :: "string \<times> string \<Rightarrow> labels \<Rightarrow> bool" where
  "in_slice s dims \<longleftrightarrow>
     map_of dims ''processor'' = Some (fst s) \<and> map_of dims ''region'' = Some (snd s)"

definition slice_requests :: "readings \<Rightarrow> string \<times> string \<Rightarrow> rat" where
  "slice_requests d s =
     sum_list (map snd (filter (\<lambda>((name, dims), v). name = REQUESTS \<and> in_slice s dims) d))"

fun consistent_slices :: "readings \<Rightarrow> (string \<times> string) list \<Rightarrow> exn + bool" where
  "consistent_slices d [] = Inr True"
| "consistent_slices d (s # rest) =
     bindR (lookup_series d (COUNT, slice_labels s)) (\<lambda>count.
     bindR (lookup_series d (LATENCY_SUM, slice_labels s)) (\<lambda>duration.
     if count \<noteq> slice_requests d s \<or> count = 0 \<and> duration \<noteq> 0 then Inr False
     else consistent_slices d rest))"

definition consistent_window :: "readings \<Rightarrow> exn + bool" where
  "consistent_window d = consistent_slices d slices"

text \<open>\<^verbatim>\<open>datetime.fromtimestamp\<close> rounds half to even microseconds.\<close>

definition round_half_even :: "rat \<Rightarrow> int" where
  "round_half_even q =
     (let f = \<lfloor>q\<rfloor>; d = q - of_int f in
      if d < 1 / 2 then f else if 1 / 2 < d then f + 1 else if even f then f else f + 1)"

definition date_of :: "rat option \<Rightarrow> instant option" where
  "date_of v = map_option (\<lambda>q. round_half_even (q * 1000000)) v"

definition points :: "readings \<Rightarrow> delta list" where
  "points d = map (\<lambda>((name, ls), v). \<lparr>de_metric = name, de_labels = ls, de_value = v\<rparr>) (sort_key fst d)"

fun series_delta :: "readings \<Rightarrow> readings \<Rightarrow> exn + readings" where
  "series_delta earlier [] = Inr []"
| "series_delta earlier ((k, v) # rest) =
     bindR (lookup_series earlier k) (\<lambda>u.
     bindR (series_delta earlier rest) (\<lambda>d. Inr ((k, v - u) # d)))"

definition window_delta ::
  "parsed_snapshot \<Rightarrow> parsed_snapshot \<Rightarrow> measurement_interval \<Rightarrow> exn + window_status \<times> readings" where
  "window_delta initial final interval =
     (let status = coverage initial final interval in
      if status \<noteq> Complete then Inr (status, [])
      else bindR (series_delta (pa_values initial) (pa_values final)) (\<lambda>d.
           bindR (consistent_window d) (\<lambda>ok.
           Inr (if ok then (Complete, d) else (Missing, [])))))"

definition build_window ::
  "string \<Rightarrow> measurement_interval \<Rightarrow> evidence_item \<times> evidence_item \<Rightarrow> parsed_snapshot \<Rightarrow> parsed_snapshot
     \<Rightarrow> window_status \<times> readings \<Rightarrow> payment_window" where
  "build_window service interval inputs initial final sd =
     \<lparr>pw_service = service, pw_interval = interval, pw_inputs = inputs, pw_status = fst sd,
      pw_start = date_of (pa_watermark initial), pw_end = date_of (pa_watermark final),
      pw_before_epoch = pa_epoch initial, pw_after_epoch = pa_epoch final,
      pw_requests = filter (\<lambda>p. de_metric p = REQUESTS) (points (snd sd)),
      pw_latency = filter (\<lambda>p. de_metric p \<in> {COUNT, LATENCY_SUM}) (points (snd sd)),
      pw_conflicts = filter (\<lambda>p. de_metric p = CONFLICTS) (points (snd sd))\<rparr>"

definition compute_window ::
  "('r artifact_store_scheme) \<Rightarrow> evidence_item \<Rightarrow> evidence_item \<Rightarrow> measurement_interval
     \<Rightarrow> exn + payment_window" where
  "compute_window st before after interval =
     bindR (store_verify st before) (\<lambda>env1.
     bindR (as_object (get_field env1 ''payload'')) (\<lambda>first_payload.
     bindR (store_verify st after) (\<lambda>env2.
     bindR (as_object (get_field env2 ''payload'')) (\<lambda>last_payload.
     bindR (check (\<not> (ev_id before = ev_id after \<or> ev_incident before \<noteq> mi_incident interval
                       \<or> ev_incident after \<noteq> mi_incident interval
                       \<or> ev_resource before \<noteq> ev_resource after
                       \<or> ev_source before \<noteq> PROMETHEUS \<or> ev_source after \<noteq> PROMETHEUS))
              (integrity ''raw snapshot lineage crosses ownership or source scope'')) (\<lambda>_.
     bindR (validate_service (ev_resource before)) (\<lambda>service.
     bindR (parse_snapshot before first_payload service) (\<lambda>initial.
     bindR (parse_snapshot after last_payload service) (\<lambda>final.
     bindR (window_delta initial final interval) (\<lambda>sd.
     Inr (build_window service interval (before, after) initial final sd))))))))))"

definition verify_payment_window ::
  "('r window_store_scheme) \<Rightarrow> evidence_item \<Rightarrow> exn + payment_window" where
  "verify_payment_window st item =
     bindR (store_verify st item) (\<lambda>env.
     bindR (as_object (get_field env ''payload'')) (\<lambda>raw.
     bindR (st_window st raw) (\<lambda>window.
     bindR (compute_window st (fst (pw_inputs window)) (snd (pw_inputs window)) (pw_interval window))
       (\<lambda>expected.
     let observed = (case pw_end expected of Some t \<Rightarrow> t
                     | None \<Rightarrow> ev_observed (snd (pw_inputs expected))) in
     bindR (check (\<not> (ev_source item \<noteq> PAYMENT \<or> ev_query item \<noteq> DERIVED_QUERY
                       \<or> ev_resource item \<noteq> pw_service window
                       \<or> ev_incident item \<noteq> mi_incident (pw_interval window)
                       \<or> ev_observed item \<noteq> observed \<or> ev_collected item < ev_observed item
                       \<or> window \<noteq> expected))
              (integrity ''derived window disagrees with verified raw lineage'')) (\<lambda>_.
     Inr expected)))))"

section \<open>Publishing\<close>

text \<open>\<open>dump\<close> is pydantic's JSON of a window. \<^verbatim>\<open>window.window_end or after.observed_at\<close> is the observation time.\<close>

fun status_text :: "window_status \<Rightarrow> string" where
  "status_text Complete = ''complete''"
| "status_text Missing = ''missing''"
| "status_text Reset = ''reset''"
| "status_text Mixed_epoch = ''mixed_epoch''"

definition window_observed :: "payment_window \<Rightarrow> evidence_item \<Rightarrow> instant" where
  "window_observed w after = (case pw_end w of Some t \<Rightarrow> t | None \<Rightarrow> ev_observed after)"

definition derive_payment_window ::
  "(payment_window \<Rightarrow> json_object) \<Rightarrow> string \<Rightarrow> instant \<Rightarrow> evidence_item \<Rightarrow> evidence_item \<Rightarrow> measurement_interval
     \<Rightarrow> ('r artifact_store_scheme) \<Rightarrow> exn + evidence_item \<times> 'r artifact_store_scheme" where
  "derive_payment_window dump new_id now before after interval st =
     bindR (compute_window st before after interval) (\<lambda>w.
     bindR (make_observation PAYMENT (pw_service w) (window_observed w after) DERIVED_QUERY
              (''Payment counter window: '' @ status_text (pw_status w)) (dump w)) (\<lambda>o1.
     normalize new_id now o1 (mi_incident interval) (min (ev_observed before) (mi_start interval))
       (max (ev_collected after) (mi_end interval)) st))"

definition snapshot_observation :: "instant \<Rightarrow> string \<Rightarrow> json_object \<Rightarrow> exn + observation" where
  "snapshot_observation now service payload =
     bindR (parse_payload payload service) (\<lambda>parsed.
     bindR (check (pa_evaluated parsed \<le> timestamp now) (integrity ''snapshot timestamp is after collection'')) (\<lambda>_.
     bindR (snapshot_queries service) (\<lambda>(query, _).
     make_observation PROMETHEUS service
       (round_half_even ((case pa_watermark parsed of Some m \<Rightarrow> m | None \<Rightarrow> pa_evaluated parsed) * 1000000)) query
       (''Payment snapshot for '' @ service @ ''; target available: '' @ (if pa_available parsed then ''True'' else ''False''))
       payload)))"

section \<open>What a window means\<close>

lemma series_delta_Inr:
  "series_delta earlier xs = Inr d \<longleftrightarrow>
     list_all (\<lambda>(k, v). map_of earlier k \<noteq> None) xs
     \<and> d = map (\<lambda>(k, v). (k, v - the (map_of earlier k))) xs"
  by (induction xs arbitrary: d) (auto simp: lookup_series_def)

lemma map_of_delta:
  "map_of (map (\<lambda>(k, v). (k, f k v)) xs) k = map_option (f k) (map_of xs k)"
  by (induction xs) auto

lemma consistent_slices_True:
  "consistent_slices d ss = Inr True \<longleftrightarrow>
     (\<forall>s \<in> set ss. map_of d (COUNT, slice_labels s) = Some (slice_requests d s)
        \<and> (\<exists>t. map_of d (LATENCY_SUM, slice_labels s) = Some t
               \<and> (slice_requests d s = 0 \<longrightarrow> t = 0)))"
  by (induction ss) (auto simp: lookup_series_def split: if_splits)

lemma coverage_Complete:
  assumes "coverage initial final iv = Complete"
  obtains e w1 w2 where
    "pa_available initial" "pa_available final"
    "pa_epoch initial = Some e" "pa_epoch final = Some e"
    "pa_watermark initial = Some w1" "pa_watermark final = Some w2"
    "timestamp (mi_start iv) - 15 \<le> w1" "w1 \<le> timestamp (mi_start iv)"
    "timestamp (mi_end iv) \<le> w2" "w2 \<le> timestamp (mi_end iv) + 30"
    "fst ` set (pa_values initial) = set required_keys"
    "fst ` set (pa_values final) = set required_keys"
    "\<And>k u v. map_of (pa_values initial) k = Some u \<Longrightarrow> map_of (pa_values final) k = Some v \<Longrightarrow> u \<le> v"
proof -
  from assms obtain e w1 w2 where *:
    "pa_available initial" "pa_available final"
    "pa_epoch initial = Some e" "pa_epoch final = Some e"
    "pa_watermark initial = Some w1" "pa_watermark final = Some w2"
    "timestamp (mi_start iv) - 15 \<le> w1" "w1 \<le> pa_evaluated initial"
    "pa_evaluated initial \<le> timestamp (mi_start iv)"
    "timestamp (mi_end iv) \<le> w2" "w2 \<le> pa_evaluated final"
    "pa_evaluated final \<le> timestamp (mi_end iv) + 30"
    "fst ` set (pa_values initial) = set required_keys"
    "fst ` set (pa_values final) = set required_keys"
    and no_reset: "\<not> list_ex (\<lambda>(k, v). case map_of (pa_values final) k of
                       Some u \<Rightarrow> u < v | None \<Rightarrow> False) (pa_values initial)"
    by (auto simp: coverage_def Let_def split: if_splits option.splits)
  have "u \<le> v" if "map_of (pa_values initial) k = Some u" "map_of (pa_values final) k = Some v"
    for k u v
    using no_reset that by (fastforce simp: list_ex_iff dest: map_of_SomeD)
  moreover from * have "w1 \<le> timestamp (mi_start iv)" "w2 \<le> timestamp (mi_end iv) + 30"
    by linarith+
  ultimately show thesis using * by (intro that [of e w1 w2]) auto
qed

text \<open>\<open>counts d s\<close>: the number of requests a slice saw is its histogram count, and no time passed if
  there was none.\<close>

definition slice_agrees :: "readings \<Rightarrow> string \<times> string \<Rightarrow> bool" where
  "slice_agrees d s \<longleftrightarrow>
     map_of d (COUNT, slice_labels s) = Some (slice_requests d s)
     \<and> (\<exists>t. map_of d (LATENCY_SUM, slice_labels s) = Some t \<and> (slice_requests d s = 0 \<longrightarrow> t = 0))"

definition counter_difference :: "parsed_snapshot \<Rightarrow> parsed_snapshot \<Rightarrow> readings \<Rightarrow> series_key \<Rightarrow> bool" where
  "counter_difference initial final d k \<longleftrightarrow>
     (\<exists>u v. map_of (pa_values initial) k = Some u \<and> map_of (pa_values final) k = Some v
            \<and> u \<le> v \<and> map_of d k = Some (v - u))"

lemma window_delta_Complete:
  assumes "window_delta initial final iv = Inr (Complete, d)"
  shows "coverage initial final iv = Complete" and "fst ` set d = set required_keys"
    and "list_all (counter_difference initial final d) required_keys"
    and "list_all (slice_agrees d) slices"
proof -
  from assms show cov: "coverage initial final iv = Complete"
    by (auto simp: window_delta_def Let_def split: if_splits)
  with assms have d: "series_delta (pa_values initial) (pa_values final) = Inr d"
    and ok: "consistent_window d = Inr True"
    by (auto simp: window_delta_def Let_def split: if_splits)
  from cov obtain keys:
      "fst ` set (pa_values initial) = set required_keys"
      "fst ` set (pa_values final) = set required_keys"
    and mono: "\<And>k u v. map_of (pa_values initial) k = Some u \<Longrightarrow>
                 map_of (pa_values final) k = Some v \<Longrightarrow> u \<le> v"
    by (rule coverage_Complete) blast
  have d_eq: "d = map (\<lambda>(k, v). (k, v - the (map_of (pa_values initial) k))) (pa_values final)"
    using d by (simp add: series_delta_Inr)
  then show "fst ` set d = set required_keys"
    using keys(2) by (force simp: image_iff)
  have "counter_difference initial final d k" if "k \<in> set required_keys" for k
  proof -
    from that keys obtain u v where "map_of (pa_values initial) k = Some u"
      "map_of (pa_values final) k = Some v"
      by (metis map_of_eq_None_iff not_None_eq)
    with mono show ?thesis
      by (simp add: counter_difference_def d_eq map_of_delta)
  qed
  then show "list_all (counter_difference initial final d) required_keys"
    by (simp add: list_all_iff)
  show "list_all (slice_agrees d) slices"
    using ok by (simp add: list_all_iff slice_agrees_def consistent_window_def consistent_slices_True)
qed

lemma window_delta_incomplete:
  "window_delta initial final iv = Inr (status, d) \<Longrightarrow> status \<noteq> Complete \<Longrightarrow> d = []"
  by (auto simp: window_delta_def Let_def split: if_splits)

lemma compute_window_Inr:
  assumes "compute_window st before after iv = Inr w"
  obtains service p1 p2 initial final sd where
    "ev_incident before = mi_incident iv" "ev_incident after = mi_incident iv"
    "ev_resource before = service" "ev_resource after = service" "service \<in> set SERVICE_NAMES"
    "parse_snapshot before p1 service = Inr initial" "parse_snapshot after p2 service = Inr final"
    "window_delta initial final iv = Inr sd"
    "build_window service iv (before, after) initial final sd = w"
  using assms unfolding compute_window_def validate_service_def bindR_Inr_iff check_Inr_iff
  by (elim exE conjE) (rule that; simp)

lemma verify_payment_window_iff:
  "verify_payment_window st item = Inr w \<longleftrightarrow>
     (\<exists>env raw. store_verify st item = Inr env \<and> as_object (get_field env ''payload'') = Inr raw
        \<and> st_window st raw = Inr w)
     \<and> compute_window st (fst (pw_inputs w)) (snd (pw_inputs w)) (pw_interval w) = Inr w
     \<and> ev_source item = PAYMENT \<and> ev_query item = DERIVED_QUERY
     \<and> ev_resource item = pw_service w \<and> ev_incident item = mi_incident (pw_interval w)
     \<and> ev_observed item = (case pw_end w of Some t \<Rightarrow> t | None \<Rightarrow> ev_observed (snd (pw_inputs w)))
     \<and> ev_observed item \<le> ev_collected item"
  by (auto simp: verify_payment_window_def Let_def)

section \<open>Publishing and verifying\<close>

lemma compute_window_mono:
  assumes "compute_window st before after iv = Inr w" "st_files st \<subseteq>\<^sub>m st_files st'" "st_decode st' = st_decode st"
  shows "compute_window st' before after iv = Inr w"
proof -
  from assms(1) obtain e1 e2 where "store_verify st before = Inr e1" "store_verify st after = Inr e2"
    by (auto simp: compute_window_def)
  moreover from this have "store_verify st' before = Inr e1" "store_verify st' after = Inr e2"
    using store_verify_mono assms(2,3) by blast+
  ultimately show ?thesis using assms(1) by (simp add: compute_window_def)
qed

lemma compute_window_inputs:
  "compute_window st before after iv = Inr w \<Longrightarrow> pw_inputs w = (before, after) \<and> pw_interval w = iv"
  by (auto elim!: compute_window_Inr simp: build_window_def)

lemma derived_query_plain: "strip (redact_text (strip DERIVED_QUERY)) = DERIVED_QUERY"
  by code_simp

section \<open>Properties\<close>

text \<open>C22: A complete payment window is sound: both snapshots come from one process epoch and bracket
  the interval closely, exactly the required series are reported, every reported number is the
  non-negative difference of the two counters, and in every processor and region the number of
  requests equals the histogram count (with no latency where there was no request).\<close>

theorem complete_window_sound:
  assumes "window_delta initial final iv = Inr (Complete, d)"
  shows "pa_epoch initial = pa_epoch final
    \<and> (\<exists>w1 w2. pa_watermark initial = Some w1 \<and> pa_watermark final = Some w2
         \<and> timestamp (mi_start iv) - 15 \<le> w1 \<and> w1 \<le> timestamp (mi_start iv)
         \<and> timestamp (mi_end iv) \<le> w2 \<and> w2 \<le> timestamp (mi_end iv) + 30)
    \<and> fst ` set d = set required_keys
    \<and> list_all (counter_difference initial final d) required_keys
    \<and> list_all (slice_agrees d) slices"
  using window_delta_Complete(1) [OF assms]
  by (rule coverage_Complete) (use window_delta_Complete(2-4) [OF assms] in auto)

definition sample_snapshot :: "rat \<Rightarrow> parsed_snapshot" where
  "sample_snapshot t =
     \<lparr>pa_evaluated = t, pa_watermark = Some t, pa_epoch = Some 1, pa_available = True,
      pa_values = map (\<lambda>k. (k, 7)) required_keys\<rparr>"

definition sample_interval :: measurement_interval where
  "sample_interval = \<lparr>mi_incident = ''inc-1'', mi_start = 100000000, mi_end = 160000000\<rparr>"

lemma map_of_const: "map_of (map (\<lambda>k. (k, c)) ks) k = (if k \<in> set ks then Some c else None)"
  by (induction ks) auto

lemma slice_requests_zero: "slice_requests (map (\<lambda>k. (k, 0)) ks) s = 0"
  by (induction ks) (auto simp: slice_requests_def)

lemma slice_keys_required:
  "s \<in> set slices \<Longrightarrow> (COUNT, slice_labels s) \<in> set required_keys"
  "s \<in> set slices \<Longrightarrow> (LATENCY_SUM, slice_labels s) \<in> set required_keys"
  by (auto simp: required_keys_def)

lemma sample_window:
  "window_delta (sample_snapshot 100) (sample_snapshot 160) sample_interval
     = Inr (Complete, map (\<lambda>k. (k, 0)) required_keys)"
proof -
  let ?vs = "map (\<lambda>k. (k, 7 :: rat)) required_keys" and ?d = "map (\<lambda>k. (k, 0 :: rat)) required_keys"
  have "coverage (sample_snapshot 100) (sample_snapshot 160) sample_interval = Complete"
    by (simp add: coverage_def sample_snapshot_def sample_interval_def timestamp_def map_of_const
        list_ex_iff comp_def)
  moreover have "series_delta ?vs ?vs = Inr ?d"
    by (auto simp: series_delta_Inr map_of_const list_all_iff)
  moreover have "consistent_window ?d = Inr True"
    by (simp add: consistent_window_def consistent_slices_True map_of_const slice_requests_zero
        slice_keys_required)
  ultimately show ?thesis by (simp add: window_delta_def sample_snapshot_def)
qed

theorem complete_window_sound_witness:
  "list_all (slice_agrees (map (\<lambda>k. (k, 0)) required_keys)) slices"
  using complete_window_sound [OF sample_window] by simp

text \<open>Verification of a derived window returns exactly the stored window that recomputation from
  its two verified raw snapshots reproduces, with the item's own metadata agreeing; a valid outer
  digest alone is never enough.\<close>

theorem window_verification:
  "verify_payment_window st item = Inr w \<longleftrightarrow>
     (\<exists>env raw. store_verify st item = Inr env \<and> as_object (get_field env ''payload'') = Inr raw
        \<and> st_window st raw = Inr w)
     \<and> compute_window st (fst (pw_inputs w)) (snd (pw_inputs w)) (pw_interval w) = Inr w
     \<and> ev_source item = PAYMENT \<and> ev_query item = DERIVED_QUERY
     \<and> ev_resource item = pw_service w \<and> ev_incident item = mi_incident (pw_interval w)
     \<and> ev_observed item = (case pw_end w of Some t \<Rightarrow> t | None \<Rightarrow> ev_observed (snd (pw_inputs w)))
     \<and> ev_observed item \<le> ev_collected item"
  by (rule verify_payment_window_iff)

end
