(* ===== verification/Policy.thy ===== *)
theory Policy
  imports Window
begin

text \<open>
  Deny-default proposal evaluation: the closed action schemas of
  \<^verbatim>\<open>src/payops/policy/contracts.py\<close> and the policy engine of \<^verbatim>\<open>src/payops/policy/engine.py\<close>.

  \<open>validate_action\<close> is \<^verbatim>\<open>ACTION.validate_python\<close>: it selects the schema by \<^verbatim>\<open>action_type\<close>, forbids
  unknown fields and checks every field; \<open>action_json\<close> is \<^verbatim>\<open>model_dump(mode="json")\<close>. The clock read
  of \<^verbatim>\<open>evaluate\<close> is the argument \<open>now\<close>.

  Main facts: validation inverts dumping on exactly the valid actions; the text under an action digest
  determines the action (\<open>canonical_action_inj\<close>); and \<open>evaluate\<close> asks for approval exactly when the
  identity, scope, freshness, precondition and evidence conditions all hold
  (\<open>evaluate_approval_iff\<close>).
\<close>

section \<open>Schemas\<close>

datatype role = Viewer | Responder | Approver | Executor

record principal =
  pr_subject :: string
  pr_roles :: "role list"
  pr_namespaces :: "string list"
  pr_verified_at :: instant
  pr_expires_at :: instant
  pr_enabled :: bool

datatype resource_kind = Deployment_kind | Traffic_kind

record resource_snapshot =
  rs_namespace :: string
  rs_service :: string
  rs_uid :: string
  rs_version :: string
  rs_observed_at :: instant
  rs_kind :: resource_kind
  rs_synthetic :: bool
  rs_replicas :: int
  rs_approved :: "string list"
  rs_mode :: run_mode

record action_base =
  ab_incident :: string
  ab_namespace :: string
  ab_service :: string
  ab_uid :: string
  ab_version :: string
  ab_evidence :: "string list"
  ab_mode :: run_mode

datatype action =
    RestartAction action_base
  | ScaleAction action_base int
  | RollbackAction action_base string
  | PauseAction action_base

fun action_base_of :: "action \<Rightarrow> action_base" where
  "action_base_of (RestartAction b) = b"
| "action_base_of (ScaleAction b _) = b"
| "action_base_of (RollbackAction b _) = b"
| "action_base_of (PauseAction b) = b"

fun is_pause :: "action \<Rightarrow> bool" where
  "is_pause (PauseAction _) = True"
| "is_pause _ = False"

abbreviation "act_incident a \<equiv> ab_incident (action_base_of a)"
abbreviation "act_namespace a \<equiv> ab_namespace (action_base_of a)"
abbreviation "act_service a \<equiv> ab_service (action_base_of a)"
abbreviation "act_uid a \<equiv> ab_uid (action_base_of a)"
abbreviation "act_version a \<equiv> ab_version (action_base_of a)"
abbreviation "act_evidence a \<equiv> ab_evidence (action_base_of a)"
abbreviation "act_mode a \<equiv> ab_mode (action_base_of a)"

datatype decision = DENY | APPROVAL_REQUIRED
datatype risk_tier = R2 | R3

record policy_review =
  rv_decision :: decision
  rv_reason :: string
  rv_risk :: "risk_tier option"
  rv_proposal :: "action option"
  rv_digest :: "string option"

section \<open>Validation\<close>

definition valid_principal :: "principal \<Rightarrow> bool" where
  "valid_principal p \<longleftrightarrow>
     is_identifier (pr_subject p) \<and> 1 \<le> length (pr_roles p) \<and> length (pr_roles p) \<le> 4
     \<and> 1 \<le> length (pr_namespaces p) \<and> length (pr_namespaces p) \<le> 8
     \<and> list_all is_identifier (pr_namespaces p)"

definition valid_snapshot :: "resource_snapshot \<Rightarrow> bool" where
  "valid_snapshot r \<longleftrightarrow>
     is_identifier (rs_namespace r) \<and> is_identifier (rs_service r) \<and> is_identifier (rs_uid r)
     \<and> is_identifier (rs_version r) \<and> 0 \<le> rs_replicas r \<and> rs_replicas r \<le> 100
     \<and> list_all is_digest (rs_approved r) \<and> is_operation_mode (rs_mode r)"

definition valid_action_base :: "action_base \<Rightarrow> bool" where
  "valid_action_base b \<longleftrightarrow>
     is_identifier (ab_incident b) \<and> is_identifier (ab_namespace b) \<and> is_identifier (ab_service b)
     \<and> is_identifier (ab_uid b) \<and> is_identifier (ab_version b)
     \<and> 1 \<le> length (ab_evidence b) \<and> length (ab_evidence b) \<le> 8
     \<and> list_all is_identifier (ab_evidence b) \<and> no_duplicates (ab_evidence b)
     \<and> is_operation_mode (ab_mode b)"

definition valid_action :: "action \<Rightarrow> bool" where
  "valid_action a \<longleftrightarrow>
     valid_action_base (action_base_of a)
     \<and> (case a of ScaleAction _ n \<Rightarrow> 1 \<le> n \<and> n \<le> 3 | RollbackAction _ r \<Rightarrow> is_digest r | _ \<Rightarrow> True)"

fun mode_name :: "run_mode \<Rightarrow> string" where
  "mode_name Mock = ''mock''"
| "mode_name Fixture_replay = ''fixture_replay''"
| "mode_name Local_kind = ''local_kind''"
| "mode_name Cloud_gke = ''cloud_gke''"

definition mode_of_name :: "string \<Rightarrow> run_mode option" where
  "mode_of_name s =
     (if s = ''local_kind'' then Some Local_kind
      else if s = ''cloud_gke'' then Some Cloud_gke
      else if s = ''fixture_replay'' then Some Fixture_replay
      else None)"

fun action_type :: "action \<Rightarrow> string" where
  "action_type (RestartAction _) = ''restart_deployment''"
| "action_type (ScaleAction _ _) = ''scale_deployment''"
| "action_type (RollbackAction _ _) = ''rollback_deployment''"
| "action_type (PauseAction _) = ''pause_synthetic_traffic''"

fun action_parameter :: "action \<Rightarrow> json_object" where
  "action_parameter (ScaleAction _ n) = [(''replicas'', JInt n)]"
| "action_parameter (RollbackAction _ r) = [(''revision_sha256'', JStr r)]"
| "action_parameter _ = []"

definition action_json :: "action \<Rightarrow> json_object" where
  "action_json a =
     [(''incident_id'', JStr (act_incident a)), (''namespace'', JStr (act_namespace a)),
      (''service'', JStr (act_service a)), (''resource_uid'', JStr (act_uid a)),
      (''expected_version'', JStr (act_version a)),
      (''evidence_ids'', JArr (map JStr (act_evidence a))),
      (''mode'', JStr (mode_name (act_mode a))), (''action_type'', JStr (action_type a))]
     @ action_parameter a"

definition invalid :: exn where
  "invalid = ValueError ''validation error''"

definition str_field :: "json_object \<Rightarrow> string \<Rightarrow> exn + string" where
  "str_field kvs k = (case get_field kvs k of Some (JStr s) \<Rightarrow> Inr s | _ \<Rightarrow> Inl invalid)"

definition str_list_field :: "json_object \<Rightarrow> string \<Rightarrow> exn + string list" where
  "str_list_field kvs k =
     (case get_field kvs k of
        Some (JArr xs) \<Rightarrow> mapR (\<lambda>x. case x of JStr s \<Rightarrow> Inr s | _ \<Rightarrow> Inl invalid) xs
      | _ \<Rightarrow> Inl invalid)"

definition mode_field :: "json_object \<Rightarrow> exn + run_mode" where
  "mode_field kvs =
     (case get_field kvs ''mode'' of
        None \<Rightarrow> Inr Local_kind
      | Some (JStr s) \<Rightarrow> of_option invalid (mode_of_name s)
      | _ \<Rightarrow> Inl invalid)"

definition BASE_FIELDS :: "string list" where
  "BASE_FIELDS =
     [''incident_id'', ''namespace'', ''service'', ''resource_uid'', ''expected_version'',
      ''evidence_ids'', ''mode'', ''action_type'']"

definition parse_base :: "json_object \<Rightarrow> exn + action_base" where
  "parse_base kvs =
     bindR (str_field kvs ''incident_id'') (\<lambda>i.
     bindR (str_field kvs ''namespace'') (\<lambda>n.
     bindR (str_field kvs ''service'') (\<lambda>s.
     bindR (str_field kvs ''resource_uid'') (\<lambda>u.
     bindR (str_field kvs ''expected_version'') (\<lambda>v.
     bindR (str_list_field kvs ''evidence_ids'') (\<lambda>es.
     bindR (mode_field kvs) (\<lambda>m.
     Inr \<lparr>ab_incident = i, ab_namespace = n, ab_service = s, ab_uid = u, ab_version = v,
          ab_evidence = es, ab_mode = m\<rparr>)))))))"

definition parse_parameter :: "json_object \<Rightarrow> string \<Rightarrow> action_base \<Rightarrow> exn + action" where
  "parse_parameter kvs ty b =
     (if ty = ''restart_deployment'' then Inr (RestartAction b)
      else if ty = ''scale_deployment''
        then (case get_field kvs ''replicas'' of Some (JInt n) \<Rightarrow> Inr (ScaleAction b n)
                                               | _ \<Rightarrow> Inl invalid)
      else if ty = ''rollback_deployment''
        then bindR (str_field kvs ''revision_sha256'') (\<lambda>r. Inr (RollbackAction b r))
      else if ty = ''pause_synthetic_traffic'' then Inr (PauseAction b)
      else Inl invalid)"

definition validate_action :: "json_object \<Rightarrow> exn + action" where
  "validate_action kvs =
     bindR (str_field kvs ''action_type'') (\<lambda>ty.
     bindR (parse_base kvs) (\<lambda>b.
     bindR (parse_parameter kvs ty b) (\<lambda>a.
     bindR (check (set (keys kvs) \<subseteq> set BASE_FIELDS \<union> set (keys (action_parameter a))) invalid) (\<lambda>_.
     bindR (check (valid_action a) invalid) (\<lambda>_.
     Inr a)))))"

section \<open>Digest\<close>

definition canonical_action :: "action \<Rightarrow> string" where
  "canonical_action a = dumps True (JObj (action_json a))"

definition action_digest :: "action \<Rightarrow> string" where
  "action_digest a = sha256_hex (canonical_action a)"

section \<open>Engine\<close>

definition SERVICES :: "string list" where
  "SERVICES = [''payments-api'', ''processor-adapter'', ''risk-sim'', ''webhook-sim'']"

record 'r policy_context =
  pc_principal :: "principal option"
  pc_incident :: incident
  pc_resource :: resource_snapshot
  pc_store :: "'r window_store_scheme"

text \<open>\<^verbatim>\<open>0 <= (now - t).total_seconds() <= n\<close>\<close>

definition fresh :: "instant \<Rightarrow> instant \<Rightarrow> seconds \<Rightarrow> bool" where
  "fresh now t n \<longleftrightarrow> 0 \<le> now - t \<and> now - t \<le> n * one_second"

definition identity_valid :: "principal option \<Rightarrow> role \<Rightarrow> string \<Rightarrow> instant \<Rightarrow> bool" where
  "identity_valid p role namespace now \<longleftrightarrow>
     (case p of
        None \<Rightarrow> False
      | Some q \<Rightarrow> pr_enabled q \<and> role \<in> set (pr_roles q) \<and> namespace \<in> set (pr_namespaces q)
                  \<and> now < pr_expires_at q \<and> fresh now (pr_verified_at q) 60)"

definition expected_kind :: "action \<Rightarrow> resource_kind" where
  "expected_kind a = (if is_pause a then Traffic_kind else Deployment_kind)"

definition revision_denied :: "action \<Rightarrow> resource_snapshot \<Rightarrow> bool" where
  "revision_denied a r \<longleftrightarrow>
     (case a of RollbackAction _ digest \<Rightarrow> digest \<notin> set (rs_approved r) | _ \<Rightarrow> False)"

definition scope_failure :: "action \<Rightarrow> 'r policy_context \<Rightarrow> instant \<Rightarrow> string option" where
  "scope_failure a c now =
     (let inc = pc_incident c; r = pc_resource c in
      if \<not> identity_valid (pc_principal c) Responder (act_namespace a) now
        then Some ''IDENTITY_DENIED''
      else if act_namespace a \<noteq> ''payops-sandbox'' \<or> act_service a \<notin> set SERVICES
        then Some ''SCOPE_DENIED''
      else if act_incident a \<noteq> in_id inc \<or> act_namespace a \<noteq> ic_namespace (in_request inc)
        then Some ''INCIDENT_SCOPE_MISMATCH''
      else if (act_namespace a, act_service a) \<noteq> (rs_namespace r, rs_service r)
        then Some ''RESOURCE_SCOPE_MISMATCH''
      else if act_mode a \<noteq> rs_mode r then Some ''OPERATION_MODE_MISMATCH''
      else if \<not> rs_synthetic r \<or> \<not> fresh now (rs_observed_at r) 30
        then Some ''RESOURCE_NOT_CURRENT''
      else if (act_uid a, act_version a) \<noteq> (rs_uid r, rs_version r)
        then Some ''STALE_PRECONDITION''
      else if rs_kind r \<noteq> expected_kind a then Some ''RESOURCE_KIND_MISMATCH''
      else if revision_denied a r then Some ''REVISION_NOT_APPROVED''
      else None)"

definition operational_evidence ::
  "evidence_item \<Rightarrow> ('r window_store_scheme) \<Rightarrow> exn + string option" where
  "operational_evidence item st =
     (if ev_source item \<in> {RUNBOOK, MEMORY} \<or> ev_source item = TRACE
        then Inr (Some ''EVIDENCE_NOT_OPERATIONAL'')
      else if ev_source item = LOG \<and> ev_query item = ''trace.console-log.v1''
        then Inr (Some ''EVIDENCE_NOT_OPERATIONAL'')
      else if ev_source item = PAYMENT
        then bindR (verify_payment_window st item) (\<lambda>w.
               if pw_status w \<noteq> Complete then Inr (Some ''EVIDENCE_NOT_OPERATIONAL'') else Inr None)
      else bindR (store_verify st item) (\<lambda>_. Inr None))"

text \<open>One pass over the cited identifiers; the first failure or exception ends it. The dict keeps the
  last item of a repeated identifier.\<close>

fun cited_evidence ::
  "action \<Rightarrow> ('r window_store_scheme) \<Rightarrow> evidence_item list \<Rightarrow> instant \<Rightarrow> string list
     \<Rightarrow> exn + string option" where
  "cited_evidence a st items now [] = Inr None"
| "cited_evidence a st items now (i # is) =
     bindR (of_option (KeyError i) (map_of (map (\<lambda>e. (ev_id e, e)) (rev items)) i)) (\<lambda>item.
     if ev_incident item \<noteq> act_incident a then Inr (Some ''EVIDENCE_SCOPE_MISMATCH'')
     else if \<not> fresh now (ev_observed item) 300 then Inr (Some ''EVIDENCE_STALE'')
     else if \<not> fresh now (ev_collected item) 300 then Inr (Some ''EVIDENCE_STALE'')
     else bindR (operational_evidence item st) (\<lambda>failure.
          case failure of Some f \<Rightarrow> Inr (Some f) | None \<Rightarrow> cited_evidence a st items now is))"

definition evidence_failure :: "action \<Rightarrow> 'r policy_context \<Rightarrow> instant \<Rightarrow> exn + string option" where
  "evidence_failure a c now =
     (case in_report (pc_incident c) of
        None \<Rightarrow> Inr (Some ''INCIDENT_NOT_ACTIONABLE'')
      | Some r \<Rightarrow>
          if rp_terminal r \<noteq> ESCALATED then Inr (Some ''INCIDENT_NOT_ACTIONABLE'')
          else if rp_mode r \<noteq> rs_mode (pc_resource c) then Inr (Some ''EVIDENCE_MODE_MISMATCH'')
          else (case cited_evidence a (pc_store c) (rp_evidence r) now (act_evidence a) of
                  Inr f \<Rightarrow> Inr f
                | Inl e \<Rightarrow> if is_KeyError e \<or> is_ValueError e \<or> is_OSError e
                           then Inr (Some ''EVIDENCE_INVALID'') else Inl e))"

definition deny :: "string \<Rightarrow> policy_review" where
  "deny reason =
     \<lparr>rv_decision = DENY, rv_reason = reason, rv_risk = None, rv_proposal = None, rv_digest = None\<rparr>"

definition risk_of :: "action \<Rightarrow> risk_tier" where
  "risk_of a = (case a of ScaleAction _ _ \<Rightarrow> R3 | RollbackAction _ _ \<Rightarrow> R3 | _ \<Rightarrow> R2)"

definition approval_review :: "action \<Rightarrow> policy_review" where
  "approval_review a =
     \<lparr>rv_decision = APPROVAL_REQUIRED, rv_reason = ''REVIEW_REQUIRED'', rv_risk = Some (risk_of a),
      rv_proposal = Some a, rv_digest = Some (action_digest a)\<rparr>"

definition evaluate :: "json_object \<Rightarrow> 'r policy_context \<Rightarrow> instant \<Rightarrow> exn + policy_review" where
  "evaluate value c now =
     (case validate_action value of
        Inl e \<Rightarrow> if is_ValueError e then Inr (deny ''INVALID_PROPOSAL'') else Inl e
      | Inr a \<Rightarrow>
          (case scope_failure a c now of
             Some f \<Rightarrow> Inr (deny f)
           | None \<Rightarrow>
               bindR (evidence_failure a c now) (\<lambda>failure.
               case failure of Some f \<Rightarrow> Inr (deny f) | None \<Rightarrow> Inr (approval_review a))))"

section \<open>Dumping and validating\<close>

lemma mode_of_name_iff [simp]:
  "mode_of_name (mode_name m) = Some m' \<longleftrightarrow> m' = m \<and> is_operation_mode m"
  by (cases m) (auto simp: mode_of_name_def is_operation_mode_def)

lemma mapR_JStr [simp]:
  "mapR (\<lambda>x. case x of JStr s \<Rightarrow> Inr s | _ \<Rightarrow> Inl e) (map JStr xs) = Inr xs"
  by (induction xs) simp_all

lemma mapR_InlD: "mapR f xs = Inl e \<Longrightarrow> \<exists>x\<in>set xs. f x = Inl e"
  by (induction xs) (auto simp: bindR_Inl_iff)

lemma action_json_fields [simp]:
  "str_field (action_json a) ''action_type'' = Inr (action_type a)"
  "str_field (action_json a) ''incident_id'' = Inr (act_incident a)"
  "str_field (action_json a) ''namespace'' = Inr (act_namespace a)"
  "str_field (action_json a) ''service'' = Inr (act_service a)"
  "str_field (action_json a) ''resource_uid'' = Inr (act_uid a)"
  "str_field (action_json a) ''expected_version'' = Inr (act_version a)"
  "str_list_field (action_json a) ''evidence_ids'' = Inr (act_evidence a)"
  "mode_field (action_json a) = of_option invalid (mode_of_name (mode_name (act_mode a)))"
  by (simp_all add: str_field_def str_list_field_def mode_field_def action_json_def)

lemma parse_base_json [simp]:
  "parse_base (action_json a) = Inr b \<longleftrightarrow> b = action_base_of a \<and> is_operation_mode (act_mode a)"
  by (auto simp: parse_base_def)

lemma parse_parameter_json [simp]:
  "parse_parameter (action_json a) (action_type a) (action_base_of a) = Inr a"
  by (cases a) (simp_all add: parse_parameter_def action_json_def str_field_def)

lemma keys_action_json:
  "set (keys (action_json a)) = set BASE_FIELDS \<union> set (keys (action_parameter a))"
  by (auto simp: action_json_def BASE_FIELDS_def keys_def)

lemma validate_action_json:
  "validate_action (action_json a) = Inr a' \<longleftrightarrow> a' = a \<and> valid_action a"
  by (auto simp: validate_action_def keys_action_json valid_action_def valid_action_base_def)

lemma validate_action_valid: "validate_action v = Inr a \<Longrightarrow> valid_action a"
  by (simp add: validate_action_def) blast

lemma str_field_Inl: "str_field v k = Inl e \<Longrightarrow> e = invalid"
  by (auto simp: str_field_def split: option.splits json.splits)

lemma str_list_field_Inl: "str_list_field v k = Inl e \<Longrightarrow> e = invalid"
  by (auto simp: str_list_field_def dest!: mapR_InlD split: option.splits json.splits)

lemma mode_field_Inl: "mode_field v = Inl e \<Longrightarrow> e = invalid"
  by (auto simp: mode_field_def of_option_def split: option.splits json.splits)

lemma parse_base_Inl: "parse_base v = Inl e \<Longrightarrow> e = invalid"
  unfolding parse_base_def bindR_Inl_iff
  using str_field_Inl str_list_field_Inl mode_field_Inl by fastforce

lemma parse_parameter_Inl: "parse_parameter v ty b = Inl e \<Longrightarrow> e = invalid"
  unfolding parse_parameter_def
  by (auto simp: bindR_Inl_iff dest: str_field_Inl split: if_splits option.splits json.splits)

lemma validate_action_Inl: "validate_action v = Inl e \<Longrightarrow> e = invalid"
  unfolding validate_action_def bindR_Inl_iff check_Inl_iff
  using str_field_Inl parse_base_Inl parse_parameter_Inl by fastforce

section \<open>The digest preimage determines the action\<close>

lemma mode_name_inj: "mode_name m = mode_name m' \<Longrightarrow> m = m'"
  by (cases m; cases m') simp_all

lemma canonical_action_text:
  "canonical_action a =
     (let txt = dump_string True; fld = (\<lambda>k v. dump_string True k @ CHR '':'' # v) in
      CHR ''{'' # fld ''action_type'' (txt (action_type a)) @ CHR '','' #
      fld ''evidence_ids'' (dumps True (JArr (map JStr (act_evidence a)))) @ CHR '','' #
      fld ''expected_version'' (txt (act_version a)) @ CHR '','' #
      fld ''incident_id'' (txt (act_incident a)) @ CHR '','' #
      fld ''mode'' (txt (mode_name (act_mode a))) @ CHR '','' #
      fld ''namespace'' (txt (act_namespace a)) @ CHR '','' #
      (case a of ScaleAction _ n \<Rightarrow> fld ''replicas'' (int_str n) @ '','' | _ \<Rightarrow> []) @
      fld ''resource_uid'' (txt (act_uid a)) @ CHR '','' #
      (case a of RollbackAction _ r \<Rightarrow> fld ''revision_sha256'' (txt r) @ '','' | _ \<Rightarrow> []) @
      fld ''service'' (txt (act_service a)) @ ''}'')"
  by (cases a) (simp_all add: canonical_action_def action_json_def Let_def)

lemma canonical_action_inj: "canonical_action a = canonical_action b \<longleftrightarrow> a = b"
proof
  assume eq: "canonical_action a = canonical_action b"
  have comma: "\<not> is_digit (CHR '','')" by (simp add: is_digit_def)
  note layout = canonical_action_text Let_def dump_string_inj dump_strings_inj
    dump_string_inj [where r = "[]" and r' = "[]", simplified]
  have int_inj: "m = n" if "int_str m = int_str n" for m n
    using int_str_prefix_inj [OF _ comma comma, of m "[]" n "[]"] that by simp
  have base: "action_base_of a = action_base_of b" if "action_type a = action_type b"
    using eq that
    by (cases a; cases b)
       (auto simp: layout simp del: dumps.simps dest!: mode_name_inj
        intro!: action_base.equality dest: int_str_prefix_inj [OF _ comma comma])
  show "a = b"
    using eq base
    by (cases a; cases b)
       (auto simp: layout simp del: dumps.simps dest: int_inj int_str_prefix_inj [OF _ comma comma])
qed simp

section \<open>Exactly when a proposal may go to approval\<close>

text \<open>Evidence that may justify an effect: a verified observation that is not retrieved guidance or
  trace text, or a complete payment window.\<close>

definition operational :: "('r window_store_scheme) \<Rightarrow> evidence_item \<Rightarrow> bool" where
  "operational st item \<longleftrightarrow>
     (if ev_source item = PAYMENT
      then \<exists>w. verify_payment_window st item = Inr w \<and> pw_status w = Complete
      else ev_source item \<in> {KUBERNETES, PROMETHEUS, DEPLOYMENT, LOG}
           \<and> (ev_source item = LOG \<longrightarrow> ev_query item \<noteq> ''trace.console-log.v1'')
           \<and> (\<exists>payload. store_verify st item = Inr payload))"

definition justified :: "action \<Rightarrow> 'r policy_context \<Rightarrow> instant \<Rightarrow> incident_report \<Rightarrow> string \<Rightarrow> bool" where
  "justified a c now rep i \<longleftrightarrow>
     (\<exists>item. map_of (map (\<lambda>e. (ev_id e, e)) (rev (rp_evidence rep))) i = Some item
        \<and> ev_incident item = act_incident a \<and> fresh now (ev_observed item) 300
        \<and> fresh now (ev_collected item) 300 \<and> operational (pc_store c) item)"

definition permitted :: "action \<Rightarrow> 'r policy_context \<Rightarrow> instant \<Rightarrow> bool" where
  "permitted a c now \<longleftrightarrow>
     identity_valid (pc_principal c) Responder (act_namespace a) now
     \<and> act_namespace a = ''payops-sandbox'' \<and> act_service a \<in> set SERVICES
     \<and> act_incident a = in_id (pc_incident c)
     \<and> act_namespace a = ic_namespace (in_request (pc_incident c))
     \<and> act_namespace a = rs_namespace (pc_resource c) \<and> act_service a = rs_service (pc_resource c)
     \<and> act_mode a = rs_mode (pc_resource c)
     \<and> rs_synthetic (pc_resource c) \<and> fresh now (rs_observed_at (pc_resource c)) 30
     \<and> act_uid a = rs_uid (pc_resource c) \<and> act_version a = rs_version (pc_resource c)
     \<and> rs_kind (pc_resource c) = expected_kind a \<and> \<not> revision_denied a (pc_resource c)
     \<and> (\<exists>rep. in_report (pc_incident c) = Some rep \<and> rp_terminal rep = ESCALATED
            \<and> rp_mode rep = rs_mode (pc_resource c)
            \<and> list_all (justified a c now rep) (act_evidence a))"

lemma operational_evidence_iff: "operational_evidence item st = Inr None \<longleftrightarrow> operational st item"
  by (cases "ev_source item") (auto simp: operational_evidence_def operational_def)

lemma cited_evidence_iff:
  "cited_evidence a (pc_store c) (rp_evidence rep) now is = Inr None
     \<longleftrightarrow> list_all (justified a c now rep) is"
  by (induction "is")
     (auto simp: justified_def operational_evidence_iff of_option_def
      split: option.splits if_splits)

lemma evidence_failure_iff:
  "evidence_failure a c now = Inr None \<longleftrightarrow>
     (\<exists>rep. in_report (pc_incident c) = Some rep \<and> rp_terminal rep = ESCALATED
        \<and> rp_mode rep = rs_mode (pc_resource c) \<and> list_all (justified a c now rep) (act_evidence a))"
  by (cases "in_report (pc_incident c)")
     (auto simp: evidence_failure_def cited_evidence_iff [symmetric] split: sum.splits if_splits)

lemma scope_evidence_iff:
  "scope_failure a c now = None \<and> evidence_failure a c now = Inr None \<longleftrightarrow> permitted a c now"
  unfolding evidence_failure_iff permitted_def
  by (auto simp: scope_failure_def Let_def split: if_splits)

lemma evaluate_cases:
  assumes "evaluate v c now = Inr r"
  shows "(\<exists>reason. r = deny reason) \<or> (\<exists>a. validate_action v = Inr a \<and> r = approval_review a)"
  using assms by (auto simp: evaluate_def split: sum.splits if_splits option.splits)

lemma evaluate_approval_iff:
  "evaluate v c now = Inr (approval_review a) \<longleftrightarrow> validate_action v = Inr a \<and> permitted a c now"
proof -
  have inj: "approval_review b = approval_review a \<longleftrightarrow> b = a" for a b
    by (auto simp: approval_review_def)
  have neq: "deny f \<noteq> approval_review a" for f a
    by (simp add: deny_def approval_review_def)
  show ?thesis
    unfolding scope_evidence_iff [symmetric]
    by (auto simp: evaluate_def inj neq split: sum.splits if_splits option.splits)
qed

section \<open>Properties\<close>

text \<open>C18: An untrusted proposal is sent to human approval exactly when it parses to a valid action and
  identity, scope, freshness, resource precondition and cited evidence all check out; nothing else
  reaches approval, and nothing that satisfies the policy is refused.\<close>

theorem evaluate_asks_approval:
  "evaluate v c now = Inr (approval_review a) \<longleftrightarrow> validate_action v = Inr a \<and> permitted a c now"
  by (rule evaluate_approval_iff)

text \<open>Every proposal ends in an approval request for the action it parses to, in a denial that
  carries neither the action nor a digest, or in an exception; the exceptions are only those of
  evidence verification that the engine does not turn into a denial.\<close>

theorem evaluate_outcomes:
  "(\<exists>reason. evaluate v c now = Inr (deny reason))
   \<or> (\<exists>a. evaluate v c now = Inr (approval_review a) \<and> validate_action v = Inr a)
   \<or> (\<exists>a e. evaluate v c now = Inl e \<and> evidence_failure a c now = Inl e)"
proof (cases "evaluate v c now")
  case (Inl e)
  then have "\<exists>a. evidence_failure a c now = Inl e"
    by (auto simp: evaluate_def bindR_Inl_iff invalid_def dest!: validate_action_Inl
        split: sum.splits if_splits option.splits)
  with Inl show ?thesis by blast
next
  case (Inr r)
  with evaluate_cases show ?thesis by blast
qed

text \<open>Dumping an action and validating the dump gives the action back, and validation accepts
  the dump of valid actions only.\<close>

theorem action_round_trip: "validate_action (action_json a) = Inr a' \<longleftrightarrow> a' = a \<and> valid_action a"
  by (rule validate_action_json)

text \<open>The canonical text whose hash is the action digest determines the action: two actions have
  the same digest preimage only if they are equal in every field.\<close>

theorem digest_preimage_unique: "canonical_action a = canonical_action b \<longleftrightarrow> a = b"
  by (rule canonical_action_inj)

end
