(* ===== verification/Identity.thy ===== *)
theory Identity
  imports Policy
begin

text \<open>
  Request identity: \<^verbatim>\<open>src/payops/auth/identity.py\<close>.

  The \<^verbatim>\<open>IdentitySource\<close> protocol (the provider's SDK), the process environment and the clock are the
  record \<open>identity_source\<close>; each call may answer differently, so every answer takes the number of the
  call, which is the state of the programs below.

  Main facts: a bearer is accepted exactly when its verified claims match the configured project,
  tenant and lifetime and the account read afterwards is enabled, unrevoked and well granted
  (\<open>authenticate_iff\<close>); every other outcome is the one public denial (\<open>authenticate_Inl\<close>).
\<close>

section \<open>Data\<close>

record identity_settings =
  is_project :: string
  is_tenant :: "string option"

record account =
  ac_subject :: string
  ac_disabled :: bool
  ac_tenant :: "string option"
  ac_valid_after :: instant
  ac_grants :: json_object

record grants =
  gr_roles :: "role list"
  gr_namespaces :: "string list"

record token_claims =
  tc_sub :: string
  tc_aud :: string
  tc_iss :: string
  tc_iat :: int
  tc_exp :: int
  tc_auth_time :: int
  tc_firebase :: json_object

record identity_source =
  so_emulator :: "nat \<Rightarrow> bool"
  so_verify :: "nat \<Rightarrow> string \<Rightarrow> exn + json_object"
  so_lookup :: "nat \<Rightarrow> string \<Rightarrow> exn + account"
  so_utc_now :: "nat \<Rightarrow> instant"

definition observe :: "(nat \<Rightarrow> 'a) \<Rightarrow> (nat, 'a) prog" where
  "observe f n = (Inr (f n), Suc n)"

definition consult :: "(nat \<Rightarrow> exn + 'a) \<Rightarrow> (nat, 'a) prog" where
  "consult f n = (f n, Suc n)"

section \<open>Schemas\<close>

definition role_of_text :: "string \<Rightarrow> role option" where
  "role_of_text s =
     (if s = ''viewer'' then Some Viewer else if s = ''responder'' then Some Responder
      else if s = ''approver'' then Some Approver else if s = ''executor'' then Some Executor
      else None)"

definition read_grants :: "json_object \<Rightarrow> exn + grants" where
  "read_grants kvs =
     bindR (check (set (keys kvs) = {''roles'', ''namespaces''}) invalid) (\<lambda>_.
     bindR (bindR (str_list_field kvs ''roles'') (mapR (\<lambda>s. of_option invalid (role_of_text s)))) (\<lambda>roles.
     bindR (str_list_field kvs ''namespaces'') (\<lambda>namespaces.
     bindR (check (1 \<le> length roles \<and> length roles \<le> 4 \<and> 1 \<le> length namespaces
                   \<and> length namespaces \<le> 8 \<and> list_all is_identifier namespaces) invalid) (\<lambda>_.
     Inr \<lparr>gr_roles = roles, gr_namespaces = namespaces\<rparr>))))"

text \<open>A strict integer between 0 and the end of the century.\<close>

definition epoch_field :: "json_object \<Rightarrow> string \<Rightarrow> exn + int" where
  "epoch_field kvs k =
     (case get_field kvs k of
        Some (JInt n) \<Rightarrow> bindR (check (0 \<le> n \<and> n \<le> 4102444800) invalid) (\<lambda>_. Inr n)
      | _ \<Rightarrow> Inl invalid)"

text \<open>\<^verbatim>\<open>TokenClaims.model_validate\<close> ignores every other claim.\<close>

definition read_claims :: "json_object \<Rightarrow> exn + token_claims" where
  "read_claims kvs =
     bindR (str_field kvs ''sub'') (\<lambda>sub.
     bindR (check (is_identifier sub) invalid) (\<lambda>_.
     bindR (str_field kvs ''aud'') (\<lambda>aud.
     bindR (str_field kvs ''iss'') (\<lambda>iss.
     bindR (epoch_field kvs ''iat'') (\<lambda>iat.
     bindR (epoch_field kvs ''exp'') (\<lambda>expiry.
     bindR (epoch_field kvs ''auth_time'') (\<lambda>auth_time.
     bindR (case get_field kvs ''firebase'' of Some (JObj f) \<Rightarrow> Inr f | _ \<Rightarrow> Inl invalid) (\<lambda>firebase.
     Inr \<lparr>tc_sub = sub, tc_aud = aud, tc_iss = iss, tc_iat = iat, tc_exp = expiry,
          tc_auth_time = auth_time, tc_firebase = firebase\<rparr>))))))))"

section \<open>Operations\<close>

definition reject_emulator :: "identity_source \<Rightarrow> (nat, unit) prog" where
  "reject_emulator src =
     bindP (observe (so_emulator src)) (\<lambda>configured.
     checkP (\<not> configured)
       (ValueError ''Identity Platform emulator is not an operational identity source''))"

definition id_account ::
  "identity_settings \<Rightarrow> identity_source \<Rightarrow> string \<Rightarrow> (nat, account \<times> instant) prog" where
  "id_account settings src subject =
     bindP (reject_emulator src) (\<lambda>_.
     bindP (observe (so_utc_now src)) (\<lambda>started.
     bindP (consult (\<lambda>n. so_lookup src n subject)) (\<lambda>account.
     bindP (checkP (\<not> (ac_subject account \<noteq> subject \<or> ac_disabled account
                         \<or> ac_tenant account \<noteq> is_tenant settings))
              (ValueError ''account unavailable'')) (\<lambda>_.
     bindP (observe (so_utc_now src)) (\<lambda>now.
     bindP (checkP (0 \<le> now - started \<and> now - started \<le> 60 * one_second)
              (ValueError ''account unavailable'')) (\<lambda>_.
     returnP (account, started)))))))"

definition well_formed_bearer :: "string \<Rightarrow> bool" where
  "well_formed_bearer token \<longleftrightarrow>
     0 < length token \<and> length token \<le> 8192
     \<and> \<not> list_ex (\<lambda>c. (of_char c :: nat) < 33 \<or> 126 < (of_char c :: nat)) token"

text \<open>\<^verbatim>\<open>claims.firebase.get("tenant") != tenant_id\<close>: an absent tenant equals an absent setting.\<close>

definition tenant_matches :: "json_object \<Rightarrow> string option \<Rightarrow> bool" where
  "tenant_matches firebase tenant \<longleftrightarrow>
     (case get_field firebase ''tenant'' of
        None \<Rightarrow> tenant = None
      | Some JNull \<Rightarrow> tenant = None
      | Some (JStr s) \<Rightarrow> tenant = Some s
      | _ \<Rightarrow> False)"

definition claims_in_scope :: "identity_settings \<Rightarrow> token_claims \<Rightarrow> instant \<Rightarrow> bool" where
  "claims_in_scope settings c now \<longleftrightarrow>
     tc_aud c = is_project settings
     \<and> tc_iss c = ''https://securetoken.google.com/'' @ is_project settings
     \<and> tenant_matches (tc_firebase c) (is_tenant settings)
     \<and> tc_auth_time c \<le> tc_iat c \<and> tc_iat c * one_second \<le> now \<and> now < tc_exp c * one_second
     \<and> tc_exp c - tc_iat c \<le> 3600"

definition id_claims ::
  "identity_settings \<Rightarrow> identity_source \<Rightarrow> string \<Rightarrow> (nat, token_claims) prog" where
  "id_claims settings src token =
     bindP (reject_emulator src) (\<lambda>_.
     bindP (checkP (well_formed_bearer token) (ValueError ''malformed bearer'')) (\<lambda>_.
     bindP (consult (\<lambda>n. so_verify src n token)) (\<lambda>raw.
     bindP (liftR (read_claims raw)) (\<lambda>claims.
     bindP (observe (so_utc_now src)) (\<lambda>now.
     bindP (checkP (claims_in_scope settings claims now) (ValueError ''invalid token scope'')) (\<lambda>_.
     returnP claims))))))"

definition granted_principal :: "account \<Rightarrow> grants \<Rightarrow> instant \<Rightarrow> instant \<Rightarrow> principal" where
  "granted_principal account g observed_at expires =
     \<lparr>pr_subject = ac_subject account, pr_roles = gr_roles g, pr_namespaces = gr_namespaces g,
      pr_verified_at = observed_at, pr_expires_at = expires, pr_enabled = True\<rparr>"

definition id_principal ::
  "identity_source \<Rightarrow> account \<Rightarrow> instant \<Rightarrow> instant option \<Rightarrow> (nat, principal) prog" where
  "id_principal src account observed_at expiry =
     bindP (liftR (read_grants (ac_grants account))) (\<lambda>g.
     bindP (observe (so_utc_now src)) (\<lambda>now.
     let cutoff = observed_at + 60 * one_second;
         expires = (case expiry of None \<Rightarrow> cutoff | Some x \<Rightarrow> min x cutoff)
     in bindP (checkP (\<not> expires \<le> now) (ValueError ''identity expired'')) (\<lambda>_.
        bindP (checkP (valid_principal (granted_principal account g observed_at expires)) invalid) (\<lambda>_.
        returnP (granted_principal account g observed_at expires)))))"

definition authenticate ::
  "identity_settings \<Rightarrow> identity_source \<Rightarrow> string \<Rightarrow> (nat, principal) prog" where
  "authenticate settings src token =
     tryP
       (bindP (id_claims settings src token) (\<lambda>claims.
        bindP (id_account settings src (tc_sub claims)) (\<lambda>(account, observed_at).
        bindP (checkP (\<not> tc_auth_time claims * one_second < ac_valid_after account)
                 (ValueError ''session revoked'')) (\<lambda>_.
        id_principal src account observed_at (Some (tc_exp claims * one_second))))))
       (\<lambda>_. True) (\<lambda>_. raiseP (AuthenticationDenied ''AUTHENTICATION_DENIED''))"

definition current_principal ::
  "identity_settings \<Rightarrow> identity_source \<Rightarrow> string \<Rightarrow> (nat, principal option) prog" where
  "current_principal settings src subject =
     tryP
       (bindP (id_account settings src subject) (\<lambda>(account, observed_at).
        bindP (id_principal src account observed_at None) (\<lambda>p. returnP (Some p))))
       (\<lambda>_. True) (\<lambda>_. returnP None)"

section \<open>Exact behaviour\<close>

lemma reject_emulator_iff [simp]:
  "reject_emulator src n = (Inr u, m) \<longleftrightarrow> \<not> so_emulator src n \<and> m = Suc n"
  by (auto simp: reject_emulator_def bindP_Inr_iff observe_def)

lemma id_account_iff:
  "id_account settings src subject n = (Inr (account, t), m) \<longleftrightarrow>
     \<not> so_emulator src n \<and> t = so_utc_now src (n + 1) \<and> so_lookup src (n + 2) subject = Inr account
     \<and> ac_subject account = subject \<and> \<not> ac_disabled account \<and> ac_tenant account = is_tenant settings
     \<and> 0 \<le> so_utc_now src (n + 3) - t \<and> so_utc_now src (n + 3) - t \<le> 60 * one_second \<and> m = n + 4"
  by (auto simp: id_account_def bindP_Inr_iff observe_def consult_def eval_nat_numeral)

lemma id_claims_iff:
  "id_claims settings src token n = (Inr claims, m) \<longleftrightarrow>
     \<not> so_emulator src n \<and> well_formed_bearer token
     \<and> (\<exists>raw. so_verify src (n + 1) token = Inr raw \<and> read_claims raw = Inr claims)
     \<and> claims_in_scope settings claims (so_utc_now src (n + 2)) \<and> m = n + 3"
  by (auto simp: id_claims_def bindP_Inr_iff observe_def consult_def eval_nat_numeral)

lemma read_grants_bounds:
  assumes "read_grants kvs = Inr g"
  shows "1 \<le> length (gr_roles g) \<and> length (gr_roles g) \<le> 4 \<and> 1 \<le> length (gr_namespaces g)
    \<and> length (gr_namespaces g) \<le> 8 \<and> list_all is_identifier (gr_namespaces g)"
proof -
  from assms obtain roles namespaces where "1 \<le> length roles \<and> length roles \<le> 4 \<and> 1 \<le> length namespaces
      \<and> length namespaces \<le> 8 \<and> list_all is_identifier namespaces"
      "g = \<lparr>gr_roles = roles, gr_namespaces = namespaces\<rparr>"
    unfolding read_grants_def bindR_Inr_iff check_Inr_iff by blast
  then show ?thesis by simp
qed

lemma granted_principal_valid:
  assumes "read_grants kvs = Inr g" and "is_identifier (ac_subject account)"
  shows "valid_principal (granted_principal account g t e)"
  using read_grants_bounds [OF assms(1)] assms(2)
  by (simp add: valid_principal_def granted_principal_def)

lemma read_claims_sub: "read_claims raw = Inr claims \<Longrightarrow> is_identifier (tc_sub claims)"
  unfolding read_claims_def bindR_Inr_iff check_Inr_iff by (elim exE conjE) (drule sym, simp)

lemma id_principal_iff:
  "id_principal src account t expiry n = (Inr p, m) \<longleftrightarrow>
     (\<exists>g. read_grants (ac_grants account) = Inr g
        \<and> p = granted_principal account g t
                (case expiry of None \<Rightarrow> t + 60 * one_second | Some x \<Rightarrow> min x (t + 60 * one_second))
        \<and> so_utc_now src n < pr_expires_at p \<and> valid_principal p) \<and> m = Suc n"
  by (auto simp: id_principal_def bindP_Inr_iff observe_def Let_def granted_principal_def)

lemma authenticate_iff:
  "authenticate settings src token n = (Inr p, m) \<longleftrightarrow>
     (\<exists>claims account t k.
        id_claims settings src token n = (Inr claims, k)
        \<and> id_account settings src (tc_sub claims) k = (Inr (account, t), k + 4)
        \<and> ac_valid_after account \<le> tc_auth_time claims * one_second
        \<and> id_principal src account t (Some (tc_exp claims * one_second)) (k + 4) = (Inr p, m))"
  unfolding authenticate_def tryP_Inr_iff bindP_Inr_iff
  by (auto simp: not_less id_account_iff bindP_Inr_iff split: prod.splits)

lemma authenticate_Inl:
  "authenticate settings src token n = (Inl e, m) \<Longrightarrow> e = AuthenticationDenied ''AUTHENTICATION_DENIED''"
  by (auto simp: authenticate_def tryP_def split: prod.splits sum.splits)

section \<open>Properties\<close>

text \<open>C33: A bearer token authenticates exactly when the emulator switch is off at both checks, the
  text is well formed, the provider verifies it and the verified claims name the configured project,
  issuer and tenant, are in force now and span at most an hour; and the account then looked up for
  their subject is the same subject, enabled, in the configured tenant, read within a minute, has not
  revoked sessions since the claims' authentication time, and carries a well formed grant. The
  principal has the roles and namespaces of the current account, never of the token, and expires at
  the earlier of the token's expiry and one minute after the account lookup began, which is still in
  the future.\<close>

theorem authentication_exact:
  "fst (authenticate settings src token n) = Inr p \<longleftrightarrow>
     (\<exists>raw claims account g.
        \<not> so_emulator src n \<and> \<not> so_emulator src (n + 3) \<and> well_formed_bearer token
        \<and> so_verify src (n + 1) token = Inr raw \<and> read_claims raw = Inr claims
        \<and> claims_in_scope settings claims (so_utc_now src (n + 2))
        \<and> so_lookup src (n + 5) (tc_sub claims) = Inr account
        \<and> ac_subject account = tc_sub claims \<and> \<not> ac_disabled account
        \<and> ac_tenant account = is_tenant settings
        \<and> so_utc_now src (n + 4) \<le> so_utc_now src (n + 6)
        \<and> so_utc_now src (n + 6) \<le> so_utc_now src (n + 4) + 60 * one_second
        \<and> ac_valid_after account \<le> tc_auth_time claims * one_second
        \<and> read_grants (ac_grants account) = Inr g
        \<and> p = granted_principal account g (so_utc_now src (n + 4))
                (min (tc_exp claims * one_second) (so_utc_now src (n + 4) + 60 * one_second))
        \<and> so_utc_now src (n + 7) < pr_expires_at p)"
proof -
  have "fst (authenticate settings src token n) = Inr p
      \<longleftrightarrow> (\<exists>m. authenticate settings src token n = (Inr p, m))"
    by (metis fst_conv prod.collapse)
  moreover have "valid_principal (granted_principal account g t e)"
    if "read_grants (ac_grants account) = Inr g" "read_claims raw = Inr claims"
      "ac_subject account = tc_sub claims" for account g t e raw claims
    using granted_principal_valid [OF that(1)] read_claims_sub [OF that(2)] that(3) by simp
  ultimately show ?thesis
    unfolding authenticate_iff id_claims_iff id_account_iff id_principal_iff
    by (auto simp: algebra_simps)
qed

text \<open>The refresh of an action's actor never raises: it yields a principal exactly when the
  emulator switch is off and the account looked up now is the requested subject, enabled, in the
  configured tenant, read within a minute and well granted, with an expiry one minute after the lookup
  began that is still in the future; in every other case, errors of the provider included, it yields
  none.\<close>

theorem actor_refresh_exact:
  "\<exists>q. fst (current_principal settings src subject n) = Inr q
     \<and> (\<forall>p. q = Some p \<longleftrightarrow>
          (\<exists>account g. \<not> so_emulator src n \<and> so_lookup src (n + 2) subject = Inr account
             \<and> ac_subject account = subject \<and> \<not> ac_disabled account
             \<and> ac_tenant account = is_tenant settings
             \<and> so_utc_now src (n + 1) \<le> so_utc_now src (n + 3)
             \<and> so_utc_now src (n + 3) \<le> so_utc_now src (n + 1) + 60 * one_second
             \<and> read_grants (ac_grants account) = Inr g
             \<and> p = granted_principal account g (so_utc_now src (n + 1)) (so_utc_now src (n + 1) + 60 * one_second)
             \<and> so_utc_now src (n + 4) < pr_expires_at p \<and> is_identifier subject))"
proof -
  define body where "body = bindP (id_account settings src subject) (\<lambda>(account, observed_at).
        bindP (id_principal src account observed_at None) (\<lambda>p. returnP (Some p)))"
  have run: "fst (current_principal settings src subject n) =
      (case fst (body n) of Inl _ \<Rightarrow> Inr None | Inr q \<Rightarrow> Inr q)"
    by (auto simp: current_principal_def body_def tryP_def split: prod.splits sum.splits)
  have "valid_principal (granted_principal account g t e) \<longleftrightarrow> is_identifier (ac_subject account)"
    if "read_grants (ac_grants account) = Inr g" for account g t e
    using granted_principal_valid [OF that] by (auto simp: valid_principal_def granted_principal_def)
  moreover have some: "fst (body n) = Inr q \<longleftrightarrow> (\<exists>m p. q = Some p \<and> body n = (Inr (Some p), m))" for q
    by (cases "body n")
       (auto simp: body_def bindP_Inr_iff split: prod.splits)
  moreover have "body n = (Inr (Some p), m) \<longleftrightarrow>
      (\<exists>account t. id_account settings src subject n = (Inr (account, t), n + 4)
         \<and> id_principal src account t None (n + 4) = (Inr p, m))" for p m
    by (auto simp: body_def bindP_Inr_iff id_account_iff split: prod.splits)
  ultimately have exact: "fst (body n) = Inr q \<longleftrightarrow> (\<exists>p account g. q = Some p
      \<and> \<not> so_emulator src n \<and> so_lookup src (n + 2) subject = Inr account
      \<and> ac_subject account = subject \<and> \<not> ac_disabled account \<and> ac_tenant account = is_tenant settings
      \<and> so_utc_now src (n + 1) \<le> so_utc_now src (n + 3)
      \<and> so_utc_now src (n + 3) \<le> so_utc_now src (n + 1) + 60 * one_second
      \<and> read_grants (ac_grants account) = Inr g
      \<and> p = granted_principal account g (so_utc_now src (n + 1)) (so_utc_now src (n + 1) + 60 * one_second)
      \<and> so_utc_now src (n + 4) < pr_expires_at p \<and> is_identifier subject)" for q
    unfolding some id_account_iff id_principal_iff by (auto simp: algebra_simps)
  show ?thesis
  proof (cases "fst (body n)")
    case (Inl e)
    then show ?thesis using exact [of "Some _"] by (intro exI [of _ None]) (auto simp: run)
  next
    case (Inr q)
    have "fst (current_principal settings src subject n) = Inr q" by (simp add: run Inr)
    moreover have "q = Some p \<longleftrightarrow> fst (body n) = Inr (Some p)" for p by (simp add: Inr)
    ultimately show ?thesis unfolding exact by (intro exI [of _ q]) simp
  qed
qed

end
