(* ===== verification/ActionStore.thy ===== *)
theory ActionStore
  imports Policy
begin

text \<open>
  The remediation ledger: the immutable records of \<^verbatim>\<open>src/payops/remediation/contracts.py\<close> and the SQL
  store of \<^verbatim>\<open>src/payops/remediation/store.py\<close>.

  A database holds the rows of the two tables. The text column of a row is \<open>Dump v\<close>, the text that
  \<^verbatim>\<open>model_dump_json\<close> writes for \<open>v\<close> (its fields need not satisfy the validators: a row may have
  been edited by hand), or \<open>Unreadable\<close>. Each operation is one SQL transaction, hence one state
  transformer: it either commits or leaves the database as it was. The clock reading of
  \<^verbatim>\<open>transition\<close> is an argument.

  Main facts: every operation keeps the ledger well formed (\<open>ledger_ok_create\<close>,
  \<open>ledger_ok_transition\<close>); a well formed ledger holds for each action the unique legal history of
  its state; and a record that has been superseded never comes back (\<open>ledger.superseded\<close>), so a
  second claim of the same record fails.
\<close>

section \<open>Records\<close>

datatype action_state = PROPOSED | APPROVED | EXECUTING | SUCCEEDED | FAILED | UNKNOWN

record approval =
  ap_subject :: string
  ap_digest :: string
  ap_approved_at :: instant
  ap_expires_at :: instant
  ap_policy :: string

record effect_receipt =
  er_outcome :: action_state
  er_uid :: string
  er_previous :: string
  er_resulting :: "string option"

record action_record =
  ar_id :: string
  ar_proposal :: action
  ar_proposer :: string
  ar_state :: action_state
  ar_revision :: int
  ar_created_at :: instant
  ar_updated_at :: instant
  ar_approval :: "approval option"
  ar_result :: "effect_receipt option"

record audit_event =
  ae_action :: string
  ae_revision :: int
  ae_state :: action_state
  ae_actor :: string
  ae_reason :: string
  ae_recorded_at :: instant

section \<open>Validation\<close>

definition valid_approval :: "approval \<Rightarrow> bool" where
  "valid_approval a \<longleftrightarrow>
     is_identifier (ap_subject a) \<and> is_digest (ap_digest a) \<and> ap_policy a = ''payops-policy-v1''"

definition valid_receipt :: "effect_receipt \<Rightarrow> bool" where
  "valid_receipt r \<longleftrightarrow>
     er_outcome r \<in> {SUCCEEDED, FAILED} \<and> is_identifier (er_uid r) \<and> is_identifier (er_previous r)
     \<and> pred_option is_identifier (er_resulting r)"

definition valid_event :: "audit_event \<Rightarrow> bool" where
  "valid_event e \<longleftrightarrow>
     is_digest (ae_action e) \<and> 0 \<le> ae_revision e \<and> is_identifier (ae_actor e)
     \<and> is_identifier (ae_reason e)"

definition valid_record_fields :: "action_record \<Rightarrow> bool" where
  "valid_record_fields r \<longleftrightarrow>
     is_digest (ar_id r) \<and> valid_action (ar_proposal r) \<and> is_identifier (ar_proposer r)
     \<and> 0 \<le> ar_revision r \<and> pred_option valid_approval (ar_approval r)
     \<and> pred_option valid_receipt (ar_result r)"

definition validate_approval :: "action_record \<Rightarrow> approval \<Rightarrow> exn + unit" where
  "validate_approval r a =
     bindR (check (\<not> (ap_subject a = ar_proposer r \<or> ap_digest a \<noteq> ar_id r))
              (ValueError ''approval identity/digest mismatch'')) (\<lambda>_.
     let lifetime = ap_expires_at a - ap_approved_at a in
     check (0 < lifetime \<and> lifetime \<le> 300 * one_second)
       (ValueError ''approval lifetime outside bounds''))"

definition consistent :: "action_record \<Rightarrow> exn + action_record" where
  "consistent r =
     bindR (check (ar_id r = action_digest (ar_proposal r)) (ValueError ''action digest mismatch'')) (\<lambda>_.
     bindR (check ((ar_state r = PROPOSED) = (ar_approval r = None))
              (ValueError ''approval/state mismatch'')) (\<lambda>_.
     bindR (case ar_approval r of None \<Rightarrow> Inr () | Some a \<Rightarrow> validate_approval r a) (\<lambda>_.
     bindR (if ar_state r \<in> {SUCCEEDED, FAILED}
            then (case ar_result r of
                    None \<Rightarrow> Inl (ValueError ''result/state mismatch'')
                  | Some e \<Rightarrow>
                      bindR (check (er_outcome e = ar_state r) (ValueError ''result/state mismatch'')) (\<lambda>_.
                      check ((er_uid e, er_previous e)
                               = (act_uid (ar_proposal r), act_version (ar_proposal r)))
                        (ValueError ''result precondition mismatch'')))
            else check (ar_result r = None) (ValueError ''unexpected effect result'')) (\<lambda>_.
     Inr r))))"

definition validate_record :: "action_record \<Rightarrow> exn + action_record" where
  "validate_record r = bindR (check (valid_record_fields r) invalid) (\<lambda>_. consistent r)"

definition validate_event :: "audit_event \<Rightarrow> exn + audit_event" where
  "validate_event e = bindR (check (valid_event e) invalid) (\<lambda>_. Inr e)"

section \<open>Tables\<close>

datatype 'a row_text = Dump 'a | Unreadable

fun load :: "('a \<Rightarrow> exn + 'a) \<Rightarrow> 'a row_text \<Rightarrow> exn + 'a" where
  "load validate (Dump v) = validate v"
| "load validate Unreadable = Inl invalid"

record audit_row =
  au_action :: string
  au_revision :: int
  au_payload :: "audit_event row_text"

record action_db =
  db_actions :: "string \<Rightarrow> action_record row_text option"
  db_audit :: "audit_row list"

definition empty_db :: action_db where
  "empty_db = \<lparr>db_actions = (\<lambda>_. None), db_audit = []\<rparr>"

fun TRANSITIONS :: "action_state \<Rightarrow> action_state list" where
  "TRANSITIONS PROPOSED = [APPROVED]"
| "TRANSITIONS APPROVED = [EXECUTING]"
| "TRANSITIONS EXECUTING = [SUCCEEDED, FAILED, UNKNOWN]"
| "TRANSITIONS SUCCEEDED = []"
| "TRANSITIONS FAILED = []"
| "TRANSITIONS UNKNOWN = []"

section \<open>Operations\<close>

definition action_get :: "action_db \<Rightarrow> string \<Rightarrow> exn + action_record" where
  "action_get db i =
     bindR (of_option (KeyError i) (db_actions db i)) (\<lambda>payload.
     bindR (load validate_record payload) (\<lambda>r.
     bindR (check (ar_id r = i) (ValueError ''action row identity mismatch'')) (\<lambda>_. Inr r)))"

definition audit_event_of :: "action_record \<Rightarrow> string \<Rightarrow> string \<Rightarrow> audit_event" where
  "audit_event_of r actor reason =
     \<lparr>ae_action = ar_id r, ae_revision = ar_revision r, ae_state = ar_state r, ae_actor = actor,
      ae_reason = reason, ae_recorded_at = ar_updated_at r\<rparr>"

text \<open>\<^verbatim>\<open>_audit\<close>: the row to insert.\<close>

definition audit_row_of :: "action_record \<Rightarrow> string \<Rightarrow> string \<Rightarrow> exn + audit_row" where
  "audit_row_of r actor reason =
     bindR (validate_event (audit_event_of r actor reason)) (\<lambda>event.
     Inr \<lparr>au_action = ar_id r, au_revision = ar_revision r, au_payload = Dump event\<rparr>)"

definition audit_key_taken :: "action_db \<Rightarrow> audit_row \<Rightarrow> bool" where
  "audit_key_taken db row \<longleftrightarrow>
     list_ex (\<lambda>x. (au_action x, au_revision x) = (au_action row, au_revision row)) (db_audit db)"

definition put_row :: "action_record \<Rightarrow> audit_row \<Rightarrow> action_db \<Rightarrow> action_db" where
  "put_row r row db =
     db\<lparr>db_actions := (db_actions db)(ar_id r \<mapsto> Dump r), db_audit := db_audit db @ [row]\<rparr>"

text \<open>A transaction that fails before its commit is rolled back.\<close>

definition commit :: "exn + action_record \<times> audit_row \<Rightarrow> (action_db, action_record) prog" where
  "commit plan db =
     (case plan of Inl e \<Rightarrow> (Inl e, db) | Inr (r, row) \<Rightarrow> (Inr r, put_row r row db))"

definition plan_create :: "action_record \<Rightarrow> exn + action_record \<times> audit_row" where
  "plan_create r =
     bindR (check (\<not> (ar_state r \<noteq> PROPOSED \<or> ar_revision r \<noteq> 0))
              (ValueError ''new action must be proposed'')) (\<lambda>_.
     bindR (audit_row_of r (ar_proposer r) ''POLICY_REVIEWED'') (\<lambda>row. Inr (r, row)))"

definition previous_proposal :: "action_record \<Rightarrow> action_db \<Rightarrow> exn + action_record" where
  "previous_proposal r db =
     bindR (action_get db (ar_id r)) (\<lambda>previous.
     bindR (check (\<not> (ar_proposer previous \<noteq> ar_proposer r \<or> ar_proposal previous \<noteq> ar_proposal r))
              (PermissionError ''proposal belongs to another identity'')) (\<lambda>_.
     Inr previous))"

definition primary_key_taken :: "action_db \<Rightarrow> action_record \<times> audit_row \<Rightarrow> bool" where
  "primary_key_taken db = (\<lambda>(r, row). db_actions db (ar_id r) \<noteq> None \<or> audit_key_taken db row)"

definition action_create :: "action_record \<Rightarrow> (action_db, action_record) prog" where
  "action_create r db =
     (case plan_create r of
        Inl e \<Rightarrow> (Inl e, db)
      | Inr p \<Rightarrow> if primary_key_taken db p then (previous_proposal r db, db) else commit (Inr p) db)"

definition after_record ::
  "instant \<Rightarrow> action_record \<Rightarrow> action_state \<Rightarrow> approval option \<Rightarrow> effect_receipt option
     \<Rightarrow> action_record" where
  "after_record now before state approval result =
     before\<lparr>ar_state := state, ar_revision := ar_revision before + 1, ar_updated_at := now,
            ar_approval := (case approval of None \<Rightarrow> ar_approval before | Some a \<Rightarrow> Some a),
            ar_result := result\<rparr>"

definition plan_transition ::
  "instant \<Rightarrow> action_record \<Rightarrow> action_state \<Rightarrow> string \<Rightarrow> string \<Rightarrow> approval option
     \<Rightarrow> effect_receipt option \<Rightarrow> action_db \<Rightarrow> exn + action_record \<times> audit_row" where
  "plan_transition now before state actor reason approval result db =
     bindR (check (state \<in> set (TRANSITIONS (ar_state before)))
              (TransitionConflict ''invalid action transition'')) (\<lambda>_.
     bindR (validate_record (after_record now before state approval result)) (\<lambda>after.
     bindR (check (db_actions db (ar_id before) = Some (Dump before))
              (TransitionConflict ''action changed concurrently'')) (\<lambda>_.
     bindR (audit_row_of after actor reason) (\<lambda>row.
     bindR (check (\<not> audit_key_taken db row) (IntegrityError ''remediation_audit'')) (\<lambda>_.
     Inr (after, row))))))"

definition action_transition ::
  "instant \<Rightarrow> action_record \<Rightarrow> action_state \<Rightarrow> string \<Rightarrow> string \<Rightarrow> approval option
     \<Rightarrow> effect_receipt option \<Rightarrow> (action_db, action_record) prog" where
  "action_transition now before state actor reason approval result db =
     commit (plan_transition now before state actor reason approval result db) db"

definition read_event :: "audit_row \<Rightarrow> exn + audit_event" where
  "read_event row =
     bindR (load validate_event (au_payload row)) (\<lambda>event.
     bindR (check ((ae_action event, ae_revision event) = (au_action row, au_revision row))
              (ValueError ''audit row identity mismatch'')) (\<lambda>_. Inr event))"

definition action_audit :: "action_db \<Rightarrow> string \<Rightarrow> exn + audit_event list" where
  "action_audit db i =
     mapR read_event (sort_key au_revision (filter (\<lambda>row. au_action row = i) (db_audit db)))"

section \<open>What validation accepts\<close>

definition two_person :: "action_record \<Rightarrow> approval \<Rightarrow> bool" where
  "two_person r a \<longleftrightarrow>
     ap_subject a \<noteq> ar_proposer r \<and> ap_digest a = ar_id r
     \<and> ap_approved_at a < ap_expires_at a \<and> ap_expires_at a \<le> ap_approved_at a + 300 * one_second"

definition receipt_matches :: "action_record \<Rightarrow> effect_receipt \<Rightarrow> bool" where
  "receipt_matches r e \<longleftrightarrow>
     er_outcome e = ar_state r \<and> er_uid e = act_uid (ar_proposal r)
     \<and> er_previous e = act_version (ar_proposal r)"

definition consistent_record :: "action_record \<Rightarrow> bool" where
  "consistent_record r \<longleftrightarrow>
     ar_id r = action_digest (ar_proposal r)
     \<and> (case ar_approval r of None \<Rightarrow> ar_state r = PROPOSED
                            | Some a \<Rightarrow> ar_state r \<noteq> PROPOSED \<and> two_person r a)
     \<and> (case ar_result r of None \<Rightarrow> ar_state r \<notin> {SUCCEEDED, FAILED}
                          | Some e \<Rightarrow> ar_state r \<in> {SUCCEEDED, FAILED} \<and> receipt_matches r e)"

lemma consistent_iff: "consistent r = Inr r' \<longleftrightarrow> r' = r \<and> consistent_record r"
  by (auto simp: consistent_def consistent_record_def validate_approval_def two_person_def
      receipt_matches_def Let_def split: option.splits if_splits)

lemma validate_record_iff:
  "validate_record r = Inr r' \<longleftrightarrow> r' = r \<and> valid_record_fields r \<and> consistent_record r"
  by (auto simp: validate_record_def consistent_iff)

lemma action_get_iff:
  "action_get db i = Inr r \<longleftrightarrow>
     db_actions db i = Some (Dump r) \<and> ar_id r = i \<and> valid_record_fields r \<and> consistent_record r"
proof -
  have "load validate_record t = Inr r \<longleftrightarrow> t = Dump r \<and> valid_record_fields r \<and> consistent_record r" for t
    by (cases t) (auto simp: validate_record_iff)
  then show ?thesis by (auto simp: action_get_def)
qed

section \<open>Committed effects of the operations\<close>

lemma audit_row_of_iff:
  "audit_row_of r actor reason = Inr row \<longleftrightarrow>
     row = \<lparr>au_action = ar_id r, au_revision = ar_revision r,
            au_payload = Dump (audit_event_of r actor reason)\<rparr>
     \<and> valid_event (audit_event_of r actor reason)"
  by (auto simp: audit_row_of_def validate_event_def)

lemma commit_simps [simp]:
  "commit (Inl e) db = (Inl e, db)"
  "commit (Inr (r, row)) db = (Inr r, put_row r row db)"
  by (simp_all add: commit_def)

lemma commit_iff:
  "commit plan db = (Inr r, db') \<longleftrightarrow> (\<exists>row. plan = Inr (r, row) \<and> db' = put_row r row db)"
  "commit plan db = (Inl e, db') \<longleftrightarrow> plan = Inl e \<and> db' = db"
  by (cases plan; auto)+

lemma plan_create_iff:
  "plan_create r = Inr p \<longleftrightarrow>
     (\<exists>row. p = (r, row) \<and> ar_state r = PROPOSED \<and> ar_revision r = 0
        \<and> audit_row_of r (ar_proposer r) ''POLICY_REVIEWED'' = Inr row)"
  by (auto simp: plan_create_def)

lemma previous_proposal_iff:
  "previous_proposal r db = Inr q \<longleftrightarrow>
     action_get db (ar_id r) = Inr q \<and> ar_proposer q = ar_proposer r \<and> ar_proposal q = ar_proposal r"
  by (auto simp: previous_proposal_def)

lemma action_create_cases:
  assumes "action_create r db = (x, db')"
  obtains (unchanged) "db' = db" "\<And>q. x = Inr q \<Longrightarrow> previous_proposal r db = Inr q"
  | (created) row where "x = Inr r" "ar_state r = PROPOSED" "ar_revision r = 0"
      "db_actions db (ar_id r) = None"
      "audit_row_of r (ar_proposer r) ''POLICY_REVIEWED'' = Inr row"
      "db' = put_row r row db"
proof (cases "plan_create r")
  case (Inl e)
  with assms have "db' = db" "x = Inl e" by (auto simp: action_create_def)
  then show thesis by (intro unchanged) auto
next
  case (Inr p)
  with assms show thesis
    by (cases "primary_key_taken db p")
       (auto simp: action_create_def plan_create_iff primary_key_taken_def intro: unchanged created)
qed

lemma action_transition_Inr:
  "action_transition now before state actor reason ap res db = (Inr after, db') \<longleftrightarrow>
     (\<exists>row. state \<in> set (TRANSITIONS (ar_state before))
        \<and> after = after_record now before state ap res
        \<and> valid_record_fields after \<and> consistent_record after
        \<and> db_actions db (ar_id before) = Some (Dump before)
        \<and> audit_row_of after actor reason = Inr row \<and> \<not> audit_key_taken db row
        \<and> db' = put_row after row db)"
  by (auto simp: action_transition_def commit_iff plan_transition_def validate_record_iff)

lemma action_transition_Inl:
  "action_transition now before state actor reason ap res db = (Inl e, db') \<Longrightarrow> db' = db"
  by (simp add: action_transition_def commit_iff)

lemma after_record_simps [simp]:
  "ar_id (after_record now r st ap res) = ar_id r"
  "ar_proposal (after_record now r st ap res) = ar_proposal r"
  "ar_proposer (after_record now r st ap res) = ar_proposer r"
  "ar_state (after_record now r st ap res) = st"
  "ar_revision (after_record now r st ap res) = ar_revision r + 1"
  "ar_updated_at (after_record now r st ap res) = now"
  "ar_created_at (after_record now r st ap res) = ar_created_at r"
  "ar_result (after_record now r st ap res) = res"
  "ar_approval (after_record now r st None res) = ar_approval r"
  "ar_approval (after_record now r st (Some a) res) = Some a"
  by (simp_all add: after_record_def)

lemma put_row_simps [simp]:
  "db_actions (put_row r row db) = (db_actions db)(ar_id r \<mapsto> Dump r)"
  "db_audit (put_row r row db) = db_audit db @ [row]"
  by (simp_all add: put_row_def)

section \<open>Versioned rows\<close>

text \<open>What a client may rely on when rows are only replaced by rows of higher rank: a row that was
  superseded is never current again, whatever the other workers commit in between.\<close>

locale versioned_rows =
  fixes current :: "'db \<Rightarrow> 'k \<Rightarrow> 'v option"
    and rank :: "'v \<Rightarrow> int"
    and commit :: "'db \<Rightarrow> 'db \<Rightarrow> bool"
  assumes commit_raises:
    "commit db db' \<Longrightarrow> current db k = Some v \<Longrightarrow>
       current db' k = Some v \<or> (\<exists>v'. current db' k = Some v' \<and> rank v < rank v')"
begin

lemma rank_mono:
  assumes "commit\<^sup>*\<^sup>* db db'" and "current db k = Some v"
  shows "\<exists>v'. current db' k = Some v' \<and> (v' = v \<or> rank v < rank v')"
  using assms
proof (induction rule: rtranclp_induct)
  case (step y z)
  then obtain w where "current y k = Some w" "w = v \<or> rank v < rank w" by blast
  with commit_raises [OF step.hyps(2), of k w] show ?case by fastforce
qed simp

lemma superseded:
  assumes "commit\<^sup>*\<^sup>* db db'" and "current db k = Some w" and "rank v < rank w"
  shows "current db' k \<noteq> Some v"
  using rank_mono [OF assms(1,2)] assms(3) by auto

end

text \<open>One committed or failed transaction of any client. An \<^verbatim>\<open>ActionRecord\<close> handed to \<^verbatim>\<open>create\<close> has
  passed its validators.\<close>

inductive ledger_step :: "action_db \<Rightarrow> action_db \<Rightarrow> bool" where
  create: "validate_record r = Inr r \<Longrightarrow> action_create r db = (x, db') \<Longrightarrow> ledger_step db db'"
| transition:
    "action_transition now before state actor reason ap res db = (x, db') \<Longrightarrow> ledger_step db db'"

fun record_of :: "action_record row_text option \<Rightarrow> action_record option" where
  "record_of (Some (Dump r)) = Some r"
| "record_of _ = None"

abbreviation current_record :: "action_db \<Rightarrow> string \<Rightarrow> action_record option" where
  "current_record db i \<equiv> record_of (db_actions db i)"

lemma record_of_Some [simp]: "record_of t = Some r \<longleftrightarrow> t = Some (Dump r)"
  by (cases t rule: record_of.cases) auto

lemma action_transition_raises:
  assumes "action_transition now before state actor reason ap res db = (x, db')"
    and "current_record db i = Some r"
  shows "current_record db' i = Some r
         \<or> (\<exists>r'. current_record db' i = Some r' \<and> ar_revision r < ar_revision r')"
proof (cases x)
  case (Inl e)
  with assms show ?thesis using action_transition_Inl by blast
next
  case (Inr after)
  with assms(1) have "after = after_record now before state ap res"
      "db_actions db (ar_id before) = Some (Dump before)"
      "db_actions db' = (db_actions db)(ar_id before \<mapsto> Dump after)"
    by (auto simp: action_transition_Inr)
  with assms(2) show ?thesis by auto
qed

lemma action_create_raises:
  assumes "action_create r db = (x, db')" and "current_record db i = Some q"
  shows "current_record db' i = Some q"
  using assms by (cases rule: action_create_cases) auto

interpretation ledger: versioned_rows current_record ar_revision ledger_step
  by unfold_locales
     (auto elim!: ledger_step.cases dest: action_transition_raises action_create_raises)

lemma second_claim_fails:
  assumes "action_transition now before st actor reason ap res db = (Inr after, db1)"
    and "ledger_step\<^sup>*\<^sup>* db1 db2"
    and "action_transition now' before st' actor' reason' ap' res' db2 = (x, db3)"
  shows "(\<exists>e. x = Inl e) \<and> db3 = db2"
proof -
  from assms(1) have "current_record db1 (ar_id before) = Some after"
      "ar_revision before < ar_revision after"
    by (auto simp: action_transition_Inr)
  from ledger.superseded [OF assms(2) this] have "db_actions db2 (ar_id before) \<noteq> Some (Dump before)"
    by simp
  with assms(3) have "\<exists>e. x = Inl e" by (cases x) (auto simp: action_transition_Inr)
  with assms(3) show ?thesis using action_transition_Inl by blast
qed

section \<open>Well formed ledgers\<close>

fun path_to :: "action_state \<Rightarrow> action_state list" where
  "path_to PROPOSED = [PROPOSED]"
| "path_to APPROVED = [PROPOSED, APPROVED]"
| "path_to EXECUTING = [PROPOSED, APPROVED, EXECUTING]"
| "path_to t = [PROPOSED, APPROVED, EXECUTING, t]"

text \<open>The history of a record: one event per revision, along the only legal path to its state, the
  last one recorded when the record was written.\<close>

definition history_of :: "action_record \<Rightarrow> audit_event list \<Rightarrow> bool" where
  "history_of r evs \<longleftrightarrow>
     map ae_state evs = path_to (ar_state r) \<and> map ae_revision evs = [0..ar_revision r]
     \<and> list_all (\<lambda>e. valid_event e \<and> ae_action e = ar_id r) evs
     \<and> ae_recorded_at (last evs) = ar_updated_at r"

definition event_row :: "audit_event \<Rightarrow> audit_row" where
  "event_row e = \<lparr>au_action = ae_action e, au_revision = ae_revision e, au_payload = Dump e\<rparr>"

definition audit_rows :: "action_db \<Rightarrow> string \<Rightarrow> audit_row list" where
  "audit_rows db i = filter (\<lambda>row. au_action row = i) (db_audit db)"

definition entry_ok :: "action_db \<Rightarrow> string \<Rightarrow> bool" where
  "entry_ok db i \<longleftrightarrow>
     (case db_actions db i of
        None \<Rightarrow> audit_rows db i = []
      | Some Unreadable \<Rightarrow> False
      | Some (Dump r) \<Rightarrow> ar_id r = i \<and> valid_record_fields r \<and> consistent_record r
          \<and> (\<exists>evs. audit_rows db i = map event_row evs \<and> history_of r evs))"

definition ledger_ok :: "action_db \<Rightarrow> bool" where
  "ledger_ok db \<longleftrightarrow> (\<forall>i. entry_ok db i)"

lemma ledger_ok_empty: "ledger_ok empty_db"
  by (simp add: ledger_ok_def entry_ok_def empty_db_def audit_rows_def)

lemma ledger_ok_None: "ledger_ok db \<Longrightarrow> db_actions db i = None \<Longrightarrow> audit_rows db i = []"
  by (auto simp: ledger_ok_def entry_ok_def dest: spec [of _ i])

lemma ledger_ok_Some:
  assumes "ledger_ok db" and "db_actions db i = Some t"
  obtains r evs where "t = Dump r" "ar_id r = i" "valid_record_fields r" "consistent_record r"
    "audit_rows db i = map event_row evs" "history_of r evs"
  using assms by (cases t) (auto simp: ledger_ok_def entry_ok_def dest!: spec [of _ i])

lemma entry_ok_frame:
  assumes "entry_ok db i" and "db_actions db' i = db_actions db i" and "audit_rows db' i = audit_rows db i"
  shows "entry_ok db' i"
  using assms unfolding entry_ok_def by (simp cong: option.case_cong row_text.case_cong)

lemma ledger_ok_put_row:
  assumes "ledger_ok db" and "audit_row_of r actor reason = Inr row"
    and "valid_record_fields r" "consistent_record r"
    and "audit_rows db (ar_id r) = map event_row evs"
    and "history_of r (evs @ [audit_event_of r actor reason])"
  shows "ledger_ok (put_row r row db)"
  unfolding ledger_ok_def
proof
  fix i
  show "entry_ok (put_row r row db) i"
  proof (cases "i = ar_id r")
    case True
    have "row = event_row (audit_event_of r actor reason)" "au_action row = ar_id r"
      using assms(2) by (auto simp: audit_row_of_iff event_row_def audit_event_of_def)
    then have "audit_rows (put_row r row db) i
                 = map event_row (evs @ [audit_event_of r actor reason])"
      using assms(5) True by (simp add: audit_rows_def)
    with assms(3,4,6) True show ?thesis
      unfolding entry_ok_def by (auto simp del: map_append)
  next
    case False
    with assms(2) have "audit_rows (put_row r row db) i = audit_rows db i"
      by (auto simp: audit_rows_def audit_row_of_iff)
    moreover have "entry_ok db i" using assms(1) by (simp add: ledger_ok_def)
    ultimately show ?thesis using False by (simp add: entry_ok_frame)
  qed
qed

lemma ledger_ok_create:
  assumes "ledger_ok db" and "validate_record r = Inr r" and "action_create r db = (x, db')"
  shows "ledger_ok db'"
  using assms(3)
proof (cases rule: action_create_cases)
  case (created row)
  from assms(1) created have "audit_rows db (ar_id r) = map event_row []"
    by (simp add: ledger_ok_None)
  moreover have "history_of r ([] @ [audit_event_of r (ar_proposer r) ''POLICY_REVIEWED''])"
    using created by (simp add: history_of_def audit_row_of_iff) (simp add: audit_event_of_def)
  ultimately show ?thesis
    using assms(2) ledger_ok_put_row [OF assms(1) created(5)] created(6)
    by (simp add: validate_record_iff)
qed (use assms(1) in simp)

lemma path_to_step: "t \<in> set (TRANSITIONS s) \<Longrightarrow> path_to t = path_to s @ [t]"
  by (cases s; cases t) simp_all

lemma history_of_extend:
  assumes "history_of r evs" and "st \<in> set (TRANSITIONS (ar_state r))" and "0 \<le> ar_revision r"
    and "valid_event (audit_event_of (after_record now r st ap res) actor reason)"
  shows "history_of (after_record now r st ap res)
           (evs @ [audit_event_of (after_record now r st ap res) actor reason])"
  using assms
  by (simp add: history_of_def path_to_step upto_rec2 [of 0 "ar_revision r + 1"])
     (simp add: audit_event_of_def)

lemma ledger_ok_transition:
  assumes "ledger_ok db"
    and "action_transition now before st actor reason ap res db = (x, db')"
  shows "ledger_ok db'"
proof (cases x)
  case (Inl e)
  with assms show ?thesis using action_transition_Inl by metis
next
  case (Inr after)
  with assms(2) obtain row where t: "st \<in> set (TRANSITIONS (ar_state before))"
      "after = after_record now before st ap res" "valid_record_fields after"
      "consistent_record after" "db_actions db (ar_id before) = Some (Dump before)"
      "audit_row_of after actor reason = Inr row" "db' = put_row after row db"
    by (auto simp: action_transition_Inr)
  from assms(1) t(5) obtain evs where evs: "valid_record_fields before"
      "audit_rows db (ar_id before) = map event_row evs" "history_of before evs"
    by (auto elim: ledger_ok_Some)
  have "history_of after (evs @ [audit_event_of after actor reason])"
    unfolding t(2) using t(1,2,6) evs(1)
    by (intro history_of_extend [OF evs(3)]) (auto simp: valid_record_fields_def audit_row_of_iff)
  with evs(2) t show ?thesis using ledger_ok_put_row [OF assms(1) t(6,3,4)] by simp
qed

lemma ledger_ok_step: "ledger_step db db' \<Longrightarrow> ledger_ok db \<Longrightarrow> ledger_ok db'"
  by (auto elim!: ledger_step.cases intro: ledger_ok_create ledger_ok_transition)

lemma ledger_ok_steps: "ledger_step\<^sup>*\<^sup>* db db' \<Longrightarrow> ledger_ok db \<Longrightarrow> ledger_ok db'"
  by (induction rule: rtranclp_induct) (auto intro: ledger_ok_step)

section \<open>The audit trail\<close>

lemma read_event_row: "valid_event e \<Longrightarrow> read_event (event_row e) = Inr e"
  by (simp add: read_event_def event_row_def validate_event_def)

lemma sort_event_rows:
  assumes "map ae_revision evs = [0..n]"
  shows "sort_key au_revision (map event_row evs) = map event_row evs"
proof -
  have "map au_revision (map event_row evs) = [0..n]"
    using assms by (simp add: event_row_def comp_def)
  then show ?thesis by (intro sort_key_id_if_sorted) (simp only: sorted_upto)
qed

lemma mapR_read_event: "list_all valid_event evs \<Longrightarrow> mapR read_event (map event_row evs) = Inr evs"
  by (induction evs) (simp_all add: read_event_row)

lemma action_audit_history:
  assumes "audit_rows db i = map event_row evs" and "history_of r evs"
  shows "action_audit db i = Inr evs"
proof -
  have "list_all valid_event evs"
    using assms(2) by (auto simp: history_of_def list_all_iff)
  moreover have "sort_key au_revision (map event_row evs) = map event_row evs"
    using assms(2) by (auto simp: history_of_def intro: sort_event_rows)
  ultimately show ?thesis
    using assms(1) by (simp add: action_audit_def audit_rows_def mapR_read_event)
qed

lemma action_audit_ok:
  assumes "ledger_ok db" and "db_actions db i = Some t"
  obtains r evs where "t = Dump r" "action_get db i = Inr r" "action_audit db i = Inr evs"
    "history_of r evs"
  using assms by (elim ledger_ok_Some) (auto simp: action_get_iff intro: action_audit_history that)

lemma action_audit_missing: "ledger_ok db \<Longrightarrow> db_actions db i = None \<Longrightarrow> action_audit db i = Inr []"
  using ledger_ok_None by (auto simp: action_audit_def audit_rows_def)

section \<open>Refinement of an append-only history\<close>

text \<open>The specification: every action has a history of states that starts with \<open>PROPOSED\<close> and only
  grows by legal transitions, one at a time.\<close>

type_synonym histories = "string \<Rightarrow> action_state list"

definition extends_legally :: "action_state list \<Rightarrow> action_state \<Rightarrow> bool" where
  "extends_legally h s \<longleftrightarrow> (if h = [] then s = PROPOSED else s \<in> set (TRANSITIONS (last h)))"

definition history_step :: "histories \<Rightarrow> histories \<Rightarrow> bool" where
  "history_step H H' \<longleftrightarrow> H' = H \<or> (\<exists>i s. extends_legally (H i) s \<and> H' = H(i := H i @ [s]))"

definition histories :: "action_db \<Rightarrow> histories" where
  "histories db i = (case action_audit db i of Inl _ \<Rightarrow> [] | Inr evs \<Rightarrow> map ae_state evs)"

lemma histories_eq:
  assumes "ledger_ok db"
  shows "histories db i = (case current_record db i of None \<Rightarrow> [] | Some r \<Rightarrow> path_to (ar_state r))"
proof (cases "db_actions db i")
  case None
  with action_audit_missing [OF assms] show ?thesis by (simp add: histories_def)
next
  case (Some t)
  from action_audit_ok [OF assms Some] show ?thesis
    by (metis Some histories_def history_of_def option.simps(5) record_of.simps(1) sum.simps(6))
qed

lemma path_to_last [simp]: "last (path_to s) = s" "path_to s \<noteq> []"
  by (cases s; simp)+

lemma put_row_histories:
  assumes "ledger_ok db" and "ledger_ok (put_row r row db)"
    and "path_to (ar_state r) = histories db (ar_id r) @ [ar_state r]"
    and "extends_legally (histories db (ar_id r)) (ar_state r)"
  shows "history_step (histories db) (histories (put_row r row db))"
proof -
  have "histories (put_row r row db) = (histories db)(ar_id r := histories db (ar_id r) @ [ar_state r])"
    using assms(3) by (auto simp: histories_eq [OF assms(1)] histories_eq [OF assms(2)] fun_eq_iff)
  with assms(4) show ?thesis unfolding history_step_def by blast
qed

lemma transition_histories:
  assumes "ledger_ok db"
    and "action_transition now before st actor reason ap res db = (x, db')"
  shows "history_step (histories db) (histories db')"
proof (cases x)
  case (Inl e)
  with assms(2) action_transition_Inl show ?thesis by (metis history_step_def)
next
  case (Inr after)
  with assms(2) obtain row where t: "st \<in> set (TRANSITIONS (ar_state before))"
      "after = after_record now before st ap res" "db_actions db (ar_id before) = Some (Dump before)"
      "db' = put_row after row db"
    by (auto simp: action_transition_Inr)
  then have "histories db (ar_id after) = path_to (ar_state before)"
    by (simp add: histories_eq [OF assms(1)])
  with t show ?thesis
    using ledger_ok_transition [OF assms] put_row_histories [OF assms(1)]
    by (simp add: path_to_step extends_legally_def)
qed

lemma create_histories:
  assumes "ledger_ok db" and "validate_record r = Inr r" and "action_create r db = (x, db')"
  shows "history_step (histories db) (histories db')"
  using assms(3)
proof (cases rule: action_create_cases)
  case (created row)
  then have "histories db (ar_id r) = []" by (simp add: histories_eq [OF assms(1)])
  with created ledger_ok_create [OF assms] show ?thesis
    using put_row_histories [OF assms(1)] by (simp add: extends_legally_def)
qed (simp add: history_step_def)

lemma ledger_step_refines:
  "ledger_step db db' \<Longrightarrow> ledger_ok db \<Longrightarrow> history_step (histories db) (histories db')"
  by (auto elim!: ledger_step.cases intro: create_histories transition_histories)

section \<open>When a transition commits\<close>

lemma next_audit_key_free:
  assumes "ledger_ok db" and "db_actions db (ar_id r) = Some (Dump r)"
    and "au_action row = ar_id r" and "au_revision row = ar_revision r + 1"
  shows "\<not> audit_key_taken db row"
proof
  assume "audit_key_taken db row"
  then obtain x where "x \<in> set (audit_rows db (ar_id r))" "au_revision x = ar_revision r + 1"
    using assms(3,4) by (auto simp: audit_key_taken_def audit_rows_def list_ex_iff)
  moreover from assms(1,2) obtain evs where evs: "audit_rows db (ar_id r) = map event_row evs"
      "map ae_revision evs = [0..ar_revision r]"
    by (auto elim!: ledger_ok_Some simp: history_of_def)
  ultimately obtain e where "e \<in> set evs" "ae_revision e = ar_revision r + 1"
    by (auto simp: event_row_def)
  then have "ar_revision r + 1 \<in> set (map ae_revision evs)" by force
  with evs(2) show False by simp
qed

lemma transition_commits:
  assumes "ledger_ok db"
  shows "fst (action_transition now before st actor reason ap res db) = Inr after \<longleftrightarrow>
     after = after_record now before st ap res
     \<and> st \<in> set (TRANSITIONS (ar_state before)) \<and> validate_record after = Inr after
     \<and> action_get db (ar_id before) = Inr before \<and> is_identifier actor \<and> is_identifier reason"
    (is "?L \<longleftrightarrow> ?R")
proof
  assume ?L
  then obtain db' where "action_transition now before st actor reason ap res db = (Inr after, db')"
    by (metis prod.collapse)
  then have t: "st \<in> set (TRANSITIONS (ar_state before))" "after = after_record now before st ap res"
      "valid_record_fields after" "consistent_record after"
      "db_actions db (ar_id before) = Some (Dump before)"
      "valid_event (audit_event_of after actor reason)"
    by (auto simp: action_transition_Inr audit_row_of_iff)
  with ledger_ok_Some [OF assms t(5)] have "valid_record_fields before" "consistent_record before"
    by auto
  with t show ?R
    by (auto simp: validate_record_iff action_get_iff valid_event_def audit_event_of_def)
next
  assume R: ?R
  then have after: "valid_record_fields after" "consistent_record after"
      and cur: "db_actions db (ar_id before) = Some (Dump before)"
    by (auto simp: validate_record_iff action_get_iff)
  have "audit_row_of after actor reason
          = Inr \<lparr>au_action = ar_id after, au_revision = ar_revision after,
                 au_payload = Dump (audit_event_of after actor reason)\<rparr>"
    using R after(1)
    by (auto simp: audit_row_of_iff valid_event_def valid_record_fields_def) (auto simp: audit_event_of_def)
  moreover have "\<not> audit_key_taken db
      \<lparr>au_action = ar_id after, au_revision = ar_revision after,
       au_payload = Dump (audit_event_of after actor reason)\<rparr>"
    using R by (intro next_audit_key_free [OF assms cur]) auto
  ultimately show ?L
    using R cur by (auto simp: action_transition_def plan_transition_def)
qed

section \<open>Sample values\<close>

definition sample_action :: action where
  "sample_action =
     RestartAction \<lparr>ab_incident = ''inc-1'', ab_namespace = ''payops-sandbox'',
       ab_service = ''payments-api'', ab_uid = ''uid-1'', ab_version = ''v1'',
       ab_evidence = [''ev-1''], ab_mode = Local_kind\<rparr>"

definition sample_record :: action_record where
  "sample_record =
     \<lparr>ar_id = action_digest sample_action, ar_proposal = sample_action, ar_proposer = ''alice'',
      ar_state = PROPOSED, ar_revision = 0, ar_created_at = 1, ar_updated_at = 1,
      ar_approval = None, ar_result = None\<rparr>"

definition sample_approval :: approval where
  "sample_approval =
     \<lparr>ap_subject = ''bob'', ap_digest = action_digest sample_action, ap_approved_at = 2,
      ap_expires_at = 300000002, ap_policy = ''payops-policy-v1''\<rparr>"

definition sample_db :: action_db where
  "sample_db = snd (action_create sample_record empty_db)"

lemma sample_text:
  "valid_action sample_action" "is_identifier ''alice''" "is_identifier ''bob''"
  "is_identifier ''eve''" "is_identifier ''POLICY_REVIEWED''" "is_identifier ''HUMAN_APPROVED''"
  "is_identifier ''DISPATCH''" "is_identifier ''worker''"
  by code_simp+

lemma action_digest_is_digest [simp]: "is_digest (action_digest a)"
  by (simp add: action_digest_def)

lemma sample_valid: "validate_record sample_record = Inr sample_record"
  by (simp add: validate_record_iff valid_record_fields_def consistent_record_def sample_record_def
      sample_text)

lemma sample_create:
  "action_create sample_record empty_db = (Inr sample_record, sample_db)"
  "db_actions sample_db (action_digest sample_action) = Some (Dump sample_record)"
  "db_audit sample_db
     = [event_row (audit_event_of sample_record ''alice'' ''POLICY_REVIEWED'')]"
  by (simp_all add: action_create_def plan_create_def sample_record_def audit_row_of_def
      validate_event_def valid_event_def audit_event_of_def sample_text primary_key_taken_def
      audit_key_taken_def empty_db_def sample_db_def event_row_def)

lemma sample_ledger: "ledger_step empty_db sample_db" "ledger_ok sample_db"
  using ledger_step.create [OF sample_valid sample_create(1)] ledger_ok_step ledger_ok_empty by auto

lemma sample_reachable: "ledger_step\<^sup>*\<^sup>* empty_db sample_db"
  using sample_ledger(1) by blast

lemma sample_approve:
  "fst (action_transition 3 sample_record APPROVED ''bob'' ''HUMAN_APPROVED'' (Some sample_approval) None
      sample_db)
   = Inr (after_record 3 sample_record APPROVED (Some sample_approval) None)"
  unfolding transition_commits [OF sample_ledger(2)] validate_record_iff action_get_iff
  by (simp add: sample_create sample_valid valid_record_fields_def sample_text
      consistent_record_def two_person_def valid_approval_def one_second_def)
     (simp add: sample_record_def sample_approval_def sample_create sample_text)

section \<open>Properties\<close>

text \<open>A persisted record is accepted exactly when its fields are well typed and it is consistent:
  its identifier is the digest of its proposal, a state past \<open>PROPOSED\<close> carries an approval of the
  same digest by a second person with a lifetime of at most five minutes, and exactly the completed
  states carry a result that names the proposed resource version.\<close>

theorem record_validation:
  "validate_record r = Inr r' \<longleftrightarrow> r' = r \<and> valid_record_fields r \<and> consistent_record r"
  by (rule validate_record_iff)

text \<open>C20: In every database that any sequence of transactions can produce, each stored action is
  readable and its audit query returns one event per revision, along the only legal path to its
  current state.\<close>

theorem audit_trail_complete:
  assumes "ledger_step\<^sup>*\<^sup>* empty_db db" and "db_actions db i = Some t"
  shows "\<exists>r evs. action_get db i = Inr r \<and> action_audit db i = Inr evs
           \<and> map ae_state evs = path_to (ar_state r) \<and> map ae_revision evs = [0..ar_revision r]"
  using action_audit_ok [OF ledger_ok_steps [OF assms(1) ledger_ok_empty] assms(2)]
  by (metis history_of_def)

theorem audit_trail_complete_witness:
  "\<exists>r evs. action_get sample_db (action_digest sample_action) = Inr r
     \<and> action_audit sample_db (action_digest sample_action) = Inr evs
     \<and> map ae_state evs = path_to (ar_state r) \<and> map ae_revision evs = [0..ar_revision r]"
  by (rule audit_trail_complete [OF sample_reachable sample_create(2)])

text \<open>C21: Every transaction refines the append-only specification: seen through the audit query, it
  leaves all histories alone or appends one legal state to one of them.\<close>

theorem ledger_refines_histories:
  assumes "ledger_step\<^sup>*\<^sup>* empty_db db" and "ledger_step db db'"
  shows "history_step (histories db) (histories db')"
  by (rule ledger_step_refines [OF assms(2) ledger_ok_steps [OF assms(1) ledger_ok_empty]])

theorem ledger_refines_histories_witness:
  "history_step (histories empty_db) (histories sample_db)"
  by (rule ledger_refines_histories [OF rtranclp.rtrancl_refl sample_ledger(1)])

text \<open>C19: A record can be claimed once: after a committed transition from a record, every later
  transition from the same record fails and changes nothing, whatever other transactions commit in
  between.\<close>

theorem claim_is_exclusive:
  assumes "action_transition now before st actor reason ap res db = (Inr after, db1)"
    and "ledger_step\<^sup>*\<^sup>* db1 db2"
    and "action_transition now' before st' actor' reason' ap' res' db2 = (x, db3)"
  shows "(\<exists>e. x = Inl e) \<and> db3 = db2"
  by (rule second_claim_fails [OF assms])

theorem claim_is_exclusive_witness:
  "\<exists>db1 x db3.
     action_transition 3 sample_record APPROVED ''bob'' ''HUMAN_APPROVED'' (Some sample_approval) None
       sample_db = (Inr (after_record 3 sample_record APPROVED (Some sample_approval) None), db1)
     \<and> action_transition 4 sample_record APPROVED ''eve'' ''HUMAN_APPROVED'' (Some sample_approval) None
       db1 = (x, db3) \<and> (\<exists>e. x = Inl e) \<and> db3 = db1"
proof -
  obtain db1 where 1: "action_transition 3 sample_record APPROVED ''bob'' ''HUMAN_APPROVED''
      (Some sample_approval) None sample_db
      = (Inr (after_record 3 sample_record APPROVED (Some sample_approval) None), db1)"
    using sample_approve by (metis prod.collapse)
  obtain x db3 where 2: "action_transition 4 sample_record APPROVED ''eve'' ''HUMAN_APPROVED''
      (Some sample_approval) None db1 = (x, db3)"
    by (metis prod.collapse)
  from claim_is_exclusive [OF 1 rtranclp.rtrancl_refl 2] 1 2 show ?thesis by blast
qed

text \<open>In a reachable database a transition commits exactly when it is legal, its result passes
  the record validators, the caller holds the current row, and actor and reason are identifiers; in
  particular the audit insert never clashes.\<close>

theorem transition_commits_iff:
  assumes "ledger_step\<^sup>*\<^sup>* empty_db db"
  shows "fst (action_transition now before st actor reason ap res db) = Inr after \<longleftrightarrow>
     after = after_record now before st ap res
     \<and> st \<in> set (TRANSITIONS (ar_state before)) \<and> validate_record after = Inr after
     \<and> action_get db (ar_id before) = Inr before \<and> is_identifier actor \<and> is_identifier reason"
  by (rule transition_commits [OF ledger_ok_steps [OF assms ledger_ok_empty]])

theorem transition_commits_iff_witness:
  "action_get sample_db (ar_id sample_record) = Inr sample_record
   \<and> fst (action_transition 3 sample_record EXECUTING ''bob'' ''DISPATCH'' None None sample_db)
       \<noteq> Inr (after_record 3 sample_record EXECUTING None None)"
proof
  show "action_get sample_db (ar_id sample_record) = Inr sample_record"
    using transition_commits_iff [OF sample_reachable, THEN iffD1, OF sample_approve] by simp
  show "fst (action_transition 3 sample_record EXECUTING ''bob'' ''DISPATCH'' None None sample_db)
       \<noteq> Inr (after_record 3 sample_record EXECUTING None None)"
    unfolding transition_commits_iff [OF sample_reachable] by (simp add: sample_record_def)
qed

end
