(* ===== verification/Incidents.thy ===== *)
theory Incidents
  imports ActionStore
begin

text \<open>
  Incident persistence: \<^verbatim>\<open>src/payops/memory/store.py\<close>.

  The table is a map from incident identifier to a row with its optional idempotency key and its
  text. The identifier and creation time of a new incident are arguments (they come from
  \<^verbatim>\<open>uuid4\<close> and the clock). \<open>save_report\<close> reads a row and later updates it under a comparison of the
  text; the model takes the table at the read and at the update as two arguments, so that anything
  may have been committed in between.

  Main facts: the first saved report wins for good (\<open>report_is_final\<close>), and an idempotency key
  belongs to one incident and one request (\<open>row_with_key_unique\<close>).
\<close>

section \<open>Model\<close>

record incident_row =
  ir_key :: "string option"
  ir_payload :: "incident row_text"

type_synonym incident_db = "string \<Rightarrow> incident_row option"

definition decode_incident :: "string \<Rightarrow> incident_row \<Rightarrow> exn + incident" where
  "decode_incident i row =
     bindR (load validate_incident (ir_payload row)) (\<lambda>incident.
     bindR (check (in_id incident = i) (ValueError ''incident row identity mismatch'')) (\<lambda>_.
     Inr incident))"

definition incident_get :: "incident_db \<Rightarrow> string \<Rightarrow> exn + incident option" where
  "incident_get db i =
     (case db i of None \<Rightarrow> Inr None | Some row \<Rightarrow> bindR (decode_incident i row) (\<lambda>x. Inr (Some x)))"

text \<open>\<open>row_with_key\<close>: the identifier of a row with this key, the result of the \<^verbatim>\<open>select\<close>. The table is
  finite, so the candidates are given by the list \<open>ids\<close> of its identifiers.\<close>

definition row_with_key :: "string list \<Rightarrow> incident_db \<Rightarrow> string option \<Rightarrow> string option" where
  "row_with_key ids db key =
     find (\<lambda>i. case db i of None \<Rightarrow> False | Some row \<Rightarrow> ir_key row = key) ids"

definition key_taken :: "string list \<Rightarrow> incident_db \<Rightarrow> string option \<Rightarrow> bool" where
  "key_taken ids db key \<longleftrightarrow> key \<noteq> None \<and> row_with_key ids db key \<noteq> None"

record incident_table =
  it_rows :: incident_db
  it_ids :: "string list"

definition new_incident :: "string \<Rightarrow> instant \<Rightarrow> incident_create \<Rightarrow> incident" where
  "new_incident i now request =
     \<lparr>in_id = i, in_request = request, in_created = now, in_report = None\<rparr>"

definition existing_incident :: "incident_table \<Rightarrow> incident_create \<Rightarrow> string option \<Rightarrow> exn + incident" where
  "existing_incident t request key =
     (case row_with_key (it_ids t) (it_rows t) key of
        None \<Rightarrow> Inl (IntegrityError ''incidents'')
      | Some i \<Rightarrow>
          bindR (of_option (KeyError i) (it_rows t i)) (\<lambda>row.
          bindR (decode_incident i row) (\<lambda>previous.
          bindR (check (in_request previous = request)
                   (IdempotencyConflict ''idempotency key has a different payload'')) (\<lambda>_.
          Inr previous))))"

definition incident_create_op ::
  "string \<Rightarrow> instant \<Rightarrow> incident_create \<Rightarrow> string option \<Rightarrow> (incident_table, incident) prog" where
  "incident_create_op i now request key t =
     (case validate_incident (new_incident i now request) of
        Inl e \<Rightarrow> (Inl e, t)
      | Inr incident \<Rightarrow>
          if it_rows t i \<noteq> None \<or> key_taken (it_ids t) (it_rows t) key
          then (existing_incident t request key, t)
          else (Inr incident,
                t\<lparr>it_rows := (it_rows t)(i \<mapsto> \<lparr>ir_key = key, ir_payload = Dump incident\<rparr>),
                  it_ids := it_ids t @ [i]\<rparr>))"

text \<open>The first part of \<^verbatim>\<open>save_report\<close>: an answer, or the row read and the incident to write.\<close>

definition prepare_report ::
  "incident_table \<Rightarrow> incident_report \<Rightarrow> exn + (incident + incident_row \<times> incident)" where
  "prepare_report t report =
     bindR (of_option (KeyError (rp_incident report)) (it_rows t (rp_incident report))) (\<lambda>row.
     bindR (decode_incident (rp_incident report) row) (\<lambda>incident.
     if in_report incident \<noteq> None then Inr (Inl incident)
     else bindR (validate_incident (incident\<lparr>in_report := Some report\<rparr>)) (\<lambda>updated.
          Inr (Inr (row, updated)))))"

definition saved_incident :: "incident_table \<Rightarrow> string \<Rightarrow> exn + incident" where
  "saved_incident t i =
     bindR (incident_get (it_rows t) i) (\<lambda>saved.
     case saved of
       None \<Rightarrow> Inl (RuntimeError ''committed incident report is unavailable'')
     | Some x \<Rightarrow>
         if in_report x = None then Inl (RuntimeError ''committed incident report is unavailable'')
         else Inr x)"

definition publish_report ::
  "string \<Rightarrow> incident_row \<Rightarrow> incident \<Rightarrow> (incident_table, incident) prog" where
  "publish_report i row updated t =
     (case it_rows t i of
        Some current \<Rightarrow>
          if ir_payload current = ir_payload row
          then (Inr updated, t\<lparr>it_rows := (it_rows t)(i \<mapsto> current\<lparr>ir_payload := Dump updated\<rparr>)\<rparr>)
          else (saved_incident t i, t)
      | None \<Rightarrow> (saved_incident t i, t))"

definition save_report_at :: "incident_table \<Rightarrow> incident_report \<Rightarrow> (incident_table, incident) prog" where
  "save_report_at t_read report t =
     (case prepare_report t_read report of
        Inl e \<Rightarrow> (Inl e, t)
      | Inr (Inl incident) \<Rightarrow> (Inr incident, t)
      | Inr (Inr (row, updated)) \<Rightarrow> publish_report (rp_incident report) row updated t)"

definition save_report :: "incident_report \<Rightarrow> (incident_table, incident) prog" where
  "save_report report t = save_report_at t report t"

section \<open>Runs\<close>

inductive incident_step :: "incident_table \<Rightarrow> incident_table \<Rightarrow> bool" where
  created: "incident_create_op i now request key t = (x, t') \<Longrightarrow> incident_step t t'"
| saved: "save_report_at t_read report t = (x, t') \<Longrightarrow> incident_step t t'"

fun incident_of :: "incident_row option \<Rightarrow> incident option" where
  "incident_of (Some row) = (case ir_payload row of Dump x \<Rightarrow> Some x | Unreadable \<Rightarrow> None)"
| "incident_of None = None"

lemma incident_of_Some: "incident_of r = Some x \<longleftrightarrow> (\<exists>row. r = Some row \<and> ir_payload row = Dump x)"
  by (cases r) (auto split: row_text.splits)

fun report_rank :: "incident \<Rightarrow> int" where
  "report_rank x = (if in_report x = None then 0 else 1)"

lemma decode_incident_iff:
  "decode_incident i row = Inr x \<longleftrightarrow> ir_payload row = Dump x \<and> validate_incident x = Inr x \<and> in_id x = i"
proof -
  have "load validate_incident p = Inr x \<longleftrightarrow> p = Dump x \<and> validate_incident x = Inr x" for p
    by (cases p) (auto simp: validate_incident_iff)
  then show ?thesis by (auto simp: decode_incident_def)
qed

lemma prepare_report_write:
  assumes "prepare_report t report = Inr (Inr (row, updated))"
  obtains old where "it_rows t (rp_incident report) = Some row" "ir_payload row = Dump old"
    "in_id old = rp_incident report" "in_report old = None"
    "updated = old\<lparr>in_report := Some report\<rparr>" "validate_incident updated = Inr updated"
proof -
  from assms obtain old where "it_rows t (rp_incident report) = Some row"
      "decode_incident (rp_incident report) row = Inr old" "in_report old = None"
      "validate_incident (old\<lparr>in_report := Some report\<rparr>) = Inr updated"
    unfolding prepare_report_def by (auto split: if_splits)
  then show thesis by (intro that [of old]) (auto simp: decode_incident_iff validate_incident_iff)
qed

lemma incident_create_cases:
  assumes "incident_create_op i now request key t = (x, t')"
  obtains (same) "t' = t" "\<And>y. x = Inr y \<Longrightarrow> existing_incident t request key = Inr y"
  | (new) y where "it_rows t i = None" "\<not> key_taken (it_ids t) (it_rows t) key" "x = Inr y"
      "y = new_incident i now request" "validate_incident y = Inr y"
      "t' = t\<lparr>it_rows := (it_rows t)(i \<mapsto> \<lparr>ir_key = key, ir_payload = Dump y\<rparr>), it_ids := it_ids t @ [i]\<rparr>"
proof (cases "validate_incident (new_incident i now request)")
  case (Inl e)
  with assms have "t' = t" "x = Inl e" by (auto simp: incident_create_op_def)
  then show thesis by (intro same) auto
next
  case (Inr y)
  then have y: "y = new_incident i now request" "validate_incident y = Inr y"
    by (auto simp: validate_incident_iff)
  show thesis
  proof (cases "it_rows t i \<noteq> None \<or> key_taken (it_ids t) (it_rows t) key")
    case True
    with assms Inr have "t' = t" "x = existing_incident t request key"
      by (auto simp: incident_create_op_def)
    then show thesis by (intro same) auto
  next
    case False
    with assms Inr y show thesis by (intro new [of y]) (auto simp: incident_create_op_def)
  qed
qed

lemma save_report_cases:
  assumes "save_report_at t_read report t = (x, t')"
  obtains (same) "t' = t"
  | (written) old current where "it_rows t (rp_incident report) = Some current"
      "ir_payload current = Dump old" "in_report old = None" "in_id old = rp_incident report"
      "x = Inr (old\<lparr>in_report := Some report\<rparr>)"
      "validate_incident (old\<lparr>in_report := Some report\<rparr>) = Inr (old\<lparr>in_report := Some report\<rparr>)"
      "t' = t\<lparr>it_rows := (it_rows t)(rp_incident report
              \<mapsto> current\<lparr>ir_payload := Dump (old\<lparr>in_report := Some report\<rparr>)\<rparr>)\<rparr>"
proof -
  consider (quiet) "t' = t"
    | (publish) row updated where "prepare_report t_read report = Inr (Inr (row, updated))"
        "publish_report (rp_incident report) row updated t = (x, t')"
    using assms by (auto simp: save_report_at_def split: sum.splits)
  then show thesis
  proof cases
    case quiet
    then show thesis by (rule same)
  next
    case (publish row updated)
    from publish(1) obtain old where old: "ir_payload row = Dump old" "in_id old = rp_incident report"
        "in_report old = None" "updated = old\<lparr>in_report := Some report\<rparr>"
        "validate_incident updated = Inr updated"
      by (rule prepare_report_write) blast
    show thesis
    proof (cases "\<exists>current. it_rows t (rp_incident report) = Some current \<and> ir_payload current = ir_payload row")
      case True
      then obtain current where "it_rows t (rp_incident report) = Some current"
          "ir_payload current = ir_payload row" by blast
      with publish(2) old show thesis
        by (intro written [of current old]) (auto simp: publish_report_def)
    next
      case False
      with publish(2) have "t' = t" by (auto simp: publish_report_def split: option.splits if_splits)
      then show thesis by (rule same)
    qed
  qed
qed

interpretation incidents: versioned_rows "\<lambda>t i. incident_of (it_rows t i)" report_rank incident_step
proof
  fix t t' k v
  assume step: "incident_step t t'" and cur: "incident_of (it_rows t k) = Some v"
  from step show "incident_of (it_rows t' k) = Some v
      \<or> (\<exists>v'. incident_of (it_rows t' k) = Some v' \<and> report_rank v < report_rank v')"
  proof cases
    case (created i now request key x)
    then show ?thesis using cur by (cases rule: incident_create_cases) (auto simp: incident_of_Some)
  next
    case (saved t_read report x)
    then show ?thesis using cur by (cases rule: save_report_cases) (auto simp: incident_of_Some)
  qed
qed

text \<open>A published report is the last change of a row.\<close>

lemma report_is_final:
  assumes "incident_step\<^sup>*\<^sup>* t t'" and "incident_of (it_rows t i) = Some x" and "in_report x \<noteq> None"
  shows "incident_of (it_rows t' i) = Some x"
  using incidents.rank_mono [OF assms(1,2)] assms(3) by (auto split: if_splits)

section \<open>Well formed tables\<close>

definition incidents_ok :: "incident_table \<Rightarrow> bool" where
  "incidents_ok t \<longleftrightarrow>
     distinct (it_ids t) \<and> (\<forall>i. it_rows t i \<noteq> None \<longleftrightarrow> i \<in> set (it_ids t))
     \<and> (\<forall>i row. it_rows t i = Some row \<longrightarrow> (\<exists>x. decode_incident i row = Inr x))
     \<and> (\<forall>i j row row'. it_rows t i = Some row \<and> it_rows t j = Some row' \<and> ir_key row = ir_key row'
            \<and> ir_key row \<noteq> None \<longrightarrow> i = j)"

definition empty_table :: incident_table where
  "empty_table = \<lparr>it_rows = (\<lambda>_. None), it_ids = []\<rparr>"

lemma row_with_key_None:
  "row_with_key ids db key = None \<longleftrightarrow> (\<forall>i\<in>set ids. \<forall>row. db i = Some row \<longrightarrow> ir_key row \<noteq> key)"
  by (auto simp: row_with_key_def find_None_iff split: option.splits)

lemma incidents_ok_step:
  assumes "incident_step t t'" and "incidents_ok t"
  shows "incidents_ok t'"
  using assms(1)
proof cases
  case (created i now request key x)
  then show ?thesis
  proof (cases rule: incident_create_cases)
    case (new y)
    have free: "key = None \<or> (\<forall>j row. it_rows t j = Some row \<longrightarrow> ir_key row \<noteq> key)"
      using new(2) assms(2) by (fastforce simp: key_taken_def row_with_key_None incidents_ok_def)
    have "i \<notin> set (it_ids t)" using new(1) assms(2) by (metis incidents_ok_def)
    moreover have "decode_incident i \<lparr>ir_key = key, ir_payload = Dump y\<rparr> = Inr y"
      using new(4,5) by (simp add: decode_incident_iff new_incident_def)
    ultimately show ?thesis using new assms(2) free
      unfolding incidents_ok_def by (auto split: if_splits)
  qed (use assms(2) in simp)
next
  case (saved t_read report x)
  then show ?thesis
  proof (cases rule: save_report_cases)
    case (written old current)
    let ?new = "current\<lparr>ir_payload := Dump (old\<lparr>in_report := Some report\<rparr>)\<rparr>"
    have "decode_incident (rp_incident report) ?new = Inr (old\<lparr>in_report := Some report\<rparr>)"
      using written(4,6) by (simp add: decode_incident_iff)
    moreover have "ir_key row \<noteq> ir_key current \<or> ir_key row = None"
      if "it_rows t i = Some row" "i \<noteq> rp_incident report" for i row
      using that written(1) assms(2) by (metis incidents_ok_def)
    ultimately show ?thesis using written assms(2)
      unfolding incidents_ok_def by (auto split: if_splits)
  qed (use assms(2) in simp)
qed

lemma incidents_ok_steps: "incident_step\<^sup>*\<^sup>* t t' \<Longrightarrow> incidents_ok t \<Longrightarrow> incidents_ok t'"
  by (induction rule: rtranclp_induct) (auto intro: incidents_ok_step)

lemma incidents_ok_empty [simp]: "incidents_ok empty_table"
  by (simp add: incidents_ok_def empty_table_def)

text \<open>The table holds incident \<open>x\<close> under key \<open>key\<close>, whatever its report has become.\<close>

definition holds_request :: "incident_table \<Rightarrow> string \<Rightarrow> string option \<Rightarrow> incident_create \<Rightarrow> bool" where
  "holds_request t i key request \<longleftrightarrow>
     (\<exists>row x. it_rows t i = Some row \<and> ir_key row = key \<and> ir_payload row = Dump x
            \<and> in_id x = i \<and> in_request x = request)"

lemma holds_request_step:
  assumes "incident_step t t'" and "holds_request t j key request"
  shows "holds_request t' j key request"
  using assms(1)
proof cases
  case (created i now request key x)
  then show ?thesis using assms(2)
    by (cases rule: incident_create_cases) (auto simp: holds_request_def)
next
  case (saved t_read report x)
  then show ?thesis using assms(2)
    by (cases rule: save_report_cases) (auto simp: holds_request_def)
qed

lemma holds_request_steps:
  "incident_step\<^sup>*\<^sup>* t t' \<Longrightarrow> holds_request t j key request \<Longrightarrow> holds_request t' j key request"
  by (induction rule: rtranclp_induct) (auto intro: holds_request_step)

lemma row_with_key_unique:
  assumes "incidents_ok t" and "it_rows t i = Some row" and "ir_key row = Some k"
  shows "row_with_key (it_ids t) (it_rows t) (Some k) = Some i"
proof -
  have mem: "i \<in> set (it_ids t)" using assms(1,2) by (metis incidents_ok_def option.distinct(1))
  have "row_with_key (it_ids t) (it_rows t) (Some k) \<noteq> None"
    using mem assms(2,3) by (auto simp: row_with_key_None)
  then obtain j where j: "row_with_key (it_ids t) (it_rows t) (Some k) = Some j" by auto
  then obtain row' where "it_rows t j = Some row'" "ir_key row' = Some k"
    by (auto simp: row_with_key_def find_Some_iff split: option.splits)
  with assms have "j = i" unfolding incidents_ok_def by (metis option.distinct(1))
  with j show ?thesis by simp
qed

text \<open>A read of a well formed table returns the stored incident.\<close>

lemma incident_get_iff:
  assumes "incidents_ok t"
  shows "incident_get (it_rows t) i = Inr r \<longleftrightarrow> r = incident_of (it_rows t i)"
proof (cases "it_rows t i")
  case None
  then show ?thesis by (auto simp: incident_get_def)
next
  case (Some row)
  then obtain x where "decode_incident i row = Inr x" using assms by (metis incidents_ok_def)
  with Some show ?thesis by (auto simp: incident_get_def decode_incident_iff)
qed

lemma create_holds_request:
  assumes "incidents_ok t" and "incident_create_op i now request (Some k) t = (Inr x, t')"
  shows "holds_request t' (in_id x) (Some k) request"
  using assms(2)
proof (cases rule: incident_create_cases)
  case same
  from same(2) [OF refl] obtain j row where "row_with_key (it_ids t) (it_rows t) (Some k) = Some j"
      "it_rows t j = Some row" "decode_incident j row = Inr x" "in_request x = request"
    by (auto simp: existing_incident_def split: option.splits)
  with same(1) show ?thesis
    by (auto simp: holds_request_def row_with_key_def find_Some_iff decode_incident_iff)
next
  case (new y)
  then show ?thesis by (auto simp: holds_request_def new_incident_def)
qed

lemma create_again:
  assumes "incidents_ok t" and "holds_request t j (Some k) request"
    and "validate_incident (new_incident i now request') = Inr y"
  shows "\<exists>x. in_id x = j \<and> in_request x = request
      \<and> incident_create_op i now request' (Some k) t =
          (if request' = request then Inr x
           else Inl (IdempotencyConflict ''idempotency key has a different payload''), t)"
proof -
  from assms(2) obtain row x where row: "it_rows t j = Some row" "ir_key row = Some k"
      "ir_payload row = Dump x" "in_id x = j" "in_request x = request"
    by (auto simp: holds_request_def)
  from assms(1) row(1) obtain x' where "decode_incident j row = Inr x'" by (metis incidents_ok_def)
  with row(3) have "decode_incident j row = Inr x" by (auto simp: decode_incident_iff)
  moreover have "row_with_key (it_ids t) (it_rows t) (Some k) = Some j"
    by (rule row_with_key_unique [OF assms(1) row(1,2)])
  ultimately show ?thesis using row assms(3)
    by (intro exI [of _ x]) (auto simp: incident_create_op_def key_taken_def existing_incident_def)
qed

lemma saved_incident_ok:
  assumes "incidents_ok t" and "saved_incident t i = Inr x"
  shows "incident_of (it_rows t i) = Some x \<and> in_report x \<noteq> None"
  using assms by (auto simp: saved_incident_def incident_get_iff split: option.splits if_splits)

text \<open>Whatever \<open>save_report_at\<close> returns is stored with a report when it returns.\<close>

lemma save_report_stored:
  assumes "incidents_ok t" and "incident_step\<^sup>*\<^sup>* t_read t"
    and "save_report_at t_read report t = (Inr x, t')"
  shows "incident_of (it_rows t' (rp_incident report)) = Some x \<and> in_report x \<noteq> None"
proof (cases "prepare_report t_read report")
  case (Inl e)
  with assms(3) show ?thesis by (simp add: save_report_at_def)
next
  case (Inr a)
  show ?thesis
  proof (cases a)
    case (Inl y)
    with Inr assms(3) have "y = x" "t' = t" by (auto simp: save_report_at_def)
    moreover from Inr Inl have "incident_of (it_rows t_read (rp_incident report)) = Some y"
        "in_report y \<noteq> None"
      by (auto simp: prepare_report_def incident_of_Some decode_incident_iff split: if_splits)
    ultimately show ?thesis using report_is_final [OF assms(2)] by simp
  next
    case (Inr b)
    obtain row updated where b: "b = (row, updated)" by force
    with \<open>prepare_report t_read report = Inr a\<close> Inr
    have prep: "prepare_report t_read report = Inr (Inr (row, updated))" by simp
    with assms(3) have "publish_report (rp_incident report) row updated t = (Inr x, t')"
      by (simp add: save_report_at_def)
    moreover from prep have "in_report updated \<noteq> None" by (rule prepare_report_write) simp
    ultimately show ?thesis using saved_incident_ok [OF assms(1), of "rp_incident report" x]
      by (auto simp: publish_report_def split: option.splits if_splits)
  qed
qed

section \<open>A sample incident\<close>

definition stored_request :: incident_create where
  "stored_request = \<lparr>ic_title = ''latency'', ic_namespace = ''payments'', ic_service = ''ledger'',
     ic_severity = Warning\<rparr>"

definition stored_report :: incident_report where
  "stored_report = \<lparr>rp_incident = ''inc-1'', rp_evidence = [], rp_causes = [], rp_terminal = ESCALATED,
     rp_mode = Mock, rp_duration = 1, rp_method = Deterministic, rp_stop_reason = None,
     rp_receipts = [], rp_trace_id = ''t''\<rparr>"

definition stored_table :: incident_table where
  "stored_table = snd (incident_create_op ''inc-1'' 0 stored_request (Some ''k'') empty_table)"

lemma stored_valid [simp]:
  "validate_incident (new_incident ''inc-1'' n stored_request) = Inr (new_incident ''inc-1'' n stored_request)"
  "validate_incident (new_incident ''inc-2'' n stored_request) = Inr (new_incident ''inc-2'' n stored_request)"
  "validate_incident ((new_incident ''inc-1'' n stored_request)\<lparr>in_report := Some stored_report\<rparr>)
     = Inr ((new_incident ''inc-1'' n stored_request)\<lparr>in_report := Some stored_report\<rparr>)"
  by (simp_all add: validate_incident_iff new_incident_def stored_request_def stored_report_def
      valid_incident_create_def is_identifier_def is_stripped_def strip_def is_space_def
      is_word_char_def valid_report_fields_def grounded_def)

lemma stored_created:
  "incident_create_op ''inc-1'' 0 stored_request (Some ''k'') empty_table =
     (Inr (new_incident ''inc-1'' 0 stored_request), stored_table)"
  by (simp add: stored_table_def incident_create_op_def empty_table_def key_taken_def row_with_key_def)

lemma stored_ok: "incidents_ok stored_table"
  using incidents_ok_step [OF created [OF stored_created]] by simp

lemma stored_saved:
  "fst (save_report stored_report stored_table) =
     Inr ((new_incident ''inc-1'' 0 stored_request)\<lparr>in_report := Some stored_report\<rparr>)"
proof -
  have row: "it_rows stored_table ''inc-1'' = Some \<lparr>ir_key = Some ''k'',
      ir_payload = Dump (new_incident ''inc-1'' 0 stored_request)\<rparr>"
    by (simp add: stored_table_def incident_create_op_def empty_table_def key_taken_def row_with_key_def)
  moreover have "rp_incident stored_report = ''inc-1''" by (simp add: stored_report_def)
  moreover have "in_id (new_incident ''inc-1'' 0 stored_request) = ''inc-1''"
      "in_report (new_incident ''inc-1'' 0 stored_request) = None"
    by (simp_all add: new_incident_def)
  ultimately show ?thesis
    by (simp add: save_report_def save_report_at_def prepare_report_def decode_incident_def publish_report_def)
qed

section \<open>Properties\<close>

text \<open>C32: The first report wins for good. When a caller that read the table at one moment and
  updated it at a later one gets an incident back, that incident carries a report, every later read
  of the table returns exactly that incident, and every later attempt to save a report for it, with
  whatever content, returns the same incident and changes nothing.\<close>

theorem first_report_wins:
  assumes "incidents_ok t" and "incident_step\<^sup>*\<^sup>* t_read t"
    and "save_report_at t_read report t = (Inr x, t')" and "incident_step\<^sup>*\<^sup>* t' later"
  shows "in_report x \<noteq> None
    \<and> incident_get (it_rows later) (rp_incident report) = Inr (Some x)
    \<and> save_report (report'\<lparr>rp_incident := rp_incident report\<rparr>) later = (Inr x, later)"
proof -
  let ?i = "rp_incident report"
  have stored: "incident_of (it_rows t' ?i) = Some x" "in_report x \<noteq> None"
    using save_report_stored [OF assms(1-3)] by auto
  have "incident_step t t'" using assms(3) by (rule saved)
  with assms(1,4) have ok: "incidents_ok later" by (blast intro: incidents_ok_steps incidents_ok_step)
  have now: "incident_of (it_rows later ?i) = Some x" by (rule report_is_final [OF assms(4) stored])
  then have got: "incident_get (it_rows later) ?i = Inr (Some x)" by (simp add: incident_get_iff [OF ok])
  then obtain row where "it_rows later ?i = Some row" "decode_incident ?i row = Inr x"
    by (auto simp: incident_get_def split: option.splits)
  with stored(2) got show ?thesis
    by (auto simp: save_report_def save_report_at_def prepare_report_def)
qed

theorem first_report_wins_witness:
  "\<exists>x. in_report x = Some stored_report
     \<and> incident_get (it_rows (snd (save_report stored_report stored_table))) ''inc-1'' = Inr (Some x)"
proof -
  let ?x = "(new_incident ''inc-1'' 0 stored_request)\<lparr>in_report := Some stored_report\<rparr>"
  have "save_report_at stored_table stored_report stored_table =
      (Inr ?x, snd (save_report stored_report stored_table))"
    using stored_saved by (metis prod.collapse save_report_def)
  from first_report_wins [OF stored_ok rtranclp.rtrancl_refl this rtranclp.rtrancl_refl]
  show ?thesis by (intro exI [of _ ?x]) (simp add: stored_report_def)
qed

text \<open>An idempotency key names one incident. After a creation under a key has answered, and
  after any further creations and reports, a creation under the same key answers with the incident
  that the first one returned when the request is the same and refuses with a conflict when it is
  not; in both cases the table does not change.\<close>

theorem creation_is_idempotent:
  assumes "incidents_ok t" and "incident_create_op i now request (Some k) t = (Inr x, t')"
    and "incident_step\<^sup>*\<^sup>* t' later"
    and "validate_incident (new_incident i' now' request') = Inr y"
  shows "\<exists>x'. in_id x' = in_id x \<and> in_request x' = request
    \<and> incident_create_op i' now' request' (Some k) later =
        (if request' = request then Inr x'
         else Inl (IdempotencyConflict ''idempotency key has a different payload''), later)"
proof -
  have "incident_step t t'" using assms(2) by (rule created)
  with assms(1,3) have "incidents_ok later" by (blast intro: incidents_ok_steps incidents_ok_step)
  moreover have "holds_request later (in_id x) (Some k) request"
    by (rule holds_request_steps [OF assms(3) create_holds_request [OF assms(1,2)]])
  ultimately show ?thesis using create_again assms(4) by blast
qed

theorem creation_is_idempotent_witness:
  "\<exists>x. in_id x = ''inc-1''
     \<and> incident_create_op ''inc-2'' 7 stored_request (Some ''k'') stored_table = (Inr x, stored_table)"
  using creation_is_idempotent [OF incidents_ok_empty stored_created rtranclp.rtrancl_refl stored_valid(2) [of 7]]
  by (auto simp: new_incident_def)

end
