(* ===== verification/Broker.thy ===== *)
theory Broker
  imports ActionStore
begin

text \<open>
  Authenticated proposal, approval and execution: \<^verbatim>\<open>src/payops/remediation/broker.py\<close>.

  The \<^verbatim>\<open>TrustedBackend\<close> protocol and the clocks are the environment \<open>'r backend\<close>: every call may
  return something new, so each operation takes the number of the call (\<open>w_tick\<close>) as an argument.
  The world holds the ledger, the call counter and the log of dispatched effects, which is only
  written by a call of the backend's \<^verbatim>\<open>execute\<close>.

  Main facts: an effect is dispatched only under a current two-person approval, a fresh policy
  review and three identities that are valid at one instant, every reading of which is located by
  its call number (\<open>execute_effect\<close>); a finished or claimed
  action is never dispatched again; and under any interleaving of workers every action is dispatched
  at most once (\<open>workers_ok_reachable\<close>).
\<close>

section \<open>Environment and world\<close>

record 'r backend =
  be_clock :: "nat \<Rightarrow> instant"
  be_utc_now :: "nat \<Rightarrow> instant"
  be_principal :: "nat \<Rightarrow> string \<Rightarrow> exn + principal option"
  be_context :: "nat \<Rightarrow> action \<Rightarrow> string \<Rightarrow> exn + 'r policy_context"
  be_execute :: "nat \<Rightarrow> action \<Rightarrow> string \<Rightarrow> exn + effect_receipt"

record world =
  w_db :: action_db
  w_tick :: nat
  w_effects :: "(action \<times> string) list"

definition ask :: "(nat \<Rightarrow> 'a) \<Rightarrow> (world, 'a) prog" where
  "ask f w = (Inr (f (w_tick w)), w\<lparr>w_tick := Suc (w_tick w)\<rparr>)"

definition call :: "(nat \<Rightarrow> exn + 'a) \<Rightarrow> (world, 'a) prog" where
  "call f w = (f (w_tick w), w\<lparr>w_tick := Suc (w_tick w)\<rparr>)"

definition on_db :: "(action_db, 'a) prog \<Rightarrow> (world, 'a) prog" where
  "on_db m w = (let (x, db) = m (w_db w) in (x, w\<lparr>w_db := db\<rparr>))"

definition read_db :: "(action_db \<Rightarrow> exn + 'a) \<Rightarrow> (world, 'a) prog" where
  "read_db f w = (f (w_db w), w)"

text \<open>\<^verbatim>\<open>self.store.transition\<close> reads \<^verbatim>\<open>utc_now\<close> before its transaction.\<close>

definition transition_now ::
  "'r backend \<Rightarrow> action_record \<Rightarrow> action_state \<Rightarrow> string \<Rightarrow> string \<Rightarrow> approval option
     \<Rightarrow> effect_receipt option \<Rightarrow> (world, action_record) prog" where
  "transition_now be before state actor reason ap res =
     bindP (ask (be_utc_now be)) (\<lambda>now.
     on_db (action_transition now before state actor reason ap res))"

section \<open>Identity and review\<close>

definition broker_identity :: "'r backend \<Rightarrow> string \<Rightarrow> role \<Rightarrow> string \<Rightarrow> (world, principal) prog" where
  "broker_identity be subject role namespace =
     bindP (call (\<lambda>n. be_principal be n subject)) (\<lambda>p.
     bindP (ask (be_clock be)) (\<lambda>now.
     case p of
       None \<Rightarrow> raiseP (PermissionError ''IDENTITY_DENIED'')
     | Some q \<Rightarrow>
         if \<not> identity_valid p role namespace now \<or> pr_subject q \<noteq> subject
         then raiseP (PermissionError ''IDENTITY_DENIED'')
         else returnP q))"

text \<open>The instants until which the reviewed snapshot and the cited evidence stay current.\<close>

definition deadlines :: "action \<Rightarrow> 'r policy_context \<Rightarrow> incident_report \<Rightarrow> instant list" where
  "deadlines a c rep =
     (rs_observed_at (pc_resource c) + 30 * one_second)
     # concat (map (\<lambda>item. [ev_observed item + 300 * one_second, ev_collected item + 300 * one_second])
               (filter (\<lambda>item. ev_id item \<in> set (act_evidence a)) (rp_evidence rep)))"

definition min_list_of :: "instant list \<Rightarrow> instant" where
  "min_list_of ts = foldr min (tl ts) (hd ts)"

definition broker_review :: "'r backend \<Rightarrow> run_mode \<Rightarrow> action \<Rightarrow> string \<Rightarrow> (world, instant) prog" where
  "broker_review be mode a subject =
     bindP (broker_identity be subject Responder (act_namespace a)) (\<lambda>principal.
     bindP (call (\<lambda>n. be_context be n a subject)) (\<lambda>context.
     bindP (checkP (act_mode a = mode) (PermissionError ''BACKEND_CONTEXT_MISMATCH'')) (\<lambda>_.
     bindP (ask (be_utc_now be)) (\<lambda>now.
     bindP (liftR (evaluate (action_json a) (context\<lparr>pc_principal := Some principal\<rparr>) now)) (\<lambda>review.
     bindP (checkP (rv_decision review = APPROVAL_REQUIRED) (PermissionError (rv_reason review))) (\<lambda>_.
     case in_report (pc_incident context) of
       None \<Rightarrow> raiseP (AssertionError [])
     | Some rep \<Rightarrow> returnP (min_list_of (deadlines a context rep))))))))"

section \<open>Propose and approve\<close>

definition new_record :: "action \<Rightarrow> string \<Rightarrow> instant \<Rightarrow> action_record" where
  "new_record a subject now =
     \<lparr>ar_id = action_digest a, ar_proposal = a, ar_proposer = subject, ar_state = PROPOSED,
      ar_revision = 0, ar_created_at = now, ar_updated_at = now, ar_approval = None,
      ar_result = None\<rparr>"

definition reviewed_record ::
  "'r backend \<Rightarrow> run_mode \<Rightarrow> json_object \<Rightarrow> string \<Rightarrow> (world, action_record) prog" where
  "reviewed_record be mode value subject =
     bindP (tryP (liftR (validate_action value)) is_ValueError
              (\<lambda>_. raiseP (PermissionError ''INVALID_PROPOSAL''))) (\<lambda>a.
     bindP (broker_review be mode a subject) (\<lambda>_.
     bindP (ask (be_clock be)) (\<lambda>now.
     liftR (validate_record (new_record a subject now)))))"

definition propose :: "'r backend \<Rightarrow> run_mode \<Rightarrow> json_object \<Rightarrow> string \<Rightarrow> (world, action_record) prog" where
  "propose be mode value subject =
     bindP (reviewed_record be mode value subject) (\<lambda>r. on_db (action_create r))"

definition new_approval :: "string \<Rightarrow> action_record \<Rightarrow> instant \<Rightarrow> approval" where
  "new_approval subject r now =
     \<lparr>ap_subject = subject, ap_digest = ar_id r, ap_approved_at = now,
      ap_expires_at = now + 300 * one_second, ap_policy = ''payops-policy-v1''\<rparr>"

definition approve :: "'r backend \<Rightarrow> run_mode \<Rightarrow> string \<Rightarrow> string \<Rightarrow> (world, action_record) prog" where
  "approve be mode action_id subject =
     bindP (read_db (\<lambda>db. action_get db action_id)) (\<lambda>r.
     bindP (broker_identity be subject Approver (act_namespace (ar_proposal r))) (\<lambda>_.
     bindP (checkP (\<not> (subject = ar_proposer r \<or> ar_state r \<noteq> PROPOSED))
              (PermissionError ''APPROVAL_DENIED'')) (\<lambda>_.
     bindP (broker_review be mode (ar_proposal r) (ar_proposer r)) (\<lambda>deadline.
     bindP (broker_identity be subject Approver (act_namespace (ar_proposal r))) (\<lambda>_.
     bindP (ask (be_clock be)) (\<lambda>now.
     bindP (checkP (now \<le> deadline) (PermissionError ''POLICY_EXPIRED'')) (\<lambda>_.
     bindP (liftR (check (valid_approval (new_approval subject r now)) invalid)) (\<lambda>_.
     transition_now be r APPROVED subject ''HUMAN_APPROVED''
       (Some (new_approval subject r now)) None))))))))"

section \<open>Execute\<close>

definition approval_current :: "'r backend \<Rightarrow> approval \<Rightarrow> (world, unit) prog" where
  "approval_current be ap =
     bindP (ask (be_clock be)) (\<lambda>now.
     checkP (ap_approved_at ap \<le> now \<and> now < ap_expires_at ap)
       (PermissionError ''APPROVAL_EXPIRED''))"

text \<open>\<^verbatim>\<open>execute\<close> up to the claim: either the record is returned as it is, or it may be claimed.\<close>

datatype prepared = Replay action_record | Ready action_record approval instant

definition prepare_execute :: "'r backend \<Rightarrow> run_mode \<Rightarrow> string \<Rightarrow> string \<Rightarrow> (world, prepared) prog" where
  "prepare_execute be mode action_id subject =
     bindP (read_db (\<lambda>db. action_get db action_id)) (\<lambda>r.
     bindP (broker_identity be subject Executor (act_namespace (ar_proposal r))) (\<lambda>_.
     bindP (checkP (act_mode (ar_proposal r) = mode)
              (PermissionError ''OPERATION_MODE_MISMATCH'')) (\<lambda>_.
     if ar_state r \<in> {EXECUTING, SUCCEEDED, FAILED, UNKNOWN} then returnP (Replay r)
     else case (ar_state r, ar_approval r) of
       (APPROVED, Some ap) \<Rightarrow>
         bindP (ask (be_clock be)) (\<lambda>now.
         bindP (checkP (ap_approved_at ap \<le> now \<and> now < ap_expires_at ap)
                  (PermissionError ''APPROVAL_REQUIRED'')) (\<lambda>_.
         bindP (broker_identity be (ap_subject ap) Approver (act_namespace (ar_proposal r))) (\<lambda>_.
         bindP (broker_review be mode (ar_proposal r) (ar_proposer r)) (\<lambda>deadline.
         bindP (approval_current be ap) (\<lambda>_.
         returnP (Ready r ap deadline))))))
     | _ \<Rightarrow> raiseP (PermissionError ''APPROVAL_REQUIRED''))))"

definition claim :: "'r backend \<Rightarrow> action_record \<Rightarrow> string \<Rightarrow> (world, action_record) prog" where
  "claim be r subject = transition_now be r EXECUTING subject ''DISPATCH'' None None"

definition dispatch_authority ::
  "'r backend \<Rightarrow> action_record \<Rightarrow> approval \<Rightarrow> string \<Rightarrow> instant \<Rightarrow> (world, unit) prog" where
  "dispatch_authority be r ap subject deadline =
     (let namespace = act_namespace (ar_proposal r) in
      bindP (broker_identity be subject Executor namespace) (\<lambda>p1.
      bindP (broker_identity be (ap_subject ap) Approver namespace) (\<lambda>p2.
      bindP (broker_identity be (ar_proposer r) Responder namespace) (\<lambda>p3.
      bindP (ask (be_clock be)) (\<lambda>now.
      bindP (checkP (identity_valid (Some p1) Executor namespace now
                     \<and> identity_valid (Some p2) Approver namespace now
                     \<and> identity_valid (Some p3) Responder namespace now)
               (PermissionError ''IDENTITY_DENIED'')) (\<lambda>_.
      bindP (approval_current be ap) (\<lambda>_.
      bindP (ask (be_clock be)) (\<lambda>now'.
      checkP (now' \<le> deadline) (PermissionError ''POLICY_EXPIRED''))))))))) "

definition denied_receipt :: "action_record \<Rightarrow> effect_receipt" where
  "denied_receipt r =
     \<lparr>er_outcome = FAILED, er_uid = act_uid (ar_proposal r), er_previous = act_version (ar_proposal r),
      er_resulting = None\<rparr>"

text \<open>Calling the backend's \<^verbatim>\<open>execute\<close> is the effect; it is logged whether or not the call returns.\<close>

definition run_effect :: "'r backend \<Rightarrow> action_record \<Rightarrow> (world, effect_receipt) prog" where
  "run_effect be r w =
     (be_execute be (w_tick w) (ar_proposal r) (ar_id r),
      w\<lparr>w_tick := Suc (w_tick w), w_effects := w_effects w @ [(ar_proposal r, ar_id r)]\<rparr>)"

definition checked_effect :: "'r backend \<Rightarrow> action_record \<Rightarrow> (world, effect_receipt) prog" where
  "checked_effect be r =
     bindP (run_effect be r) (\<lambda>res.
     bindP (checkP ((er_uid res, er_previous res)
                      = (act_uid (ar_proposal r), act_version (ar_proposal r)))
              (ValueError ''executor receipt precondition mismatch'')) (\<lambda>_. returnP res))"

definition settle :: "'r backend \<Rightarrow> action_record \<Rightarrow> string \<Rightarrow> exn + effect_receipt \<Rightarrow> (world, action_record) prog" where
  "settle be r subject outcome =
     (case outcome of
        Inl _ \<Rightarrow> transition_now be r UNKNOWN subject ''EXECUTOR_RESULT_UNKNOWN'' None None
      | Inr res \<Rightarrow> transition_now be r (er_outcome res) subject ''EXECUTOR_RESULT'' None (Some res))"

definition refuse :: "'r backend \<Rightarrow> action_record \<Rightarrow> string \<Rightarrow> (world, action_record) prog" where
  "refuse be r subject =
     transition_now be r FAILED subject ''DISPATCH_AUTHORITY_DENIED'' None (Some (denied_receipt r))"

definition dispatch ::
  "'r backend \<Rightarrow> action_record \<Rightarrow> string \<Rightarrow> instant \<Rightarrow> (world, action_record) prog" where
  "dispatch be r subject deadline w =
     (case ar_approval r of
        None \<Rightarrow> (Inl (AssertionError []), w)
      | Some ap \<Rightarrow>
          (case dispatch_authority be r ap subject deadline w of
             (Inl e, w1) \<Rightarrow> if is_PermissionError e then refuse be r subject w1 else (Inl e, w1)
           | (Inr _, w1) \<Rightarrow> (case checked_effect be r w1 of (x, w2) \<Rightarrow> settle be r subject x w2)))"

definition execute :: "'r backend \<Rightarrow> run_mode \<Rightarrow> string \<Rightarrow> string \<Rightarrow> (world, action_record) prog" where
  "execute be mode action_id subject =
     bindP (prepare_execute be mode action_id subject) (\<lambda>p.
     case p of
       Replay r \<Rightarrow> returnP r
     | Ready r ap deadline \<Rightarrow>
         bindP (claim be r subject) (\<lambda>claimed. dispatch be claimed subject deadline))"

section \<open>Reads leave the ledger and the effects alone\<close>

definition quiet :: "world \<Rightarrow> world \<Rightarrow> bool" where
  "quiet w w' \<longleftrightarrow> w_db w' = w_db w \<and> w_effects w' = w_effects w \<and> w_tick w \<le> w_tick w'"

lemma quiet_trans: "quiet a b \<Longrightarrow> quiet b c \<Longrightarrow> quiet a c"
  by (simp add: quiet_def)

lemma quiet_rules [intro!]:
  "keeps quiet (ask f)" "keeps quiet (call g)" "keeps quiet (read_db h)"
  "keeps quiet (raiseP e)" "keeps quiet (returnP x)" "keeps quiet (liftR r)" "keeps quiet (checkP b e)"
  by (simp_all add: keeps_def quiet_def ask_def call_def read_db_def)

lemma quiet_bindP [intro!]:
  "keeps quiet m \<Longrightarrow> (\<And>x. keeps quiet (f x)) \<Longrightarrow> keeps quiet (bindP m f)"
  by (rule keeps_bindP) (auto intro: quiet_trans)

lemma quiet_identity [intro!]: "keeps quiet (broker_identity be s role ns)"
  unfolding broker_identity_def by (auto split: option.split)

lemma quiet_review [intro!]: "keeps quiet (broker_review be mode a s)"
  unfolding broker_review_def by (auto split: option.split)

lemma quiet_approval_current [intro!]: "keeps quiet (approval_current be ap)"
  unfolding approval_current_def by auto

lemma quiet_prepare: "keeps quiet (prepare_execute be mode i s)"
  unfolding prepare_execute_def by (auto split: option.split action_state.split)

lemma quiet_authority: "keeps quiet (dispatch_authority be r ap s d)"
  unfolding dispatch_authority_def Let_def by auto

lemmas quietD = keepsD [of quiet]

section \<open>What the checks establish\<close>

lemma ask_iff [simp]:
  "ask f w = (Inr x, w') \<longleftrightarrow> x = f (w_tick w) \<and> w' = w\<lparr>w_tick := Suc (w_tick w)\<rparr>"
  "ask f w = (Inl e, w') \<longleftrightarrow> False"
  by (auto simp: ask_def)

lemma call_iff [simp]:
  "call g w = (x, w') \<longleftrightarrow> g (w_tick w) = x \<and> w' = w\<lparr>w_tick := Suc (w_tick w)\<rparr>"
  by (auto simp: call_def)

lemma read_db_iff [simp]: "read_db h w = (x, w') \<longleftrightarrow> h (w_db w) = x \<and> w' = w"
  by (auto simp: read_db_def)

definition vouched :: "'r backend \<Rightarrow> principal \<Rightarrow> string \<Rightarrow> role \<Rightarrow> string \<Rightarrow> bool" where
  "vouched be p subject role ns \<longleftrightarrow>
     pr_subject p = subject \<and> (\<exists>n. be_principal be n subject = Inr (Some p))
     \<and> (\<exists>n. identity_valid (Some p) role ns (be_clock be n))"

text \<open>The same, of one request: the principal is the answer of call \<open>n\<close> and its validity is checked at
  the clock reading after it.\<close>

definition vouched_at :: "'r backend \<Rightarrow> nat \<Rightarrow> principal \<Rightarrow> string \<Rightarrow> role \<Rightarrow> string \<Rightarrow> bool" where
  "vouched_at be n p subject role ns \<longleftrightarrow>
     pr_subject p = subject \<and> be_principal be n subject = Inr (Some p)
     \<and> identity_valid (Some p) role ns (be_clock be (Suc n))"

lemma vouched_at_vouched: "vouched_at be n p s role ns \<Longrightarrow> vouched be p s role ns"
  unfolding vouched_at_def vouched_def by blast

lemma broker_identity_at:
  assumes "broker_identity be s role ns w = (Inr p, w')"
  shows "vouched_at be (w_tick w) p s role ns" "w_tick w' = w_tick w + 2"
proof -
  from assms have "be_principal be (w_tick w) s = Inr (Some p) \<and> pr_subject p = s
      \<and> identity_valid (Some p) role ns (be_clock be (Suc (w_tick w))) \<and> w_tick w' = w_tick w + 2"
    unfolding broker_identity_def bindP_Inr_iff
    by (elim exE conjE) (simp split: option.splits if_splits, elim conjE, hypsubst, simp)
  then show "vouched_at be (w_tick w) p s role ns" "w_tick w' = w_tick w + 2"
    by (simp_all add: vouched_at_def)
qed

lemma broker_identity_Inr:
  assumes "broker_identity be s role ns w = (Inr p, w')"
  shows "vouched be p s role ns"
  using assms
  by (auto simp: broker_identity_def bindP_Inr_iff vouched_def split: option.splits if_splits)

lemma min_list_of_le: "ts \<noteq> [] \<Longrightarrow> t \<le> min_list_of ts \<longleftrightarrow> list_all (\<lambda>d. t \<le> d) ts"
proof -
  have "t \<le> foldr min xs y \<longleftrightarrow> t \<le> y \<and> list_all (\<lambda>d. t \<le> d) xs" for xs y
    by (induction xs) auto
  then show "ts \<noteq> [] \<Longrightarrow> ?thesis" by (cases ts) (auto simp: min_list_of_def)
qed

definition reviewed :: "'r backend \<Rightarrow> action \<Rightarrow> string \<Rightarrow> instant \<Rightarrow> bool" where
  "reviewed be a subject deadline \<longleftrightarrow>
     (\<exists>p c rep n. vouched be p subject Responder (act_namespace a)
        \<and> (\<exists>m. be_context be m a subject = Inr c)
        \<and> permitted a (c\<lparr>pc_principal := Some p\<rparr>) (be_utc_now be n)
        \<and> in_report (pc_incident c) = Some rep \<and> deadline = min_list_of (deadlines a c rep))"

text \<open>A review that starts at call \<open>n\<close>: the proposer at \<open>n\<close> and \<open>n + 1\<close>, one context at \<open>n + 2\<close>, and
  the policy at the time \<open>n + 3\<close>.\<close>

definition reviewed_at :: "'r backend \<Rightarrow> nat \<Rightarrow> action \<Rightarrow> string \<Rightarrow> instant \<Rightarrow> bool" where
  "reviewed_at be n a subject deadline \<longleftrightarrow>
     (\<exists>p c rep. vouched_at be n p subject Responder (act_namespace a)
        \<and> be_context be (n + 2) a subject = Inr c
        \<and> permitted a (c\<lparr>pc_principal := Some p\<rparr>) (be_utc_now be (n + 3))
        \<and> in_report (pc_incident c) = Some rep \<and> deadline = min_list_of (deadlines a c rep))"

lemma evaluate_required:
  assumes "evaluate (action_json a) c now = Inr r" and "rv_decision r = APPROVAL_REQUIRED"
  shows "permitted a c now"
proof -
  from evaluate_cases [OF assms(1)] assms(2) obtain b
    where "validate_action (action_json a) = Inr b" "r = approval_review b"
    by (auto simp: deny_def)
  with assms(1) show ?thesis by (auto simp: validate_action_json evaluate_approval_iff)
qed

lemma broker_review_at:
  assumes "broker_review be mode a s w = (Inr d, w')"
  shows "reviewed_at be (w_tick w) a s d" "act_mode a = mode" "w_tick w' = w_tick w + 4"
proof -
  from assms obtain p c rep w1 r where *:
    "broker_identity be s Responder (act_namespace a) w = (Inr p, w1)"
    "be_context be (w_tick w1) a s = Inr c" "act_mode a = mode"
    "evaluate (action_json a) (c\<lparr>pc_principal := Some p\<rparr>) (be_utc_now be (Suc (w_tick w1))) = Inr r"
    "rv_decision r = APPROVAL_REQUIRED" "in_report (pc_incident c) = Some rep"
    "d = min_list_of (deadlines a c rep)" "w_tick w' = Suc (Suc (w_tick w1))"
    unfolding broker_review_def bindP_Inr_iff
    by (elim exE conjE) (auto split: option.splits)
  note id = broker_identity_at [OF *(1)]
  from * id show "act_mode a = mode" "w_tick w' = w_tick w + 4" by simp_all
  show "reviewed_at be (w_tick w) a s d"
    unfolding reviewed_at_def
    using id *(2) evaluate_required [OF *(4,5)] *(6,7)
    by (intro exI [of _ p] exI [of _ c] exI [of _ rep]) (simp add: eval_nat_numeral)
qed

lemma reviewed_at_reviewed:
  assumes "reviewed_at be n a s d"
  shows "reviewed be a s d"
proof -
  from assms obtain p c rep where *: "vouched_at be n p s Responder (act_namespace a)"
    "be_context be (n + 2) a s = Inr c" "permitted a (c\<lparr>pc_principal := Some p\<rparr>) (be_utc_now be (n + 3))"
    "in_report (pc_incident c) = Some rep" "d = min_list_of (deadlines a c rep)"
    unfolding reviewed_at_def by (elim exE conjE)
  then show ?thesis
    unfolding reviewed_def
    by (rule_tac exI [of _ p], rule_tac exI [of _ c], rule_tac exI [of _ rep],
        rule_tac exI [of _ "n + 3"]) (intro conjI vouched_at_vouched [OF *(1)] exI [of _ "n + 2"])
qed

lemma broker_review_Inr:
  assumes "broker_review be mode a s w = (Inr d, w')"
  shows "reviewed be a s d" and "act_mode a = mode"
  by (rule reviewed_at_reviewed [OF broker_review_at(1) [OF assms]], rule broker_review_at(2) [OF assms])

lemma broker_review_deadline: "broker_review be mode a s w = (Inr d, w') \<Longrightarrow> \<exists>d. reviewed be a s d"
  using broker_review_Inr(1) by blast

text \<open>The approval is in force at the clock reading of call \<open>n\<close>.\<close>

definition in_force :: "'r backend \<Rightarrow> nat \<Rightarrow> approval \<Rightarrow> bool" where
  "in_force be n ap \<longleftrightarrow> ap_approved_at ap \<le> be_clock be n \<and> be_clock be n < ap_expires_at ap"

lemma approval_current_at:
  "approval_current be ap w = (Inr u, w') \<longleftrightarrow>
     in_force be (w_tick w) ap \<and> w' = w\<lparr>w_tick := Suc (w_tick w)\<rparr>"
  by (auto simp: approval_current_def bindP_Inr_iff in_force_def)

text \<open>What a request that starts at call \<open>n\<close> has established when it may claim the record.\<close>

definition claimable ::
  "'r backend \<Rightarrow> nat \<Rightarrow> action_record \<Rightarrow> approval \<Rightarrow> string \<Rightarrow> instant \<Rightarrow> bool" where
  "claimable be n r ap subject deadline \<longleftrightarrow>
     (\<exists>p. vouched_at be n p subject Executor (act_namespace (ar_proposal r)))
     \<and> in_force be (n + 2) ap
     \<and> (\<exists>p. vouched_at be (n + 3) p (ap_subject ap) Approver (act_namespace (ar_proposal r)))
     \<and> reviewed_at be (n + 5) (ar_proposal r) (ar_proposer r) deadline
     \<and> in_force be (n + 9) ap"

lemma prepare_Ready:
  assumes "prepare_execute be mode i s w = (Inr (Ready r ap d), w')"
  shows "action_get (w_db w) i = Inr r" "ar_state r = APPROVED" "ar_approval r = Some ap"
    "claimable be (w_tick w) r ap s d" "act_mode (ar_proposal r) = mode" "w_tick w' = w_tick w + 10"
proof -
  from assms obtain p q w1 w2 w3 where *: "action_get (w_db w) i = Inr r"
    "broker_identity be s Executor (act_namespace (ar_proposal r)) w = (Inr p, w1)"
    "act_mode (ar_proposal r) = mode" "ar_state r = APPROVED" "ar_approval r = Some ap"
    "in_force be (w_tick w1) ap"
    "broker_identity be (ap_subject ap) Approver (act_namespace (ar_proposal r))
       (w1\<lparr>w_tick := Suc (w_tick w1)\<rparr>) = (Inr q, w2)"
    "broker_review be mode (ar_proposal r) (ar_proposer r) w2 = (Inr d, w3)"
    "in_force be (w_tick w3) ap" "w' = w3\<lparr>w_tick := Suc (w_tick w3)\<rparr>"
    by (auto simp: prepare_execute_def bindP_Inr_iff approval_current_at in_force_def
        split: if_splits option.splits action_state.splits)
  note ids = broker_identity_at [OF *(2)] broker_identity_at [OF *(7)] broker_review_at [OF *(8)]
  show "action_get (w_db w) i = Inr r" "ar_state r = APPROVED" "ar_approval r = Some ap"
    "act_mode (ar_proposal r) = mode" by fact+
  from ids * show "w_tick w' = w_tick w + 10" by simp
  show "claimable be (w_tick w) r ap s d"
    unfolding claimable_def using ids *(6,9) by (auto simp: eval_nat_numeral)
qed

lemma prepare_Replay:
  assumes "prepare_execute be mode i s w = (Inr (Replay r), w')"
  shows "action_get (w_db w) i = Inr r" "ar_state r \<in> {EXECUTING, SUCCEEDED, FAILED, UNKNOWN}"
  using assms
  by (auto simp: prepare_execute_def bindP_Inr_iff split: if_splits option.splits action_state.splits)

text \<open>Authority at dispatch, from call \<open>n\<close> on: executor, approver and proposer are refreshed in turn,
  all three are valid at the one clock reading \<open>n + 6\<close>, the approval is in force at \<open>n + 7\<close> and no
  policy deadline has passed at \<open>n + 8\<close>.\<close>

definition authorised ::
  "'r backend \<Rightarrow> nat \<Rightarrow> action_record \<Rightarrow> approval \<Rightarrow> string \<Rightarrow> instant \<Rightarrow> bool" where
  "authorised be n r ap subject deadline \<longleftrightarrow>
     (let ns = act_namespace (ar_proposal r) in
      (\<exists>p1 p2 p3. vouched_at be n p1 subject Executor ns
         \<and> vouched_at be (n + 2) p2 (ap_subject ap) Approver ns
         \<and> vouched_at be (n + 4) p3 (ar_proposer r) Responder ns
         \<and> identity_valid (Some p1) Executor ns (be_clock be (n + 6))
         \<and> identity_valid (Some p2) Approver ns (be_clock be (n + 6))
         \<and> identity_valid (Some p3) Responder ns (be_clock be (n + 6)))
      \<and> in_force be (n + 7) ap \<and> be_clock be (n + 8) \<le> deadline)"

lemma dispatch_authority_Inr:
  assumes "dispatch_authority be r ap s d w = (Inr u, w')"
  shows "authorised be (w_tick w) r ap s d" "w_tick w' = w_tick w + 9"
proof -
  define ns where "ns = act_namespace (ar_proposal r)"
  from assms obtain p1 p2 p3 w1 w2 w3 where *:
    "broker_identity be s Executor ns w = (Inr p1, w1)"
    "broker_identity be (ap_subject ap) Approver ns w1 = (Inr p2, w2)"
    "broker_identity be (ar_proposer r) Responder ns w2 = (Inr p3, w3)"
    "identity_valid (Some p1) Executor ns (be_clock be (w_tick w3))"
    "identity_valid (Some p2) Approver ns (be_clock be (w_tick w3))"
    "identity_valid (Some p3) Responder ns (be_clock be (w_tick w3))"
    "in_force be (Suc (w_tick w3)) ap" "be_clock be (Suc (Suc (w_tick w3))) \<le> d"
    "w_tick w' = Suc (Suc (Suc (w_tick w3)))"
    unfolding dispatch_authority_def Let_def ns_def bindP_Inr_iff
    by (elim exE conjE) (auto simp: approval_current_at)
  note ids = broker_identity_at [OF *(1)] broker_identity_at [OF *(2)] broker_identity_at [OF *(3)]
  then have ticks: "w_tick w1 = w_tick w + 2" "w_tick w2 = w_tick w + 4" "w_tick w3 = w_tick w + 6"
    by simp_all
  show "authorised be (w_tick w) r ap s d"
    unfolding authorised_def Let_def ns_def [symmetric]
    using ids * ticks
    by (intro conjI exI [of _ p1] exI [of _ p2] exI [of _ p3]) (simp_all add: eval_nat_numeral)
  show "w_tick w' = w_tick w + 9" using * ticks by simp
qed

section \<open>Writes go through the ledger\<close>

text \<open>What a broker operation may do to the world: one ledger transaction after another.\<close>

definition ledger_run :: "world \<Rightarrow> world \<Rightarrow> bool" where
  "ledger_run w w' \<longleftrightarrow> ledger_step\<^sup>*\<^sup>* (w_db w) (w_db w')"

lemma ledger_run_trans: "ledger_run a b \<Longrightarrow> ledger_run b c \<Longrightarrow> ledger_run a c"
  by (simp add: ledger_run_def)

lemma quiet_ledger_run: "quiet w w' \<Longrightarrow> ledger_run w w'"
  by (simp add: quiet_def ledger_run_def)

lemma transition_now_effects:
  "transition_now be r st actor reason ap res w = (x, w') \<Longrightarrow>
     w_effects w' = w_effects w \<and> w_tick w' = Suc (w_tick w)
     \<and> action_transition (be_utc_now be (w_tick w)) r st actor reason ap res (w_db w) = (x, w_db w')"
  by (auto simp: transition_now_def bindP_def ask_def on_db_def split: prod.splits)

lemma transition_now_run:
  "transition_now be r st actor reason ap res w = (x, w') \<Longrightarrow> ledger_run w w'"
  by (auto dest!: transition_now_effects simp: ledger_run_def
      intro!: r_into_rtranclp ledger_step.transition)

lemma keeps_run_quiet: "keeps quiet m \<Longrightarrow> keeps ledger_run m"
  by (auto simp: keeps_def intro: quiet_ledger_run)

lemma keeps_run_bindP [intro!]:
  "keeps ledger_run m \<Longrightarrow> (\<And>x. keeps ledger_run (f x)) \<Longrightarrow> keeps ledger_run (bindP m f)"
  by (rule keeps_bindP) (auto intro: ledger_run_trans)

lemmas keeps_run_rules [intro!] =
  quiet_rules [THEN keeps_run_quiet] quiet_identity [THEN keeps_run_quiet]
  quiet_review [THEN keeps_run_quiet] quiet_approval_current [THEN keeps_run_quiet]

lemma keeps_run_transition [intro!]: "keeps ledger_run (transition_now be r st actor reason ap res)"
  unfolding keeps_def by (metis prod.collapse transition_now_run)

lemma keeps_run_settle: "keeps ledger_run (settle be r s x)"
  unfolding settle_def by (auto split: sum.split)

lemma run_effect_db [simp]: "w_db (snd (run_effect be r w)) = w_db w"
  by (simp add: run_effect_def)

lemma checked_effect_frame:
  "checked_effect be r w = (x, w') \<Longrightarrow>
     w_db w' = w_db w \<and> w_effects w' = w_effects w @ [(ar_proposal r, ar_id r)]
     \<and> w_tick w' = Suc (w_tick w)"
  by (auto simp: checked_effect_def bindP_def run_effect_def split: sum.splits)

lemma checked_effect_Inr:
  "checked_effect be r w = (Inr res, w') \<Longrightarrow>
     er_uid res = act_uid (ar_proposal r) \<and> er_previous res = act_version (ar_proposal r)
     \<and> be_execute be (w_tick w) (ar_proposal r) (ar_id r) = Inr res"
  by (auto simp: checked_effect_def bindP_Inr_iff run_effect_def)

lemma dispatch_cases:
  assumes "dispatch be r s d w = (x, w')" and "ar_approval r = Some ap"
  obtains
    (failed) e where "x = Inl e" "w_db w' = w_db w" "w_effects w' = w_effects w"
  | (refused) w1 where "w_db w1 = w_db w" "w_effects w1 = w_effects w" "refuse be r s w1 = (x, w')"
  | (effected) w1 w2 out where "authorised be (w_tick w) r ap s d" "w_tick w1 = w_tick w + 9" "w_db w1 = w_db w" "w_effects w1 = w_effects w"
      "checked_effect be r w1 = (out, w2)" "settle be r s out w2 = (x, w')"
proof -
  obtain y w1 where y: "dispatch_authority be r ap s d w = (y, w1)" by fastforce
  from quietD [OF quiet_authority y] have q: "w_db w1 = w_db w" "w_effects w1 = w_effects w"
    by (simp_all add: quiet_def)
  show thesis
  proof (cases y)
    case (Inl e)
    with y assms q show thesis
      by (cases "is_PermissionError e") (auto simp: dispatch_def intro: failed refused)
  next
    case (Inr u)
    obtain out w2 where "checked_effect be r w1 = (out, w2)" by fastforce
    with Inr y assms q dispatch_authority_Inr [of be r ap s d w u w1] show thesis
      by (intro effected) (auto simp: dispatch_def)
  qed
qed

lemma settle_effects: "settle be r s out w = (x, w') \<Longrightarrow> w_effects w' = w_effects w"
  by (auto simp: settle_def dest: transition_now_effects split: sum.splits)

lemma refuse_effects: "refuse be r s w = (x, w') \<Longrightarrow> w_effects w' = w_effects w"
  by (auto simp: refuse_def dest: transition_now_effects)

lemma keeps_run_dispatch: "keeps ledger_run (dispatch be r s d)"
  unfolding keeps_def
proof
  fix w
  obtain x w' where d: "dispatch be r s d w = (x, w')" by fastforce
  have "ledger_run w w'"
  proof (cases "ar_approval r")
    case None
    with d show ?thesis by (simp add: dispatch_def ledger_run_def)
  next
    case (Some ap)
    from d this show ?thesis
      by (cases rule: dispatch_cases)
         (auto simp: ledger_run_def refuse_def dest!: transition_now_run checked_effect_frame
          keepsD [OF keeps_run_settle])
  qed
  with d show "ledger_run w (snd (dispatch be r s d w))" by simp
qed

lemma keeps_run_execute: "keeps ledger_run (execute be mode i s)"
  unfolding execute_def claim_def
  by (auto intro!: keeps_run_quiet [OF quiet_prepare] keeps_run_dispatch split: prepared.split)

lemma keeps_run_approve: "keeps ledger_run (approve be mode i s)"
  unfolding approve_def by auto

lemma on_db_create:
  "validate_record r = Inr r \<Longrightarrow> on_db (action_create r) w = (x, w') \<Longrightarrow> ledger_run w w'"
  by (auto simp: on_db_def ledger_run_def split: prod.splits
      intro!: r_into_rtranclp ledger_step.create)

lemma quiet_reviewed_record: "keeps quiet (reviewed_record be mode v s)"
proof -
  have "keeps quiet (tryP (liftR (validate_action v)) is_ValueError
              (\<lambda>_. raiseP (PermissionError ''INVALID_PROPOSAL'')))"
    by (auto simp: keeps_def tryP_def quiet_def split: sum.splits)
  then show ?thesis unfolding reviewed_record_def by auto
qed

lemma reviewed_record_Inr:
  assumes "reviewed_record be mode v s w = (Inr r, w')"
  shows "validate_record r = Inr r" "\<exists>d. reviewed be (ar_proposal r) s d" "ar_proposer r = s"
    "validate_action v = Inr (ar_proposal r)" "act_mode (ar_proposal r) = mode"
  using assms
  by (auto simp: reviewed_record_def bindP_Inr_iff tryP_Inr_iff validate_record_iff new_record_def
      dest: broker_review_Inr(2) broker_review_deadline)

lemma keeps_run_propose: "keeps ledger_run (propose be mode v s)"
  unfolding keeps_def propose_def
proof
  fix w
  obtain y w1 where y: "reviewed_record be mode v s w = (y, w1)" by fastforce
  then have run: "ledger_run w w1" by (metis keepsD quiet_reviewed_record quiet_ledger_run)
  show "ledger_run w (snd (bindP (reviewed_record be mode v s) (\<lambda>r. on_db (action_create r)) w))"
  proof (cases y)
    case (Inl e)
    with y run show ?thesis by (simp add: bindP_def)
  next
    case (Inr r)
    with y have "validate_record r = Inr r" by (auto dest: reviewed_record_Inr)
    then have "ledger_run w1 (snd (on_db (action_create r) w1))"
      by (metis on_db_create prod.collapse)
    with Inr y run show ?thesis by (auto simp: bindP_def intro: ledger_run_trans)
  qed
qed

section \<open>When an effect is dispatched\<close>

lemma claim_Inr:
  assumes "claim be r s w = (Inr c, w')"
  shows "c = after_record (be_utc_now be (w_tick w)) r EXECUTING None None"
    "db_actions (w_db w) (ar_id r) = Some (Dump r)" "db_actions (w_db w') (ar_id r) = Some (Dump c)"
    "valid_record_fields c" "consistent_record c" "is_identifier s" "w_effects w' = w_effects w"
    "w_tick w' = Suc (w_tick w)"
  using assms
  by (auto simp: claim_def action_transition_Inr audit_row_of_iff valid_event_def audit_event_of_def
      dest!: transition_now_effects)

lemma claim_Inl:
  "claim be r s w = (Inl e, w') \<Longrightarrow> w_db w' = w_db w \<and> w_effects w' = w_effects w"
  by (auto simp: claim_def dest!: transition_now_effects action_transition_Inl)

lemma execute_cases:
  assumes "execute be mode i s w = (x, w')"
  obtains
    (unclaimed) "w_db w' = w_db w" "w_effects w' = w_effects w"
  | (dispatched) r ap d c w1 w2 where
      "prepare_execute be mode i s w = (Inr (Ready r ap d), w1)" "claim be r s w1 = (Inr c, w2)"
      "dispatch be c s d w2 = (x, w')" "w_db w1 = w_db w" "w_effects w2 = w_effects w"
proof -
  obtain y w1 where y: "prepare_execute be mode i s w = (y, w1)" by fastforce
  from quietD [OF quiet_prepare y] have q: "w_db w1 = w_db w" "w_effects w1 = w_effects w"
    by (simp_all add: quiet_def)
  consider (none) "w' = w1" | (ready) r ap d where "y = Inr (Ready r ap d)"
    using assms y by (auto simp: execute_def bindP_def split: sum.splits prepared.splits)
  then show thesis
  proof cases
    case none
    with q show thesis by (intro unclaimed) auto
  next
    case ready
    obtain z w2 where z: "claim be r s w1 = (z, w2)" by fastforce
    show thesis
    proof (cases z)
      case (Inl e)
      with assms y ready z have "w' = w2" by (simp add: execute_def bindP_def)
      with claim_Inl [of be r s w1 e w2] z Inl q show thesis by (intro unclaimed) auto
    next
      case (Inr c)
      with assms y ready z have "dispatch be c s d w2 = (x, w')" by (simp add: execute_def bindP_def)
      with claim_Inr(7) [of be r s w1 c w2] z Inr y ready q show thesis
        by (intro dispatched [of r ap d w1 c w2]) auto
    qed
  qed
qed

text \<open>Everything that must have been true for a request that starts at call \<open>n\<close> to dispatch an effect:
  calls \<open>n\<close> to \<open>n + 9\<close> before the claim, the claim's timestamp \<open>n + 10\<close>, and calls \<open>n + 11\<close> to
  \<open>n + 19\<close> after it.\<close>

definition effect_authority ::
  "'r backend \<Rightarrow> run_mode \<Rightarrow> nat \<Rightarrow> action_db \<Rightarrow> string \<Rightarrow> string \<Rightarrow> action_record \<Rightarrow> bool" where
  "effect_authority be mode n db i subject r \<longleftrightarrow>
     action_get db i = Inr r \<and> ar_state r = APPROVED \<and> act_mode (ar_proposal r) = mode
     \<and> (\<exists>ap d. ar_approval r = Some ap \<and> two_person r ap
          \<and> claimable be n r ap subject d \<and> authorised be (n + 11) r ap subject d)"

lemma authorised_after [simp]:
  "authorised be n (after_record now r st ap0 res) ap s d \<longleftrightarrow> authorised be n r ap s d"
  by (simp add: authorised_def)

lemma execute_effect:
  assumes "execute be mode i s w = (x, w')"
  shows "w_effects w' = w_effects w
         \<or> (\<exists>r. effect_authority be mode (w_tick w) (w_db w) i s r
              \<and> w_effects w' = w_effects w @ [(ar_proposal r, i)])"
  using assms
proof (cases rule: execute_cases)
  case (dispatched r ap d c w1 w2)
  note r = prepare_Ready [OF dispatched(1)] and c = claim_Inr [OF dispatched(2)]
  have ap: "ar_approval c = Some ap" using r(3) c(1) by simp
  from r(1) have id: "ar_id r = i" "consistent_record r" by (auto simp: action_get_iff)
  from dispatched(3) ap show ?thesis
  proof (cases rule: dispatch_cases)
    case (refused w3)
    with dispatched(5) refuse_effects [OF refused(3)] show ?thesis by simp
  next
    case (effected w3 w4 out)
    from id r(2,3) have "two_person r ap" by (auto simp: consistent_record_def)
    moreover have "w_tick w2 = w_tick w + 11" using r(6) c(8) by simp
    ultimately have "effect_authority be mode (w_tick w) (w_db w) i s r"
      using effected(1) c(1) r by (auto simp: effect_authority_def)
    moreover have "w_effects w' = w_effects w @ [(ar_proposal r, i)]"
      using effected dispatched(5) c(1) id settle_effects checked_effect_frame by fastforce
    ultimately show ?thesis by blast
  qed (use dispatched in auto)
qed simp

lemma execute_replay:
  assumes "action_get (w_db w) i = Inr r" and "ar_state r \<noteq> APPROVED"
    and "execute be mode i s w = (x, w')"
  shows "w_db w' = w_db w" "w_effects w' = w_effects w" "x = Inr r' \<Longrightarrow> r' = r"
proof -
  have p: "y = Inr (Replay r) \<or> (\<exists>e. y = Inl e)"
    if y: "prepare_execute be mode i s w = (y, w1)" for y w1
  proof (cases y)
    case (Inr q)
    with y assms(1,2) prepare_Ready(1,2) [of be mode i s w _ _ _ w1]
      prepare_Replay(1) [of be mode i s w _ w1]
    show ?thesis by (cases q) auto
  qed simp
  obtain y w1 where y: "prepare_execute be mode i s w = (y, w1)" by fastforce
  with quietD [OF quiet_prepare y] p [OF y] assms(3)
  show "w_db w' = w_db w" "w_effects w' = w_effects w" "x = Inr r' \<Longrightarrow> r' = r"
    by (auto simp: execute_def bindP_def quiet_def)
qed

section \<open>Settlement\<close>

lemma claim_ledger_ok: "ledger_ok (w_db w) \<Longrightarrow> claim be r s w = (Inr c, w') \<Longrightarrow> ledger_ok (w_db w')"
  by (auto simp: claim_def dest!: transition_now_effects intro: ledger_ok_transition)

lemma settle_reason_text:
  "is_identifier ''EXECUTOR_RESULT_UNKNOWN''" "is_identifier ''EXECUTOR_RESULT''"
  "is_identifier ''DISPATCH_AUTHORITY_DENIED''"
  by code_simp+

lemma transition_now_commits:
  assumes "ledger_ok (w_db w)" and "action_get (w_db w) (ar_id c) = Inr c"
    and "st \<in> set (TRANSITIONS (ar_state c))" and "is_identifier s" and "is_identifier reason"
    and "validate_record (after_record (be_utc_now be (w_tick w)) c st None res)
           = Inr (after_record (be_utc_now be (w_tick w)) c st None res)"
    and "transition_now be c st s reason None res w = (x, w')"
  shows "x = Inr (after_record (be_utc_now be (w_tick w)) c st None res)
    \<and> db_actions (w_db w') (ar_id c)
           = Some (Dump (after_record (be_utc_now be (w_tick w)) c st None res))"
proof -
  note t = transition_now_effects [OF assms(7)]
  from transition_commits [OF assms(1), THEN iffD2, of _ "be_utc_now be (w_tick w)" c st None res s reason]
    assms(2-6) t
  have x: "x = Inr (after_record (be_utc_now be (w_tick w)) c st None res)" by (metis fst_conv)
  with t show ?thesis by (auto simp: action_transition_Inr)
qed

lemma validate_settled:
  assumes "valid_record_fields c" "consistent_record c" "ar_state c = EXECUTING"
  shows "validate_record (after_record now c UNKNOWN None None) = Inr (after_record now c UNKNOWN None None)"
    and "valid_receipt res \<Longrightarrow> er_uid res = act_uid (ar_proposal c)
         \<Longrightarrow> er_previous res = act_version (ar_proposal c)
         \<Longrightarrow> validate_record (after_record now c (er_outcome res) None (Some res))
             = Inr (after_record now c (er_outcome res) None (Some res))"
  using assms
  by (auto simp: validate_record_iff valid_record_fields_def consistent_record_def valid_receipt_def
      two_person_def receipt_matches_def split: option.splits)

definition settled_as :: "exn + effect_receipt \<Rightarrow> action_record \<Rightarrow> bool" where
  "settled_as out r \<longleftrightarrow>
     (case out of Inl _ \<Rightarrow> ar_state r = UNKNOWN \<and> ar_result r = None
                | Inr res \<Rightarrow> ar_state r = er_outcome res \<and> ar_result r = Some res)"

lemma settle_commits:
  assumes "ledger_ok (w_db w)" and "action_get (w_db w) (ar_id c) = Inr c"
    and "ar_state c = EXECUTING" and "is_identifier s" and "settle be c s out w = (x, w')"
    and "\<And>res. out = Inr res \<Longrightarrow> valid_receipt res \<and> er_uid res = act_uid (ar_proposal c)
                                  \<and> er_previous res = act_version (ar_proposal c)"
  shows "\<exists>r. x = Inr r \<and> db_actions (w_db w') (ar_id c) = Some (Dump r) \<and> settled_as out r"
proof -
  from assms(2) have v: "valid_record_fields c" "consistent_record c" by (auto simp: action_get_iff)
  show ?thesis
  proof (cases out)
    case (Inl e)
    with assms v settle_reason_text show ?thesis
      by (auto simp: settle_def settled_as_def validate_settled
          dest!: transition_now_commits [rotated 6])
  next
    case (Inr res)
    with assms(6) have res: "er_outcome res \<in> set (TRANSITIONS (ar_state c))" "valid_receipt res"
        "er_uid res = act_uid (ar_proposal c)" "er_previous res = act_version (ar_proposal c)"
      using assms(3) by (auto simp: valid_receipt_def)
    from Inr assms(5) have "transition_now be c (er_outcome res) s ''EXECUTOR_RESULT'' None (Some res) w
        = (x, w')"
      by (simp add: settle_def)
    from transition_now_commits [OF assms(1,2) res(1) assms(4) settle_reason_text(2)
        validate_settled(2) [OF v assms(3) res(2-4)] this] Inr
    show ?thesis by (simp add: settled_as_def)
  qed
qed

text \<open>What the ledger must say after the backend answered \<open>got\<close>.\<close>

fun effect_outcome :: "action \<Rightarrow> exn + effect_receipt \<Rightarrow> action_state \<times> effect_receipt option" where
  "effect_outcome a (Inl _) = (UNKNOWN, None)"
| "effect_outcome a (Inr res) =
     (if er_uid res = act_uid a \<and> er_previous res = act_version a then (er_outcome res, Some res)
      else (UNKNOWN, None))"

lemma checked_effect_outcome:
  assumes "checked_effect be c w = (out, w')" and "settled_as out r"
  shows "(ar_state r, ar_result r)
           = effect_outcome (ar_proposal c) (be_execute be (w_tick w) (ar_proposal c) (ar_id c))"
proof -
  define got where "got = be_execute be (w_tick w) (ar_proposal c) (ar_id c)"
  from assms(1) have "out = bindR got (\<lambda>res. if er_uid res = act_uid (ar_proposal c)
      \<and> er_previous res = act_version (ar_proposal c) then Inr res
      else Inl (ValueError ''executor receipt precondition mismatch''))"
    by (auto simp: got_def checked_effect_def bindP_def bindR_def run_effect_def check_def
        split: sum.splits if_splits)
  with assms(2) show ?thesis
    unfolding got_def [symmetric] by (cases got) (auto simp: settled_as_def)
qed

lemma execute_settles:
  assumes ok: "ledger_ok (w_db w)"
    and receipts: "\<And>n a k res. be_execute be n a k = Inr res \<Longrightarrow> valid_receipt res"
    and ex: "execute be mode i s w = (x, w')" and eff: "w_effects w' \<noteq> w_effects w"
  shows "\<exists>r. x = Inr r \<and> action_get (w_db w') i = Inr r
           \<and> (ar_state r, ar_result r)
               = effect_outcome (ar_proposal r) (be_execute be (w_tick w + 20) (ar_proposal r) i)"
  using ex
proof (cases rule: execute_cases)
  case (dispatched r ap d c w1 w2)
  note r = prepare_Ready [OF dispatched(1)] and c = claim_Inr [OF dispatched(2)]
  have ap: "ar_approval c = Some ap" and id: "ar_id c = i" using r(1,3) c(1) by (auto simp: action_get_iff)
  have ok2: "ledger_ok (w_db w2)"
    using claim_ledger_ok [of w1 be r s c w2] dispatched(2,4) ok by simp
  from dispatched(3) ap show ?thesis
  proof (cases rule: dispatch_cases)
    case (effected w3 w4 out)
    have tick: "w_tick w3 = w_tick w + 20" using effected(2) r(6) c(8) by simp
    have "w_db w4 = w_db w2" using checked_effect_frame [OF effected(5)] effected(3) by simp
    moreover have "action_get (w_db w2) (ar_id c) = Inr c" using c by (auto simp: action_get_iff)
    moreover have "valid_receipt res \<and> er_uid res = act_uid (ar_proposal c)
        \<and> er_previous res = act_version (ar_proposal c)" if "out = Inr res" for res
      using checked_effect_Inr [of be c w3 res w4] effected(5) that receipts by auto
    ultimately obtain r' where r': "x = Inr r'" "db_actions (w_db w') i = Some (Dump r')" "settled_as out r'"
      using settle_commits [of w4 c s be out x w'] effected(6) ok2 c(1,6) id by auto
    have "ledger_ok (w_db w')"
      using ledger_ok_steps keepsD [OF keeps_run_execute ex] ok by (simp add: ledger_run_def)
    with r'(2) have "action_get (w_db w') i = Inr r'" by (auto elim: action_audit_ok)
    moreover have "ar_proposal r' = ar_proposal c"
      using effected(6) r'(1)
      by (auto simp: settle_def action_transition_Inr dest!: transition_now_effects split: sum.splits)
    ultimately show ?thesis
      using r' checked_effect_outcome [OF effected(5) r'(3)] id tick by metis
  next
    case (refused w3)
    with eff dispatched(5) refuse_effects [OF refused(3)] show ?thesis by simp
  qed (use eff dispatched in auto)
qed (use eff in simp)

lemma settle_Inr:
  assumes "settle be c s out w = (Inr r', w')"
  shows "settled_as out r'"
  using assms
  by (auto simp: settle_def settled_as_def action_transition_Inr dest!: transition_now_effects
      split: sum.splits)

text \<open>The outcome of a request that dispatched is the answer of its own effect, call \<open>n + 20\<close>.\<close>

lemma execute_outcome:
  assumes ex: "execute be mode i s w = (Inr r', w')" and eff: "w_effects w' \<noteq> w_effects w"
    and get: "action_get (w_db w) i = Inr r"
  shows "(ar_state r', ar_result r')
           = effect_outcome (ar_proposal r) (be_execute be (w_tick w + 20) (ar_proposal r) i)"
  using ex
proof (cases rule: execute_cases)
  case (dispatched q ap d c w1 w2)
  note q = prepare_Ready [OF dispatched(1)] and c = claim_Inr [OF dispatched(2)]
  have same: "ar_approval c = Some ap" "ar_id c = i" "ar_proposal c = ar_proposal r"
    using q(1,3) c(1) get by (auto simp: action_get_iff)
  from dispatched(3) same(1) show ?thesis
  proof (cases rule: dispatch_cases)
    case (effected w3 w4 out)
    have "w_tick w3 = w_tick w + 20" using effected(2) q(6) c(8) by simp
    with checked_effect_outcome [OF effected(5) settle_Inr [OF effected(6)]] same
    show ?thesis by metis
  next
    case (refused w3)
    with eff dispatched(5) refuse_effects [OF refused(3)] show ?thesis by simp
  qed (use eff dispatched in auto)
qed (use eff in simp)

section \<open>Interleaved workers\<close>

text \<open>
  Any number of workers execute actions against one ledger and one backend. The atomic steps are the
  reads, SQL transactions and backend calls that \<open>execute\<close> is composed of; between two steps of a
  worker anything may happen, including other ledger transactions, and a worker may die at any point
  and forget what it was doing.
\<close>

datatype phase =
    Idle
  | Prepared action_record string instant
  | Claimed action_record string instant
  | Authorised action_record string
  | Refused action_record string
  | Effected action_record string "exn + effect_receipt"

type_synonym system = "world \<times> (nat \<Rightarrow> phase)"

inductive worker_step :: "'r backend \<Rightarrow> run_mode \<Rightarrow> system \<Rightarrow> system \<Rightarrow> bool"
  for be :: "'r backend" and mode :: run_mode where
  prepare:
    "ph k = Idle \<Longrightarrow> prepare_execute be mode i s w = (Inr (Ready r ap d), w')
       \<Longrightarrow> worker_step be mode (w, ph) (w', ph(k := Prepared r s d))"
| prepare_ends:
    "ph k = Idle \<Longrightarrow> prepare_execute be mode i s w = (x, w') \<Longrightarrow> worker_step be mode (w, ph) (w', ph)"
| claim:
    "ph k = Prepared r s d \<Longrightarrow> claim be r s w = (Inr c, w')
       \<Longrightarrow> worker_step be mode (w, ph) (w', ph(k := Claimed c s d))"
| claim_fails:
    "ph k = Prepared r s d \<Longrightarrow> claim be r s w = (Inl e, w')
       \<Longrightarrow> worker_step be mode (w, ph) (w', ph(k := Idle))"
| authorise:
    "ph k = Claimed c s d \<Longrightarrow> ar_approval c = Some ap \<Longrightarrow> dispatch_authority be c ap s d w = (Inr u, w')
       \<Longrightarrow> worker_step be mode (w, ph) (w', ph(k := Authorised c s))"
| deny_authority:
    "ph k = Claimed c s d \<Longrightarrow> ar_approval c = Some ap \<Longrightarrow> dispatch_authority be c ap s d w = (Inl e, w')
       \<Longrightarrow> worker_step be mode (w, ph) (w', ph(k := (if is_PermissionError e then Refused c s else Idle)))"
| effect:
    "ph k = Authorised c s \<Longrightarrow> checked_effect be c w = (x, w')
       \<Longrightarrow> worker_step be mode (w, ph) (w', ph(k := Effected c s x))"
| refuse:
    "ph k = Refused c s \<Longrightarrow> refuse be c s w = (x, w')
       \<Longrightarrow> worker_step be mode (w, ph) (w', ph(k := Idle))"
| settle:
    "ph k = Effected c s out \<Longrightarrow> settle be c s out w = (x, w')
       \<Longrightarrow> worker_step be mode (w, ph) (w', ph(k := Idle))"
| crash: "worker_step be mode (w, ph) (w, ph(k := Idle))"
| other_transaction:
    "ledger_step (w_db w) db \<Longrightarrow> worker_step be mode (w, ph) (w\<lparr>w_db := db\<rparr>, ph)"

text \<open>The action a worker still may dispatch.\<close>

fun pending :: "phase \<Rightarrow> string option" where
  "pending (Claimed c s d) = Some (ar_id c)"
| "pending (Authorised c s) = Some (ar_id c)"
| "pending _ = None"

definition claimed_in :: "action_db \<Rightarrow> string \<Rightarrow> bool" where
  "claimed_in db i \<longleftrightarrow> (\<exists>r. current_record db i = Some r \<and> 2 \<le> ar_revision r)"

definition workers_ok :: "system \<Rightarrow> bool" where
  "workers_ok S \<longleftrightarrow>
     ledger_ok (w_db (fst S)) \<and> distinct (map snd (w_effects (fst S)))
     \<and> (\<forall>k i. pending (snd S k) = Some i \<longrightarrow>
            claimed_in (w_db (fst S)) i \<and> i \<notin> set (map snd (w_effects (fst S)))
            \<and> (\<forall>k'. pending (snd S k') = Some i \<longrightarrow> k' = k))
     \<and> (\<forall>i \<in> set (map snd (w_effects (fst S))). claimed_in (w_db (fst S)) i)"

lemma claimed_in_mono: "ledger_step\<^sup>*\<^sup>* db db' \<Longrightarrow> claimed_in db i \<Longrightarrow> claimed_in db' i"
  unfolding claimed_in_def using ledger.rank_mono by fastforce

lemma history_revision: "history_of r evs \<Longrightarrow> 0 \<le> ar_revision r \<Longrightarrow>
    ar_revision r = int (length (path_to (ar_state r))) - 1"
proof -
  assume "history_of r evs" "0 \<le> ar_revision r"
  then have "length (path_to (ar_state r)) = length [0..ar_revision r]"
    unfolding history_of_def by (metis length_map)
  then show ?thesis using \<open>0 \<le> ar_revision r\<close> by simp
qed

lemma ledger_revision:
  assumes "ledger_ok db" and "current_record db i = Some r"
  shows "ar_revision r = int (length (path_to (ar_state r))) - 1"
  using assms ledger_ok_Some [of db i "Dump r"] history_revision
  by (auto simp: valid_record_fields_def)

text \<open>A claim finds the action unclaimed and leaves it claimed.\<close>

lemma claim_first:
  assumes "ledger_ok (w_db w)" and "claim be r s w = (Inr c, w')"
  shows "\<not> claimed_in (w_db w) (ar_id c)" and "claimed_in (w_db w') (ar_id c)"
    and "ledger_step\<^sup>*\<^sup>* (w_db w) (w_db w')"
proof -
  note c = claim_Inr [OF assms(2)]
  have "ar_state r = APPROVED"
    using assms(2)
    by (cases "ar_state r") (auto simp: claim_def action_transition_Inr dest!: transition_now_effects)
  moreover have cur: "current_record (w_db w) (ar_id c) = Some r" using c(1,2) by simp
  ultimately have "ar_revision r = 1"
    using ledger_revision [OF assms(1)] by fastforce
  with cur c(1,3) show "\<not> claimed_in (w_db w) (ar_id c)" "claimed_in (w_db w') (ar_id c)"
    by (auto simp: claimed_in_def)
  show "ledger_step\<^sup>*\<^sup>* (w_db w) (w_db w')"
    using transition_now_run assms(2) by (auto simp: claim_def ledger_run_def)
qed

lemma workers_ok_frame:
  assumes "workers_ok (w, ph)" and "ledger_step\<^sup>*\<^sup>* (w_db w) (w_db w')" and "w_effects w' = w_effects w"
    and "\<And>k. pending (ph' k) = None \<or> pending (ph' k) = pending (ph k)"
  shows "workers_ok (w', ph')"
proof -
  have "ledger_ok (w_db w')"
    using assms(1,2) ledger_ok_steps by (auto simp: workers_ok_def)
  moreover have "pending (ph k) = Some i" if "pending (ph' k) = Some i" for k i
    using assms(4) [of k] that by auto
  ultimately show ?thesis
    using assms(1,3) claimed_in_mono [OF assms(2)] unfolding workers_ok_def fst_conv snd_conv by metis
qed

lemma workers_ok_run:
  assumes "workers_ok (w, ph)" and "ledger_run w w'" and "w_effects w' = w_effects w"
    and "pending p = None \<or> pending p = pending (ph k)"
  shows "workers_ok (w', ph(k := p))"
  using assms by (intro workers_ok_frame [of w ph w']) (auto simp: ledger_run_def)

lemma workers_ok_quiet:
  "workers_ok (w, ph) \<Longrightarrow> quiet w w' \<Longrightarrow> pending p = None \<or> pending p = pending (ph k)
     \<Longrightarrow> workers_ok (w', ph(k := p))"
  by (rule workers_ok_run) (auto simp: quiet_def ledger_run_def)

lemma workers_ok_claim:
  assumes "workers_ok (w, ph)" and "claim be r s w = (Inr c, w')"
  shows "workers_ok (w', ph(k := Claimed c s d))"
proof -
  from assms(1) have "ledger_ok (w_db w)" by (simp add: workers_ok_def)
  note first = claim_first [OF this assms(2)] and eff = claim_Inr(7) [OF assms(2)]
  have "workers_ok (w', ph(k := Idle))"
    using assms(1) eff first(3) by (intro workers_ok_run) (auto simp: ledger_run_def)
  moreover have "pending (ph j) \<noteq> Some (ar_id c)" for j
    using assms(1) first(1) by (auto simp: workers_ok_def)
  moreover have "ar_id c \<notin> set (map snd (w_effects w'))"
    using assms(1) first(1) eff by (auto simp: workers_ok_def)
  ultimately show ?thesis
    using first(2) by (auto simp: workers_ok_def split: if_splits)
qed

lemma workers_ok_effect:
  assumes "workers_ok (w, ph)" and "ph k = Authorised c s" and "checked_effect be c w = (x, w')"
  shows "workers_ok (w', ph(k := Effected c s x))"
proof -
  note fr = checked_effect_frame [OF assms(3)]
  have "pending (ph k) = Some (ar_id c)" by (simp add: assms(2))
  with assms(1) have "claimed_in (w_db w) (ar_id c)" "ar_id c \<notin> set (map snd (w_effects w))"
      "\<And>j. pending (ph j) = Some (ar_id c) \<Longrightarrow> j = k"
    by (auto simp: workers_ok_def)
  with assms(1) fr show ?thesis by (auto simp: workers_ok_def split: if_splits)
qed

lemma workers_ok_step:
  assumes "worker_step be mode S S'" and "workers_ok S"
  shows "workers_ok S'"
  using assms
proof (induction rule: worker_step.induct)
  case (prepare ph k i s w r ap d w')
  then show ?case by (intro workers_ok_quiet quietD [OF quiet_prepare]) auto
next
  case (prepare_ends ph k i s w x w')
  then have "workers_ok (w', ph(k := Idle))" by (intro workers_ok_quiet quietD [OF quiet_prepare]) auto
  with prepare_ends(1) show ?case by (metis fun_upd_triv)
next
  case (claim ph k r s d w c w')
  then show ?case by (intro workers_ok_claim) auto
next
  case (claim_fails ph k r s d w e w')
  then show ?case using claim_Inl [OF claim_fails(2)] by (intro workers_ok_run) (auto simp: ledger_run_def)
next
  case (authorise ph k c s d ap w u w')
  then show ?case by (intro workers_ok_quiet quietD [OF quiet_authority]) auto
next
  case (deny_authority ph k c s d ap w e w')
  then show ?case by (intro workers_ok_quiet quietD [OF quiet_authority]) auto
next
  case (effect ph k c s w x w')
  then show ?case by (intro workers_ok_effect) auto
next
  case (refuse ph k c s w x w')
  then show ?case
    using refuse_effects [OF refuse(2)]
    by (intro workers_ok_run) (auto simp: refuse_def intro: transition_now_run)
next
  case (settle ph k c s out w x w')
  then show ?case
    using settle_effects [OF settle(2)] keepsD [OF keeps_run_settle settle(2)]
    by (intro workers_ok_run) auto
next
  case (crash w ph k)
  then show ?case by (intro workers_ok_quiet) (auto simp: quiet_def)
next
  case (other_transaction w db ph)
  then show ?case by - (rule workers_ok_frame [of w ph], auto)
qed

definition initial_system :: "nat \<Rightarrow> system" where
  "initial_system n = (\<lparr>w_db = empty_db, w_tick = n, w_effects = []\<rparr>, \<lambda>_. Idle)"

lemma workers_ok_reachable: "(worker_step be mode)\<^sup>*\<^sup>* (initial_system n) S \<Longrightarrow> workers_ok S"
proof (induction rule: rtranclp_induct)
  case base
  show ?case by (simp add: workers_ok_def initial_system_def ledger_ok_empty)
qed (rule workers_ok_step)

text \<open>A call of \<open>execute\<close> that is not interrupted is one such run of a worker.\<close>

lemma dispatch_is_run:
  assumes "dispatch be c s d w = (x, w')" and "ar_approval c = Some ap"
  shows "(worker_step be mode)\<^sup>*\<^sup>* (w, ph(k := Claimed c s d)) (w', ph(k := Idle))"
proof -
  obtain y w1 where y: "dispatch_authority be c ap s d w = (y, w1)" by fastforce
  show ?thesis
  proof (cases y)
    case (Inl e)
    have deny: "worker_step be mode (w, ph(k := Claimed c s d))
        (w1, ph(k := (if is_PermissionError e then Refused c s else Idle)))"
      using worker_step.deny_authority [of "ph(k := Claimed c s d)" k c s d ap be w e w1 mode] y Inl assms(2)
      by simp
    show ?thesis
    proof (cases "is_PermissionError e")
      case True
      with assms y Inl have "refuse be c s w1 = (x, w')" by (simp add: dispatch_def)
      then have "worker_step be mode (w1, ph(k := Refused c s)) (w', ph(k := Idle))"
        using worker_step.refuse [of "ph(k := Refused c s)" k c s be w1 x w' mode] by simp
      with deny True show ?thesis by (simp add: converse_rtranclp_into_rtranclp r_into_rtranclp)
    next
      case False
      with assms y Inl deny show ?thesis by (auto simp: dispatch_def)
    qed
  next
    case (Inr u)
    obtain out w2 where out: "checked_effect be c w1 = (out, w2)" by fastforce
    with assms y Inr have st: "settle be c s out w2 = (x, w')" by (simp add: dispatch_def)
    have "worker_step be mode (w, ph(k := Claimed c s d)) (w1, ph(k := Authorised c s))"
      using worker_step.authorise [of "ph(k := Claimed c s d)" k c s d ap be w u w1 mode] y Inr assms(2)
      by simp
    moreover have "worker_step be mode (w1, ph(k := Authorised c s)) (w2, ph(k := Effected c s out))"
      using worker_step.effect [of "ph(k := Authorised c s)" k c s be w1 out w2 mode] out by simp
    moreover have "worker_step be mode (w2, ph(k := Effected c s out)) (w', ph(k := Idle))"
      using worker_step.settle [of "ph(k := Effected c s out)" k c s out be w2 x w' mode] st by simp
    ultimately show ?thesis by (meson converse_rtranclp_into_rtranclp r_into_rtranclp)
  qed
qed

lemma execute_is_run:
  assumes "execute be mode i s w = (x, w')" and "ph k = Idle"
  shows "(worker_step be mode)\<^sup>*\<^sup>* (w, ph) (w', ph)"
proof -
  obtain y w1 where y: "prepare_execute be mode i s w = (y, w1)" by fastforce
  consider (ready) r ap d where "y = Inr (Ready r ap d)" | (ends) "w' = w1"
    using assms(1) y by (auto simp: execute_def bindP_def split: sum.splits prepared.splits)
  then show ?thesis
  proof cases
    case ends
    then show ?thesis using worker_step.prepare_ends [of ph k, OF assms(2) y] by blast
  next
    case ready
    have idle: "ph(k := Idle) = ph" using assms(2) by auto
    have prep: "worker_step be mode (w, ph) (w1, ph(k := Prepared r s d))"
      using worker_step.prepare [of ph k, OF assms(2)] y ready by blast
    obtain z w2 where z: "claim be r s w1 = (z, w2)" by fastforce
    show ?thesis
    proof (cases z)
      case (Inl e)
      with assms(1) y ready z have "w' = w2" by (simp add: execute_def bindP_def)
      moreover have "worker_step be mode (w1, ph(k := Prepared r s d)) (w2, ph)"
        using worker_step.claim_fails [of "ph(k := Prepared r s d)" k r s d be w1 e w2 mode] z Inl idle
        by simp
      ultimately show ?thesis using prep by (meson converse_rtranclp_into_rtranclp r_into_rtranclp)
    next
      case (Inr c)
      with assms(1) y ready z have "dispatch be c s d w2 = (x, w')"
        by (simp add: execute_def bindP_def)
      moreover have "ar_approval c = Some ap"
        using prepare_Ready(3) [of be mode i s w r ap d w1] y ready z Inr
          claim_Inr(1) [of be r s w1 c w2] by simp
      moreover have "worker_step be mode (w1, ph(k := Prepared r s d)) (w2, ph(k := Claimed c s d))"
        using worker_step.claim [of "ph(k := Prepared r s d)" k r s d be w1 c w2 mode] z Inr by simp
      ultimately show ?thesis
        using prep dispatch_is_run [of be c s d w2 x w' ap mode ph k] idle
        by (metis converse_rtranclp_into_rtranclp)
    qed
  qed
qed

section \<open>What proposing and approving establish\<close>

lemma approve_Inr:
  assumes "approve be mode i s w = (Inr r', w')"
  obtains r d p n m where "action_get (w_db w) i = Inr r" "ar_state r = PROPOSED" "s \<noteq> ar_proposer r"
    "vouched be p s Approver (act_namespace (ar_proposal r))"
    "reviewed be (ar_proposal r) (ar_proposer r) d" "be_clock be n \<le> d"
    "act_mode (ar_proposal r) = mode"
    "r' = after_record (be_utc_now be m) r APPROVED (Some (new_approval s r (be_clock be n))) None"
    "db_actions (w_db w') i = Some (Dump r')" "w_effects w' = w_effects w"
proof -
  from assms obtain r d p p' w1 w2 w3 n where *: "action_get (w_db w) i = Inr r"
      "broker_identity be s Approver (act_namespace (ar_proposal r)) w = (Inr p, w1)"
      "s \<noteq> ar_proposer r" "ar_state r = PROPOSED"
      "broker_review be mode (ar_proposal r) (ar_proposer r) w1 = (Inr d, w2)"
      "broker_identity be s Approver (act_namespace (ar_proposal r)) w2 = (Inr p', w3)"
      "be_clock be n \<le> d"
      "transition_now be r APPROVED s ''HUMAN_APPROVED'' (Some (new_approval s r (be_clock be n))) None
         (w3\<lparr>w_tick := Suc (w_tick w3)\<rparr>) = (Inr r', w')"
    unfolding approve_def bindP_Inr_iff by (elim exE conjE) auto
  have "quiet w w3"
    using *(2,5,6) quietD [OF quiet_identity] quietD [OF quiet_review] quiet_trans by meson
  with transition_now_effects [OF *(8)] have eff: "w_effects w' = w_effects w"
    by (simp add: quiet_def)
  from transition_now_effects [OF *(8)] *(1)
  have "r' = after_record (be_utc_now be (Suc (w_tick w3))) r APPROVED
             (Some (new_approval s r (be_clock be n))) None"
      "db_actions (w_db w') i = Some (Dump r')"
    by (auto simp: action_transition_Inr action_get_iff)
  with * eff show thesis
    by (intro that [OF *(1,4,3) broker_identity_Inr [OF *(2)] broker_review_Inr(1) [OF *(5)] *(7)
          broker_review_Inr(2) [OF *(5)]]) auto
qed

section \<open>Sample environment\<close>

text \<open>Subjects that hold every role, one retained log entry as evidence, constant clocks and an
  executor that succeeds.\<close>

definition sample_item :: evidence_item where
  "sample_item =
     \<lparr>ev_id = ''ev-1'', ev_incident = ''inc-1'', ev_source = LOG, ev_observed = 5, ev_collected = 5,
      ev_query = ''logs'', ev_resource = ''payments-api'',
      ev_uri = ''sha256://'' @ sha256_hex ''log'', ev_sha256 = sha256_hex ''log'',
      ev_summary = ''errors''\<rparr>"

definition sample_store :: window_store where
  "sample_store =
     \<lparr>st_files = [sha256_hex ''log'' \<mapsto> ''log''],
      st_decode = (\<lambda>_. Inr [(''evidence'', evidence_json sample_item)]),
      st_window = (\<lambda>_. Inl invalid)\<rparr>"

definition sample_report :: incident_report where
  "sample_report =
     \<lparr>rp_incident = ''inc-1'', rp_evidence = [sample_item], rp_causes = [], rp_terminal = ESCALATED,
      rp_mode = Local_kind, rp_duration = 0, rp_method = Deterministic, rp_stop_reason = None,
      rp_receipts = [], rp_trace_id = ''t''\<rparr>"

definition sample_incident :: incident where
  "sample_incident =
     \<lparr>in_id = ''inc-1'', in_request = \<lparr>ic_title = ''t'', ic_namespace = ''payops-sandbox'',
        ic_service = ''payments-api'', ic_severity = Warning\<rparr>, in_created = 1,
      in_report = Some sample_report\<rparr>"

definition sample_resource :: resource_snapshot where
  "sample_resource =
     \<lparr>rs_namespace = ''payops-sandbox'', rs_service = ''payments-api'', rs_uid = ''uid-1'',
      rs_version = ''v1'', rs_observed_at = 5, rs_kind = Deployment_kind, rs_synthetic = True,
      rs_replicas = 1, rs_approved = [], rs_mode = Local_kind\<rparr>"

definition sample_principal :: "string \<Rightarrow> principal" where
  "sample_principal s =
     \<lparr>pr_subject = s, pr_roles = [Responder, Approver, Executor], pr_namespaces = [''payops-sandbox''],
      pr_verified_at = 5, pr_expires_at = 100, pr_enabled = True\<rparr>"

definition sample_receipt :: effect_receipt where
  "sample_receipt =
     \<lparr>er_outcome = SUCCEEDED, er_uid = ''uid-1'', er_previous = ''v1'', er_resulting = Some ''v2''\<rparr>"

definition sample_backend :: "unit backend" where
  "sample_backend =
     \<lparr>be_clock = (\<lambda>_. 10), be_utc_now = (\<lambda>_. 10),
      be_principal = (\<lambda>_ s. Inr (Some (sample_principal s))),
      be_context = (\<lambda>_ _ s. Inr \<lparr>pc_principal = Some (sample_principal s),
         pc_incident = sample_incident, pc_resource = sample_resource, pc_store = sample_store\<rparr>),
      be_execute = (\<lambda>_ _ _. Inr sample_receipt)\<rparr>"

definition sample_world :: world where
  "sample_world = \<lparr>w_db = sample_db, w_tick = 0, w_effects = []\<rparr>"

lemma sample_identity:
  assumes "role \<in> {Responder, Approver, Executor}"
  shows "broker_identity sample_backend s role ''payops-sandbox'' w
           = (Inr (sample_principal s), w\<lparr>w_tick := Suc (Suc (w_tick w))\<rparr>)"
  using assms
  by (auto simp: broker_identity_def bindP_def ask_def call_def sample_backend_def
      sample_principal_def identity_valid_def fresh_def one_second_def)

lemma sample_permitted:
  "permitted sample_action \<lparr>pc_principal = Some (sample_principal s), pc_incident = sample_incident,
     pc_resource = sample_resource, pc_store = sample_store\<rparr> 10"
proof -
  have "py_eq (evidence_json sample_item) (evidence_json sample_item)"
    by (simp add: evidence_json_def)
  then have "store_verify sample_store sample_item = Inr [(''evidence'', evidence_json sample_item)]"
    by (auto simp: store_verify_iff sample_store_def sample_item_def MAX_ARTIFACT_BYTES_def)
  then have "operational sample_store sample_item"
    by (simp add: operational_def sample_item_def)
  then show ?thesis
    by (simp add: permitted_def justified_def sample_action_def sample_incident_def sample_resource_def
        sample_report_def identity_valid_def sample_principal_def SERVICES_def fresh_def one_second_def
        expected_kind_def revision_denied_def)
       (simp add: sample_item_def)
qed

lemma sample_review:
  "broker_review sample_backend Local_kind sample_action s w
     = (Inr 30000005, w\<lparr>w_tick := w_tick w + 4\<rparr>)"
proof -
  have ns: "act_namespace sample_action = ''payops-sandbox''" "act_mode sample_action = Local_kind"
    by (simp_all add: sample_action_def)
  have "evaluate (action_json sample_action) \<lparr>pc_principal = Some (sample_principal s),
      pc_incident = sample_incident, pc_resource = sample_resource, pc_store = sample_store\<rparr> 10
      = Inr (approval_review sample_action)"
    using sample_permitted by (simp add: evaluate_approval_iff validate_action_json sample_text)
  moreover have "min_list_of (deadlines sample_action \<lparr>pc_principal = Some (sample_principal s),
      pc_incident = sample_incident, pc_resource = sample_resource, pc_store = sample_store\<rparr>
      sample_report) = 30000005"
    by (simp add: min_list_of_def deadlines_def sample_action_def sample_report_def sample_item_def
        sample_resource_def one_second_def)
  moreover have "be_utc_now sample_backend = (\<lambda>_. 10)"
      "be_context sample_backend = (\<lambda>_ _ s. Inr \<lparr>pc_principal = Some (sample_principal s),
         pc_incident = sample_incident, pc_resource = sample_resource, pc_store = sample_store\<rparr>)"
      "rv_decision (approval_review sample_action) = APPROVAL_REQUIRED"
      "in_report sample_incident = Some sample_report"
    by (simp_all add: sample_backend_def approval_review_def sample_incident_def)
  ultimately show ?thesis
    by (simp add: broker_review_def bindP_def sample_identity ask_def call_def ns)
qed

definition sample_grant :: approval where
  "sample_grant = new_approval ''bob'' sample_record 10"

definition sample_approved :: action_record where
  "sample_approved = after_record 10 sample_record APPROVED (Some sample_grant) None"

definition approved_world :: world where
  "approved_world =
     snd (approve sample_backend Local_kind (action_digest sample_action) ''bob'' sample_world)"

lemma sample_approve_ok:
  "approve sample_backend Local_kind (action_digest sample_action) ''bob'' sample_world
     = (Inr sample_approved, approved_world)"
proof -
  have rec: "ar_proposal sample_record = sample_action" "ar_proposer sample_record = ''alice''"
      "ar_state sample_record = PROPOSED" "act_namespace sample_action = ''payops-sandbox''"
      "ar_id sample_record = action_digest sample_action"
    by (simp_all add: sample_record_def sample_action_def)
  have get: "action_get sample_db (action_digest sample_action) = Inr sample_record"
    using sample_valid by (simp add: action_get_iff sample_create rec validate_record_iff)
  have grant: "valid_approval sample_grant"
    by (simp add: valid_approval_def sample_grant_def new_approval_def rec sample_text)
  have "fst (action_transition 10 sample_record APPROVED ''bob'' ''HUMAN_APPROVED'' (Some sample_grant)
      None sample_db) = Inr sample_approved"
    unfolding transition_commits [OF sample_ledger(2)] sample_approved_def
    using sample_valid grant
    by (simp add: validate_record_iff valid_record_fields_def consistent_record_def rec two_person_def
        sample_text get)
       (simp add: sample_grant_def new_approval_def rec one_second_def)
  then obtain db where db: "action_transition 10 sample_record APPROVED ''bob'' ''HUMAN_APPROVED''
      (Some sample_grant) None sample_db = (Inr sample_approved, db)"
    by (metis prod.collapse)
  have clocks: "be_clock sample_backend = (\<lambda>_. 10)" "be_utc_now sample_backend = (\<lambda>_. 10)"
    by (simp_all add: sample_backend_def)
  have "fst (approve sample_backend Local_kind (action_digest sample_action) ''bob'' sample_world)
      = Inr sample_approved"
    using db grant
    by (simp add: approve_def bindP_def read_db_def sample_world_def get rec sample_identity sample_review
        ask_def clocks transition_now_def on_db_def sample_grant_def)
  then show ?thesis unfolding approved_world_def by (metis prod.collapse)
qed

lemma approved_world_facts:
  "ledger_ok (w_db approved_world)"
  "action_get (w_db approved_world) (action_digest sample_action) = Inr sample_approved"
  "w_effects approved_world = []"
proof -
  have "ledger_run sample_world approved_world"
    using keepsD [OF keeps_run_approve sample_approve_ok] .
  then show ok: "ledger_ok (w_db approved_world)"
    using ledger_ok_steps sample_ledger(2) by (simp add: ledger_run_def sample_world_def)
  show "action_get (w_db approved_world) (action_digest sample_action) = Inr sample_approved"
      "w_effects approved_world = []"
    using sample_approve_ok
    by (rule approve_Inr; use ok in \<open>auto elim: action_audit_ok simp: sample_world_def\<close>)+
qed

lemma sample_env:
  "be_clock sample_backend = (\<lambda>_. 10)" "be_utc_now sample_backend = (\<lambda>_. 10)"
  "be_execute sample_backend = (\<lambda>_ _ _. Inr sample_receipt)"
  "ap_approved_at sample_grant = 10" "ap_expires_at sample_grant = 300000010"
  "ap_subject sample_grant = ''bob''"
  by (simp_all add: sample_backend_def sample_grant_def new_approval_def one_second_def)

lemma sample_approved_fields:
  "ar_proposal sample_approved = sample_action" "ar_proposer sample_approved = ''alice''"
  "ar_state sample_approved = APPROVED" "ar_id sample_approved = action_digest sample_action"
  "ar_approval sample_approved = Some sample_grant"
  "act_namespace sample_action = ''payops-sandbox''" "act_mode sample_action = Local_kind"
  by (simp_all add: sample_approved_def sample_record_def sample_action_def)

lemma sample_prepare:
  "\<exists>w. prepare_execute sample_backend Local_kind (action_digest sample_action) ''worker'' approved_world
      = (Inr (Ready sample_approved sample_grant 30000005), w) \<and> quiet approved_world w"
  by (simp add: prepare_execute_def bindP_def read_db_def approved_world_facts sample_approved_fields
      sample_identity sample_review ask_def sample_env approval_current_def quiet_def)

lemma sample_claim:
  assumes "quiet approved_world w"
  shows "\<exists>c w'. claim sample_backend sample_approved ''worker'' w = (Inr c, w')"
proof -
  let ?c = "after_record 10 sample_approved EXECUTING None None"
  have "fst (action_transition 10 sample_approved EXECUTING ''worker'' ''DISPATCH'' None None
      (w_db approved_world)) = Inr ?c"
    unfolding transition_commits [OF approved_world_facts(1)]
    using approved_world_facts(2)
    by (auto simp: sample_approved_fields sample_text validate_record_iff action_get_iff
        valid_record_fields_def consistent_record_def two_person_def split: option.splits)
  with assms obtain db where "action_transition 10 sample_approved EXECUTING ''worker'' ''DISPATCH''
      None None (w_db w) = (Inr ?c, db)"
    by (cases "action_transition 10 sample_approved EXECUTING ''worker'' ''DISPATCH'' None None (w_db w)")
       (simp add: quiet_def)
  then show ?thesis
    by (simp add: claim_def transition_now_def bindP_def ask_def on_db_def sample_env)
qed

lemma sample_dispatch_authority:
  assumes "ar_proposal c = sample_action" "ar_proposer c = ''alice''"
  shows "\<exists>w'. dispatch_authority sample_backend c sample_grant ''worker'' 30000005 w = (Inr (), w')"
proof -
  have "identity_valid (Some (sample_principal s)) role ''payops-sandbox'' 10"
    if "role \<in> {Responder, Approver, Executor}" for s role
    using that by (auto simp: identity_valid_def sample_principal_def fresh_def one_second_def)
  with assms show ?thesis
    by (simp add: dispatch_authority_def Let_def bindP_def sample_approved_fields sample_identity ask_def
        sample_env approval_current_def)
qed

lemma sample_execute:
  "\<exists>x w. execute sample_backend Local_kind (action_digest sample_action) ''worker'' approved_world = (x, w)
     \<and> w_effects w \<noteq> w_effects approved_world"
proof -
  let ?be = sample_backend and ?i = "action_digest sample_action" and ?w = approved_world
  obtain w1 where w1: "prepare_execute ?be Local_kind ?i ''worker'' ?w
      = (Inr (Ready sample_approved sample_grant 30000005), w1)" "quiet ?w w1"
    using sample_prepare by blast
  obtain c w2 where w2: "claim ?be sample_approved ''worker'' w1 = (Inr c, w2)"
    using sample_claim [OF w1(2)] by blast
  have c: "ar_proposal c = sample_action" "ar_proposer c = ''alice''" "ar_approval c = Some sample_grant"
    using claim_Inr(1) [OF w2] by (simp_all add: sample_approved_fields)
  obtain w3 where w3: "dispatch_authority ?be c sample_grant ''worker'' 30000005 w2 = (Inr (), w3)"
    using sample_dispatch_authority c by blast
  obtain out w4 where out: "checked_effect ?be c w3 = (out, w4)" by fastforce
  obtain x w5 where x: "settle ?be c ''worker'' out w4 = (x, w5)" by fastforce
  have "w_effects w3 = []"
    using quietD [OF quiet_authority w3] claim_Inr(7) [OF w2] w1(2) approved_world_facts(3)
    by (simp add: quiet_def)
  with checked_effect_frame [OF out] settle_effects [OF x] have "w_effects w5 \<noteq> []" by simp
  moreover have "execute ?be Local_kind ?i ''worker'' ?w = (x, w5)"
    using w1 w2 w3 out x c by (simp add: execute_def bindP_def dispatch_def)
  ultimately show ?thesis using approved_world_facts(3) by auto
qed

lemma sample_receipts: "be_execute sample_backend n a k = Inr res \<Longrightarrow> valid_receipt res"
proof -
  have "is_identifier ''uid-1''" "is_identifier ''v1''" "is_identifier ''v2''" by code_simp+
  then have "valid_receipt sample_receipt" by (simp add: valid_receipt_def sample_receipt_def)
  then show "be_execute sample_backend n a k = Inr res \<Longrightarrow> valid_receipt res"
    by (simp add: sample_env)
qed

section \<open>Properties\<close>

text \<open>C1: An execution request dispatches at most one effect, and only this one: the proposal of an
  approved record of the requested action, in the broker's own mode, under an approval of its digest
  by somebody other than the proposer. All of its authority was read by this very request, in this
  order: the executor was refreshed and valid; the approval was in force; the approver was refreshed
  and valid; the proposer was refreshed and valid, and in the context read next the policy permitted
  the action for that proposer; the approval was still in force after that review. After the claim all
  three identities were refreshed again and valid together at one clock reading, the approval was in
  force at the reading after that, and the deadline of the review had not passed at the last one.\<close>

theorem effect_needs_authority:
  assumes "execute be mode i s w = (x, w')"
  shows "w_effects w' = w_effects w
         \<or> (\<exists>r. effect_authority be mode (w_tick w) (w_db w) i s r
              \<and> w_effects w' = w_effects w @ [(ar_proposal r, i)])"
  by (rule execute_effect [OF assms])

theorem effect_needs_authority_witness:
  "\<exists>x w r. execute sample_backend Local_kind (action_digest sample_action) ''worker'' approved_world = (x, w)
     \<and> effect_authority sample_backend Local_kind (w_tick approved_world) (w_db approved_world)
         (action_digest sample_action) ''worker'' r
     \<and> w_effects w = [(ar_proposal r, action_digest sample_action)]"
proof -
  obtain x w where run: "execute sample_backend Local_kind (action_digest sample_action) ''worker'' approved_world
      = (x, w)" "w_effects w \<noteq> w_effects approved_world"
    using sample_execute by blast
  from effect_needs_authority [OF run(1)] run show ?thesis
    by (auto simp: approved_world_facts(3))
qed

text \<open>C2: Under every interleaving of any number of workers, ledger transactions and crashes, each
  action is dispatched to the executor at most once.\<close>

theorem dispatched_at_most_once:
  assumes "(worker_step be mode)\<^sup>*\<^sup>* (initial_system n) S"
  shows "distinct (map snd (w_effects (fst S)))"
  using workers_ok_reachable [OF assms] by (simp add: workers_ok_def)

theorem dispatched_at_most_once_witness:
  "\<exists>S. (worker_step sample_backend Local_kind)\<^sup>*\<^sup>* (initial_system 0) S \<and> w_db (fst S) = sample_db
       \<and> distinct (map snd (w_effects (fst S)))"
proof -
  let ?S = "(\<lparr>w_db = sample_db, w_tick = 0, w_effects = []\<rparr>, \<lambda>_. Idle)"
  have "(worker_step sample_backend Local_kind)\<^sup>*\<^sup>* (initial_system 0) ?S"
    using worker_step.other_transaction [of "\<lparr>w_db = empty_db, w_tick = 0, w_effects = []\<rparr>" sample_db
        sample_backend Local_kind "\<lambda>_. Idle"] sample_ledger(1)
    by (auto simp: initial_system_def)
  with dispatched_at_most_once [OF this] show ?thesis by force
qed

text \<open>C24: The worker steps of the interleaving model are the code: an uninterrupted call of
  \<open>execute\<close> by an idle worker is a sequence of worker steps with the same outcome.\<close>

theorem execute_refines_worker:
  assumes "execute be mode i s w = (x, w')" and "ph k = Idle"
  shows "(worker_step be mode)\<^sup>*\<^sup>* (w, ph) (w', ph)"
  by (rule execute_is_run [of be mode i s w x w' ph k, OF assms])

theorem execute_refines_worker_witness:
  "\<exists>w. w_effects w \<noteq> w_effects approved_world
     \<and> (worker_step sample_backend Local_kind)\<^sup>*\<^sup>* (approved_world, \<lambda>_. Idle) (w, \<lambda>_. Idle)"
  using sample_execute execute_refines_worker [of sample_backend Local_kind _ _ approved_world _ _ "\<lambda>_. Idle"]
  by blast

text \<open>C25: A dispatched effect is settled: if the executor only returns well formed receipts, the
  request returns the stored record, whose state and result are those of the receipt when it names
  the proposed resource version, and \<open>UNKNOWN\<close> without result when the executor failed or its
  receipt does not match.\<close>

theorem effect_is_settled:
  assumes "ledger_ok (w_db w)"
    and "\<And>n a k res. be_execute be n a k = Inr res \<Longrightarrow> valid_receipt res"
    and "execute be mode i s w = (x, w')" and "w_effects w' \<noteq> w_effects w"
  shows "\<exists>r n. x = Inr r \<and> action_get (w_db w') i = Inr r
           \<and> (ar_state r, ar_result r)
               = effect_outcome (ar_proposal r) (be_execute be n (ar_proposal r) i)"
  using execute_settles [of w be mode i s x w'] assms by blast

theorem effect_is_settled_witness:
  "\<exists>x w r n. execute sample_backend Local_kind (action_digest sample_action) ''worker'' approved_world = (x, w)
     \<and> x = Inr r \<and> (ar_state r, ar_result r)
         = effect_outcome (ar_proposal r) (be_execute sample_backend n (ar_proposal r) (action_digest sample_action))"
  using sample_execute effect_is_settled [OF approved_world_facts(1), of sample_backend] sample_receipts
  by metis

text \<open>A request for an action that is not in state \<open>APPROVED\<close> changes neither the ledger nor the
  effects, and if it returns it returns the stored record.\<close>

theorem replay_has_no_effect:
  assumes "action_get (w_db w) i = Inr r" and "ar_state r \<noteq> APPROVED"
    and "execute be mode i s w = (x, w')"
  shows "w_db w' = w_db w \<and> w_effects w' = w_effects w \<and> x \<in> insert (Inr r) (range Inl)"
  using execute_replay [OF assms] by (cases x) auto

theorem replay_has_no_effect_witness:
  "w_effects (snd (execute sample_backend Local_kind (action_digest sample_action) ''worker'' sample_world)) = []"
proof -
  have "action_get (w_db sample_world) (action_digest sample_action) = Inr sample_record"
    using sample_valid
    by (simp add: action_get_iff sample_create validate_record_iff sample_world_def)
       (simp add: sample_record_def)
  moreover have "ar_state sample_record \<noteq> APPROVED" by (simp add: sample_record_def)
  ultimately show ?thesis
    using replay_has_no_effect [of sample_world "action_digest sample_action" sample_record sample_backend
        Local_kind "''worker''"]
    by (metis prod.collapse sample_world_def select_convs(3))
qed

text \<open>C26: A granted approval comes from a refreshed approver other than the proposer, for a proposal
  that was still unapproved and that the policy permitted for the refreshed proposer before any of
  its deadlines; it binds the stored record's digest and dispatches nothing.\<close>

theorem approval_is_two_person:
  assumes "approve be mode i s w = (Inr r', w')"
  shows "\<exists>r d p n m. action_get (w_db w) i = Inr r \<and> ar_state r = PROPOSED \<and> s \<noteq> ar_proposer r
    \<and> vouched be p s Approver (act_namespace (ar_proposal r))
    \<and> reviewed be (ar_proposal r) (ar_proposer r) d \<and> be_clock be n \<le> d
    \<and> r' = after_record (be_utc_now be m) r APPROVED (Some (new_approval s r (be_clock be n))) None
    \<and> db_actions (w_db w') i = Some (Dump r') \<and> w_effects w' = w_effects w"
  using assms by (rule approve_Inr) blast

theorem approval_is_two_person_witness:
  "\<exists>r d. action_get (w_db sample_world) (action_digest sample_action) = Inr r \<and> ''bob'' \<noteq> ar_proposer r
     \<and> reviewed sample_backend (ar_proposal r) (ar_proposer r) d"
  using approval_is_two_person [OF sample_approve_ok] by blast

end
