(* ===== verification/Traffic.thy ===== *)
theory Traffic
  imports Broker
begin

text \<open>
  Admission and pause of synthetic traffic: \<^verbatim>\<open>src/payops/remediation/traffic_control.py\<close> and the driver
  binding of \<^verbatim>\<open>src/payops/remediation/managed_traffic.py\<close>.

  The table is a map from identifiers to rows, and each operation is one transaction on it. The fresh
  identifier of \<^verbatim>\<open>register\<close> and the clock reading of \<^verbatim>\<open>snapshot\<close> are arguments.

  Main facts: every change of a row raises its version or its admission count, so the table is an
  instance of \<open>versioned_rows\<close>; after a pause no admission for that source ever succeeds again
  (\<open>paused_for_good\<close>); and the counter of a row is the number of admissions granted.
\<close>

section \<open>Model\<close>

record traffic_row =
  tr_service :: string
  tr_mode :: run_mode
  tr_version :: int
  tr_paused :: bool
  tr_admitted :: int

type_synonym traffic_db = "string \<Rightarrow> traffic_row option"

definition traffic_scope :: "string \<Rightarrow> run_mode \<Rightarrow> bool" where
  "traffic_scope service mode \<longleftrightarrow>
     service \<in> {''payments-api'', ''webhook-sim''} \<and> mode \<in> {Local_kind, Fixture_replay}"

definition traffic_register :: "string \<Rightarrow> string \<Rightarrow> run_mode \<Rightarrow> (traffic_db, string) prog" where
  "traffic_register uid service mode db =
     (if \<not> traffic_scope service mode then (Inl (PermissionError ''TRAFFIC_SCOPE_DENIED''), db)
      else if db uid \<noteq> None then (Inl (IntegrityError ''synthetic_traffic_control''), db)
      else (Inr uid, db(uid \<mapsto> \<lparr>tr_service = service, tr_mode = mode, tr_version = 0,
                                tr_paused = False, tr_admitted = 0\<rparr>)))"

definition traffic_snapshot :: "instant \<Rightarrow> traffic_db \<Rightarrow> action \<Rightarrow> exn + resource_snapshot" where
  "traffic_snapshot now db a =
     bindR (validate_action (action_json a)) (\<lambda>b.
     bindR (check (is_pause b) (PermissionError ''TRAFFIC_ACTION_DENIED'')) (\<lambda>_.
     case db (act_uid a) of
       None \<Rightarrow> Inl (PermissionError ''TRAFFIC_SCOPE_DENIED'')
     | Some row \<Rightarrow>
         bindR (check (\<not> (tr_service row \<noteq> act_service a \<or> tr_mode row \<noteq> act_mode a
                           \<or> act_namespace a \<noteq> ''payops-sandbox''))
                  (PermissionError ''TRAFFIC_SCOPE_DENIED'')) (\<lambda>_.
         let snapshot =
           \<lparr>rs_namespace = ''payops-sandbox'', rs_service = tr_service row, rs_uid = act_uid a,
            rs_version = int_str (tr_version row), rs_observed_at = now, rs_kind = Traffic_kind,
            rs_synthetic = True, rs_replicas = (if tr_paused row then 0 else 1), rs_approved = [],
            rs_mode = act_mode a\<rparr>
         in bindR (check (valid_snapshot snapshot) invalid) (\<lambda>_. Inr snapshot))))"

definition traffic_admit :: "string \<Rightarrow> string \<Rightarrow> run_mode \<Rightarrow> (traffic_db, bool) prog" where
  "traffic_admit uid service mode db =
     (if \<not> traffic_scope service mode then (Inl (PermissionError ''TRAFFIC_SCOPE_DENIED''), db)
      else case db uid of
        None \<Rightarrow> (Inr False, db)
      | Some row \<Rightarrow>
          if tr_service row = service \<and> tr_mode row = mode \<and> \<not> tr_paused row
          then (Inr True, db(uid \<mapsto> row\<lparr>tr_admitted := tr_admitted row + 1\<rparr>))
          else (Inr False, db))"

text \<open>The conditional update of \<^verbatim>\<open>pause\<close>.\<close>

definition close_admission :: "action \<Rightarrow> (traffic_db, effect_receipt) prog" where
  "close_admission a db =
     (case db (act_uid a) of
        None \<Rightarrow> (Inl (PermissionError ''TRAFFIC_PRECONDITION_FAILED''), db)
      | Some row \<Rightarrow>
          if tr_service row = act_service a \<and> tr_mode row = act_mode a
             \<and> int_str (tr_version row) = act_version a \<and> \<not> tr_paused row
          then (Inr \<lparr>er_outcome = SUCCEEDED, er_uid = act_uid a, er_previous = act_version a,
                     er_resulting = Some (int_str (tr_version row + 1))\<rparr>,
                db(act_uid a \<mapsto> row\<lparr>tr_paused := True, tr_version := tr_version row + 1\<rparr>))
          else (Inl (PermissionError ''TRAFFIC_PRECONDITION_FAILED''), db))"

definition traffic_pause :: "instant \<Rightarrow> action \<Rightarrow> string \<Rightarrow> (traffic_db, effect_receipt) prog" where
  "traffic_pause now a key db =
     (case bindR (traffic_snapshot now db a) (\<lambda>_.
           check (key = action_digest a) (PermissionError ''TRAFFIC_DIGEST_MISMATCH'')) of
        Inl e \<Rightarrow> (Inl e, db)
      | Inr _ \<Rightarrow> close_admission a db)"

section \<open>Driver binding\<close>

record managed_driver =
  md_uid :: string
  md_service :: string
  md_mode :: run_mode

definition bind_driver :: "string \<Rightarrow> string \<Rightarrow> run_mode \<Rightarrow> bool \<Rightarrow> exn + managed_driver" where
  "bind_driver uid service mode has_transport =
     bindR (check (\<not> (mode \<noteq> (if has_transport then Fixture_replay else Local_kind)
                       \<or> service \<notin> {''payments-api'', ''webhook-sim''}))
              (PermissionError ''TRAFFIC_DRIVER_SCOPE_DENIED'')) (\<lambda>_.
     Inr \<lparr>md_uid = uid, md_service = service, md_mode = mode\<rparr>)"

definition role_service :: "string \<Rightarrow> string option" where
  "role_service role = [''payments'' \<mapsto> ''payments-api'', ''webhook'' \<mapsto> ''webhook-sim''] role"

definition driver_admit :: "managed_driver \<Rightarrow> string \<Rightarrow> (traffic_db, bool) prog" where
  "driver_admit d role db =
     (if role_service role \<noteq> Some (md_service d)
      then (Inl (PermissionError ''TRAFFIC_DRIVER_ROLE_DENIED''), db)
      else traffic_admit (md_uid d) (md_service d) (md_mode d) db)"

section \<open>Histories of the table\<close>

datatype traffic_op =
    Register string string run_mode
  | Admit string string run_mode
  | DriverAdmit managed_driver string
  | Pause instant action string

fun run_traffic :: "traffic_op \<Rightarrow> traffic_db \<Rightarrow> traffic_db" where
  "run_traffic (Register uid service mode) db = snd (traffic_register uid service mode db)"
| "run_traffic (Admit uid service mode) db = snd (traffic_admit uid service mode db)"
| "run_traffic (DriverAdmit d role) db = snd (driver_admit d role db)"
| "run_traffic (Pause now a key) db = snd (traffic_pause now a key db)"

definition traffic_step :: "traffic_db \<Rightarrow> traffic_db \<Rightarrow> bool" where
  "traffic_step db db' \<longleftrightarrow> (\<exists>op. db' = run_traffic op db)"

lemma traffic_admit_cases:
  assumes "traffic_admit uid service mode db = (x, db')"
  obtains (refused) "db' = db" "x \<noteq> Inr True"
  | (admitted) row where "db uid = Some row" "\<not> tr_paused row" "x = Inr True"
      "db' = db(uid \<mapsto> row\<lparr>tr_admitted := tr_admitted row + 1\<rparr>)"
proof (cases "x = Inr True")
  case True
  with assms obtain row where "db uid = Some row" "\<not> tr_paused row"
      "db' = db(uid \<mapsto> row\<lparr>tr_admitted := tr_admitted row + 1\<rparr>)"
    by (auto simp: traffic_admit_def split: if_splits option.splits)
  with True show thesis by (intro admitted)
next
  case False
  with assms have "db' = db" by (auto simp: traffic_admit_def split: if_splits option.splits)
  with False show thesis by (intro refused)
qed

lemma close_admission_cases:
  assumes "close_admission a db = (x, db')"
  obtains (refused) e where "db' = db" "x = Inl e"
  | (paused) row res where "db (act_uid a) = Some row" "\<not> tr_paused row"
      "int_str (tr_version row) = act_version a" "x = Inr res"
      "er_uid res = act_uid a" "er_previous res = act_version a" "er_outcome res = SUCCEEDED"
      "db' = db(act_uid a \<mapsto> row\<lparr>tr_paused := True, tr_version := tr_version row + 1\<rparr>)"
proof (cases x)
  case (Inl e)
  with assms have "db' = db" by (auto simp: close_admission_def split: if_splits option.splits)
  with Inl show thesis by (intro refused)
next
  case (Inr res)
  with assms obtain row where "db (act_uid a) = Some row" "\<not> tr_paused row"
      "int_str (tr_version row) = act_version a"
      "er_uid res = act_uid a" "er_previous res = act_version a" "er_outcome res = SUCCEEDED"
      "db' = db(act_uid a \<mapsto> row\<lparr>tr_paused := True, tr_version := tr_version row + 1\<rparr>)"
    by (auto simp: close_admission_def split: if_splits option.splits)
  with Inr show thesis by (intro paused)
qed

lemma run_traffic_cases:
  assumes "db' = run_traffic op db"
  obtains (same) "db' = db"
  | (new) uid row where "db uid = None" "db' = db(uid \<mapsto> row)"
  | (admit) uid row where "db uid = Some row" "\<not> tr_paused row"
      "db' = db(uid \<mapsto> row\<lparr>tr_admitted := tr_admitted row + 1\<rparr>)"
  | (pause) uid row where "db uid = Some row" "\<not> tr_paused row"
      "db' = db(uid \<mapsto> row\<lparr>tr_paused := True, tr_version := tr_version row + 1\<rparr>)"
proof (cases op)
  case (Register uid service mode)
  with assms show thesis
    by (auto simp: traffic_register_def split: if_splits intro: same new)
next
  case (Admit uid service mode)
  obtain x where "traffic_admit uid service mode db = (x, db')"
    using assms Admit by (metis prod.collapse run_traffic.simps(2))
  then show thesis by (cases rule: traffic_admit_cases) (auto intro: same admit)
next
  case (DriverAdmit d role)
  show thesis
  proof (cases "role_service role = Some (md_service d)")
    case True
    with DriverAdmit assms obtain x where "traffic_admit (md_uid d) (md_service d) (md_mode d) db = (x, db')"
      by (metis driver_admit_def prod.collapse run_traffic.simps(3))
    then show thesis by (cases rule: traffic_admit_cases) (auto intro: same admit)
  next
    case False
    with DriverAdmit assms show thesis by (intro same) (simp add: driver_admit_def)
  qed
next
  case (Pause now a key)
  obtain x d where c: "close_admission a db = (x, d)" by fastforce
  from Pause assms c have "db' = db \<or> db' = d"
    by (auto simp: traffic_pause_def split: sum.splits)
  with c show thesis by (cases rule: close_admission_cases) (auto intro: same pause)
qed

abbreviation (input) traffic_rank :: "traffic_row \<Rightarrow> int" where
  "traffic_rank row \<equiv> tr_version row + tr_admitted row"

interpretation traffic: versioned_rows "\<lambda>db. db" traffic_rank traffic_step
proof
  fix db db' :: traffic_db and k v
  assume "traffic_step db db'" and "db k = Some v"
  then obtain op where "db' = run_traffic op db" by (auto simp: traffic_step_def)
  then show "db' k = Some v \<or> (\<exists>v'. db' k = Some v' \<and> traffic_rank v < traffic_rank v')"
    using \<open>db k = Some v\<close> by (cases rule: run_traffic_cases) auto
qed

section \<open>A pause is final\<close>

definition same_when_paused :: "string \<Rightarrow> traffic_db \<Rightarrow> traffic_db \<Rightarrow> bool" where
  "same_when_paused uid db db' \<longleftrightarrow> (\<forall>row. db uid = Some row \<and> tr_paused row \<longrightarrow> db' uid = Some row)"

lemma paused_step: "traffic_step db db' \<Longrightarrow> same_when_paused uid db db'"
proof -
  assume "traffic_step db db'"
  then obtain op where "db' = run_traffic op db" by (auto simp: traffic_step_def)
  then show ?thesis by (cases rule: run_traffic_cases) (auto simp: same_when_paused_def)
qed

lemma paused_for_good: "traffic_step\<^sup>*\<^sup>* db db' \<Longrightarrow> same_when_paused uid db db'"
  by (induction rule: rtranclp_induct)
     (use paused_step in \<open>auto simp: same_when_paused_def\<close>)

lemma traffic_pause_Inr:
  assumes "traffic_pause now a key db = (Inr res, db')"
  obtains row where "is_pause a" "valid_action a" "key = action_digest a"
    "act_namespace a = ''payops-sandbox''" "tr_service row = act_service a" "tr_mode row = act_mode a"
    "db (act_uid a) = Some row" "\<not> tr_paused row"
    "int_str (tr_version row) = act_version a" "er_uid res = act_uid a" "er_previous res = act_version a"
    "er_outcome res = SUCCEEDED"
    "db' = db(act_uid a \<mapsto> row\<lparr>tr_paused := True, tr_version := tr_version row + 1\<rparr>)"
proof -
  from assms have *: "close_admission a db = (Inr res, db')" "key = action_digest a"
    by (auto simp: traffic_pause_def split: sum.splits)
  from assms obtain snap where "traffic_snapshot now db a = Inr snap"
    by (auto simp: traffic_pause_def split: sum.splits)
  then have "is_pause a" "valid_action a" "act_namespace a = ''payops-sandbox''"
      "\<exists>row. db (act_uid a) = Some row \<and> tr_service row = act_service a \<and> tr_mode row = act_mode a"
    by (auto simp: traffic_snapshot_def validate_action_json split: option.splits)
  with * show thesis
    by (cases rule: close_admission_cases) (auto intro: that)
qed

lemma admit_when_paused:
  assumes "db uid = Some row" and "tr_paused row"
  shows "fst (traffic_admit uid service mode db) \<noteq> Inr True" and "snd (traffic_admit uid service mode db) = db"
  using assms by (auto simp: traffic_admit_def)

section \<open>Sample values\<close>

definition sample_pause :: action where
  "sample_pause =
     PauseAction \<lparr>ab_incident = ''inc-1'', ab_namespace = ''payops-sandbox'',
       ab_service = ''payments-api'', ab_uid = ''run1'', ab_version = ''0'',
       ab_evidence = [''ev-1''], ab_mode = Local_kind\<rparr>"

definition sample_row :: traffic_row where
  "sample_row = \<lparr>tr_service = ''payments-api'', tr_mode = Local_kind, tr_version = 0,
     tr_paused = False, tr_admitted = 3\<rparr>"

lemma sample_pause_ok:
  "\<exists>res db'. traffic_pause 5 sample_pause (action_digest sample_pause) [''run1'' \<mapsto> sample_row]
     = (Inr res, db')"
proof -
  have "valid_action sample_pause" "is_identifier ''payops-sandbox''" "is_identifier ''payments-api''"
      "is_identifier ''run1''" "is_identifier ''0''" "int_str 0 = ''0''"
    by code_simp+
  moreover from this have "validate_action (action_json sample_pause) = Inr sample_pause"
    by (simp add: validate_action_json)
  moreover have "is_pause sample_pause" "act_uid sample_pause = ''run1''" "act_version sample_pause = ''0''"
      "act_service sample_pause = ''payments-api''" "act_namespace sample_pause = ''payops-sandbox''"
      "act_mode sample_pause = Local_kind"
    by (simp_all add: sample_pause_def)
  ultimately show ?thesis
    by (simp add: traffic_pause_def traffic_snapshot_def sample_row_def valid_snapshot_def
        is_operation_mode_def close_admission_def)
qed

section \<open>Properties\<close>

text \<open>C27: A successful pause closes admission for good: it acts only on the row whose version the
  approved action names, its receipt names that row and version, and after any later operations of
  any worker the row is still exactly as the pause left it, so nothing is admitted and a second
  pause fails.\<close>

theorem pause_is_final:
  assumes "traffic_pause now a key db = (Inr res, db1)" and "traffic_step\<^sup>*\<^sup>* db1 db2"
  shows "key = action_digest a \<and> er_uid res = act_uid a \<and> er_previous res = act_version a
    \<and> (\<exists>row. db (act_uid a) = Some row \<and> int_str (tr_version row) = act_version a
         \<and> db2 (act_uid a) = Some (row\<lparr>tr_paused := True, tr_version := tr_version row + 1\<rparr>))
    \<and> fst (traffic_admit (act_uid a) service mode db2) \<noteq> Inr True
    \<and> (\<exists>e. fst (traffic_pause now' a key' db2) = Inl e)"
proof -
  from assms(1) obtain row where row: "key = action_digest a" "er_uid res = act_uid a"
      "er_previous res = act_version a" "db (act_uid a) = Some row"
      "int_str (tr_version row) = act_version a"
      "db1 = db(act_uid a \<mapsto> row\<lparr>tr_paused := True, tr_version := tr_version row + 1\<rparr>)"
    by (rule traffic_pause_Inr) blast
  define row1 where "row1 = row\<lparr>tr_paused := True, tr_version := tr_version row + 1\<rparr>"
  have cur: "db2 (act_uid a) = Some row1" "tr_paused row1"
    using paused_for_good [OF assms(2), of "act_uid a"] row(6)
    by (auto simp: same_when_paused_def row1_def)
  have "\<exists>e. fst (traffic_pause now' a key' db2) = Inl e"
  proof (cases "traffic_pause now' a key' db2")
    case (Pair x d)
    then show ?thesis using cur by (cases x) (auto elim: traffic_pause_Inr)
  qed
  with row cur admit_when_paused(1) [of db2 "act_uid a", OF cur] show ?thesis by (auto simp: row1_def)
qed

theorem pause_is_final_witness:
  "\<exists>res db1. traffic_pause 5 sample_pause (action_digest sample_pause) [''run1'' \<mapsto> sample_row] = (Inr res, db1)
     \<and> fst (traffic_admit (act_uid sample_pause) ''payments-api'' Local_kind db1) \<noteq> Inr True"
  using sample_pause_ok pause_is_final [OF _ rtranclp.rtrancl_refl] by blast

text \<open>An admission is granted exactly when the registered source has this service and mode, both
  in scope, and is not paused; a granted admission counts one and
  changes nothing else.\<close>

theorem admission_iff:
  "traffic_admit uid service mode db = (Inr True, db') \<longleftrightarrow>
     traffic_scope service mode
     \<and> (\<exists>row. db uid = Some row \<and> tr_service row = service \<and> tr_mode row = mode \<and> \<not> tr_paused row
          \<and> db' = db(uid \<mapsto> row\<lparr>tr_admitted := tr_admitted row + 1\<rparr>))"
  by (auto simp: traffic_admit_def split: option.splits)

end
