(* ===== verification/ProtectedApi.thy ===== *)
theory ProtectedApi
  imports Identity Incidents Broker Traffic
begin

text \<open>
  The authenticated HTTP surface: \<^verbatim>\<open>src/payops/protected_api.py\<close> (incident routes),
  \<^verbatim>\<open>src/payops/remediation/api.py\<close> (action routes) and \<^verbatim>\<open>src/payops/remediation/backend.py\<close> (the
  operational backend of the broker).

  The world of a request holds the incident table, the broker's world and the number of the next
  identity call. The host's investigator is a function that also returns the table as it stands
  when the investigation ends, since other requests commit meanwhile. Status codes are the values of
  \<open>HTTPException\<close>.

  Main facts: every incident and action that a route returns, and every effect it causes, belongs to
  the sandbox namespace, to the incident of the URL and to an actor authenticated for this request
  (\<open>scoped_incident_Inr\<close>, \<open>scoped_Inr\<close>).
\<close>

section \<open>World\<close>

record credential =
  cr_scheme :: string
  cr_token :: string

record 'r host =
  ho_settings :: identity_settings
  ho_source :: identity_source
  ho_new_id :: "nat \<Rightarrow> string"
  ho_investigate :: "nat \<Rightarrow> incident \<Rightarrow> incident_table \<Rightarrow> (exn + incident_report) \<times> incident_table"
  ho_mode :: run_mode
  ho_backend :: "'r backend"

record api_world =
  aw_tick :: nat
  aw_table :: incident_table
  aw_actions :: world

definition on_tick :: "(nat, 'a) prog \<Rightarrow> (api_world, 'a) prog" where
  "on_tick m w = (let (x, n) = m (aw_tick w) in (x, w\<lparr>aw_tick := n\<rparr>))"

definition on_table :: "(incident_table, 'a) prog \<Rightarrow> (api_world, 'a) prog" where
  "on_table m w = (let (x, t) = m (aw_table w) in (x, w\<lparr>aw_table := t\<rparr>))"

definition on_actions :: "(world, 'a) prog \<Rightarrow> (api_world, 'a) prog" where
  "on_actions m w = (let (x, a) = m (aw_actions w) in (x, w\<lparr>aw_actions := a\<rparr>))"

section \<open>Actors and scope\<close>

definition lower_char :: "char \<Rightarrow> char" where
  "lower_char c =
     (let n = (of_char c :: nat) in
      if 65 \<le> n \<and> n \<le> 90 \<or> 192 \<le> n \<and> n \<le> 222 \<and> n \<noteq> 215 then char_of (n + 32) else c)"

definition authentication_required :: exn where
  "authentication_required = HTTPException 401 ''AUTHENTICATION_REQUIRED''"

definition api_actor :: "'r host \<Rightarrow> credential option \<Rightarrow> (api_world, principal) prog" where
  "api_actor h bearer =
     (case bearer of
        None \<Rightarrow> raiseP authentication_required
      | Some c \<Rightarrow>
          if map lower_char (cr_scheme c) \<noteq> ''bearer'' then raiseP authentication_required
          else on_tick
            (tryP
               (bindP (authenticate (ho_settings h) (ho_source h) (cr_token c)) (\<lambda>p.
                if \<not> pr_enabled p then raiseP (AuthenticationDenied ''AUTHENTICATION_DENIED'')
                else bindP (observe (so_utc_now (ho_source h))) (\<lambda>now.
                     bindP (checkP (\<not> pr_expires_at p \<le> now)
                              (AuthenticationDenied ''AUTHENTICATION_DENIED'')) (\<lambda>_.
                     returnP p))))
               is_AuthenticationDenied
               (\<lambda>_. raiseP (HTTPException 401 ''AUTHENTICATION_DENIED''))))"

text \<open>\<^verbatim>\<open>any(...)\<close> over the roles, with a clock read for each one tried.\<close>

fun any_role :: "'r host \<Rightarrow> principal \<Rightarrow> string \<Rightarrow> role list \<Rightarrow> (nat, bool) prog" where
  "any_role h p namespace [] n = (Inr False, n)"
| "any_role h p namespace (role # roles) n =
     (if identity_valid (Some p) role namespace (so_utc_now (ho_source h) n) then (Inr True, Suc n)
      else any_role h p namespace roles (Suc n))"

definition allowed_roles :: "bool \<Rightarrow> role list" where
  "allowed_roles write = (if write then [Responder] else [Viewer, Responder, Approver, Executor])"

definition authorize :: "'r host \<Rightarrow> principal \<Rightarrow> string \<Rightarrow> bool \<Rightarrow> (api_world, unit) prog" where
  "authorize h p namespace write =
     (if namespace \<noteq> ''payops-sandbox'' then raiseP (HTTPException 403 ''SCOPE_DENIED'')
      else bindP (on_tick (any_role h p namespace (allowed_roles write))) (\<lambda>ok.
           checkP ok (HTTPException 403 ''SCOPE_DENIED'')))"

definition scoped_incident :: "'r host \<Rightarrow> string \<Rightarrow> principal \<Rightarrow> (api_world, incident) prog" where
  "scoped_incident h incident_id p =
     bindP (on_table (\<lambda>t. (incident_get (it_rows t) incident_id, t))) (\<lambda>found.
     case found of
       None \<Rightarrow> raiseP (HTTPException 404 ''INCIDENT_NOT_FOUND'')
     | Some incident \<Rightarrow>
         if ic_namespace (in_request incident) \<notin> set (pr_namespaces p)
         then raiseP (HTTPException 404 ''INCIDENT_NOT_FOUND'')
         else bindP (authorize h p (ic_namespace (in_request incident)) False) (\<lambda>_.
              bindP (checkP (ic_service (in_request incident) \<in> set READ_SERVICES)
                       (HTTPException 403 ''SERVICE_DENIED'')) (\<lambda>_.
              returnP incident)))"

section \<open>Incident routes\<close>

definition store_create :: "'r host \<Rightarrow> incident_create \<Rightarrow> string option \<Rightarrow> (api_world, incident) prog" where
  "store_create h request key =
     bindP (on_tick (observe (ho_new_id h))) (\<lambda>i.
     bindP (on_tick (observe (so_utc_now (ho_source h)))) (\<lambda>now.
     on_table (incident_create_op i now request key)))"

definition api_create ::
  "'r host \<Rightarrow> incident_create \<Rightarrow> credential option \<Rightarrow> string option \<Rightarrow> (api_world, incident) prog" where
  "api_create h request bearer key =
     bindP (api_actor h bearer) (\<lambda>p.
     bindP (authorize h p (ic_namespace request) True) (\<lambda>_.
     bindP (checkP (ic_service request \<in> set READ_SERVICES) (HTTPException 403 ''SERVICE_DENIED'')) (\<lambda>_.
     tryP (store_create h request key) is_IdempotencyConflict
       (\<lambda>_. raiseP (HTTPException 409 ''IDEMPOTENCY_CONFLICT'')))))"

definition api_get :: "'r host \<Rightarrow> string \<Rightarrow> credential option \<Rightarrow> (api_world, incident) prog" where
  "api_get h incident_id bearer =
     bindP (api_actor h bearer) (\<lambda>p. scoped_incident h incident_id p)"

definition investigate :: "'r host \<Rightarrow> incident \<Rightarrow> (api_world, incident_report) prog" where
  "investigate h incident w =
     (let (x, t) = ho_investigate h (aw_tick w) incident (aw_table w)
      in (x, w\<lparr>aw_tick := Suc (aw_tick w), aw_table := t\<rparr>))"

definition api_run :: "'r host \<Rightarrow> string \<Rightarrow> credential option \<Rightarrow> (api_world, incident_report) prog" where
  "api_run h incident_id bearer =
     bindP (api_actor h bearer) (\<lambda>p.
     bindP (scoped_incident h incident_id p) (\<lambda>incident.
     bindP (authorize h p (ic_namespace (in_request incident)) True) (\<lambda>_.
     bindP (case in_report incident of Some r \<Rightarrow> returnP r | None \<Rightarrow> investigate h incident) (\<lambda>report.
     bindP (checkP (\<not> (rp_incident report \<noteq> incident_id \<or> rp_mode report \<noteq> ho_mode h))
              (HTTPException 502 ''INVESTIGATOR_SCOPE_MISMATCH'')) (\<lambda>_.
     bindP (api_actor h bearer) (\<lambda>p'.
     bindP (authorize h p' (ic_namespace (in_request incident)) True) (\<lambda>_.
     bindP (on_table (save_report report)) (\<lambda>saved.
     case in_report saved of
       None \<Rightarrow> raiseP (HTTPException 409 ''REPORT_MODE_MISMATCH'')
     | Some r \<Rightarrow>
         if rp_mode r \<noteq> ho_mode h then raiseP (HTTPException 409 ''REPORT_MODE_MISMATCH'')
         else returnP r))))))))"

section \<open>Action routes\<close>

definition api_dispatch :: "(api_world, 'a) prog \<Rightarrow> (api_world, 'a) prog" where
  "api_dispatch operation w =
     (case operation w of
        (Inl e, w') \<Rightarrow>
          (Inl (if is_PermissionError e then HTTPException 403 ''ACTION_DENIED''
                else if is_KeyError e then HTTPException 404 ''ACTION_NOT_FOUND''
                else if is_TransitionConflict e then HTTPException 409 ''ACTION_CHANGED''
                else e), w')
      | (Inr x, w') \<Rightarrow> (Inr x, w'))"

definition in_incident :: "'r host \<Rightarrow> incident \<Rightarrow> string \<Rightarrow> action \<Rightarrow> bool" where
  "in_incident h incident incident_id a \<longleftrightarrow>
     (act_incident a, act_namespace a, act_service a, act_mode a) =
     (incident_id, ic_namespace (in_request incident), ic_service (in_request incident), ho_mode h)"

definition scoped :: "'r host \<Rightarrow> string \<Rightarrow> string \<Rightarrow> credential option \<Rightarrow> (api_world, action_record) prog" where
  "scoped h incident_id action_id bearer =
     bindP (api_actor h bearer) (\<lambda>p.
     bindP (scoped_incident h incident_id p) (\<lambda>incident.
     bindP (api_dispatch (on_actions (read_db (\<lambda>db. action_get db action_id)))) (\<lambda>r.
     bindP (checkP (in_incident h incident incident_id (ar_proposal r))
              (HTTPException 404 ''ACTION_NOT_FOUND'')) (\<lambda>_.
     returnP r))))"

definition api_propose ::
  "'r host \<Rightarrow> string \<Rightarrow> json_object \<Rightarrow> credential option \<Rightarrow> (api_world, action_record) prog" where
  "api_propose h incident_id value bearer =
     bindP (api_actor h bearer) (\<lambda>p.
     bindP (scoped_incident h incident_id p) (\<lambda>incident.
     bindP (authorize h p (ic_namespace (in_request incident)) True) (\<lambda>_.
     bindP (checkP (get_field value ''incident_id'' = Some (JStr incident_id)
                    \<and> get_field value ''namespace'' = Some (JStr (ic_namespace (in_request incident)))
                    \<and> get_field value ''service'' = Some (JStr (ic_service (in_request incident))))
              (HTTPException 403 ''ACTION_SCOPE_MISMATCH'')) (\<lambda>_.
     bindP (api_dispatch (on_actions (propose (ho_backend h) (ho_mode h) value (pr_subject p)))) (\<lambda>r.
     scoped h incident_id (ar_id r) bearer)))))"

definition api_audit ::
  "'r host \<Rightarrow> string \<Rightarrow> string \<Rightarrow> credential option \<Rightarrow> (api_world, audit_event list) prog" where
  "api_audit h incident_id action_id bearer =
     bindP (scoped h incident_id action_id bearer) (\<lambda>_.
     bindP (on_actions (read_db (\<lambda>db. action_audit db action_id))) (\<lambda>events.
     bindP (scoped h incident_id action_id bearer) (\<lambda>_.
     returnP events)))"

definition api_approve ::
  "'r host \<Rightarrow> string \<Rightarrow> string \<Rightarrow> credential option \<Rightarrow> (api_world, action_record) prog" where
  "api_approve h incident_id action_id bearer =
     bindP (scoped h incident_id action_id bearer) (\<lambda>_.
     bindP (api_actor h bearer) (\<lambda>p.
     bindP (api_dispatch (on_actions (approve (ho_backend h) (ho_mode h) action_id (pr_subject p)))) (\<lambda>_.
     scoped h incident_id action_id bearer)))"

definition api_execute ::
  "'r host \<Rightarrow> string \<Rightarrow> string \<Rightarrow> credential option \<Rightarrow> (api_world, action_record) prog" where
  "api_execute h incident_id action_id bearer =
     bindP (scoped h incident_id action_id bearer) (\<lambda>_.
     bindP (api_actor h bearer) (\<lambda>p.
     bindP (api_dispatch (on_actions (execute (ho_backend h) (ho_mode h) action_id (pr_subject p)))) (\<lambda>_.
     scoped h incident_id action_id bearer)))"

section \<open>The operational backend\<close>

text \<open>The dependencies at the moment of each call: the identity service's refresh, the incident table,
  the artifact store, the deployment executor, and the traffic control if the host configured one.\<close>

record 'r op_host =
  op_principals :: "nat \<Rightarrow> string \<Rightarrow> exn + principal option"
  op_incidents :: "nat \<Rightarrow> incident_db"
  op_artifacts :: "nat \<Rightarrow> 'r window_store_scheme"
  op_snapshot :: "nat \<Rightarrow> action \<Rightarrow> exn + resource_snapshot"
  op_execute :: "nat \<Rightarrow> action \<Rightarrow> string \<Rightarrow> exn + effect_receipt"
  op_traffic :: "(nat \<Rightarrow> instant \<times> traffic_db) option"

definition backend_resource :: "'r op_host \<Rightarrow> nat \<Rightarrow> action \<Rightarrow> exn + resource_snapshot" where
  "backend_resource op n a =
     (if is_pause a then
        (case op_traffic op of
           None \<Rightarrow> Inl (PermissionError ''TRAFFIC_BACKEND_UNAVAILABLE'')
         | Some traffic \<Rightarrow> (case traffic n of (now, db) \<Rightarrow> traffic_snapshot now db a))
      else op_snapshot op n a)"

definition backend_context :: "'r op_host \<Rightarrow> nat \<Rightarrow> action \<Rightarrow> string \<Rightarrow> exn + 'r policy_context" where
  "backend_context op n a subject =
     bindR (incident_get (op_incidents op n) (act_incident a)) (\<lambda>found.
     bindR (of_option (PermissionError ''INCIDENT_NOT_FOUND'') found) (\<lambda>incident.
     bindR (backend_resource op n a) (\<lambda>resource.
     bindR (op_principals op n subject) (\<lambda>p.
     Inr \<lparr>pc_principal = p, pc_incident = incident, pc_resource = resource,
          pc_store = op_artifacts op n\<rparr>))))"

definition backend_execute :: "'r op_host \<Rightarrow> nat \<Rightarrow> action \<Rightarrow> string \<Rightarrow> exn + effect_receipt" where
  "backend_execute op n a key =
     (if is_pause a then
        (case op_traffic op of
           None \<Rightarrow> Inl (PermissionError ''TRAFFIC_BACKEND_UNAVAILABLE'')
         | Some traffic \<Rightarrow> (case traffic n of (now, db) \<Rightarrow> fst (traffic_pause now a key db)))
      else op_execute op n a key)"

definition operational_backend ::
  "(nat \<Rightarrow> instant) \<Rightarrow> (nat \<Rightarrow> instant) \<Rightarrow> 'r op_host \<Rightarrow> 'r backend" where
  "operational_backend clock utc_now op =
     \<lparr>be_clock = clock, be_utc_now = utc_now, be_principal = op_principals op,
      be_context = backend_context op, be_execute = backend_execute op\<rparr>"

section \<open>What a route knows\<close>

definition authenticated :: "'r host \<Rightarrow> credential option \<Rightarrow> principal \<Rightarrow> bool" where
  "authenticated h bearer p \<longleftrightarrow>
     (\<exists>c n. bearer = Some c \<and> map lower_char (cr_scheme c) = ''bearer''
        \<and> fst (authenticate (ho_settings h) (ho_source h) (cr_token c) n) = Inr p)"

definition entitled :: "'r host \<Rightarrow> principal \<Rightarrow> bool \<Rightarrow> bool" where
  "entitled h p write \<longleftrightarrow>
     list_ex (\<lambda>role. \<exists>n. identity_valid (Some p) role ''payops-sandbox'' (so_utc_now (ho_source h) n))
       (allowed_roles write)"

definition in_scope :: "incident_table \<Rightarrow> string \<Rightarrow> incident \<Rightarrow> bool" where
  "in_scope t i incident \<longleftrightarrow>
     incident_get (it_rows t) i = Inr (Some incident)
     \<and> ic_namespace (in_request incident) = ''payops-sandbox''
     \<and> ic_service (in_request incident) \<in> set READ_SERVICES"

text \<open>Reads and identity checks leave the stored data alone.\<close>

definition same_data :: "api_world \<Rightarrow> api_world \<Rightarrow> bool" where
  "same_data w w' \<longleftrightarrow> aw_table w' = aw_table w \<and> aw_actions w' = aw_actions w"

lemma same_data_refl [simp]: "same_data w w"
  by (simp add: same_data_def)

lemma same_data_trans: "same_data a b \<Longrightarrow> same_data b c \<Longrightarrow> same_data a c"
  by (simp add: same_data_def)

lemma same_tick [intro!]: "keeps same_data (on_tick m)"
  by (auto simp: keeps_def same_data_def on_tick_def split: prod.splits)

lemma same_bindP [intro!]:
  "keeps same_data m \<Longrightarrow> (\<And>x. keeps same_data (f x)) \<Longrightarrow> keeps same_data (bindP m f)"
  by (rule keeps_bindP) (auto intro: same_data_trans)

lemma same_rules [intro!]:
  "keeps same_data (raiseP e)" "keeps same_data (returnP x)" "keeps same_data (checkP b e)"
  "keeps same_data (on_table (\<lambda>t. (f t, t)))" "keeps same_data (on_actions (read_db g))"
  by (auto simp: keeps_def same_data_def on_table_def on_actions_def read_db_def)

lemma same_dispatch [intro!]: "keeps same_data m \<Longrightarrow> keeps same_data (api_dispatch m)"
  by (auto simp: keeps_def api_dispatch_def split: prod.splits sum.splits) (metis snd_conv)+

lemma same_actor [intro!]: "keeps same_data (api_actor h bearer)"
  by (auto simp: api_actor_def split: option.splits)

lemma same_authorize [intro!]: "keeps same_data (authorize h p ns b)"
  by (auto simp: authorize_def)

lemma same_scoped_incident [intro!]: "keeps same_data (scoped_incident h i p)"
  unfolding scoped_incident_def by (auto split: option.splits)

lemma same_scoped [intro!]: "keeps same_data (scoped h i a bearer)"
  unfolding scoped_def by auto

lemmas sameD = keepsD [of same_data]

lemma api_actor_Inr:
  assumes "api_actor h bearer w = (Inr p, w')"
  shows "authenticated h bearer p \<and> same_data w w'"
proof -
  from assms obtain c where c: "bearer = Some c" "map lower_char (cr_scheme c) = ''bearer''"
    by (auto simp: api_actor_def split: option.splits if_splits)
  with assms have "fst (authenticate (ho_settings h) (ho_source h) (cr_token c) (aw_tick w)) = Inr p"
    by (auto simp: api_actor_def on_tick_def tryP_Inr_iff bindP_Inr_iff split: prod.splits if_splits)
  with c sameD [OF same_actor assms] show ?thesis by (auto simp: authenticated_def)
qed

lemma any_role_Inr:
  "any_role h p ns roles n = (Inr b, m) \<Longrightarrow> b \<Longrightarrow>
     list_ex (\<lambda>role. \<exists>n. identity_valid (Some p) role ns (so_utc_now (ho_source h) n)) roles"
  by (induction h p ns roles n rule: any_role.induct) (auto split: if_splits)

lemma authorize_Inr:
  assumes "authorize h p ns b w = (Inr u, w')"
  shows "ns = ''payops-sandbox'' \<and> entitled h p b \<and> same_data w w'"
  using assms sameD [OF same_authorize assms]
  by (auto simp: authorize_def entitled_def bindP_Inr_iff on_tick_def split: if_splits prod.splits
      dest!: any_role_Inr)

lemma scoped_incident_Inr:
  assumes "scoped_incident h i p w = (Inr incident, w')"
  shows "in_scope (aw_table w) i incident \<and> entitled h p False
    \<and> ''payops-sandbox'' \<in> set (pr_namespaces p) \<and> same_data w w'"
proof -
  from assms obtain w1 where "incident_get (it_rows (aw_table w)) i = Inr (Some incident)"
      "ic_namespace (in_request incident) \<in> set (pr_namespaces p)"
      "authorize h p (ic_namespace (in_request incident)) False w = (Inr (), w1)"
      "ic_service (in_request incident) \<in> set READ_SERVICES"
    unfolding scoped_incident_def bindP_Inr_iff
    by (auto simp: on_table_def bindP_Inr_iff split: option.splits if_splits)
  with authorize_Inr [OF this(3)] sameD [OF same_scoped_incident assms] show ?thesis
    by (auto simp: in_scope_def)
qed

lemma api_dispatch_Inr [simp]: "api_dispatch m w = (Inr x, w') \<longleftrightarrow> m w = (Inr x, w')"
  by (auto simp: api_dispatch_def split: prod.splits sum.splits)

lemma scoped_Inr:
  assumes "scoped h i a bearer w = (Inr r, w')"
  obtains p incident where "authenticated h bearer p" "entitled h p False"
    "in_scope (aw_table w) i incident" "action_get (w_db (aw_actions w)) a = Inr r"
    "in_incident h incident i (ar_proposal r)" "same_data w w'"
proof -
  from assms obtain p w1 incident w2 w3 where
      steps: "api_actor h bearer w = (Inr p, w1)" "scoped_incident h i p w1 = (Inr incident, w2)"
        "on_actions (read_db (\<lambda>db. action_get db a)) w2 = (Inr r, w3)"
      and inc: "in_incident h incident i (ar_proposal r)"
    unfolding scoped_def bindP_Inr_iff by auto
  note a = api_actor_Inr [OF steps(1)] and b = scoped_incident_Inr [OF steps(2)]
  show thesis
  proof (rule that)
    show "authenticated h bearer p" "entitled h p False" using a b by auto
    show "in_scope (aw_table w) i incident" using a b by (simp add: same_data_def)
    have "aw_actions w2 = aw_actions w" using a b by (simp add: same_data_def)
    with steps(3) show "action_get (w_db (aw_actions w)) a = Inr r"
      by (auto simp: on_actions_def read_db_def)
    show "in_incident h incident i (ar_proposal r)" by (rule inc)
    show "same_data w w'" by (rule sameD [OF same_scoped assms])
  qed
qed

lemma on_tick_data: "on_tick m w = (x, w') \<Longrightarrow> same_data w w'"
  by (rule sameD [OF same_tick])

lemma save_report_steps: "on_table (save_report r) w = (x, w') \<Longrightarrow>
    incident_step (aw_table w) (aw_table w') \<and> aw_actions w' = aw_actions w"
  by (auto simp: on_table_def save_report_def split: prod.splits intro: saved)

lemma store_create_step:
  assumes "store_create h request key w = (x, w')"
  shows "incident_step (aw_table w) (aw_table w')"
  using assms
  by (auto simp: store_create_def bindP_def on_tick_def on_table_def observe_def split: prod.splits
      intro: created)

lemma bindP_cases:
  assumes "bindP m f s = (x, s')"
  obtains (stopped) e where "m s = (Inl e, s')" "x = Inl e"
  | (continued) y s1 where "m s = (Inr y, s1)" "f y s1 = (x, s')"
  using assms by (auto simp: bindP_def split: prod.splits sum.splits)

text \<open>The table after a failed or successful creation request.\<close>

lemma api_create_cases:
  assumes "api_create h request bearer key w = (x, w')"
  obtains (unchanged) "same_data w w'"
  | (permitted) p w1 y where "authenticated h bearer p" "entitled h p True"
      "ic_namespace request = ''payops-sandbox''" "ic_service request \<in> set READ_SERVICES"
      "same_data w w1" "store_create h request key w1 = (y, w')"
  using assms unfolding api_create_def
proof (cases rule: bindP_cases)
  case (stopped e)
  then show thesis by (intro unchanged sameD [OF same_actor])
next
  case (continued p w1)
  note p = api_actor_Inr [OF continued(1)]
  from continued(2) show thesis
  proof (cases rule: bindP_cases)
    case (stopped e)
    from sameD [OF same_authorize stopped(1)] p show thesis
      by (intro unchanged) (blast intro: same_data_trans)
  next
    case (continued u w2)
    note q = authorize_Inr [OF continued(1)]
    have w2: "same_data w w2" using p q by (blast intro: same_data_trans)
    from continued(2) show thesis
    proof (cases rule: bindP_cases)
      case (stopped e)
      with w2 show thesis by (intro unchanged) auto
    next
      case (continued v w3)
      obtain y w4 where y: "store_create h request key w2 = (y, w4)" by force
      with continued have "w4 = w'" by (auto simp: tryP_def split: sum.splits if_splits)
      with p q w2 y continued(1) show thesis by (intro permitted [of p w2 y]) auto
    qed
  qed
qed

lemma api_run_Inr:
  assumes "api_run h i bearer w = (Inr r, w')"
  obtains p q incident report t saved where
    "authenticated h bearer p" "authenticated h bearer q" "entitled h p True" "entitled h q True"
    "in_scope (aw_table w) i incident" "rp_incident report = i"
    "t = aw_table w \<and> in_report incident = Some report
       \<or> in_report incident = None \<and> (\<exists>n. ho_investigate h n incident (aw_table w) = (Inr report, t))"
    "save_report report t = (Inr saved, aw_table w')" "in_report saved = Some r" "rp_mode r = ho_mode h"
proof -
  from assms obtain p w1 incident w2 u3 w3 report w4 u4 w4' q w5 u6 w6 saved w7 where
      s1: "api_actor h bearer w = (Inr p, w1)" and s2: "scoped_incident h i p w1 = (Inr incident, w2)"
      and s3: "authorize h p (ic_namespace (in_request incident)) True w2 = (Inr u3, w3)"
      and s4: "(case in_report incident of Some r \<Rightarrow> returnP r | None \<Rightarrow> investigate h incident) w3 = (Inr report, w4)"
      and s5: "checkP (\<not> (rp_incident report \<noteq> i \<or> rp_mode report \<noteq> ho_mode h))
              (HTTPException 502 ''INVESTIGATOR_SCOPE_MISMATCH'') w4 = (Inr u4, w4')"
      and s6: "api_actor h bearer w4' = (Inr q, w5)"
      and s7: "authorize h q (ic_namespace (in_request incident)) True w5 = (Inr u6, w6)"
      and s8: "on_table (save_report report) w6 = (Inr saved, w7)"
      and s9: "(case in_report saved of
         None \<Rightarrow> raiseP (HTTPException 409 ''REPORT_MODE_MISMATCH'')
       | Some r \<Rightarrow> if rp_mode r \<noteq> ho_mode h then raiseP (HTTPException 409 ''REPORT_MODE_MISMATCH'')
           else returnP r) w7 = (Inr r, w')"
    unfolding api_run_def bindP_Inr_iff by (elim exE conjE) (rule that)
  have s5': "rp_incident report = i" "w4' = w4" using s5 by auto
  have s9': "in_report saved = Some r" "rp_mode r = ho_mode h" "w7 = w'"
    using s9 by (auto split: option.splits if_splits)
  note a1 = api_actor_Inr [OF s1] and a2 = scoped_incident_Inr [OF s2] and a3 = authorize_Inr [OF s3]
    and a6 = api_actor_Inr [OF s6] and a7 = authorize_Inr [OF s7]
  have t3: "aw_table w3 = aw_table w" "aw_table w1 = aw_table w" using a1 a2 a3 by (auto simp: same_data_def)
  have t6: "aw_table w6 = aw_table w4" using a6 a7 s5'(2) by (simp add: same_data_def)
  show thesis
  proof (rule that)
    show "authenticated h bearer p" "authenticated h bearer q" "entitled h p True" "entitled h q True"
      using a1 a3 a6 a7 by auto
    show "in_scope (aw_table w) i incident" using a2 t3 by simp
    show "aw_table w4 = aw_table w \<and> in_report incident = Some report
       \<or> in_report incident = None \<and> (\<exists>n. ho_investigate h n incident (aw_table w) = (Inr report, aw_table w4))"
      using s4 t3 by (auto simp: investigate_def split: option.splits prod.splits)
    show "save_report report (aw_table w4) = (Inr saved, aw_table w')"
      using s8 s9'(3) t6 by (auto simp: on_table_def split: prod.splits)
  qed (use s5' s9' in auto)
qed

lemma api_execute_effect:
  assumes "api_execute h i a bearer w = (x, w')"
  shows "w_effects (aw_actions w') = w_effects (aw_actions w)
    \<or> (\<exists>p incident r. authenticated h bearer p \<and> in_scope (aw_table w) i incident
         \<and> in_incident h incident i (ar_proposal r)
         \<and> effect_authority (ho_backend h) (ho_mode h) (w_tick (aw_actions w)) (w_db (aw_actions w)) a
             (pr_subject p) r
         \<and> w_effects (aw_actions w') = w_effects (aw_actions w) @ [(ar_proposal r, a)])"
proof (cases "scoped h i a bearer w")
  case first: (Pair b w1)
  have w1: "same_data w w1" by (rule sameD [OF same_scoped first])
  obtain c w2 where second: "api_actor h bearer w1 = (c, w2)" by force
  have w2: "same_data w w2" using w1 sameD [OF same_actor second] by (blast intro: same_data_trans)
  show ?thesis
  proof (cases "(\<exists>r. b = Inr r) \<and> (\<exists>p. c = Inr p)")
    case False
    with assms first second w1 w2 show ?thesis
      by (auto simp: api_execute_def bindP_def same_data_def split: sum.splits)
  next
    case True
    then obtain r p where rp: "b = Inr r" "c = Inr p" by blast
    obtain y v where run: "execute (ho_backend h) (ho_mode h) a (pr_subject p) (aw_actions w2) = (y, v)"
      by force
    have "aw_actions w' = v"
    proof (cases y)
      case (Inl e)
      with assms first second rp run show ?thesis
        by (auto simp: api_execute_def bindP_def on_actions_def api_dispatch_def)
    next
      case (Inr z)
      with assms first second rp run have "scoped h i a bearer (w2\<lparr>aw_actions := v\<rparr>) = (x, w')"
        by (auto simp: api_execute_def bindP_def on_actions_def api_dispatch_def)
      from sameD [OF same_scoped this] show ?thesis by (simp add: same_data_def)
    qed
    moreover have "aw_actions w2 = aw_actions w" using w2 by (simp add: same_data_def)
    moreover from first rp(1) obtain incident where "in_scope (aw_table w) i incident"
        "action_get (w_db (aw_actions w)) a = Inr r" "in_incident h incident i (ar_proposal r)"
      by (auto elim: scoped_Inr)
    ultimately show ?thesis
      using execute_effect [OF run] api_actor_Inr [OF second [unfolded rp]]
      by (auto simp: effect_authority_def)
  qed
qed

section \<open>A sample host\<close>

definition office_claims :: json_object where
  "office_claims =
     [(''sub'', JStr ''worker''), (''aud'', JStr ''payops-prod''),
      (''iss'', JStr ''https://securetoken.google.com/payops-prod''), (''iat'', JInt 0),
      (''exp'', JInt 3600), (''auth_time'', JInt 0), (''firebase'', JObj [])]"

definition office_account :: "string \<Rightarrow> account" where
  "office_account s =
     \<lparr>ac_subject = s, ac_disabled = False, ac_tenant = None, ac_valid_after = 0,
      ac_grants = [(''roles'', JArr [JStr ''responder'']),
                   (''namespaces'', JArr [JStr ''payops-sandbox''])]\<rparr>"

definition office_source :: identity_source where
  "office_source =
     \<lparr>so_emulator = (\<lambda>_. False), so_verify = (\<lambda>_ _. Inr office_claims),
      so_lookup = (\<lambda>_ s. Inr (office_account s)), so_utc_now = (\<lambda>_. 10)\<rparr>"

definition office_settings :: identity_settings where
  "office_settings = \<lparr>is_project = ''payops-prod'', is_tenant = None\<rparr>"

definition office :: "unit host" where
  "office =
     \<lparr>ho_settings = office_settings, ho_source = office_source, ho_new_id = (\<lambda>_. ''inc-2''),
      ho_investigate = (\<lambda>_ _ t. (Inr sample_report, t)), ho_mode = Local_kind,
      ho_backend = sample_backend\<rparr>"

definition office_bearer :: "credential option" where
  "office_bearer = Some \<lparr>cr_scheme = ''Bearer'', cr_token = ''token''\<rparr>"

definition office_actor :: principal where
  "office_actor =
     \<lparr>pr_subject = ''worker'', pr_roles = [Responder], pr_namespaces = [''payops-sandbox''],
      pr_verified_at = 10, pr_expires_at = 60000010, pr_enabled = True\<rparr>"

definition office_world :: api_world where
  "office_world =
     \<lparr>aw_tick = 0, aw_table = \<lparr>it_rows = [''inc-1'' \<mapsto> \<lparr>ir_key = None, ir_payload = Dump sample_incident\<rparr>],
                              it_ids = [''inc-1'']\<rparr>,
      aw_actions = approved_world\<rparr>"

lemma office_claims_read:
  "read_claims office_claims = Inr \<lparr>tc_sub = ''worker'', tc_aud = ''payops-prod'',
     tc_iss = ''https://securetoken.google.com/payops-prod'', tc_iat = 0, tc_exp = 3600,
     tc_auth_time = 0, tc_firebase = []\<rparr>"
  by (simp add: read_claims_def office_claims_def str_field_def epoch_field_def is_identifier_def
      is_word_char_def)

lemma office_grants_read:
  "read_grants (ac_grants (office_account s)) =
     Inr \<lparr>gr_roles = [Responder], gr_namespaces = [''payops-sandbox'']\<rparr>"
  by (simp add: read_grants_def office_account_def str_list_field_def role_of_text_def keys_def
      is_identifier_def is_word_char_def)

lemma office_authenticate:
  "authenticate office_settings office_source ''token'' n = (Inr office_actor, n + 8)"
proof -
  have claims: "id_claims office_settings office_source ''token'' n = (Inr \<lparr>tc_sub = ''worker'',
      tc_aud = ''payops-prod'', tc_iss = ''https://securetoken.google.com/payops-prod'', tc_iat = 0,
      tc_exp = 3600, tc_auth_time = 0, tc_firebase = []\<rparr>, n + 3)"
    by (simp add: id_claims_iff office_source_def office_claims_read well_formed_bearer_def
        claims_in_scope_def office_settings_def tenant_matches_def one_second_def)
  have account: "id_account office_settings office_source ''worker'' (n + 3)
      = (Inr (office_account ''worker'', 10), n + 3 + 4)"
    by (simp add: id_account_iff office_source_def office_account_def office_settings_def one_second_def)
  have "valid_principal office_actor"
    by (simp add: valid_principal_def office_actor_def is_identifier_def is_word_char_def)
  then have "id_principal office_source (office_account ''worker'') 10 (Some (3600 * one_second)) (n + 3 + 4)
      = (Inr office_actor, n + 8)"
    unfolding id_principal_iff office_grants_read
    by (auto simp: granted_principal_def office_actor_def office_account_def one_second_def office_source_def)
  with claims account show ?thesis
    unfolding authenticate_iff by (intro exI conjI) (assumption | simp add: office_account_def)+
qed

lemma office_fields [simp]:
  "ho_settings office = office_settings" "ho_source office = office_source"
  "so_utc_now office_source n = 10" "ho_mode office = Local_kind" "ho_backend office = sample_backend"
  by (simp_all add: office_def office_source_def)

lemma office_actor_valid [simp]:
  "identity_valid (Some office_actor) role ''payops-sandbox'' 10 \<longleftrightarrow> role = Responder"
  by (auto simp: identity_valid_def office_actor_def fresh_def one_second_def)

lemma office_api_actor:
  "api_actor office office_bearer w = (Inr office_actor, w\<lparr>aw_tick := aw_tick w + 9\<rparr>)"
proof -
  have "map lower_char ''Bearer'' = ''bearer''" by code_simp
  moreover have "pr_enabled office_actor" "\<not> pr_expires_at office_actor \<le> 10"
    by (simp_all add: office_actor_def)
  ultimately show ?thesis
    by (simp add: api_actor_def office_bearer_def on_tick_def tryP_def bindP_def office_authenticate
        observe_def)
qed

lemma office_authorize:
  "authorize office office_actor ''payops-sandbox'' write w
     = (Inr (), w\<lparr>aw_tick := aw_tick w + (if write then 1 else 2)\<rparr>)"
  by (simp add: authorize_def allowed_roles_def bindP_def on_tick_def)

lemma sample_incident_stored:
  "validate_incident sample_incident = Inr sample_incident"
proof -
  have words: "is_identifier ''inc-1''" "is_identifier ''payops-sandbox''" "is_identifier ''payments-api''"
      "is_identifier ''ev-1''" "is_stripped 200 ''t''" "is_summary ''logs''" "is_summary ''errors''"
    by code_simp+
  have "is_summary (ev_uri sample_item)"
    by (simp only: sample_item_def evidence_item.simps) (rule digest_uri_summary, simp)
  then have "valid_evidence_item sample_item"
    using words by (simp add: valid_evidence_item_def) (simp add: sample_item_def)
  moreover have "ev_incident sample_item = ''inc-1''" by (simp add: sample_item_def)
  ultimately show ?thesis using words
    by (simp add: validate_incident_iff sample_incident_def valid_incident_create_def sample_report_def
        valid_report_fields_def grounded_def)
qed

lemma office_table:
  "incident_get (it_rows (aw_table office_world)) ''inc-1'' = Inr (Some sample_incident)"
  "incidents_ok (aw_table office_world)"
proof -
  have "decode_incident ''inc-1'' \<lparr>ir_key = None, ir_payload = Dump sample_incident\<rparr> = Inr sample_incident"
    using sample_incident_stored by (simp add: decode_incident_def) (simp add: sample_incident_def)
  then show "incident_get (it_rows (aw_table office_world)) ''inc-1'' = Inr (Some sample_incident)"
      "incidents_ok (aw_table office_world)"
    by (auto simp: incident_get_def incidents_ok_def office_world_def)
qed

lemma office_scoped_incident:
  assumes "aw_table w = aw_table office_world"
  shows "scoped_incident office ''inc-1'' office_actor w = (Inr sample_incident, w\<lparr>aw_tick := aw_tick w + 2\<rparr>)"
proof -
  have "ic_namespace (in_request sample_incident) = ''payops-sandbox''"
      "ic_service (in_request sample_incident) \<in> set READ_SERVICES"
      "''payops-sandbox'' \<in> set (pr_namespaces office_actor)"
    by (simp_all add: sample_incident_def READ_SERVICES_def office_actor_def)
  then show ?thesis
    using assms office_table(1)
    by (simp add: scoped_incident_def bindP_def on_table_def office_authorize)
qed

lemma office_scoped:
  assumes "aw_table w = aw_table office_world" and "aw_actions w = approved_world"
  shows "scoped office ''inc-1'' (action_digest sample_action) office_bearer w
     = (Inr sample_approved, w\<lparr>aw_tick := aw_tick w + 11\<rparr>)"
proof -
  have "in_incident office sample_incident ''inc-1'' (ar_proposal sample_approved)"
    by (simp add: in_incident_def sample_approved_fields) (simp add: sample_action_def sample_incident_def)
  then show ?thesis
    using assms approved_world_facts(2)
    by (simp add: scoped_def bindP_def office_api_actor office_scoped_incident api_dispatch_def
        on_actions_def read_db_def)
qed

lemma office_execute:
  "\<exists>x w. api_execute office ''inc-1'' (action_digest sample_action) office_bearer office_world = (x, w)
     \<and> w_effects (aw_actions w) \<noteq> w_effects (aw_actions office_world)"
proof -
  obtain x v where run: "execute sample_backend Local_kind (action_digest sample_action) ''worker'' approved_world
      = (x, v)" "w_effects v \<noteq> w_effects approved_world"
    using sample_execute by blast
  define w2 where "w2 = office_world\<lparr>aw_tick := 20\<rparr>"
  obtain y w where fin: "bindP (api_dispatch (on_actions (execute sample_backend Local_kind
      (action_digest sample_action) ''worker''))) (\<lambda>_. scoped office ''inc-1''
      (action_digest sample_action) office_bearer) w2 = (y, w)"
    by force
  then have "aw_actions w = v"
  proof (cases rule: bindP_cases)
    case (continued z w3)
    with run have "aw_actions w3 = v" by (auto simp: on_actions_def w2_def office_world_def)
    with sameD [OF same_scoped continued(2)] show ?thesis by (simp add: same_data_def)
  qed (use run in \<open>auto simp: on_actions_def w2_def office_world_def api_dispatch_def
          split: sum.splits\<close>)
  moreover have "api_execute office ''inc-1'' (action_digest sample_action) office_bearer office_world = (y, w)"
    using fin by (simp add: api_execute_def bindP_eqs(2) [OF office_scoped] bindP_eqs(2) [OF office_api_actor]
        office_world_def w2_def office_actor_def)
  ultimately show ?thesis using run(2) by (auto simp: office_world_def)
qed

section \<open>The operational backend in the broker\<close>

lemma backend_context_Inr:
  assumes "be_context (operational_backend clock now op) n a s = Inr c"
  shows "incident_get (op_incidents op n) (act_incident a) = Inr (Some (pc_incident c))
    \<and> backend_resource op n a = Inr (pc_resource c) \<and> pc_store c = op_artifacts op n"
  using assms by (auto simp: operational_backend_def backend_context_def)

definition office_operations :: "unit op_host" where
  "office_operations =
     \<lparr>op_principals = (\<lambda>_ s. Inr (Some (sample_principal s))),
      op_incidents = (\<lambda>_. it_rows (aw_table office_world)), op_artifacts = (\<lambda>_. sample_store),
      op_snapshot = (\<lambda>_ _. Inr sample_resource), op_execute = (\<lambda>_ _ _. Inr sample_receipt),
      op_traffic = None\<rparr>"

text \<open>On the sample action the operational backend answers what the sample backend does.\<close>

lemma office_backend:
  "be_clock (operational_backend (\<lambda>_. 10) (\<lambda>_. 10) office_operations) = be_clock sample_backend"
  "be_principal (operational_backend (\<lambda>_. 10) (\<lambda>_. 10) office_operations) = be_principal sample_backend"
  "be_utc_now (operational_backend (\<lambda>_. 10) (\<lambda>_. 10) office_operations) = be_utc_now sample_backend"
  "be_context (operational_backend (\<lambda>_. 10) (\<lambda>_. 10) office_operations) n sample_action s
     = be_context sample_backend n sample_action s"
proof -
  have a: "act_incident sample_action = ''inc-1''" "\<not> is_pause sample_action"
    by (simp_all add: sample_action_def)
  show "be_context (operational_backend (\<lambda>_. 10) (\<lambda>_. 10) office_operations) n sample_action s
     = be_context sample_backend n sample_action s"
    by (simp add: operational_backend_def backend_context_def office_operations_def a office_table
        backend_resource_def sample_backend_def)
qed (simp_all add: operational_backend_def office_operations_def sample_backend_def)

lemma office_same_calls:
  "broker_identity (operational_backend (\<lambda>_. 10) (\<lambda>_. 10) office_operations) = broker_identity sample_backend"
  "approval_current (operational_backend (\<lambda>_. 10) (\<lambda>_. 10) office_operations) = approval_current sample_backend"
  "transition_now (operational_backend (\<lambda>_. 10) (\<lambda>_. 10) office_operations) = transition_now sample_backend"
  "broker_review (operational_backend (\<lambda>_. 10) (\<lambda>_. 10) office_operations) mode sample_action s
     = broker_review sample_backend mode sample_action s"
  by (simp_all add: fun_eq_iff broker_identity_def approval_current_def transition_now_def
      broker_review_def office_backend)

lemma office_operational_execute:
  "\<exists>x w. execute (operational_backend (\<lambda>_. 10) (\<lambda>_. 10) office_operations) Local_kind
           (action_digest sample_action) ''worker'' approved_world = (x, w)
     \<and> w_effects w \<noteq> w_effects approved_world"
proof -
  let ?be = "operational_backend (\<lambda>_. 10) (\<lambda>_. 10) office_operations" and ?i = "action_digest sample_action"
  have "prepare_execute ?be Local_kind ?i ''worker'' approved_world
      = prepare_execute sample_backend Local_kind ?i ''worker'' approved_world"
    by (simp add: prepare_execute_def bindP_def read_db_def approved_world_facts sample_approved_fields
        office_same_calls office_backend)
  then obtain w1 where w1: "prepare_execute ?be Local_kind ?i ''worker'' approved_world
      = (Inr (Ready sample_approved sample_grant 30000005), w1)" "quiet approved_world w1"
    using sample_prepare by auto
  obtain c w2 where w2: "claim sample_backend sample_approved ''worker'' w1 = (Inr c, w2)"
    using sample_claim [OF w1(2)] by blast
  have c: "ar_proposal c = sample_action" "ar_proposer c = ''alice''" "ar_approval c = Some sample_grant"
    using claim_Inr(1) [OF w2] by (simp_all add: sample_approved_fields)
  obtain w3 where w3: "dispatch_authority sample_backend c sample_grant ''worker'' 30000005 w2 = (Inr (), w3)"
    using sample_dispatch_authority c by blast
  obtain out w4 where out: "checked_effect ?be c w3 = (out, w4)" by fastforce
  obtain x w5 where x: "settle ?be c ''worker'' out w4 = (x, w5)" by fastforce
  have "w_effects w3 = []"
    using quietD [OF quiet_authority w3] claim_Inr(7) [OF w2] w1(2) approved_world_facts(3)
    by (simp add: quiet_def)
  with checked_effect_frame [OF out] settle_effects [OF x] have "w_effects w5 \<noteq> []" by simp
  moreover have "claim ?be = claim sample_backend" "dispatch_authority ?be = dispatch_authority sample_backend"
    by (simp_all add: fun_eq_iff claim_def dispatch_authority_def office_same_calls office_backend)
  then have "execute ?be Local_kind ?i ''worker'' approved_world = (x, w5)"
    using w1 w2 w3 out x c by (simp add: execute_def bindP_def dispatch_def)
  ultimately show ?thesis using approved_world_facts(3) by auto
qed

text \<open>Where the operational backend reads a resource from and where it sends the effect.\<close>

lemma resource_route:
  assumes "backend_resource op n a = Inr res"
  shows "if is_pause a
    then \<exists>traffic t db. op_traffic op = Some traffic \<and> traffic n = (t, db) \<and> traffic_snapshot t db a = Inr res
    else op_snapshot op n a = Inr res"
  using assms by (auto simp: backend_resource_def split: if_splits option.splits prod.splits)

lemma effect_route:
  assumes "is_pause a \<Longrightarrow> op_traffic op \<noteq> None"
  shows "if is_pause a
    then \<exists>traffic t db. op_traffic op = Some traffic \<and> traffic n = (t, db)
           \<and> be_execute (operational_backend clock now op) n a k = fst (traffic_pause t a k db)
    else be_execute (operational_backend clock now op) n a k = op_execute op n a k"
  using assms
  by (auto simp: operational_backend_def backend_execute_def split: option.splits prod.splits)

text \<open>A review by the operational backend read one incident, one resource and one artifact store.\<close>

lemma operational_review:
  assumes "reviewed_at (operational_backend clock now op) n a s d"
  obtains incident res rep where
    "incident_get (op_incidents op (n + 2)) (act_incident a) = Inr (Some incident)"
    "backend_resource op (n + 2) a = Inr res" "in_report incident = Some rep"
    "rp_terminal rep = ESCALATED" "rp_mode rep = act_mode a"
    "rs_uid res = act_uid a" "rs_version res = act_version a"
    "list_all (\<lambda>e. \<exists>item. item \<in> set (rp_evidence rep) \<and> ev_id item = e
       \<and> ev_incident item = act_incident a \<and> fresh (now (n + 3)) (ev_observed item) 300
       \<and> fresh (now (n + 3)) (ev_collected item) 300
       \<and> operational (op_artifacts op (n + 2)) item) (act_evidence a)"
proof -
  from assms obtain p c rep where c: "be_context (operational_backend clock now op) (n + 2) a s = Inr c"
      "permitted a (c\<lparr>pc_principal := Some p\<rparr>) (now (n + 3))" "in_report (pc_incident c) = Some rep"
    unfolding reviewed_at_def by (auto simp: operational_backend_def)
  note ctx = backend_context_Inr [OF c(1)]
  have "list_all (justified a (c\<lparr>pc_principal := Some p\<rparr>) (now (n + 3)) rep) (act_evidence a)"
    using c(2,3) by (simp add: permitted_def)
  then have "list_all (\<lambda>e. \<exists>item. item \<in> set (rp_evidence rep) \<and> ev_id item = e
       \<and> ev_incident item = act_incident a \<and> fresh (now (n + 3)) (ev_observed item) 300
       \<and> fresh (now (n + 3)) (ev_collected item) 300
       \<and> operational (op_artifacts op (n + 2)) item) (act_evidence a)"
    by (rule list.pred_mono_strong) (use ctx in \<open>auto simp: justified_def dest!: map_of_SomeD\<close>)
  with c(2,3) ctx show thesis
    by (intro that [of "pc_incident c" "pc_resource c" rep]) (auto simp: permitted_def)
qed

section \<open>Properties\<close>

text \<open>C3: A request to execute an action through the HTTP surface causes at most one effect, and only
  inside its scope: the caller was authenticated from the bearer of this request, the incident of the
  URL is stored, lies in the sandbox namespace and concerns a known service, the dispatched proposal
  names exactly this incident, namespace, service and mode, and the broker had full two-person
  authority for the record with the authenticated subject as executor.\<close>

theorem api_effects_stay_in_scope:
  assumes "api_execute h i a bearer w = (x, w')"
  shows "w_effects (aw_actions w') = w_effects (aw_actions w)
    \<or> (\<exists>p incident r. authenticated h bearer p \<and> in_scope (aw_table w) i incident
         \<and> in_incident h incident i (ar_proposal r)
         \<and> effect_authority (ho_backend h) (ho_mode h) (w_tick (aw_actions w)) (w_db (aw_actions w)) a
             (pr_subject p) r
         \<and> w_effects (aw_actions w') = w_effects (aw_actions w) @ [(ar_proposal r, a)])"
  by (rule api_execute_effect [OF assms])

theorem api_effects_stay_in_scope_witness:
  "\<exists>p incident (r :: action_record). authenticated office office_bearer p
     \<and> in_scope (aw_table office_world) ''inc-1'' incident
     \<and> in_incident office incident ''inc-1'' (ar_proposal r)"
proof -
  obtain x w where w: "api_execute office ''inc-1'' (action_digest sample_action) office_bearer office_world = (x, w)"
      "w_effects (aw_actions w) \<noteq> w_effects (aw_actions office_world)"
    using office_execute by blast
  from api_effects_stay_in_scope [OF w(1)] w(2) show ?thesis by blast
qed

text \<open>C4: With the operational backend, a dispatched effect rests on the stored incident, read once by
  this request. In the one context of its review (call \<open>n + 7\<close>) the incident table held the incident
  that the proposal names, with an escalated report of the operation's mode; every evidence item that
  the proposal cites is in that report, belongs to the incident, was observed and collected at most five
  minutes before the time read next, and is verified against the artifact store of the same moment; and
  the resource of the proposed UID and version was read from the traffic control for a pause and from
  the deployment executor otherwise. The effect itself (call \<open>n + 20\<close>) went to the traffic control for a
  pause and to the deployment executor otherwise, with the action's digest as the key, and a request
  that returns reports the outcome of that answer.\<close>

theorem authority_rests_on_stored_incident:
  assumes "execute (operational_backend clock now op) mode i s w = (x, w')"
    and "w_effects w' \<noteq> w_effects w"
  shows "\<exists>r0 a incident rep res got. action_get (w_db w) i = Inr r0 \<and> a = ar_proposal r0
    \<and> w_effects w' = w_effects w @ [(a, i)] \<and> i = action_digest a
    \<and> incident_get (op_incidents op (w_tick w + 7)) (act_incident a) = Inr (Some incident)
    \<and> in_report incident = Some rep \<and> rp_terminal rep = ESCALATED \<and> rp_mode rep = act_mode a
    \<and> list_all (\<lambda>e. \<exists>item. item \<in> set (rp_evidence rep) \<and> ev_id item = e
         \<and> ev_incident item = act_incident a \<and> fresh (now (w_tick w + 8)) (ev_observed item) 300
         \<and> fresh (now (w_tick w + 8)) (ev_collected item) 300
         \<and> operational (op_artifacts op (w_tick w + 7)) item) (act_evidence a)
    \<and> (if is_pause a
        then \<exists>traffic t db. op_traffic op = Some traffic \<and> traffic (w_tick w + 7) = (t, db)
               \<and> traffic_snapshot t db a = Inr res
        else op_snapshot op (w_tick w + 7) a = Inr res)
    \<and> rs_uid res = act_uid a \<and> rs_version res = act_version a
    \<and> (if is_pause a
        then \<exists>traffic t db. op_traffic op = Some traffic \<and> traffic (w_tick w + 20) = (t, db)
               \<and> got = fst (traffic_pause t a i db)
        else got = op_execute op (w_tick w + 20) a i)
    \<and> (\<forall>r. x = Inr r \<longrightarrow> (ar_state r, ar_result r) = effect_outcome a got)"
proof -
  let ?be = "operational_backend clock now op" and ?n = "w_tick w"
  from execute_effect [OF assms(1)] assms(2) obtain r where
      r: "effect_authority ?be mode ?n (w_db w) i s r" "w_effects w' = w_effects w @ [(ar_proposal r, i)]"
    by blast
  let ?a = "ar_proposal r" and ?got = "be_execute ?be (?n + 20) (ar_proposal r) i"
  from r(1) have get: "action_get (w_db w) i = Inr r" by (simp add: effect_authority_def)
  then have id: "i = action_digest ?a" by (auto simp: action_get_iff consistent_record_def)
  from r(1) obtain d where "reviewed_at ?be (?n + 5) ?a (ar_proposer r) d"
    by (auto simp: effect_authority_def claimable_def)
  then obtain incident res rep where *:
      "incident_get (op_incidents op (?n + 7)) (act_incident ?a) = Inr (Some incident)"
      "backend_resource op (?n + 7) ?a = Inr res" "in_report incident = Some rep"
      "rp_terminal rep = ESCALATED" "rp_mode rep = act_mode ?a"
      "rs_uid res = act_uid ?a" "rs_version res = act_version ?a"
      "list_all (\<lambda>e. \<exists>item. item \<in> set (rp_evidence rep) \<and> ev_id item = e
         \<and> ev_incident item = act_incident ?a \<and> fresh (now (?n + 8)) (ev_observed item) 300
         \<and> fresh (now (?n + 8)) (ev_collected item) 300
         \<and> operational (op_artifacts op (?n + 7)) item) (act_evidence ?a)"
    by (rule operational_review) (simp add: numeral_eq_Suc)
  note routed = resource_route [OF *(2)]
  then have on: "is_pause ?a \<Longrightarrow> op_traffic op \<noteq> None" by auto
  have "\<forall>q. x = Inr q \<longrightarrow> (ar_state q, ar_result q) = effect_outcome ?a ?got"
    using execute_outcome assms get by blast
  with effect_route [OF on, where n = "?n + 20" and clock = clock and now = now and k = i] r(2) get id *(1,3-8) routed show ?thesis
    by (intro exI conjI) (rule refl | assumption)+
qed

theorem authority_rests_on_stored_incident_witness:
  "\<exists>x w incident rep. execute (operational_backend (\<lambda>_. 10) (\<lambda>_. 10) office_operations) Local_kind
       (action_digest sample_action) ''worker'' approved_world = (x, w)
     \<and> w_effects w \<noteq> []
     \<and> incident_get (op_incidents office_operations (w_tick approved_world + 7)) ''inc-1'' = Inr (Some incident)
     \<and> in_report incident = Some rep \<and> rp_terminal rep = ESCALATED
     \<and> list_all (\<lambda>e. \<exists>item. item \<in> set (rp_evidence rep) \<and> ev_id item = e
         \<and> ev_incident item = ''inc-1'' \<and> fresh 10 (ev_observed item) 300
         \<and> fresh 10 (ev_collected item) 300
         \<and> operational (op_artifacts office_operations (w_tick approved_world + 7)) item) [''ev-1'']"
proof -
  obtain x w where run: "execute (operational_backend (\<lambda>_. 10) (\<lambda>_. 10) office_operations) Local_kind
       (action_digest sample_action) ''worker'' approved_world = (x, w)" "w_effects w \<noteq> w_effects approved_world"
    using office_operational_execute by blast
  from authority_rests_on_stored_incident [OF run] obtain r a incident rep where
      *: "action_get (w_db approved_world) (action_digest sample_action) = Inr r" "a = ar_proposal r"
      "incident_get (op_incidents office_operations (w_tick approved_world + 7)) (act_incident a)
         = Inr (Some incident)" "in_report incident = Some rep" "rp_terminal rep = ESCALATED"
      "list_all (\<lambda>e. \<exists>item. item \<in> set (rp_evidence rep) \<and> ev_id item = e
         \<and> ev_incident item = act_incident a \<and> fresh 10 (ev_observed item) 300
         \<and> fresh 10 (ev_collected item) 300
         \<and> operational (op_artifacts office_operations (w_tick approved_world + 7)) item) (act_evidence a)"
    by (elim exE conjE) (rule that)
  from * have "a = sample_action" by (simp add: approved_world_facts sample_approved_fields)
  moreover have "act_incident sample_action = ''inc-1''" "act_evidence sample_action = [''ev-1'']"
    by (simp_all add: sample_action_def)
  ultimately show ?thesis using run * approved_world_facts(3)
    by (intro exI [of _ x] exI [of _ w] exI [of _ incident] exI [of _ rep]) simp
qed

text \<open>An investigation request publishes under authority on both sides of the work. If it returns a
  report, and the host's investigator leaves the incident table to ordinary creations and reports, then
  the caller was authenticated and entitled to write before and again after the investigation, the
  incident of the URL was in scope, and the returned report is of the host's mode and is the one report
  that the table holds for that incident.\<close>

theorem api_publishes_stored_report:
  assumes "api_run h i bearer w = (Inr r, w')" and "incidents_ok (aw_table w)"
    and "\<And>n incident t x t'. ho_investigate h n incident t = (x, t') \<Longrightarrow> incident_step\<^sup>*\<^sup>* t t'"
  shows "\<exists>p q incident saved. authenticated h bearer p \<and> entitled h p True
    \<and> authenticated h bearer q \<and> entitled h q True \<and> in_scope (aw_table w) i incident
    \<and> rp_mode r = ho_mode h \<and> in_report saved = Some r
    \<and> incident_get (it_rows (aw_table w')) i = Inr (Some saved)"
proof -
  obtain p q incident report t saved where run:
    "authenticated h bearer p" "authenticated h bearer q" "entitled h p True" "entitled h q True"
    "in_scope (aw_table w) i incident" "rp_incident report = i"
    "t = aw_table w \<and> in_report incident = Some report
       \<or> in_report incident = None \<and> (\<exists>n. ho_investigate h n incident (aw_table w) = (Inr report, t))"
    "save_report report t = (Inr saved, aw_table w')" "in_report saved = Some r" "rp_mode r = ho_mode h"
    by (rule api_run_Inr [OF assms(1)])
  have "incident_step\<^sup>*\<^sup>* (aw_table w) t" using run(7) assms(3) by blast
  then have ok: "incidents_ok t" using assms(2) by (rule incidents_ok_steps)
  have save: "save_report_at t report t = (Inr saved, aw_table w')" using run(8) by (simp add: save_report_def)
  then have "incidents_ok (aw_table w')" using saved incidents_ok_step ok by blast
  with save_report_stored [OF ok _ save] run(6)
  have "incident_get (it_rows (aw_table w')) i = Inr (Some saved)" by (simp add: incident_get_iff)
  with run show ?thesis by blast
qed

theorem api_publishes_stored_report_witness:
  "\<exists>r w'. api_run office ''inc-1'' office_bearer office_world = (Inr r, w')
     \<and> (\<exists>saved. in_report saved = Some r \<and> incident_get (it_rows (aw_table w')) ''inc-1'' = Inr (Some saved))"
proof -
  have fields: "in_report sample_incident = Some sample_report" "rp_incident sample_report = ''inc-1''"
      "rp_mode sample_report = Local_kind" "ic_namespace (in_request sample_incident) = ''payops-sandbox''"
    by (simp_all add: sample_incident_def sample_report_def)
  have "save_report sample_report (aw_table office_world) = (Inr sample_incident, aw_table office_world)"
    using office_table(1) fields
    by (auto simp: save_report_def save_report_at_def prepare_report_def incident_get_def split: option.splits)
  then obtain w' where run: "api_run office ''inc-1'' office_bearer office_world = (Inr sample_report, w')"
    by (simp add: api_run_def bindP_def office_api_actor office_scoped_incident office_authorize fields
        on_table_def)
  have idle: "ho_investigate office n incident t = (x, t') \<Longrightarrow> incident_step\<^sup>*\<^sup>* t t'" for n incident t x t'
    by (simp add: office_def)
  have "\<exists>p q incident saved. authenticated office office_bearer p \<and> entitled office p True
    \<and> authenticated office office_bearer q \<and> entitled office q True
    \<and> in_scope (aw_table office_world) ''inc-1'' incident
    \<and> rp_mode sample_report = ho_mode office \<and> in_report saved = Some sample_report
    \<and> incident_get (it_rows (aw_table w')) ''inc-1'' = Inr (Some saved)"
    by (rule api_publishes_stored_report [OF run office_table(2)]) (rule idle)
  with run show ?thesis by blast
qed

text \<open>Incident ingestion is limited to authenticated writers: a creation request leaves the incident
  table as it was, or its caller was authenticated from its bearer and entitled to write, and the
  request is for the sandbox namespace and a known service; the table then took an ordinary step.\<close>

theorem api_create_needs_responder:
  assumes "api_create h request bearer key w = (x, w')"
  shows "aw_table w' = aw_table w
    \<or> (\<exists>p. authenticated h bearer p \<and> entitled h p True)
        \<and> ic_namespace request = ''payops-sandbox'' \<and> ic_service request \<in> set READ_SERVICES
        \<and> incident_step (aw_table w) (aw_table w')"
  using assms
proof (cases rule: api_create_cases)
  case (permitted p w1 y)
  with store_create_step [OF permitted(6)] show ?thesis by (auto simp: same_data_def)
qed (simp add: same_data_def)

theorem api_create_needs_responder_witness:
  "\<exists>w'. snd (api_create office (in_request sample_incident) office_bearer (Some ''k'') office_world) = w'
     \<and> aw_table w' \<noteq> aw_table office_world \<and> incident_step (aw_table office_world) (aw_table w')"
proof -
  have fields: "ic_namespace (in_request sample_incident) = ''payops-sandbox''"
      "ic_service (in_request sample_incident) \<in> set READ_SERVICES"
    by (simp_all add: sample_incident_def READ_SERVICES_def)
  have "validate_incident (new_incident ''inc-2'' 10 (in_request sample_incident))
      = Inr (new_incident ''inc-2'' 10 (in_request sample_incident))"
  proof -
    have "is_identifier ''inc-2''" by code_simp
    with sample_incident_stored show ?thesis by (simp add: validate_incident_iff new_incident_def)
  qed
  moreover have "it_rows (aw_table office_world) ''inc-2'' = None"
      "\<not> key_taken (it_ids (aw_table office_world)) (it_rows (aw_table office_world)) (Some ''k'')"
    by (simp_all add: office_world_def key_taken_def row_with_key_def)
  moreover have "ho_new_id office n = ''inc-2''" for n by (simp add: office_def)
  ultimately have "\<exists>x w'. api_create office (in_request sample_incident) office_bearer (Some ''k'') office_world = (x, w')
      \<and> it_ids (aw_table w') = it_ids (aw_table office_world) @ [''inc-2'']"
    using fields
    by (simp add: api_create_def bindP_def office_api_actor office_authorize store_create_def on_tick_def
        observe_def on_table_def tryP_def incident_create_op_def)
  then obtain x w' where w': "api_create office (in_request sample_incident) office_bearer (Some ''k'') office_world = (x, w')"
      "it_ids (aw_table w') = it_ids (aw_table office_world) @ [''inc-2'']" by blast
  then have "aw_table w' \<noteq> aw_table office_world" by auto
  with api_create_needs_responder [OF w'(1)] w'(1) show ?thesis by auto
qed

end
