(* ===== verification/Deployment.thy ===== *)
theory Deployment
  imports Broker
begin

text \<open>
  Closed deployment plans, \<^verbatim>\<open>src/payops/remediation/deployment.py\<close>, and the executor that applies them,
  \<^verbatim>\<open>src/payops/remediation/local_executor.py\<close>, with the JSON helpers of
  \<^verbatim>\<open>src/payops/scenarios/contracts.py\<close>.

  The kubectl subprocess together with the decoding of its output is the environment \<open>kubectl\<close>, and
  the monotonic clock is \<open>ex_clock\<close>; both may answer differently at every call, so they take the call
  number. The executor's world is that number and the log of write commands. The readiness loop is a
  \<open>partial_function\<close>: the value \<open>None\<close> means that it never returns.

  Main facts: a plan changes the one field its action names and nothing else (\<open>plan_frame\<close>); an
  execution issues at most one write, the patch that tests identity, version and the whole previous
  specification before replacing it (\<open>ex_execute_outcome\<close>); and the loop returns whenever the clock
  passes the deadline (\<open>poll_returns\<close>).
\<close>

section \<open>JSON helpers\<close>

fun object_value :: "json \<Rightarrow> exn + json_object" where
  "object_value (JObj kvs) = Inr kvs"
| "object_value _ = Inl (ValueError ''expected Kubernetes JSON object'')"

fun object_items :: "json \<Rightarrow> exn + json_object list" where
  "object_items (JArr xs) = mapR object_value xs"
| "object_items _ = Inl (ValueError ''expected Kubernetes JSON list'')"

text \<open>\<^verbatim>\<open>obj[key]\<close> and \<^verbatim>\<open>object_value(obj.get(key, {}))\<close>.\<close>

definition item_of :: "json_object \<Rightarrow> string \<Rightarrow> exn + json" where
  "item_of kvs k = of_option (KeyError k) (get_field kvs k)"

definition object_at :: "json_object \<Rightarrow> string \<Rightarrow> exn + json_object" where
  "object_at kvs k = bindR (item_of kvs k) object_value"

definition object_or_empty :: "json_object \<Rightarrow> string \<Rightarrow> exn + json_object" where
  "object_or_empty kvs k = (case get_field kvs k of None \<Rightarrow> Inr [] | Some v \<Rightarrow> object_value v)"

definition is_none :: "json option \<Rightarrow> bool" where
  "is_none v \<longleftrightarrow> v = None \<or> v = Some JNull"

section \<open>Plans\<close>

record deployment_plan =
  dp_action :: action
  dp_before :: json_object
  dp_after :: json_object

definition plan_patch :: "deployment_plan \<Rightarrow> json list" where
  "plan_patch p =
     [JObj [(''op'', JStr ''test''), (''path'', JStr ''/metadata/uid''), (''value'', JStr (act_uid (dp_action p)))],
      JObj [(''op'', JStr ''test''), (''path'', JStr ''/metadata/resourceVersion''),
            (''value'', JStr (act_version (dp_action p)))],
      JObj [(''op'', JStr ''test''), (''path'', JStr ''/spec''), (''value'', JObj (dp_before p))],
      JObj [(''op'', JStr ''replace''), (''path'', JStr ''/spec''), (''value'', JObj (dp_after p))]]"

definition validate_target :: "action \<Rightarrow> (string \<Rightarrow> string option) \<Rightarrow> exn + unit" where
  "validate_target a inventory =
     bindR (validate_action (action_json a)) (\<lambda>_.
     check (\<not> (act_mode a \<noteq> Local_kind \<or> act_namespace a \<noteq> ''payops-sandbox''
                \<or> act_service a \<notin> set SERVICES \<or> inventory (act_service a) \<noteq> Some (act_uid a)
                \<or> is_pause a))
       (PermissionError ''EXECUTOR_TARGET_DENIED''))"

definition deployment_spec :: "action \<Rightarrow> json_object \<Rightarrow> exn + json_object" where
  "deployment_spec a current =
     bindR (object_at current ''metadata'') (\<lambda>metadata.
     bindR (object_or_empty metadata ''labels'') (\<lambda>labels.
     bindR (check (\<not> (get_field current ''kind'' \<noteq> Some (JStr ''Deployment'')
                       \<or> get_field current ''apiVersion'' \<noteq> Some (JStr ''apps/v1'')
                       \<or> (get_field metadata ''namespace'', get_field metadata ''name'',
                          get_field metadata ''uid'', get_field metadata ''resourceVersion'')
                         \<noteq> (Some (JStr (act_namespace a)), Some (JStr (act_service a)),
                            Some (JStr (act_uid a)), Some (JStr (act_version a)))
                       \<or> get_field labels ''app.kubernetes.io/part-of'' \<noteq> Some (JStr ''payops'')
                       \<or> \<not> is_none (get_field metadata ''deletionTimestamp'')))
              (PermissionError ''EXECUTOR_PRECONDITION_FAILED'')) (\<lambda>_.
     object_at current ''spec'')))"

definition is_alnum :: "char \<Rightarrow> bool" where
  "is_alnum c \<longleftrightarrow>
     (let n = (of_char c :: nat) in
        48 \<le> n \<and> n \<le> 57 \<or> 65 \<le> n \<and> n \<le> 90 \<or> 97 \<le> n \<and> n \<le> 122)"

definition is_image_name :: "string \<Rightarrow> bool" where
  "is_image_name s \<longleftrightarrow>
     s \<noteq> [] \<and> is_alnum (hd s) \<and> list_all (\<lambda>c. is_alnum c \<or> c \<in> set ''./:_-'') s"

definition rollback_image :: "string \<Rightarrow> (string \<Rightarrow> string option) \<Rightarrow> exn + string" where
  "rollback_image revision revisions =
     (let image = (case revisions revision of None \<Rightarrow> [] | Some i \<Rightarrow> i);
          name = takeWhile (\<lambda>c. c \<noteq> CHR ''@'') image
      in bindR (check (is_image_name name \<and> image = name @ ''@sha256:'' @ revision)
                  (PermissionError ''EXECUTOR_REVISION_DENIED'')) (\<lambda>_. Inr image))"

definition sandbox_container :: "json_object list \<Rightarrow> exn + json_object" where
  "sandbox_container containers =
     (if length containers \<noteq> 1 \<or> get_field (hd containers) ''name'' \<noteq> Some (JStr ''sandbox'')
      then Inl (PermissionError ''EXECUTOR_CONTAINER_DENIED'') else Inr (hd containers))"

definition planned_template ::
  "action \<Rightarrow> json_object \<Rightarrow> string \<Rightarrow> (string \<Rightarrow> string option) \<Rightarrow> exn + json_object" where
  "planned_template a template key revisions =
     (case a of
        RollbackAction _ revision \<Rightarrow>
          bindR (object_at template ''spec'') (\<lambda>spec.
          bindR (bindR (item_of spec ''containers'') object_items) (\<lambda>containers.
          bindR (sandbox_container containers) (\<lambda>c.
          bindR (rollback_image revision revisions) (\<lambda>image.
          Inr (set_field template ''spec''
                 (JObj (set_field spec ''containers''
                    (JArr [JObj (set_field c ''image'' (JStr image))]))))))))
      | _ \<Rightarrow>
          bindR (object_at template ''metadata'') (\<lambda>metadata.
          bindR (object_or_empty metadata ''annotations'') (\<lambda>annotations.
          Inr (set_field template ''metadata''
                 (JObj (set_field metadata ''annotations''
                    (JObj (set_field annotations ''payops.dev/remediation'' (JStr key)))))))))"

definition planned_spec ::
  "action \<Rightarrow> json_object \<Rightarrow> string \<Rightarrow> (string \<Rightarrow> string option) \<Rightarrow> exn + json_object" where
  "planned_spec a before key revisions =
     (case a of
        ScaleAction _ n \<Rightarrow> Inr (set_field before ''replicas'' (JInt n))
      | _ \<Rightarrow>
          bindR (object_at before ''template'') (\<lambda>template.
          bindR (planned_template a template key revisions) (\<lambda>template'.
          Inr (set_field before ''template'' (JObj template')))))"

definition plan_deployment ::
  "action \<Rightarrow> json_object \<Rightarrow> string \<Rightarrow> (string \<Rightarrow> string option) \<Rightarrow> (string \<Rightarrow> string option)
     \<Rightarrow> exn + deployment_plan" where
  "plan_deployment a current key inventory revisions =
     bindR (validate_target a inventory) (\<lambda>_.
     bindR (check (key = action_digest a) (PermissionError ''EXECUTOR_DIGEST_MISMATCH'')) (\<lambda>_.
     bindR (deployment_spec a current) (\<lambda>before.
     bindR (planned_spec a before key revisions) (\<lambda>after.
     Inr \<lparr>dp_action = a, dp_before = before, dp_after = after\<rparr>))))"

section \<open>Readiness\<close>

definition opt_eq :: "json option \<Rightarrow> json \<Rightarrow> bool" where
  "opt_eq v x \<longleftrightarrow> (case v of None \<Rightarrow> x = JNull | Some y \<Rightarrow> py_eq y x)"

definition replica_fields :: "string list" where
  "replica_fields = [''replicas'', ''updatedReplicas'', ''readyReplicas'', ''availableReplicas'']"

definition settled_status :: "json_object \<Rightarrow> json option \<Rightarrow> json option \<Rightarrow> bool" where
  "settled_status status replicas generation \<longleftrightarrow>
     (case (replicas, generation) of
        (Some (JInt r), Some (JInt g)) \<Rightarrow>
          0 < r \<and> opt_eq (get_field status ''observedGeneration'') (JInt g)
          \<and> list_all (\<lambda>f. get_field status f = Some (JInt r)) replica_fields
          \<and> (case get_field status ''unavailableReplicas'' of None \<Rightarrow> True | Some u \<Rightarrow> py_eq u (JInt 0))
      | _ \<Rightarrow> False)"

definition rollout_ready :: "deployment_plan \<Rightarrow> json_object \<Rightarrow> exn + bool" where
  "rollout_ready p current =
     bindR (object_at current ''metadata'') (\<lambda>metadata.
     bindR (check (\<not> (get_field metadata ''uid'' \<noteq> Some (JStr (act_uid (dp_action p)))
                       \<or> \<not> opt_eq (get_field current ''spec'') (JObj (dp_after p))))
              (PermissionError ''EXECUTOR_POSTCHECK_DRIFT'')) (\<lambda>_.
     bindR (check (is_none (get_field metadata ''deletionTimestamp''))
              (PermissionError ''EXECUTOR_POSTCHECK_DELETING'')) (\<lambda>_.
     bindR (object_or_empty current ''status'') (\<lambda>status.
     Inr (settled_status status
            (case get_field (dp_after p) ''replicas'' of None \<Rightarrow> Some (JInt 1) | r \<Rightarrow> r)
            (get_field metadata ''generation''))))))"

section \<open>The executor\<close>

record executor =
  ex_kubectl :: "nat \<Rightarrow> string list \<Rightarrow> exn + json_object"
  ex_clock :: "nat \<Rightarrow> rat"
  ex_utc_now :: "nat \<Rightarrow> instant"
  ex_namespace_uid :: string
  ex_inventory :: "(string \<times> string) list"
  ex_revisions :: "(string \<times> (string \<times> string) list) list"
  ex_seconds :: rat

record exec_world =
  x_tick :: nat
  x_writes :: "string list list"

definition valid_executor :: "executor \<Rightarrow> exn + unit" where
  "valid_executor ex =
     check (\<not> (ex_namespace_uid ex = [] \<or> ex_inventory ex = []
                \<or> \<not> set (map fst (ex_inventory ex)) \<subseteq> set SERVICES
                \<or> \<not> set (map fst (ex_revisions ex)) \<subseteq> set (map fst (ex_inventory ex))
                \<or> \<not> (1 \<le> ex_seconds ex \<and> ex_seconds ex \<le> 120)))
       (ValueError ''invalid local executor configuration'')"

definition service_revisions :: "executor \<Rightarrow> string \<Rightarrow> (string \<times> string) list" where
  "service_revisions ex service =
     (case map_of (ex_revisions ex) service of None \<Rightarrow> [] | Some rs \<Rightarrow> rs)"

definition ex_read :: "executor \<Rightarrow> string list \<Rightarrow> (exec_world, json_object) prog" where
  "ex_read ex args w = (ex_kubectl ex (x_tick w) args, w\<lparr>x_tick := Suc (x_tick w)\<rparr>)"

definition ex_write :: "executor \<Rightarrow> string list \<Rightarrow> (exec_world, json_object) prog" where
  "ex_write ex args w =
     (ex_kubectl ex (x_tick w) args, w\<lparr>x_tick := Suc (x_tick w), x_writes := x_writes w @ [args]\<rparr>)"

definition ex_time :: "executor \<Rightarrow> (exec_world, rat) prog" where
  "ex_time ex w = (Inr (ex_clock ex (x_tick w)), w\<lparr>x_tick := Suc (x_tick w)\<rparr>)"

definition check_namespace :: "executor \<Rightarrow> (exec_world, unit) prog" where
  "check_namespace ex =
     bindP (ex_read ex [''get'', ''namespace'', ''payops-sandbox'']) (\<lambda>current.
     bindP (liftR (object_at current ''metadata'')) (\<lambda>metadata.
     checkP (\<not> (get_field metadata ''uid'' \<noteq> Some (JStr (ex_namespace_uid ex))
                 \<or> get_field metadata ''name'' \<noteq> Some (JStr ''payops-sandbox'')
                 \<or> \<not> is_none (get_field metadata ''deletionTimestamp'')))
       (PermissionError ''EXECUTOR_NAMESPACE_CHANGED'')))"

definition read_deployment :: "executor \<Rightarrow> string \<Rightarrow> (exec_world, json_object) prog" where
  "read_deployment ex service =
     bindP (checkP (\<not> (service \<notin> set (map fst (ex_inventory ex)) \<or> service \<notin> set SERVICES))
              (PermissionError ''EXECUTOR_SERVICE_DENIED'')) (\<lambda>_.
     ex_read ex [''get'', ''deployment'', service])"

text \<open>\<^verbatim>\<open>str(value)\<close> of a scalar. A list or object prints with a bracket, which no identifier contains,
  so only the presence of the bracket matters to the validators that follow.\<close>

definition str_of :: "json \<Rightarrow> string" where
  "str_of v =
     (case v of JStr s \<Rightarrow> s | JInt i \<Rightarrow> int_str i | JNull \<Rightarrow> ''None'' | JBool True \<Rightarrow> ''True''
              | JBool False \<Rightarrow> ''False'' | JFloat s \<Rightarrow> s | _ \<Rightarrow> dumps_in_order False v)"

definition ex_snapshot :: "executor \<Rightarrow> action \<Rightarrow> (exec_world, resource_snapshot) prog" where
  "ex_snapshot ex a =
     bindP (liftR (validate_target a (map_of (ex_inventory ex)))) (\<lambda>_.
     bindP (check_namespace ex) (\<lambda>_.
     bindP (read_deployment ex (act_service a)) (\<lambda>current.
     bindP (liftR (object_at current ''metadata'')) (\<lambda>metadata.
     bindP (liftR (object_or_empty metadata ''labels'')) (\<lambda>labels.
     bindP (liftR (object_at current ''spec'')) (\<lambda>spec.
     bindP (liftR (case get_field spec ''replicas'' of
                     None \<Rightarrow> Inr 1 | Some (JInt n) \<Rightarrow> Inr n
                   | _ \<Rightarrow> Inl (ValueError ''invalid deployment replica count''))) (\<lambda>replicas.
     bindP (liftR (item_of metadata ''namespace'')) (\<lambda>ns.
     bindP (liftR (item_of metadata ''name'')) (\<lambda>name.
     bindP (liftR (item_of metadata ''uid'')) (\<lambda>uid.
     bindP (liftR (item_of metadata ''resourceVersion'')) (\<lambda>version.
     bindP (\<lambda>w. (Inr (ex_utc_now ex (x_tick w)), w\<lparr>x_tick := Suc (x_tick w)\<rparr>)) (\<lambda>now.
     let snapshot =
       \<lparr>rs_namespace = str_of ns, rs_service = str_of name, rs_uid = str_of uid,
        rs_version = str_of version, rs_observed_at = now, rs_kind = Deployment_kind,
        rs_synthetic = (get_field labels ''app.kubernetes.io/part-of'' = Some (JStr ''payops'')
                        \<and> is_none (get_field metadata ''deletionTimestamp'')),
        rs_replicas = replicas, rs_approved = map fst (service_revisions ex (act_service a)),
        rs_mode = Local_kind\<rparr>
     in bindP (checkP (valid_snapshot snapshot) invalid) (\<lambda>_. returnP snapshot)))))))))))))"

definition ex_receipt :: "action \<Rightarrow> json_object \<Rightarrow> bool \<Rightarrow> exn + effect_receipt" where
  "ex_receipt a current ready =
     bindR (object_at current ''metadata'') (\<lambda>metadata.
     bindR (item_of metadata ''resourceVersion'') (\<lambda>version.
     let receipt = \<lparr>er_outcome = (if ready then SUCCEEDED else FAILED), er_uid = act_uid a,
                    er_previous = act_version a, er_resulting = Some (str_of version)\<rparr>
     in bindR (check (valid_receipt receipt) invalid) (\<lambda>_. Inr receipt)))"

text \<open>One round of the loop: return, or read again.\<close>

definition poll_again :: "executor \<Rightarrow> string \<Rightarrow> rat \<Rightarrow> (exec_world, json_object option) prog" where
  "poll_again ex service deadline =
     bindP (ex_time ex) (\<lambda>now.
     if deadline \<le> now then returnP None
     else bindP (ex_time ex) (\<lambda>_.
          bindP (check_namespace ex) (\<lambda>_.
          bindP (read_deployment ex service) (\<lambda>current. returnP (Some current)))))"

partial_function (option) poll ::
  "executor \<Rightarrow> deployment_plan \<Rightarrow> rat \<Rightarrow> json_object \<Rightarrow> exec_world
     \<Rightarrow> ((exn + effect_receipt) \<times> exec_world) option" where
  "poll ex p deadline current w =
     (case rollout_ready p current of
        Inl e \<Rightarrow> Some (Inl e, w)
      | Inr ready \<Rightarrow>
          if ready
          then (case ex_time ex w of
                  (Inl e, w') \<Rightarrow> Some (Inl e, w')
                | (Inr now, w') \<Rightarrow> Some (ex_receipt (dp_action p) current (now \<le> deadline), w'))
          else (case poll_again ex (act_service (dp_action p)) deadline w of
                  (Inl e, w') \<Rightarrow> Some (Inl e, w')
                | (Inr None, w') \<Rightarrow> Some (ex_receipt (dp_action p) current False, w')
                | (Inr (Some next_state), w') \<Rightarrow> poll ex p deadline next_state w'))"

definition patch_args :: "deployment_plan \<Rightarrow> string list" where
  "patch_args p =
     [''patch'', ''deployment'', act_service (dp_action p), ''--type=json'',
      ''--patch='' @ dumps_in_order True (JArr (plan_patch p))]"

definition start_execute ::
  "executor \<Rightarrow> action \<Rightarrow> string \<Rightarrow> (exec_world, deployment_plan \<times> json_object \<times> rat) prog" where
  "start_execute ex a key =
     bindP (liftR (validate_target a (map_of (ex_inventory ex)))) (\<lambda>_.
     bindP (check_namespace ex) (\<lambda>_.
     bindP (read_deployment ex (act_service a)) (\<lambda>current.
     bindP (liftR (plan_deployment a current key (map_of (ex_inventory ex))
                     (map_of (service_revisions ex (act_service a))))) (\<lambda>p.
     bindP (ex_write ex (patch_args p)) (\<lambda>patched.
     bindP (ex_time ex) (\<lambda>now.
     returnP (p, patched, now + ex_seconds ex)))))))"

definition ex_execute ::
  "executor \<Rightarrow> action \<Rightarrow> string \<Rightarrow> exec_world \<Rightarrow> ((exn + effect_receipt) \<times> exec_world) option" where
  "ex_execute ex a key w =
     (case start_execute ex a key w of
        (Inl e, w') \<Rightarrow> Some (Inl e, w')
      | (Inr (p, patched, deadline), w') \<Rightarrow> poll ex p deadline patched w')"

section \<open>What a plan changes\<close>

datatype path_step = Key string | Index nat

text \<open>\<open>only_at path a b\<close>: the two values agree everywhere except possibly at \<open>path\<close>.\<close>

fun only_at :: "path_step list \<Rightarrow> json \<Rightarrow> json \<Rightarrow> bool" where
  "only_at [] a b = True"
| "only_at (Key k # p) (JObj xs) (JObj ys) =
     ((\<forall>k'. k' \<noteq> k \<longrightarrow> get_field xs k' = get_field ys k')
      \<and> (case (get_field xs k, get_field ys k) of
           (Some a, Some b) \<Rightarrow> only_at p a b
         | (None, Some b) \<Rightarrow> p = [] \<or> only_at p (JObj []) b
         | _ \<Rightarrow> False))"
| "only_at (Index i # p) (JArr xs) (JArr ys) =
     (length xs = length ys \<and> i < length xs \<and> (\<forall>j. j < length xs \<and> j \<noteq> i \<longrightarrow> xs ! j = ys ! j)
      \<and> only_at p (xs ! i) (ys ! i))"
| "only_at _ _ _ = False"

fun value_at :: "path_step list \<Rightarrow> json \<Rightarrow> json option" where
  "value_at [] a = Some a"
| "value_at (Key k # p) (JObj xs) = Option.bind (get_field xs k) (value_at p)"
| "value_at (Index i # p) (JArr xs) = (if i < length xs then value_at p (xs ! i) else None)"
| "value_at _ _ = None"

fun changed_path :: "action \<Rightarrow> path_step list" where
  "changed_path (ScaleAction _ _) = [Key ''replicas'']"
| "changed_path (RollbackAction _ _) =
     [Key ''template'', Key ''spec'', Key ''containers'', Index 0, Key ''image'']"
| "changed_path _ =
     [Key ''template'', Key ''metadata'', Key ''annotations'', Key ''payops.dev/remediation'']"

lemma only_at_set_field:
  "only_at (Key k # p) (JObj xs) (JObj (set_field xs k b)) \<longleftrightarrow>
     (case get_field xs k of Some a \<Rightarrow> only_at p a b | None \<Rightarrow> p = [] \<or> only_at p (JObj []) b)"
  by (auto split: option.splits)

lemma only_at_new: "only_at [Key k] (JObj []) (JObj [(k, v)])"
  by simp

lemma object_at_iff: "object_at kvs k = Inr xs \<longleftrightarrow> get_field kvs k = Some (JObj xs)"
proof -
  have "object_value v = Inr xs \<longleftrightarrow> v = JObj xs" for v by (cases v) auto
  then show ?thesis by (auto simp: object_at_def item_of_def)
qed

lemma object_or_empty_iff:
  "object_or_empty kvs k = Inr xs \<longleftrightarrow>
     get_field kvs k = Some (JObj xs) \<or> get_field kvs k = None \<and> xs = []"
proof -
  have "object_value v = Inr xs \<longleftrightarrow> v = JObj xs" for v by (cases v) auto
  then show ?thesis by (auto simp: object_or_empty_def split: option.splits)
qed

lemma object_items_one:
  "object_items v = Inr [c] \<longleftrightarrow> v = JArr [JObj c]"
proof -
  have "object_value v = Inr xs \<longleftrightarrow> v = JObj xs" for v xs by (cases v) auto
  then show ?thesis by (cases v) (auto simp: mapR_Inr_iff list_all2_Cons2)
qed

text \<open>The value an action puts at its path.\<close>

definition planned_value :: "action \<Rightarrow> string \<Rightarrow> (string \<Rightarrow> string option) \<Rightarrow> json \<Rightarrow> bool" where
  "planned_value a key revisions v \<longleftrightarrow>
     (case a of ScaleAction _ n \<Rightarrow> v = JInt n
              | RollbackAction _ r \<Rightarrow> \<exists>name. is_image_name name \<and> revisions r = Some (name @ ''@sha256:'' @ r)
                                        \<and> v = JStr (name @ ''@sha256:'' @ r)
              | _ \<Rightarrow> v = JStr key)"

lemma rollback_image_Inr:
  assumes "rollback_image r revisions = Inr img"
  obtains name where "is_image_name name" "revisions r = Some img" "img = name @ ''@sha256:'' @ r"
  using assms by (auto simp: rollback_image_def Let_def split: option.splits)

lemma sandbox_container_Inr: "sandbox_container cs = Inr c \<Longrightarrow> cs = [c]"
  by (cases cs) (auto simp: sandbox_container_def split: if_splits)

lemma planned_template_frame:
  assumes "planned_template a t key revisions = Inr t'" and "\<And>b n. a \<noteq> ScaleAction b n"
  shows "only_at (tl (changed_path a)) (JObj t) (JObj t')
         \<and> (\<exists>v. value_at (tl (changed_path a)) (JObj t') = Some v \<and> planned_value a key revisions v)"
proof (cases a)
  case (RollbackAction b r)
  from assms(1) obtain spec c img where *: "get_field t ''spec'' = Some (JObj spec)"
      "get_field spec ''containers'' = Some (JArr [JObj c])" "rollback_image r revisions = Inr img"
      "t' = set_field t ''spec'' (JObj (set_field spec ''containers''
              (JArr [JObj (set_field c ''image'' (JStr img))])))"
    unfolding planned_template_def RollbackAction
    by (auto simp: object_at_iff item_of_def object_items_one dest!: sandbox_container_Inr)
  from *(3) obtain name where "is_image_name name" "revisions r = Some img" "img = name @ ''@sha256:'' @ r"
    by (rule rollback_image_Inr)
  with * show ?thesis
    by (auto simp: RollbackAction planned_value_def only_at_set_field simp del: only_at.simps(2) split: option.splits)
next
  case (RestartAction b)
  with assms(1) show ?thesis
    by (auto simp: planned_template_def object_at_iff object_or_empty_iff planned_value_def
        only_at_set_field only_at_new simp del: only_at.simps(2) split: option.splits)
next
  case (PauseAction b)
  with assms(1) show ?thesis
    by (auto simp: planned_template_def object_at_iff object_or_empty_iff planned_value_def
        only_at_set_field only_at_new simp del: only_at.simps(2) split: option.splits)
qed (use assms(2) in simp)

lemma plan_frame:
  assumes "planned_spec a before key revisions = Inr after"
  shows "only_at (changed_path a) (JObj before) (JObj after)
         \<and> (\<exists>v. value_at (changed_path a) (JObj after) = Some v \<and> planned_value a key revisions v)"
proof (cases "\<exists>b n. a = ScaleAction b n")
  case True
  then obtain b n where "a = ScaleAction b n" by blast
  with assms show ?thesis
    by (auto simp: planned_spec_def planned_value_def split: option.splits)
next
  case False
  then have tl: "changed_path a = Key ''template'' # tl (changed_path a)" by (cases a) auto
  from False assms obtain t t' where "get_field before ''template'' = Some (JObj t)"
      "planned_template a t key revisions = Inr t'" "after = set_field before ''template'' (JObj t')"
    by (cases a) (auto simp: planned_spec_def object_at_iff)
  with planned_template_frame [of a t key revisions t'] False show ?thesis
    by (subst (1 2) tl) (auto simp: only_at_set_field simp del: only_at.simps(2))
qed

lemma plan_deployment_Inr:
  assumes "plan_deployment a current key inventory revisions = Inr p"
  shows "valid_action a" "act_namespace a = ''payops-sandbox''" "act_service a \<in> set SERVICES"
    "inventory (act_service a) = Some (act_uid a)" "act_mode a = Local_kind" "\<not> is_pause a"
    "key = action_digest a" "dp_action p = a" "deployment_spec a current = Inr (dp_before p)"
    "planned_spec a (dp_before p) key revisions = Inr (dp_after p)"
  using assms by (auto simp: plan_deployment_def validate_target_def validate_action_json)

section \<open>One write per execution\<close>

definition no_write :: "exec_world \<Rightarrow> exec_world \<Rightarrow> bool" where
  "no_write w w' \<longleftrightarrow> x_writes w' = x_writes w \<and> x_tick w \<le> x_tick w'"

lemma no_write_rules [intro!]:
  "keeps no_write (ex_read ex args)" "keeps no_write (ex_time ex)" "keeps no_write (liftR r)"
  "keeps no_write (checkP b e)" "keeps no_write (returnP x)"
  by (simp_all add: keeps_def no_write_def ex_read_def ex_time_def)

lemma no_write_bindP [intro!]:
  "keeps no_write m \<Longrightarrow> (\<And>x. keeps no_write (f x)) \<Longrightarrow> keeps no_write (bindP m f)"
  by (rule keeps_bindP) (auto simp: no_write_def)

lemma no_write_namespace [intro!]: "keeps no_write (check_namespace ex)"
  unfolding check_namespace_def by auto

lemma no_write_read [intro!]: "keeps no_write (read_deployment ex service)"
  unfolding read_deployment_def by auto

lemma no_write_poll_again: "keeps no_write (poll_again ex service deadline)"
  unfolding poll_again_def by auto

lemma poll_again_tick:
  assumes "poll_again ex service deadline w = (x, w')"
  shows "x_tick w < x_tick w'"
proof -
  let ?w1 = "w\<lparr>x_tick := Suc (x_tick w)\<rparr>" and ?now = "ex_clock ex (x_tick w)"
  have rest: "keeps no_write (if deadline \<le> ?now then returnP None
     else bindP (ex_time ex) (\<lambda>_. bindP (check_namespace ex) (\<lambda>_.
          bindP (read_deployment ex service) (\<lambda>current. returnP (Some current)))))"
    by auto
  from assms have "(if deadline \<le> ?now then returnP None
     else bindP (ex_time ex) (\<lambda>_. bindP (check_namespace ex) (\<lambda>_.
          bindP (read_deployment ex service) (\<lambda>current. returnP (Some current))))) ?w1 = (x, w')"
    by (simp add: poll_again_def bindP_def ex_time_def)
  from keepsD [OF rest this] show ?thesis by (simp add: no_write_def)
qed

text \<open>What the executor was told, by the number of the call. The namespace of the sandbox has the configured
  identity in the answer of call \<open>n\<close>.\<close>

definition namespace_confirmed :: "executor \<Rightarrow> nat \<Rightarrow> bool" where
  "namespace_confirmed ex n \<longleftrightarrow>
     (\<exists>current metadata. ex_kubectl ex n [''get'', ''namespace'', ''payops-sandbox''] = Inr current
        \<and> object_at current ''metadata'' = Inr metadata
        \<and> get_field metadata ''uid'' = Some (JStr (ex_namespace_uid ex))
        \<and> get_field metadata ''name'' = Some (JStr ''payops-sandbox'')
        \<and> is_none (get_field metadata ''deletionTimestamp''))"

text \<open>The last state of the deployment that the executor was told before call \<open>t\<close>, when its patch was call
  \<open>k\<close>: the answer to the patch itself, or the answer of call \<open>t - 1\<close> to a read of the deployment after the
  patch, with the namespace confirmed just before it.\<close>

definition last_told :: "executor \<Rightarrow> deployment_plan \<Rightarrow> nat \<Rightarrow> nat \<Rightarrow> json_object \<Rightarrow> bool" where
  "last_told ex p k t current \<longleftrightarrow>
     t = k + 2 \<and> ex_kubectl ex k (patch_args p) = Inr current
     \<or> (\<exists>m. t = Suc (Suc m) \<and> k + 1 < m \<and> namespace_confirmed ex m
          \<and> ex_kubectl ex (Suc m) [''get'', ''deployment'', act_service (dp_action p)] = Inr current)"

text \<open>What a receipt means: it names the action's resource and version and, as the resulting version, that
  of the last state the executor was told. It says \<open>SUCCEEDED\<close> only if that state is completely rolled out and
  the clock reading after it is within the time allowed since the patch, and otherwise that time is over.\<close>

definition good_receipt :: "executor \<Rightarrow> deployment_plan \<Rightarrow> nat \<Rightarrow> nat \<Rightarrow> effect_receipt \<Rightarrow> bool" where
  "good_receipt ex p k hi res \<longleftrightarrow>
     valid_receipt res \<and> er_uid res = act_uid (dp_action p) \<and> er_previous res = act_version (dp_action p)
     \<and> (\<exists>t current metadata version. last_told ex p k t current \<and> hi = Suc t
          \<and> object_at current ''metadata'' = Inr metadata
          \<and> get_field metadata ''resourceVersion'' = Some version \<and> er_resulting res = Some (str_of version)
          \<and> (if er_outcome res = SUCCEEDED
              then rollout_ready p current = Inr True \<and> ex_clock ex t \<le> ex_clock ex (k + 1) + ex_seconds ex
              else ex_clock ex (k + 1) + ex_seconds ex \<le> ex_clock ex t))"

lemma ex_receipt_Inr:
  assumes "ex_receipt a current ready = Inr res"
  obtains metadata version where "valid_receipt res" "er_uid res = act_uid a" "er_previous res = act_version a"
    "er_outcome res = (if ready then SUCCEEDED else FAILED)" "object_at current ''metadata'' = Inr metadata"
    "get_field metadata ''resourceVersion'' = Some version" "er_resulting res = Some (str_of version)"
  using assms by (auto simp: ex_receipt_def Let_def item_of_def of_option_def split: option.splits)

lemma receipt_good:
  assumes "ex_receipt (dp_action p) current ready = Inr res" and "last_told ex p k t current"
    and "if ready then rollout_ready p current = Inr True \<and> ex_clock ex t \<le> ex_clock ex (k + 1) + ex_seconds ex
         else ex_clock ex (k + 1) + ex_seconds ex \<le> ex_clock ex t"
  shows "good_receipt ex p k (Suc t) res"
  using assms(1)
proof (rule ex_receipt_Inr)
  fix metadata version
  assume "valid_receipt res" "er_uid res = act_uid (dp_action p)" "er_previous res = act_version (dp_action p)"
    "er_outcome res = (if ready then SUCCEEDED else FAILED)" "object_at current ''metadata'' = Inr metadata"
    "get_field metadata ''resourceVersion'' = Some version" "er_resulting res = Some (str_of version)"
  with assms(2,3) show ?thesis
    unfolding good_receipt_def
    by (intro conjI exI [of _ t] exI [of _ current] exI [of _ metadata] exI [of _ version])
       (auto split: if_splits)
qed

lemma check_namespace_Inr:
  "check_namespace ex w = (Inr u, w') \<Longrightarrow> namespace_confirmed ex (x_tick w) \<and> x_tick w' = Suc (x_tick w)"
  by (auto simp: check_namespace_def bindP_Inr_iff ex_read_def namespace_confirmed_def)

lemma read_deployment_Inr:
  "read_deployment ex service w = (Inr current, w')
     \<Longrightarrow> ex_kubectl ex (x_tick w) [''get'', ''deployment'', service] = Inr current \<and> x_tick w' = Suc (x_tick w)"
  by (auto simp: read_deployment_def bindP_Inr_iff ex_read_def)

lemma poll_again_Inr:
  assumes "poll_again ex service deadline w = (Inr z, w')"
  shows "case z of
      None \<Rightarrow> deadline \<le> ex_clock ex (x_tick w) \<and> x_tick w' = Suc (x_tick w)
    | Some current \<Rightarrow> \<exists>m. x_tick w' = Suc (Suc m) \<and> x_tick w < m \<and> namespace_confirmed ex m
        \<and> ex_kubectl ex (Suc m) [''get'', ''deployment'', service] = Inr current"
proof (cases "deadline \<le> ex_clock ex (x_tick w)")
  case True
  with assms show ?thesis by (auto simp: poll_again_def bindP_Inr_iff ex_time_def)
next
  case False
  with assms obtain current w1 where z: "z = Some current"
    and n: "check_namespace ex (w\<lparr>x_tick := Suc (Suc (x_tick w))\<rparr>) = (Inr (), w1)"
    and r: "read_deployment ex service w1 = (Inr current, w')"
    by (auto simp: poll_again_def bindP_Inr_iff ex_time_def)
  from check_namespace_Inr [OF n] read_deployment_Inr [OF r] z show ?thesis by simp
qed

lemma poll_result:
  assumes "poll ex p deadline current w = Some (x, w')"
  shows "x_writes w' = x_writes w
    \<and> (\<forall>k res. deadline = ex_clock ex (k + 1) + ex_seconds ex \<and> last_told ex p k (x_tick w) current \<and> x = Inr res
         \<longrightarrow> good_receipt ex p k (x_tick w') res)"
proof -
  define Q where "Q = (\<lambda>(ex :: executor) p (deadline :: rat) (current :: json_object) (w :: exec_world) (y :: (exn + effect_receipt) \<times> exec_world).
      x_writes (snd y) = x_writes w
      \<and> (\<forall>k res. deadline = ex_clock ex (k + 1) + ex_seconds ex \<and> last_told ex p k (x_tick w) current \<and> fst y = Inr res
           \<longrightarrow> good_receipt ex p k (x_tick (snd y)) res))"
  have "Q ex p deadline current w (x, w')"
  proof (induction rule: poll.raw_induct [OF _ assms, of Q])
    case (1 loop ex p deadline current w y)
    note IH = 1(1) [unfolded Q_def] and body = 1(2)
    show ?case
    proof (cases "rollout_ready p current")
      case (Inl e)
      with body show ?thesis by (auto simp: Q_def)
    next
      case (Inr ready)
      show ?thesis
      proof (cases ready)
        case True
        with body Inr have "y = (ex_receipt (dp_action p) current (ex_clock ex (x_tick w) \<le> deadline),
            w\<lparr>x_tick := Suc (x_tick w)\<rparr>)"
          by (simp add: ex_time_def)
        with Inr True show ?thesis
          unfolding Q_def by (auto intro!: receipt_good split: if_splits)
      next
        case False
        obtain z w1 where z: "poll_again ex (act_service (dp_action p)) deadline w = (z, w1)" by fastforce
        from keepsD [OF no_write_poll_again z] have nw: "x_writes w1 = x_writes w" by (simp add: no_write_def)
        consider (failed) e where "z = Inl e" | (over) "z = Inr None" | (more) c where "z = Inr (Some c)"
          by (metis option.exhaust sum.exhaust)
        then show ?thesis
        proof cases
          case failed
          with body Inr False z nw show ?thesis by (auto simp: Q_def)
        next
          case over
          with body Inr False z have "y = (ex_receipt (dp_action p) current False, w1)" by simp
          moreover from poll_again_Inr [OF z [unfolded over]]
          have "deadline \<le> ex_clock ex (x_tick w)" "x_tick w1 = Suc (x_tick w)" by simp_all
          ultimately show ?thesis using nw unfolding Q_def by (auto intro!: receipt_good)
        next
          case more
          with body Inr False z have "loop ex p deadline c w1 = Some y" by simp
          from IH [OF this] have q: "x_writes (snd y) = x_writes w1"
            "\<And>k res. deadline = ex_clock ex (k + 1) + ex_seconds ex \<Longrightarrow> last_told ex p k (x_tick w1) c
               \<Longrightarrow> fst y = Inr res \<Longrightarrow> good_receipt ex p k (x_tick (snd y)) res" by blast+
          from poll_again_Inr [OF z [unfolded more]] obtain m where
              m: "x_tick w1 = Suc (Suc m)" "x_tick w < m" "namespace_confirmed ex m"
                "ex_kubectl ex (Suc m) [''get'', ''deployment'', act_service (dp_action p)] = Inr c" by auto
          have "last_told ex p k (x_tick w1) c" if "last_told ex p k (x_tick w) current" for k
            unfolding last_told_def using that m by (auto simp: last_told_def)
          with q nw show ?thesis unfolding Q_def by auto
        qed
      qed
    qed
  qed
  then show ?thesis by (simp add: Q_def)
qed

lemma poll_returns:
  assumes "\<forall>m\<ge>n. deadline \<le> ex_clock ex m"
  shows "\<exists>y. poll ex p deadline current w = Some y"
proof (induction "n - x_tick w" arbitrary: current w rule: less_induct)
  case less
  obtain z w1 where z: "poll_again ex (act_service (dp_action p)) deadline w = (z, w1)" by fastforce
  note tick = poll_again_tick [OF z]
  show ?case
  proof (cases "x_tick w < n")
    case True
    with tick have "n - x_tick w1 < n - x_tick w" by linarith
    with less have "\<exists>y. poll ex p deadline c w1 = Some y" for c by blast
    with z show ?thesis
      by (subst poll.simps) (auto simp: ex_time_def split: sum.splits option.splits)
  next
    case False
    with assms have "deadline \<le> ex_clock ex (x_tick w)" by simp
    then have "z = Inr None" using z by (simp add: poll_again_def bindP_def ex_time_def)
    with z show ?thesis
      by (subst poll.simps) (auto simp: ex_time_def split: sum.splits)
  qed
qed

lemma start_execute_cases:
  assumes "start_execute ex a key w = (x, w')"
  obtains (stopped) e where "x = Inl e" "x_writes w' = x_writes w"
  | (written) p current where "namespace_confirmed ex (x_tick w)"
      "ex_kubectl ex (x_tick w + 1) [''get'', ''deployment'', act_service a] = Inr current"
      "plan_deployment a current key (map_of (ex_inventory ex))
         (map_of (service_revisions ex (act_service a))) = Inr p"
      "x_writes w' = x_writes w @ [patch_args p]"
      "\<And>p' d pd. x = Inr (p', pd, d) \<Longrightarrow> p' = p \<and> ex_kubectl ex (x_tick w + 2) (patch_args p) = Inr pd
         \<and> d = ex_clock ex (x_tick w + 3) + ex_seconds ex \<and> x_tick w' = x_tick w + 4"
proof -
  let ?read = "bindP (liftR (validate_target a (map_of (ex_inventory ex)))) (\<lambda>_.
     bindP (check_namespace ex) (\<lambda>_. read_deployment ex (act_service a)))"
  obtain y w1 where y: "?read w = (y, w1)" by fastforce
  have "keeps no_write ?read" by auto
  from keepsD [OF this y] have nw: "x_writes w1 = x_writes w" by (simp add: no_write_def)
  have run: "start_execute ex a key w = bindP ?read (\<lambda>current.
     bindP (liftR (plan_deployment a current key (map_of (ex_inventory ex))
                     (map_of (service_revisions ex (act_service a))))) (\<lambda>p.
     bindP (ex_write ex (patch_args p)) (\<lambda>patched.
     bindP (ex_time ex) (\<lambda>now. returnP (p, patched, now + ex_seconds ex))))) w"
    by (auto simp: start_execute_def bindP_def split: prod.splits sum.splits)
  show thesis
  proof (cases y)
    case (Inl e)
    with run y assms nw show thesis by (intro stopped) (auto simp: bindP_def)
  next
    case (Inr current)
    with y obtain w0 where c: "check_namespace ex w = (Inr (), w0)"
        "read_deployment ex (act_service a) w0 = (Inr current, w1)"
      by (auto simp: bindP_Inr_iff)
    note told = check_namespace_Inr [OF c(1)] read_deployment_Inr [OF c(2)]
    show thesis
    proof (cases "plan_deployment a current key (map_of (ex_inventory ex))
                     (map_of (service_revisions ex (act_service a)))")
      case (Inl e)
      with run y Inr assms nw show thesis by (intro stopped) (auto simp: bindP_def)
    next
      case p: (Inr p)
      from run y Inr p assms have tail: "bindP (ex_write ex (patch_args p)) (\<lambda>patched.
           bindP (ex_time ex) (\<lambda>now. returnP (p, patched, now + ex_seconds ex))) w1 = (x, w')"
        by (simp add: bindP_def)
      have tick: "x_tick w1 = x_tick w + 2" using told by simp
      show thesis
      proof (rule written [OF _ _ p])
        show "namespace_confirmed ex (x_tick w)"
          "ex_kubectl ex (x_tick w + 1) [''get'', ''deployment'', act_service a] = Inr current"
          using told by simp_all
        show "x_writes w' = x_writes w @ [patch_args p]"
          using tail nw by (auto simp: bindP_def ex_write_def ex_time_def split: sum.splits)
        show "p' = p \<and> ex_kubectl ex (x_tick w + 2) (patch_args p) = Inr pd
           \<and> d = ex_clock ex (x_tick w + 3) + ex_seconds ex \<and> x_tick w' = x_tick w + 4"
          if "x = Inr (p', pd, d)" for p' d pd
          using tail that tick by (auto simp: bindP_Inr_iff ex_write_def ex_time_def numeral_eq_Suc)
      qed
    qed
  qed
qed

text \<open>What an execution that starts at call \<open>n\<close> and ends before call \<open>hi\<close> has done.\<close>

definition executor_outcome ::
  "executor \<Rightarrow> action \<Rightarrow> string \<Rightarrow> exec_world \<Rightarrow> exec_world \<Rightarrow> exn + effect_receipt \<Rightarrow> bool" where
  "executor_outcome ex a key w w' x \<longleftrightarrow>
     x_writes w' = x_writes w \<and> (\<exists>e. x = Inl e)
     \<or> (\<exists>p current. namespace_confirmed ex (x_tick w)
          \<and> ex_kubectl ex (x_tick w + 1) [''get'', ''deployment'', act_service a] = Inr current
          \<and> plan_deployment a current key (map_of (ex_inventory ex))
              (map_of (service_revisions ex (act_service a))) = Inr p
          \<and> x_writes w' = x_writes w @ [patch_args p]
          \<and> (case x of Inl _ \<Rightarrow> True | Inr res \<Rightarrow> good_receipt ex p (x_tick w + 2) (x_tick w') res))"

lemma ex_execute_outcome:
  assumes "ex_execute ex a key w = Some (x, w')"
  shows "executor_outcome ex a key w w' x"
proof -
  obtain y w1 where y: "start_execute ex a key w = (y, w1)" by fastforce
  from y show ?thesis
  proof (cases rule: start_execute_cases)
    case (stopped e)
    with y assms show ?thesis by (auto simp: ex_execute_def executor_outcome_def)
  next
    case (written p current)
    show ?thesis
    proof (cases y)
      case (Inl e)
      with y assms have "x = Inl e" "w' = w1" by (auto simp: ex_execute_def)
      with written(1-4) show ?thesis unfolding executor_outcome_def by fastforce
    next
      case (Inr z)
      obtain p' pd d where z: "z = (p', pd, d)" by (cases z)
      note start = written(5) [OF Inr [unfolded z]]
      with Inr z y assms have "poll ex p d pd w1 = Some (x, w')" by (simp add: ex_execute_def)
      note result = poll_result [OF this]
      have "last_told ex p (x_tick w + 2) (x_tick w1) pd" "d = ex_clock ex (x_tick w + 2 + 1) + ex_seconds ex"
        using start by (simp_all add: last_told_def numeral_eq_Suc)
      with result have "case x of Inl _ \<Rightarrow> True | Inr res \<Rightarrow> good_receipt ex p (x_tick w + 2) (x_tick w') res"
        by (cases x) auto
      with result written(1-4) show ?thesis unfolding executor_outcome_def by metis
    qed
  qed
qed

lemma ex_execute_returns:
  assumes "\<forall>d. \<exists>n. \<forall>m\<ge>n. d \<le> ex_clock ex m"
  shows "\<exists>y. ex_execute ex a key w = Some y"
proof -
  have "\<exists>y. poll ex p d pd w1 = Some y" for p d pd w1
    using assms poll_returns by blast
  then show ?thesis by (auto simp: ex_execute_def split: prod.splits sum.splits)
qed

section \<open>Sample values\<close>

definition sample_scale :: action where
  "sample_scale =
     ScaleAction \<lparr>ab_incident = ''inc-1'', ab_namespace = ''payops-sandbox'',
       ab_service = ''payments-api'', ab_uid = ''uid-1'', ab_version = ''v1'',
       ab_evidence = [''ev-1''], ab_mode = Local_kind\<rparr> 2"

definition sample_deployment :: "string \<Rightarrow> int \<Rightarrow> json_object" where
  "sample_deployment version n =
     [(''kind'', JStr ''Deployment''), (''apiVersion'', JStr ''apps/v1''),
      (''metadata'', JObj [(''namespace'', JStr ''payops-sandbox''), (''name'', JStr ''payments-api''),
         (''uid'', JStr ''uid-1''), (''resourceVersion'', JStr version), (''generation'', JInt n),
         (''labels'', JObj [(''app.kubernetes.io/part-of'', JStr ''payops'')])]),
      (''spec'', JObj [(''replicas'', JInt n), (''paused'', JBool False)]),
      (''status'', JObj [(''observedGeneration'', JInt n), (''replicas'', JInt n),
         (''updatedReplicas'', JInt n), (''readyReplicas'', JInt n), (''availableReplicas'', JInt n)])]"

definition sample_executor :: executor where
  "sample_executor =
     \<lparr>ex_kubectl = (\<lambda>n args. if n = 0
        then Inr [(''metadata'', JObj [(''uid'', JStr ''ns-1''), (''name'', JStr ''payops-sandbox'')])]
        else if n = 1 then Inr (sample_deployment ''v1'' 1) else Inr (sample_deployment ''v2'' 2)),
      ex_clock = (\<lambda>n. of_nat n), ex_utc_now = (\<lambda>_. 10), ex_namespace_uid = ''ns-1'',
      ex_inventory = [(''payments-api'', ''uid-1'')], ex_revisions = [], ex_seconds = 60\<rparr>"

lemma sample_scale_plan:
  "plan_deployment sample_scale (sample_deployment ''v1'' 1) (action_digest sample_scale)
     [''payments-api'' \<mapsto> ''uid-1''] revisions
   = Inr \<lparr>dp_action = sample_scale, dp_before = [(''replicas'', JInt 1), (''paused'', JBool False)],
          dp_after = [(''replicas'', JInt 2), (''paused'', JBool False)]\<rparr>"
proof -
  have "valid_action sample_scale" by code_simp
  then have v: "validate_action (action_json sample_scale) = Inr sample_scale"
    by (simp add: validate_action_json)
  have f: "act_mode sample_scale = Local_kind" "act_namespace sample_scale = ''payops-sandbox''"
      "act_service sample_scale = ''payments-api''" "act_uid sample_scale = ''uid-1''"
      "act_version sample_scale = ''v1''" "\<not> is_pause sample_scale"
      "planned_spec sample_scale b k r = Inr (set_field b ''replicas'' (JInt 2))" for b k r
    by (simp_all add: sample_scale_def planned_spec_def)
  show ?thesis
    by (simp add: plan_deployment_def validate_target_def v f deployment_spec_def object_at_def
        item_of_def object_or_empty_def is_none_def sample_deployment_def SERVICES_def)
qed

lemma sample_clock: "\<forall>d. \<exists>n. \<forall>m\<ge>n. d \<le> ex_clock sample_executor m"
proof
  fix d :: rat
  obtain n :: nat where "d \<le> of_nat n" using reals_Archimedean2 [of d] less_imp_le by blast
  then have "\<forall>m\<ge>n. d \<le> ex_clock sample_executor m"
    by (auto simp: sample_executor_def intro: order.trans)
  then show "\<exists>n. \<forall>m\<ge>n. d \<le> ex_clock sample_executor m" ..
qed

text \<open>The sample's patch is answered with the completed rollout, one second after it.\<close>

lemma sample_rollout:
  "\<exists>res w'. ex_execute sample_executor sample_scale (action_digest sample_scale) \<lparr>x_tick = 0, x_writes = []\<rparr>
       = Some (Inr res, w') \<and> er_outcome res = SUCCEEDED \<and> er_resulting res = Some ''v2''"
proof -
  let ?p = "\<lparr>dp_action = sample_scale, dp_before = [(''replicas'', JInt 1), (''paused'', JBool False)],
          dp_after = [(''replicas'', JInt 2), (''paused'', JBool False)]\<rparr>"
  have f: "act_service sample_scale = ''payments-api''" "act_uid sample_scale = ''uid-1''"
      "act_version sample_scale = ''v1''"
    by (simp_all add: sample_scale_def)
  have words: "is_identifier ''uid-1''" "is_identifier ''v1''" "is_identifier ''v2''" by code_simp+
  have target: "validate_target sample_scale [''payments-api'' \<mapsto> ''uid-1''] = Inr ()"
    using sample_scale_plan [of "\<lambda>_. None"] by (simp add: plan_deployment_def split: sum.splits) 
  have ready: "rollout_ready ?p (sample_deployment ''v2'' 2) = Inr True"
    by (simp add: rollout_ready_def object_at_def item_of_def object_or_empty_def is_none_def opt_eq_def
        sample_deployment_def settled_status_def replica_fields_def f)
  have receipt: "ex_receipt sample_scale (sample_deployment ''v2'' 2) True
      = Inr \<lparr>er_outcome = SUCCEEDED, er_uid = ''uid-1'', er_previous = ''v1'', er_resulting = Some ''v2''\<rparr>"
    by (simp add: ex_receipt_def object_at_def item_of_def sample_deployment_def str_of_def Let_def
        valid_receipt_def words f)
  have "start_execute sample_executor sample_scale (action_digest sample_scale) \<lparr>x_tick = 0, x_writes = []\<rparr>
      = (Inr (?p, sample_deployment ''v2'' 2, 63), \<lparr>x_tick = 4, x_writes = [patch_args ?p]\<rparr>)"
    by (simp add: start_execute_def bindP_def check_namespace_def read_deployment_def ex_read_def ex_write_def
        ex_time_def sample_executor_def f target object_at_def item_of_def is_none_def SERVICES_def
        service_revisions_def sample_scale_plan)
  then show ?thesis
    using ready receipt
    by (simp add: ex_execute_def) (subst poll.simps, simp add: ex_time_def sample_executor_def)
qed

section \<open>Properties\<close>

text \<open>A deployment plan exists only for a valid action on an inventoried sandbox service whose
  idempotency key is its digest and whose identity and version the current object shows, and the
  planned specification differs from the current one at exactly the field the action names, where it
  holds the approved replica count, the approved immutable image, or the action's digest.\<close>

theorem plan_changes_one_field:
  assumes "plan_deployment a current key inventory revisions = Inr p"
  shows "valid_action a \<and> key = action_digest a \<and> act_service a \<in> set SERVICES
    \<and> inventory (act_service a) = Some (act_uid a)
    \<and> deployment_spec a current = Inr (dp_before p)
    \<and> only_at (changed_path a) (JObj (dp_before p)) (JObj (dp_after p))
    \<and> (\<exists>v. value_at (changed_path a) (JObj (dp_after p)) = Some v \<and> planned_value a key revisions v)"
  using plan_deployment_Inr [OF assms] plan_frame by simp

theorem plan_changes_one_field_witness:
  "only_at [Key ''replicas''] (JObj [(''replicas'', JInt 1), (''paused'', JBool False)])
     (JObj [(''replicas'', JInt 2), (''paused'', JBool False)])"
  using plan_changes_one_field [OF sample_scale_plan [of "\<lambda>_. None"]] by (simp add: sample_scale_def)

text \<open>C28: An execution that returns has either failed without writing, or has issued exactly one
  write: the patch of a valid plan for the deployment that it was told just before, in a namespace confirmed
  before that. A returned receipt is well formed and names the action's resource and expected version. It rests on
  the last state that kubectl returned to this execution, which is the answer to its own patch or a later read of
  the same deployment after the namespace was confirmed again: the resulting version is the one of that state;
  success means that this state is a completed rollout of the planned specification and that the clock reading
  after it is within the time allowed since the patch; failure means that this time is over.\<close>

theorem executor_writes_once:
  assumes "ex_execute ex a key w = Some (x, w')"
  shows "executor_outcome ex a key w w' x"
  by (rule ex_execute_outcome [OF assms])

theorem executor_writes_once_witness:
  "\<exists>res w'. ex_execute sample_executor sample_scale (action_digest sample_scale) \<lparr>x_tick = 0, x_writes = []\<rparr>
       = Some (Inr res, w')
     \<and> er_outcome res = SUCCEEDED \<and> er_resulting res = Some ''v2''
     \<and> executor_outcome sample_executor sample_scale (action_digest sample_scale)
         \<lparr>x_tick = 0, x_writes = []\<rparr> w' (Inr res)"
  using sample_rollout executor_writes_once by blast

text \<open>C29: The readiness loop ends: if the monotonic clock eventually passes every bound, every
  execution returns.\<close>

theorem executor_terminates:
  assumes "\<forall>d. \<exists>n. \<forall>m\<ge>n. d \<le> ex_clock ex m"
  shows "\<exists>y. ex_execute ex a key w = Some y"
  by (rule ex_execute_returns [OF assms])

theorem executor_terminates_witness:
  "\<exists>y. ex_execute sample_executor sample_scale (action_digest sample_scale) \<lparr>x_tick = 0, x_writes = []\<rparr> = Some y"
  by (rule executor_terminates [OF sample_clock])

end
