(* ===== verification/Reasoning.thy ===== *)
theory Reasoning
  imports Policy
begin

text \<open>
  Structured model decisions and provider usage: \<^verbatim>\<open>src/payops/orchestrator/reasoning.py\<close>.

  The JSON grammar is the parameter \<open>loads\<close> of \<open>parse_decision\<close>: it turns text into a value whose
  objects still list repeated keys, and \<open>unique_keys\<close>, the code's object hook, rejects those at every
  level. From the value on, the schema of the decision is modelled field by field.

  Main facts: an accepted decision cites only submitted evidence and known causes, without repeats or
  contradictions (\<open>parse_decision_Inr\<close>); and what a provider reports as usage can never cost more
  than what was reserved for the call (\<open>usage_within_reservation\<close>).
\<close>

section \<open>Decisions\<close>

datatype tool_name =
  Workload_status | Pod_events | Recent_logs | Payment_snapshot | Runbook_search | Incident_search

fun tool_text :: "tool_name \<Rightarrow> string" where
  "tool_text Workload_status = ''workload_status''"
| "tool_text Pod_events = ''pod_events''"
| "tool_text Recent_logs = ''recent_logs''"
| "tool_text Payment_snapshot = ''payment_snapshot''"
| "tool_text Runbook_search = ''runbook_search''"
| "tool_text Incident_search = ''incident_search''"

definition TOOLS :: "tool_name list" where
  "TOOLS = [Workload_status, Pod_events, Recent_logs, Payment_snapshot, Runbook_search, Incident_search]"

record read_request =
  rr_tool :: tool_name
  rr_service :: string
  rr_query :: "string option"

record ranked_cause =
  ra_cause :: string
  ra_confidence :: rat
  ra_supports :: "string list"
  ra_refutes :: "string list"
  ra_missing :: "string list"

datatype verdict = Read_more | Finish | Refuse

record reasoning_decision =
  rd_decision :: verdict
  rd_summary :: string
  rd_reads :: "read_request list"
  rd_hypotheses :: "ranked_cause list"

definition is_brief :: "string \<Rightarrow> bool" where
  "is_brief s \<longleftrightarrow> 1 \<le> length s \<and> length s \<le> 600"

definition valid_read_request :: "read_request \<Rightarrow> bool" where
  "valid_read_request r \<longleftrightarrow>
     rr_service r \<in> set SERVICE_NAMES
     \<and> pred_option (\<lambda>q. 1 \<le> length q \<and> length q \<le> 240) (rr_query r)
     \<and> (rr_tool r \<in> {Runbook_search, Incident_search}) = (rr_query r \<noteq> None)"

definition valid_ranked_cause :: "ranked_cause \<Rightarrow> bool" where
  "valid_ranked_cause c \<longleftrightarrow>
     is_identifier (ra_cause c) \<and> 0 \<le> ra_confidence c \<and> ra_confidence c \<le> 1
     \<and> list_all is_identifier (ra_supports c) \<and> 1 \<le> length (ra_supports c) \<and> length (ra_supports c) \<le> 8
     \<and> list_all is_identifier (ra_refutes c) \<and> length (ra_refutes c) \<le> 8
     \<and> list_all is_brief (ra_missing c) \<and> length (ra_missing c) \<le> 4"

definition coherent :: "reasoning_decision \<Rightarrow> exn + reasoning_decision" where
  "coherent d =
     bindR (check ((rd_decision d = Read_more) = (rd_reads d \<noteq> []))
              (ValueError ''read decision must contain a bounded read request'')) (\<lambda>_.
     bindR (check (\<not> (rd_decision d \<noteq> Finish \<and> rd_hypotheses d \<noteq> []))
              (ValueError ''only a finish decision may publish hypotheses'')) (\<lambda>_.
     bindR (check (no_duplicates (rd_reads d)) (ValueError ''duplicate read requests'')) (\<lambda>_.
     bindR (check (no_duplicates (map ra_cause (rd_hypotheses d)))
              (ValueError ''duplicate ranked causes'')) (\<lambda>_.
     Inr d))))"

definition valid_decision_fields :: "reasoning_decision \<Rightarrow> bool" where
  "valid_decision_fields d \<longleftrightarrow>
     is_brief (rd_summary d) \<and> length (rd_reads d) \<le> 2 \<and> list_all valid_read_request (rd_reads d)
     \<and> length (rd_hypotheses d) \<le> 3 \<and> list_all valid_ranked_cause (rd_hypotheses d)"

definition validate_decision :: "reasoning_decision \<Rightarrow> exn + reasoning_decision" where
  "validate_decision d = bindR (check (valid_decision_fields d) invalid) (\<lambda>_. coherent d)"

section \<open>Reading a decision\<close>

text \<open>\<^verbatim>\<open>unique_keys\<close>, called by the parser on the items of every object.\<close>

fun unique_keys :: "json_object \<Rightarrow> json_object \<Rightarrow> exn + json_object" where
  "unique_keys result [] = Inr result"
| "unique_keys result ((k, v) # pairs) =
     (if k \<in> set (keys result) then Inl (ValueError ''duplicate model output key'')
      else unique_keys (result @ [(k, v)]) pairs)"

definition read_fields :: "json \<Rightarrow> string list \<Rightarrow> exn + json_object" where
  "read_fields v allowed =
     (case v of
        JObj kvs \<Rightarrow>
          bindR (unique_keys [] kvs) (\<lambda>fields.
          bindR (check (set (keys fields) = set allowed) invalid) (\<lambda>_. Inr fields))
      | _ \<Rightarrow> Inl invalid)"

definition field_list :: "json_object \<Rightarrow> string \<Rightarrow> exn + json list" where
  "field_list kvs k = (case get_field kvs k of Some (JArr xs) \<Rightarrow> Inr xs | _ \<Rightarrow> Inl invalid)"

definition tool_of_text :: "string \<Rightarrow> tool_name option" where
  "tool_of_text s = find (\<lambda>t. tool_text t = s) TOOLS"

definition read_read_request :: "json \<Rightarrow> exn + read_request" where
  "read_read_request v =
     bindR (read_fields v [''tool'', ''service'', ''query'']) (\<lambda>f.
     bindR (bindR (str_field f ''tool'') (\<lambda>s. of_option invalid (tool_of_text s))) (\<lambda>tool.
     bindR (str_field f ''service'') (\<lambda>service.
     bindR (case get_field f ''query'' of
              Some JNull \<Rightarrow> Inr None | Some (JStr q) \<Rightarrow> Inr (Some q) | _ \<Rightarrow> Inl invalid) (\<lambda>query.
     Inr \<lparr>rr_tool = tool, rr_service = service, rr_query = query\<rparr>))))"

definition read_number :: "json_object \<Rightarrow> string \<Rightarrow> exn + rat" where
  "read_number kvs k =
     (case get_field kvs k of
        Some (JInt i) \<Rightarrow> Inr (of_int i) | Some (JFloat s) \<Rightarrow> Inr (float_value s) | _ \<Rightarrow> Inl invalid)"

definition read_ranked_cause :: "json \<Rightarrow> exn + ranked_cause" where
  "read_ranked_cause v =
     bindR (read_fields v [''cause_code'', ''confidence'', ''supporting_evidence_ids'',
              ''refuting_evidence_ids'', ''missing_evidence'']) (\<lambda>f.
     bindR (str_field f ''cause_code'') (\<lambda>cause.
     bindR (read_number f ''confidence'') (\<lambda>confidence.
     bindR (str_list_field f ''supporting_evidence_ids'') (\<lambda>supports.
     bindR (str_list_field f ''refuting_evidence_ids'') (\<lambda>refutes.
     bindR (str_list_field f ''missing_evidence'') (\<lambda>missing.
     Inr \<lparr>ra_cause = cause, ra_confidence = confidence, ra_supports = supports, ra_refutes = refutes,
          ra_missing = missing\<rparr>))))))"

definition verdict_of_text :: "string \<Rightarrow> verdict option" where
  "verdict_of_text s =
     (if s = ''read'' then Some Read_more else if s = ''finish'' then Some Finish
      else if s = ''refuse'' then Some Refuse else None)"

definition read_decision :: "json \<Rightarrow> exn + reasoning_decision" where
  "read_decision v =
     bindR (read_fields v [''decision'', ''summary'', ''reads'', ''hypotheses'']) (\<lambda>f.
     bindR (bindR (str_field f ''decision'') (\<lambda>s. of_option invalid (verdict_of_text s))) (\<lambda>verdict.
     bindR (str_field f ''summary'') (\<lambda>summary.
     bindR (bindR (field_list f ''reads'') (mapR read_read_request)) (\<lambda>reads.
     bindR (bindR (field_list f ''hypotheses'') (mapR read_ranked_cause)) (\<lambda>causes.
     validate_decision \<lparr>rd_decision = verdict, rd_summary = summary, rd_reads = reads,
                        rd_hypotheses = causes\<rparr>)))))"

definition check_citations :: "string set \<Rightarrow> string set \<Rightarrow> ranked_cause \<Rightarrow> exn + unit" where
  "check_citations evidence_ids cause_codes c =
     (let supports = set (ra_supports c); refutes = set (ra_refutes c) in
      bindR (check (\<not> (ra_cause c \<notin> cause_codes \<or> \<not> supports \<union> refutes \<subseteq> evidence_ids))
               (ValueError ''model output contains an unresolved cause or citation'')) (\<lambda>_.
      check (\<not> (supports \<inter> refutes \<noteq> {} \<or> card supports \<noteq> length (ra_supports c)
                 \<or> card refutes \<noteq> length (ra_refutes c)))
        (ValueError ''model output contains conflicting or duplicate citations'')))"

definition parse_decision ::
  "(string \<Rightarrow> exn + json) \<Rightarrow> string \<Rightarrow> string set \<Rightarrow> string set \<Rightarrow> exn + reasoning_decision" where
  "parse_decision loads content evidence_ids cause_codes =
     bindR (check (length (utf8 content) \<le> 16384) (ValueError ''model output exceeds byte budget'')) (\<lambda>_.
     bindR (loads content) (\<lambda>v.
     bindR (read_decision v) (\<lambda>d.
     bindR (each (check_citations evidence_ids cause_codes) (rd_hypotheses d)) (\<lambda>_.
     Inr d))))"

text \<open>\<^verbatim>\<open>RootCauseHypothesis.model_validate(cause.model_dump())\<close>: the public contract strips the
  texts of missing evidence.\<close>

definition public_hypothesis :: "ranked_cause \<Rightarrow> exn + hypothesis" where
  "public_hypothesis c =
     (let h = \<lparr>hy_cause = ra_cause c, hy_confidence = ra_confidence c, hy_supports = ra_supports c,
               hy_refutes = ra_refutes c, hy_missing = map strip (ra_missing c)\<rparr>
      in bindR (check (valid_hypothesis h) invalid) (\<lambda>_. Inr h))"

definition hypotheses :: "reasoning_decision \<Rightarrow> exn + hypothesis list" where
  "hypotheses d =
     bindR (check (rd_decision d = Finish) (ValueError ''decision is not final'')) (\<lambda>_.
     mapR public_hypothesis (rd_hypotheses d))"

section \<open>Usage and price\<close>

record token_usage =
  us_input :: int
  us_output :: int
  us_total :: int
  us_cached :: int

record text_price =
  tp_input :: int
  tp_cached :: int
  tp_output :: int

definition is_count :: "int \<Rightarrow> bool" where
  "is_count n \<longleftrightarrow> 0 \<le> n \<and> n \<le> 10000000"

definition validate_usage :: "token_usage \<Rightarrow> exn + token_usage" where
  "validate_usage u =
     bindR (check (is_count (us_input u) \<and> is_count (us_output u) \<and> is_count (us_total u)
                   \<and> is_count (us_cached u)) invalid) (\<lambda>_.
     bindR (check (\<not> (us_input u + us_output u \<noteq> us_total u \<or> us_cached u > us_input u))
              (ValueError ''provider token counts disagree'')) (\<lambda>_.
     Inr u))"

definition valid_price :: "text_price \<Rightarrow> bool" where
  "valid_price p \<longleftrightarrow> is_count (tp_input p) \<and> is_count (tp_cached p) \<and> is_count (tp_output p)"

text \<open>A count: an integer in bounds; booleans are not integers for the strict validator.\<close>

definition read_count :: "json \<Rightarrow> exn + int" where
  "read_count v = (case v of JInt n \<Rightarrow> bindR (check (is_count n) invalid) (\<lambda>_. Inr n) | _ \<Rightarrow> Inl invalid)"

definition read_counts :: "json_object \<Rightarrow> string \<Rightarrow> exn + (string \<times> int) list" where
  "read_counts raw k =
     (case get_field raw k of
        None \<Rightarrow> Inr []
      | Some (JObj kvs) \<Rightarrow> mapR (\<lambda>(name, v). bindR (read_count v) (\<lambda>n. Inr (name, n))) kvs
      | _ \<Rightarrow> Inl invalid)"

definition USAGE_FIELDS :: "string list" where
  "USAGE_FIELDS = [''input_tokens'', ''output_tokens'', ''total_tokens'', ''input_token_details'',
     ''output_token_details'']"

definition required_item :: "json_object \<Rightarrow> string \<Rightarrow> exn + json" where
  "required_item raw k = of_option (KeyError k) (get_field raw k)"

definition count_or_zero :: "(string \<times> int) list \<Rightarrow> string \<Rightarrow> int" where
  "count_or_zero details k = (case map_of details k of None \<Rightarrow> 0 | Some n \<Rightarrow> n)"

definition provider_usage :: "json_object option \<Rightarrow> exn + token_usage option" where
  "provider_usage metadata =
     (case metadata of
        None \<Rightarrow> Inr None
      | Some raw \<Rightarrow>
          bindR (check (set (keys raw) \<subseteq> set USAGE_FIELDS)
                   (ValueError ''unsupported provider usage field'')) (\<lambda>_.
          bindR (read_counts raw ''input_token_details'') (\<lambda>details.
          bindR (read_counts raw ''output_token_details'') (\<lambda>output_details.
          bindR (check (\<not> (list_ex (\<lambda>(k, n). k \<noteq> ''cache_read'' \<and> n \<noteq> 0) details
                            \<or> list_ex (\<lambda>(k, n). k \<noteq> ''reasoning'' \<and> n \<noteq> 0) output_details))
                   (ValueError ''unsupported provider token category'')) (\<lambda>_.
          bindR (required_item raw ''input_tokens'') (\<lambda>i_value.
          bindR (required_item raw ''output_tokens'') (\<lambda>out_value.
          bindR (required_item raw ''total_tokens'') (\<lambda>t_value.
          bindR (read_count i_value) (\<lambda>i.
          bindR (read_count out_value) (\<lambda>out.
          bindR (read_count t_value) (\<lambda>t.
          bindR (validate_usage \<lparr>us_input = i, us_output = out, us_total = t,
                                 us_cached = count_or_zero details ''cache_read''\<rparr>) (\<lambda>usage.
          bindR (check (count_or_zero output_details ''reasoning'' \<le> us_output usage)
                   (ValueError ''provider reasoning token count exceeds total output'')) (\<lambda>_.
          Inr (Some usage))))))))))))))"

definition cost_nano_usd :: "text_price \<Rightarrow> token_usage option \<Rightarrow> int option" where
  "cost_nano_usd p usage =
     map_option (\<lambda>u. (us_input u - us_cached u) * tp_input p + us_cached u * tp_cached p
                      + us_output u * tp_output p) usage"

section \<open>What an accepted decision satisfies\<close>

definition cited_well :: "string set \<Rightarrow> string set \<Rightarrow> ranked_cause \<Rightarrow> bool" where
  "cited_well evidence_ids cause_codes c \<longleftrightarrow>
     ra_cause c \<in> cause_codes \<and> set (ra_supports c) \<union> set (ra_refutes c) \<subseteq> evidence_ids
     \<and> set (ra_supports c) \<inter> set (ra_refutes c) = {} \<and> ra_supports c \<noteq> []
     \<and> distinct (ra_supports c) \<and> distinct (ra_refutes c)"

lemma check_citations_iff:
  "check_citations ids codes c = Inr u \<longleftrightarrow>
     ra_cause c \<in> codes \<and> set (ra_supports c) \<union> set (ra_refutes c) \<subseteq> ids
     \<and> set (ra_supports c) \<inter> set (ra_refutes c) = {} \<and> distinct (ra_supports c) \<and> distinct (ra_refutes c)"
  by (auto simp: check_citations_def Let_def card_distinct distinct_card)

lemma validate_decision_iff:
  "validate_decision d = Inr d' \<longleftrightarrow>
     d' = d \<and> valid_decision_fields d \<and> (rd_decision d = Read_more) = (rd_reads d \<noteq> [])
     \<and> (rd_decision d = Finish \<or> rd_hypotheses d = []) \<and> distinct (rd_reads d)
     \<and> distinct (map ra_cause (rd_hypotheses d))"
  by (auto simp: validate_decision_def coherent_def)

lemma parse_decision_Inr:
  assumes "parse_decision loads content ids codes = Inr d"
  shows "validate_decision d = Inr d" and "\<forall>c\<in>set (rd_hypotheses d). cited_well ids codes c"
    and "length (utf8 content) \<le> 16384"
proof -
  from assms obtain v where v: "loads content = Inr v" "read_decision v = Inr d"
      "\<forall>c\<in>set (rd_hypotheses d). check_citations ids codes c = Inr ()" "length (utf8 content) \<le> 16384"
    by (auto simp: parse_decision_def)
  from v(2) show d: "validate_decision d = Inr d"
    unfolding read_decision_def bindR_Inr_iff by (auto simp: validate_decision_iff)
  from d have "\<forall>c\<in>set (rd_hypotheses d). ra_supports c \<noteq> []"
    by (fastforce simp: validate_decision_iff valid_decision_fields_def list_all_iff valid_ranked_cause_def)
  with v(3) show "\<forall>c\<in>set (rd_hypotheses d). cited_well ids codes c"
    by (auto simp: check_citations_iff cited_well_def)
  show "length (utf8 content) \<le> 16384" by (rule v(4))
qed

lemma unique_keys_iff:
  "unique_keys result pairs = Inr r \<longleftrightarrow>
     r = result @ pairs \<and> distinct (keys pairs) \<and> set (keys result) \<inter> set (keys pairs) = {}"
  by (induction result pairs rule: unique_keys.induct) (auto simp: keys_def)

lemma validate_usage_Inr:
  assumes "validate_usage u = Inr u'"
  shows "u' = u" "0 \<le> us_input u" "0 \<le> us_output u" "us_input u + us_output u = us_total u"
    "0 \<le> us_cached u" "us_cached u \<le> us_input u"
  using assms by (auto simp: validate_usage_def is_count_def)

lemma provider_usage_Some:
  assumes "provider_usage metadata = Inr (Some u)"
  shows "validate_usage u = Inr u"
  using assms unfolding provider_usage_def
  by (auto split: option.splits dest: validate_usage_Inr(1))

text \<open>Reserving input at the dearer of the two input rates and output at its limit bounds the cost of
  any usage within those token counts.\<close>

lemma usage_within_reservation:
  assumes "validate_usage u = Inr u" and "valid_price p"
    and "us_input u \<le> i" and "us_output u \<le> out"
  shows "the (cost_nano_usd p (Some u)) \<le> i * max (tp_input p) (tp_cached p) + out * tp_output p"
proof -
  note u = validate_usage_Inr [OF assms(1)]
  have pos: "0 \<le> tp_input p" "0 \<le> tp_cached p" "0 \<le> tp_output p"
    using assms(2) by (auto simp: valid_price_def is_count_def)
  let ?m = "max (tp_input p) (tp_cached p)"
  have "(us_input u - us_cached u) * tp_input p \<le> (us_input u - us_cached u) * ?m"
      "us_cached u * tp_cached p \<le> us_cached u * ?m"
    using u(5,6) by (auto intro!: mult_left_mono)
  then have "(us_input u - us_cached u) * tp_input p + us_cached u * tp_cached p \<le> us_input u * ?m"
    by (simp add: algebra_simps)
  also have "\<dots> \<le> i * ?m" using assms(3) pos by (intro mult_right_mono) auto
  finally have "(us_input u - us_cached u) * tp_input p + us_cached u * tp_cached p \<le> i * ?m" .
  moreover have "us_output u * tp_output p \<le> out * tp_output p"
    using assms(4) pos by (intro mult_right_mono) auto
  ultimately show ?thesis by (simp add: cost_nano_usd_def)
qed

section \<open>Properties\<close>

text \<open>An accepted model decision is bounded and coherent: it fits the byte budget and the schema,
  reads exactly when it asks for reads, publishes causes only when it finishes, never repeats a read
  or a cause, and every cause is in the vocabulary and cites only submitted evidence, at least one
  item in support, none twice, none both for and against.\<close>

theorem decision_is_grounded:
  assumes "parse_decision loads content ids codes = Inr d"
  shows "validate_decision d = Inr d \<and> list_all (cited_well ids codes) (rd_hypotheses d)
         \<and> length (utf8 content) \<le> 16384"
  using parse_decision_Inr [OF assms] by (simp add: list_all_iff)

definition sample_decision_json :: json where
  "sample_decision_json =
     JObj [(''decision'', JStr ''finish''), (''summary'', JStr ''done''), (''reads'', JArr []),
           (''hypotheses'', JArr [JObj [(''cause_code'', JStr ''OOM''), (''confidence'', JInt 1),
              (''supporting_evidence_ids'', JArr [JStr ''ev-1'']), (''refuting_evidence_ids'', JArr []),
              (''missing_evidence'', JArr [])]])]"

definition sample_decision :: reasoning_decision where
  "sample_decision =
     \<lparr>rd_decision = Finish, rd_summary = ''done'', rd_reads = [],
      rd_hypotheses = [\<lparr>ra_cause = ''OOM'', ra_confidence = 1, ra_supports = [''ev-1''], ra_refutes = [],
                        ra_missing = []\<rparr>]\<rparr>"

lemma sample_decision_parses:
  "parse_decision (\<lambda>_. Inr sample_decision_json) ''{}'' {''ev-1''} {''OOM''} = Inr sample_decision"
proof -
  have "is_identifier ''OOM''" "is_identifier ''ev-1''" "utf8 ''{}'' = ''{}''" by code_simp+
  then show ?thesis
    by (simp add: parse_decision_def read_decision_def sample_decision_json_def read_fields_def
        unique_keys_iff keys_def str_field_def field_list_def verdict_of_text_def read_ranked_cause_def
        read_number_def str_list_field_def validate_decision_iff valid_decision_fields_def is_brief_def
        valid_ranked_cause_def sample_decision_def check_citations_iff)
qed

theorem decision_is_grounded_witness:
  "list_all (cited_well {''ev-1''} {''OOM''}) (rd_hypotheses sample_decision)"
  using decision_is_grounded [OF sample_decision_parses] by simp

text \<open>The cost computed from any usage a provider reports for a call stays within what the call
  reserved, as long as the reported input and output stay within the reserved token counts; cached
  input can never make a call dearer than its reservation.\<close>

theorem cost_within_reservation:
  assumes "provider_usage metadata = Inr (Some u)" and "valid_price p"
    and "us_input u \<le> i" and "us_output u \<le> out"
  shows "the (cost_nano_usd p (Some u)) \<le> i * max (tp_input p) (tp_cached p) + out * tp_output p"
  by (rule usage_within_reservation [OF provider_usage_Some [OF assms(1)] assms(2-4)])

definition sample_usage :: json_object where
  "sample_usage = [(''input_tokens'', JInt 10), (''output_tokens'', JInt 5), (''total_tokens'', JInt 15),
     (''input_token_details'', JObj [(''cache_read'', JInt 4)])]"

theorem cost_within_reservation_witness:
  "the (cost_nano_usd \<lparr>tp_input = 2, tp_cached = 3, tp_output = 7\<rparr>
      (Some \<lparr>us_input = 10, us_output = 5, us_total = 15, us_cached = 4\<rparr>)) \<le> 12 * 3 + 8 * 7"
proof -
  have "provider_usage (Some sample_usage)
      = Inr (Some \<lparr>us_input = 10, us_output = 5, us_total = 15, us_cached = 4\<rparr>)"
    by code_simp
  from cost_within_reservation [OF this, of "\<lparr>tp_input = 2, tp_cached = 3, tp_output = 7\<rparr>" 12 8]
  show ?thesis by (simp add: valid_price_def is_count_def)
qed

text \<open>A schema gap: a finish decision whose missing-evidence text is blank passes every check on
  model output and still cannot be turned into public hypotheses, because the public contract strips
  the text before it requires one character.\<close>

theorem blank_missing_evidence_escapes_validation:
  "\<exists>d. validate_decision d = Inr d \<and> rd_decision d = Finish \<and> hypotheses d = Inl invalid"
proof -
  let ?c = "\<lparr>ra_cause = ''OOM'', ra_confidence = 1, ra_supports = [''ev-1''], ra_refutes = [],
             ra_missing = ['' '']\<rparr>"
  let ?d = "sample_decision\<lparr>rd_hypotheses := [?c]\<rparr>"
  have ids: "is_identifier ''OOM''" "is_identifier ''ev-1''" by code_simp+
  have blank: "strip '' '' = []" by code_simp
  have "validate_decision ?d = Inr ?d"
    using ids by (simp add: validate_decision_iff valid_decision_fields_def sample_decision_def is_brief_def
        valid_ranked_cause_def)
  moreover have "hypotheses ?d = Inl invalid"
    by (simp add: hypotheses_def public_hypothesis_def valid_hypothesis_def is_summary_def is_stripped_def
        sample_decision_def blank)
  moreover have "rd_decision ?d = Finish" by (simp add: sample_decision_def)
  ultimately show ?thesis by blast
qed

end
