(* ===== verification/Budget.thy ===== *)
theory Budget
  imports ActionStore Reasoning
begin

text \<open>
  The reasoning budget ledger: \<^verbatim>\<open>src/payops/orchestrator/budget.py\<close>, with the costs of the read catalog in
  \<^verbatim>\<open>src/payops/tools/registry.py\<close>.

  A row's text is \<open>Dump v\<close> or \<open>Unreadable\<close>, as in the remediation ledger, and each operation is one
  transaction.

  Main facts: every stored record stays within its limits, which never change (\<open>budget_ok\<close>); the table
  is an instance of \<open>versioned_rows\<close>, so that one operation identity is newly reserved at most once
  whatever the interleaving (\<open>second_reservation\<close>); and a completion digest is never replaced.
\<close>

section \<open>Charges\<close>

datatype token_accounting = Fixture_exact | Provider_ceiling

record reasoning_budget =
  rb_model_calls :: int
  rb_tokens :: int
  rb_cost :: int
  rb_tool_calls :: int
  rb_backend_reads :: int
  rb_provider_requests :: int

record model_charge =
  mc_operation :: string
  mc_prompt :: string
  mc_input :: int
  mc_output_limit :: int
  mc_price :: text_price
  mc_accounting :: token_accounting
  mc_requests :: int

record read_charge =
  rc_operation :: string
  rc_requests :: "read_request list"
  rc_count :: int

datatype charge = Model_charge model_charge | Read_charge read_charge

fun charge_operation :: "charge \<Rightarrow> string" where
  "charge_operation (Model_charge c) = mc_operation c"
| "charge_operation (Read_charge c) = rc_operation c"

record completion =
  co_operation :: string
  co_artifact :: string

record budget_record =
  br_run :: string
  br_binding :: string
  br_limits :: reasoning_budget
  br_charges :: "charge list"
  br_completions :: "completion list"

text \<open>\<^verbatim>\<open>CATALOG[tool].backend_reads\<close>\<close>

fun backend_reads :: "tool_name \<Rightarrow> int" where
  "backend_reads Workload_status = 2"
| "backend_reads Pod_events = 2"
| "backend_reads Recent_logs = 1"
| "backend_reads Payment_snapshot = 2"
| "backend_reads Runbook_search = 1"
| "backend_reads Incident_search = 1"

definition charge_tokens :: "model_charge \<Rightarrow> int" where
  "charge_tokens c = mc_input c + mc_output_limit c"

definition charge_cost :: "model_charge \<Rightarrow> int" where
  "charge_cost c =
     mc_input c * max (tp_input (mc_price c)) (tp_cached (mc_price c))
     + mc_output_limit c * tp_output (mc_price c)"

section \<open>Validation\<close>

definition between :: "int \<Rightarrow> int \<Rightarrow> int \<Rightarrow> bool" where
  "between lo hi n \<longleftrightarrow> lo \<le> n \<and> n \<le> hi"

definition valid_budget :: "reasoning_budget \<Rightarrow> bool" where
  "valid_budget b \<longleftrightarrow>
     between 0 10 (rb_model_calls b) \<and> between 0 100000 (rb_tokens b)
     \<and> between 0 1000000000000 (rb_cost b) \<and> between 0 40 (rb_tool_calls b)
     \<and> between 0 64 (rb_backend_reads b) \<and> between 0 20 (rb_provider_requests b)"

definition validate_model_charge :: "model_charge \<Rightarrow> exn + unit" where
  "validate_model_charge c =
     bindR (check (is_identifier (mc_operation c) \<and> is_digest (mc_prompt c)
                   \<and> between 0 100000 (mc_input c) \<and> between 1 16384 (mc_output_limit c)
                   \<and> valid_price (mc_price c) \<and> between 0 2 (mc_requests c)) invalid) (\<lambda>_.
     check (mc_requests c = (if mc_accounting c = Provider_ceiling then 2 else 0))
       (ValueError ''provider request reservation differs from accounting contract''))"

definition validate_read_charge :: "read_charge \<Rightarrow> exn + unit" where
  "validate_read_charge c =
     bindR (check (is_identifier (rc_operation c) \<and> 1 \<le> length (rc_requests c)
                   \<and> length (rc_requests c) \<le> 2 \<and> list_all valid_read_request (rc_requests c)
                   \<and> between 1 4 (rc_count c)) invalid) (\<lambda>_.
     bindR (check (no_duplicates (rc_requests c)) (ValueError ''duplicate charged read'')) (\<lambda>_.
     check (rc_count c = sum_list (map (\<lambda>r. backend_reads (rr_tool r)) (rc_requests c)))
       (ValueError ''stored read cost differs from catalog'')))"

fun validate_charge :: "charge \<Rightarrow> exn + unit" where
  "validate_charge (Model_charge c) = validate_model_charge c"
| "validate_charge (Read_charge c) = validate_read_charge c"

definition validate_completion :: "completion \<Rightarrow> exn + unit" where
  "validate_completion c = check (is_identifier (co_operation c) \<and> is_digest (co_artifact c)) invalid"

fun model_charges :: "charge list \<Rightarrow> model_charge list" where
  "model_charges [] = []"
| "model_charges (Model_charge c # cs) = c # model_charges cs"
| "model_charges (Read_charge c # cs) = model_charges cs"

fun read_charges :: "charge list \<Rightarrow> read_charge list" where
  "read_charges [] = []"
| "read_charges (Model_charge c # cs) = read_charges cs"
| "read_charges (Read_charge c # cs) = c # read_charges cs"

definition exhausted :: "reasoning_budget \<Rightarrow> charge list \<Rightarrow> bool" where
  "exhausted limits charges \<longleftrightarrow>
     (let model = model_charges charges; reads = read_charges charges in
      int (length model) > rb_model_calls limits
      \<or> sum_list (map charge_tokens model) > rb_tokens limits
      \<or> sum_list (map charge_cost model) > rb_cost limits
      \<or> sum_list (map mc_requests model) > rb_provider_requests limits
      \<or> sum_list (map (\<lambda>c. int (length (rc_requests c))) reads) > rb_tool_calls limits
      \<or> sum_list (map rc_count reads) > rb_backend_reads limits)"

definition within_limits :: "budget_record \<Rightarrow> exn + budget_record" where
  "within_limits r =
     bindR (check (no_duplicates (map charge_operation (br_charges r)))
              (ValueError ''duplicate budget operation'')) (\<lambda>_.
     bindR (check (no_duplicates (map co_operation (br_completions r))
                   \<and> set (map co_operation (br_completions r)) \<subseteq> set (map charge_operation (br_charges r)))
              (ValueError ''completion lacks one unique reserved operation'')) (\<lambda>_.
     bindR (check (\<not> exhausted (br_limits r) (br_charges r))
              (ValueError ''reasoning allowance exhausted'')) (\<lambda>_.
     Inr r)))"

definition validate_budget_record :: "budget_record \<Rightarrow> exn + budget_record" where
  "validate_budget_record r =
     bindR (check (is_identifier (br_run r) \<and> is_digest (br_binding r) \<and> valid_budget (br_limits r)
                   \<and> length (br_charges r) \<le> 50 \<and> length (br_completions r) \<le> 50) invalid) (\<lambda>_.
     bindR (each validate_charge (br_charges r)) (\<lambda>_.
     bindR (each validate_completion (br_completions r)) (\<lambda>_.
     within_limits r)))"

section \<open>The ledger\<close>

type_synonym budget_db = "string \<Rightarrow> budget_record row_text option"

datatype reservation = NEW | EXISTING | DENIED

definition budget_get :: "budget_db \<Rightarrow> string \<Rightarrow> exn + budget_record" where
  "budget_get db run =
     bindR (of_option (KeyError run) (db run)) (\<lambda>payload.
     bindR (load validate_budget_record payload) (\<lambda>r.
     bindR (check (br_run r = run) (BudgetConflict ''budget row identity differs'')) (\<lambda>_. Inr r)))"

definition budget_open ::
  "string \<Rightarrow> string \<Rightarrow> reasoning_budget \<Rightarrow> (budget_db, budget_record) prog" where
  "budget_open run binding limits db =
     (case validate_budget_record \<lparr>br_run = run, br_binding = binding, br_limits = limits,
             br_charges = [], br_completions = []\<rparr> of
        Inl e \<Rightarrow> (Inl e, db)
      | Inr r \<Rightarrow>
          if db run = None then (Inr r, db(run \<mapsto> Dump r))
          else (bindR (budget_get db run) (\<lambda>existing.
                bindR (check (\<not> (br_binding existing \<noteq> binding \<or> br_limits existing \<noteq> limits))
                         (BudgetConflict ''run budget binding differs'')) (\<lambda>_. Inr existing)), db))"

text \<open>\<^verbatim>\<open>_replace\<close>: one compare-and-set on the row's text.\<close>

definition budget_replace :: "budget_record \<Rightarrow> budget_record \<Rightarrow> (budget_db, unit) prog" where
  "budget_replace expected updated db =
     (case db (br_run expected) of
        None \<Rightarrow> (Inl (BudgetConflict ''budget changed before reservation''), db)
      | Some payload \<Rightarrow>
          (case load validate_budget_record payload of
             Inl e \<Rightarrow> (Inl e, db)
           | Inr r \<Rightarrow>
               if r \<noteq> expected then (Inl (BudgetConflict ''budget changed before reservation''), db)
               else (Inr (), db(br_run expected \<mapsto> Dump updated))))"

definition find_charge :: "charge list \<Rightarrow> string \<Rightarrow> charge option" where
  "find_charge charges operation = find (\<lambda>c. charge_operation c = operation) charges"

definition budget_reserve :: "budget_record \<Rightarrow> charge \<Rightarrow> (budget_db, reservation) prog" where
  "budget_reserve expected charge db =
     (case bindR (validate_budget_record expected) (\<lambda>_. validate_charge charge) of
        Inl e \<Rightarrow> (Inl e, db)
      | Inr _ \<Rightarrow>
          (case find_charge (br_charges expected) (charge_operation charge) of
             Some existing \<Rightarrow>
               (bindR (check (existing = charge)
                         (BudgetConflict ''operation identity reused with different work'')) (\<lambda>_.
                bindR (budget_get db (br_run expected)) (\<lambda>current.
                bindR (check (current = expected) (BudgetConflict ''budget changed before replay'')) (\<lambda>_.
                Inr EXISTING))), db)
           | None \<Rightarrow>
               (let updated = expected\<lparr>br_charges := br_charges expected @ [charge]\<rparr> in
                case validate_budget_record updated of
                  Inl e \<Rightarrow> if is_ValueError e then (Inr DENIED, db) else (Inl e, db)
                | Inr _ \<Rightarrow>
                    (case budget_replace expected updated db of
                       (Inl e, db') \<Rightarrow> (Inl e, db')
                     | (Inr _, db') \<Rightarrow> (Inr NEW, db')))))"

definition budget_complete :: "budget_record \<Rightarrow> string \<Rightarrow> string \<Rightarrow> (budget_db, reservation) prog" where
  "budget_complete expected operation artifact db =
     (let receipt = \<lparr>co_operation = operation, co_artifact = artifact\<rparr> in
      case bindR (validate_budget_record expected) (\<lambda>_. validate_completion receipt) of
        Inl e \<Rightarrow> (Inl e, db)
      | Inr _ \<Rightarrow>
          (case find (\<lambda>c. co_operation c = operation) (br_completions expected) of
             Some existing \<Rightarrow>
               (bindR (check (existing = receipt) (BudgetConflict ''completion differs or budget changed'')) (\<lambda>_.
                bindR (budget_get db (br_run expected)) (\<lambda>current.
                bindR (check (current = expected)
                         (BudgetConflict ''completion differs or budget changed'')) (\<lambda>_.
                Inr EXISTING))), db)
           | None \<Rightarrow>
               (let updated = expected\<lparr>br_completions := br_completions expected @ [receipt]\<rparr> in
                case validate_budget_record updated of
                  Inl e \<Rightarrow> (Inl e, db)
                | Inr _ \<Rightarrow>
                    (case budget_replace expected updated db of
                       (Inl e, db') \<Rightarrow> (Inl e, db')
                     | (Inr _, db') \<Rightarrow> (Inr NEW, db')))))"

section \<open>What validation accepts\<close>

definition budget_spent_within :: "budget_record \<Rightarrow> bool" where
  "budget_spent_within r \<longleftrightarrow>
     (let model = model_charges (br_charges r); reads = read_charges (br_charges r); l = br_limits r in
      int (length model) \<le> rb_model_calls l
      \<and> sum_list (map charge_tokens model) \<le> rb_tokens l
      \<and> sum_list (map charge_cost model) \<le> rb_cost l
      \<and> sum_list (map mc_requests model) \<le> rb_provider_requests l
      \<and> sum_list (map (\<lambda>c. int (length (rc_requests c))) reads) \<le> rb_tool_calls l
      \<and> sum_list (map rc_count reads) \<le> rb_backend_reads l)"

lemma validate_budget_record_Inr:
  assumes "validate_budget_record r = Inr r'"
  shows "r' = r" "budget_spent_within r" "distinct (map charge_operation (br_charges r))"
    "distinct (map co_operation (br_completions r))"
    "set (map co_operation (br_completions r)) \<subseteq> set (map charge_operation (br_charges r))"
  using assms
  by (auto simp: validate_budget_record_def within_limits_def exhausted_def budget_spent_within_def Let_def
      not_less)

lemma load_budget_iff:
  "load validate_budget_record t = Inr r \<longleftrightarrow> t = Dump r \<and> validate_budget_record r = Inr r"
  by (cases t) (auto dest: validate_budget_record_Inr(1))

lemma budget_get_iff:
  "budget_get db run = Inr r \<longleftrightarrow> db run = Some (Dump r) \<and> validate_budget_record r = Inr r \<and> br_run r = run"
  by (auto simp: budget_get_def load_budget_iff)

lemma budget_replace_cases:
  assumes "budget_replace expected updated db = (x, db')"
  shows "x = Inr () \<and> db (br_run expected) = Some (Dump expected)
           \<and> validate_budget_record expected = Inr expected \<and> db' = db(br_run expected \<mapsto> Dump updated)
         \<or> (\<exists>e. x = Inl e) \<and> db' = db"
  using assms
  by (auto simp: budget_replace_def load_budget_iff split: option.splits sum.splits if_splits)

text \<open>A charge or a completion appended to the current record.\<close>

datatype entry = Charged charge | Completed completion

fun append_entry :: "entry \<Rightarrow> budget_record \<Rightarrow> budget_record" where
  "append_entry (Charged c) r = r\<lparr>br_charges := br_charges r @ [c]\<rparr>"
| "append_entry (Completed c) r = r\<lparr>br_completions := br_completions r @ [c]\<rparr>"

definition appended :: "entry \<Rightarrow> budget_record \<Rightarrow> budget_db \<Rightarrow> budget_db \<Rightarrow> bool" where
  "appended en r db db' \<longleftrightarrow>
     db (br_run r) = Some (Dump r) \<and> validate_budget_record (append_entry en r) = Inr (append_entry en r)
     \<and> db' = db(br_run r \<mapsto> Dump (append_entry en r))"

lemma find_charge_None: "find_charge cs i = None \<longleftrightarrow> i \<notin> charge_operation ` set cs"
  by (auto simp: find_charge_def find_None_iff)

lemma budget_reserve_cases:
  assumes "budget_reserve r c db = (x, db')"
  shows "x = Inr NEW \<and> appended (Charged c) r db db' \<and> charge_operation c \<notin> charge_operation ` set (br_charges r)
         \<or> x \<noteq> Inr NEW \<and> db' = db"
proof (cases "bindR (validate_budget_record r) (\<lambda>_. validate_charge c)")
  case (Inl e)
  with assms show ?thesis by (auto simp: budget_reserve_def)
next
  case (Inr u)
  show ?thesis
  proof (cases "find_charge (br_charges r) (charge_operation c)")
    case (Some existing)
    with Inr assms have "x = bindR (check (existing = c)
          (BudgetConflict ''operation identity reused with different work'')) (\<lambda>_.
        bindR (budget_get db (br_run r)) (\<lambda>current.
        bindR (check (current = r) (BudgetConflict ''budget changed before replay'')) (\<lambda>_.
        Inr EXISTING)))" "db' = db"
      by (auto simp: budget_reserve_def)
    then show ?thesis by auto
  next
    case None
    let ?u = "append_entry (Charged c) r"
    show ?thesis
    proof (cases "validate_budget_record ?u")
      case (Inl e)
      with Inr None assms show ?thesis by (auto simp: budget_reserve_def Let_def split: if_splits)
    next
      case valid: (Inr v)
      obtain y d where y: "budget_replace r ?u db = (y, d)" by fastforce
      from valid have v: "validate_budget_record ?u = Inr ?u"
        using validate_budget_record_Inr(1) by metis
      from Inr None v y assms have "(x, db') = (case y of Inl e \<Rightarrow> (Inl e, d) | Inr _ \<Rightarrow> (Inr NEW, d))"
        by (simp add: budget_reserve_def Let_def split: sum.splits)
      with budget_replace_cases [OF y] v None [unfolded find_charge_None] show ?thesis
        by (auto simp: appended_def)
    qed
  qed
qed

lemma budget_complete_cases:
  assumes "budget_complete r i a db = (x, db')"
  shows "x = Inr NEW \<and> appended (Completed \<lparr>co_operation = i, co_artifact = a\<rparr>) r db db'
         \<or> x \<noteq> Inr NEW \<and> db' = db"
proof (cases "bindR (validate_budget_record r)
    (\<lambda>_. validate_completion \<lparr>co_operation = i, co_artifact = a\<rparr>)")
  case (Inl e)
  with assms show ?thesis by (auto simp: budget_complete_def Let_def)
next
  case (Inr u)
  let ?c = "\<lparr>co_operation = i, co_artifact = a\<rparr>"
  show ?thesis
  proof (cases "find (\<lambda>c. co_operation c = i) (br_completions r)")
    case (Some existing)
    with Inr assms have "x = bindR (check (existing = ?c)
          (BudgetConflict ''completion differs or budget changed'')) (\<lambda>_.
        bindR (budget_get db (br_run r)) (\<lambda>current.
        bindR (check (current = r) (BudgetConflict ''completion differs or budget changed'')) (\<lambda>_.
        Inr EXISTING)))" "db' = db"
      by (auto simp: budget_complete_def Let_def)
    then show ?thesis by auto
  next
    case None
    let ?u = "append_entry (Completed ?c) r"
    show ?thesis
    proof (cases "validate_budget_record ?u")
      case (Inl e)
      with Inr None assms show ?thesis by (auto simp: budget_complete_def Let_def)
    next
      case valid: (Inr v)
      obtain y d where y: "budget_replace r ?u db = (y, d)" by fastforce
      from valid have v: "validate_budget_record ?u = Inr ?u"
        using validate_budget_record_Inr(1) by metis
      from budget_replace_cases [OF y] Inr None v y assms show ?thesis
        by (auto simp: budget_complete_def Let_def appended_def)
    qed
  qed
qed

section \<open>Runs of the ledger\<close>

inductive budget_step :: "budget_db \<Rightarrow> budget_db \<Rightarrow> bool" where
  opened: "budget_open run binding limits db = (x, db') \<Longrightarrow> budget_step db db'"
| reserved: "budget_reserve r c db = (y, db') \<Longrightarrow> budget_step db db'"
| completed: "budget_complete r i a db = (y, db') \<Longrightarrow> budget_step db db'"

lemma budget_open_cases:
  assumes "budget_open run binding limits db = (x, db')"
  obtains (same) "db' = db"
  | (new) r where "db run = None" "br_run r = run" "validate_budget_record r = Inr r" "db' = db(run \<mapsto> Dump r)"
proof -
  let ?r = "\<lparr>br_run = run, br_binding = binding, br_limits = limits, br_charges = [], br_completions = []\<rparr>"
  show thesis
  proof (cases "validate_budget_record ?r")
    case (Inl e)
    with assms show thesis by (intro same) (simp add: budget_open_def)
  next
    case (Inr v)
    with validate_budget_record_Inr(1) have "validate_budget_record ?r = Inr ?r" by metis
    with assms show thesis
      by (cases "db run = None") (auto simp: budget_open_def intro: same new [of ?r])
  qed
qed

lemma budget_step_cases:
  assumes "budget_step db db'"
  obtains (same) "db' = db"
  | (new) run r where "db run = None" "br_run r = run" "validate_budget_record r = Inr r"
      "db' = db(run \<mapsto> Dump r)"
  | (entry) en r where "appended en r db db'"
  using assms
proof cases
  case (opened run binding limits x)
  then show thesis by (cases rule: budget_open_cases) (auto intro: same new)
next
  case (reserved r c y)
  from budget_reserve_cases [OF this] show thesis by (auto intro: same entry)
next
  case (completed r i a y)
  from budget_complete_cases [OF this] show thesis by (auto intro: same entry)
qed

fun budget_of :: "budget_record row_text option \<Rightarrow> budget_record option" where
  "budget_of (Some (Dump r)) = Some r"
| "budget_of _ = None"

lemma budget_of_Some [simp]: "budget_of t = Some r \<longleftrightarrow> t = Some (Dump r)"
  by (cases t rule: budget_of.cases) auto

abbreviation (input) entries :: "budget_record \<Rightarrow> int" where
  "entries r \<equiv> int (length (br_charges r) + length (br_completions r))"

lemma append_entry_simps [simp]:
  "br_run (append_entry en r) = br_run r" "br_binding (append_entry en r) = br_binding r"
  "br_limits (append_entry en r) = br_limits r" "entries (append_entry en r) = entries r + 1"
  "set (br_charges r) \<subseteq> set (br_charges (append_entry en r))"
  "set (br_completions r) \<subseteq> set (br_completions (append_entry en r))"
  by (cases en; auto)+

interpretation budget: versioned_rows "\<lambda>db run. budget_of (db run)" entries budget_step
proof
  fix db db' :: budget_db and k v
  assume "budget_step db db'" and cur: "budget_of (db k) = Some v"
  then show "budget_of (db' k) = Some v \<or> (\<exists>v'. budget_of (db' k) = Some v' \<and> entries v < entries v')"
  proof (cases rule: budget_step_cases)
    case (entry en r)
    with cur append_entry_simps(4) [of en r] show ?thesis
      by (cases "k = br_run r") (auto simp: appended_def simp del: append_entry_simps(4))
  qed (use cur in auto)
qed

text \<open>Once a record exists, it only grows, and its binding and limits stay.\<close>

definition grows :: "budget_record \<Rightarrow> budget_record \<Rightarrow> bool" where
  "grows r r' \<longleftrightarrow>
     br_run r' = br_run r \<and> br_binding r' = br_binding r \<and> br_limits r' = br_limits r
     \<and> set (br_charges r) \<subseteq> set (br_charges r') \<and> set (br_completions r) \<subseteq> set (br_completions r')"

lemma grows_trans: "grows a b \<Longrightarrow> grows b c \<Longrightarrow> grows a c"
  by (auto simp: grows_def)

lemma budget_step_grows:
  assumes "budget_step db db'" and "db run = Some (Dump r)"
  shows "\<exists>r'. db' run = Some (Dump r') \<and> grows r r'"
  using assms(1)
proof (cases rule: budget_step_cases)
  case (entry en q)
  with assms(2) show ?thesis
    by (cases "run = br_run q") (auto simp: appended_def grows_def dest: subsetD [OF append_entry_simps(5)]
        subsetD [OF append_entry_simps(6)])
qed (use assms(2) in \<open>auto simp: grows_def\<close>)

lemma budget_steps_grow:
  assumes "budget_step\<^sup>*\<^sup>* db db'" and "db run = Some (Dump r)"
  shows "\<exists>r'. db' run = Some (Dump r') \<and> grows r r'"
  using assms
proof (induction rule: rtranclp_induct)
  case base
  then show ?case by (auto simp: grows_def)
next
  case (step y z)
  then show ?case using budget_step_grows grows_trans by blast
qed

definition budget_ok :: "budget_db \<Rightarrow> bool" where
  "budget_ok db \<longleftrightarrow>
     (\<forall>run t. db run = Some t \<longrightarrow> (\<exists>r. t = Dump r \<and> br_run r = run \<and> validate_budget_record r = Inr r))"

lemma budget_ok_step:
  assumes "budget_step db db'" and "budget_ok db"
  shows "budget_ok db'"
  using assms(1)
proof (cases rule: budget_step_cases)
  case (entry en r)
  with assms(2) show ?thesis by (auto simp: appended_def budget_ok_def)
qed (use assms(2) in \<open>auto simp: budget_ok_def\<close>)

lemma budget_ok_steps: "budget_step\<^sup>*\<^sup>* db db' \<Longrightarrow> budget_ok db \<Longrightarrow> budget_ok db'"
  by (induction rule: rtranclp_induct) (auto intro: budget_ok_step)

lemma reserve_NEW:
  assumes "budget_reserve r c db = (Inr NEW, db')"
  shows "db' (br_run r) = Some (Dump (r\<lparr>br_charges := br_charges r @ [c]\<rparr>))"
  using budget_reserve_cases [OF assms] by (auto simp: appended_def)

lemma second_reservation:
  assumes "budget_ok db" and "budget_reserve r c db = (Inr NEW, db1)" and "budget_step\<^sup>*\<^sup>* db1 db2"
    and "br_run r' = br_run r" and "charge_operation c' = charge_operation c"
  shows "fst (budget_reserve r' c' db2) \<noteq> Inr NEW"
proof
  assume "fst (budget_reserve r' c' db2) = Inr NEW"
  then obtain db3 where "budget_reserve r' c' db2 = (Inr NEW, db3)" by (metis prod.collapse)
  from budget_reserve_cases [OF this] have cur: "db2 (br_run r) = Some (Dump r')"
      and fresh: "charge_operation c' \<notin> charge_operation ` set (br_charges r')"
    using assms(4) by (auto simp: appended_def)
  from budget_steps_grow [OF assms(3) reserve_NEW [OF assms(2)]] cur
  have "c \<in> set (br_charges r')" by (auto simp: grows_def)
  with fresh assms(5) show False by auto
qed

section \<open>Sample values\<close>

definition sample_limits :: reasoning_budget where
  "sample_limits = \<lparr>rb_model_calls = 2, rb_tokens = 1000, rb_cost = 5000, rb_tool_calls = 2,
     rb_backend_reads = 4, rb_provider_requests = 4\<rparr>"

definition sample_budget :: budget_record where
  "sample_budget = \<lparr>br_run = ''inc-1'', br_binding = sha256_hex ''b'', br_limits = sample_limits,
     br_charges = [], br_completions = []\<rparr>"

definition sample_charge :: charge where
  "sample_charge = Read_charge \<lparr>rc_operation = ''reads-01'',
     rc_requests = [\<lparr>rr_tool = Pod_events, rr_service = ''payments-api'', rr_query = None\<rparr>], rc_count = 2\<rparr>"

lemma sample_budget_valid:
  "validate_budget_record sample_budget = Inr sample_budget"
  "validate_charge sample_charge = Inr ()"
  "validate_budget_record (sample_budget\<lparr>br_charges := [sample_charge]\<rparr>)
     = Inr (sample_budget\<lparr>br_charges := [sample_charge]\<rparr>)"
proof -
  have t: "is_identifier ''inc-1''" "is_identifier ''reads-01''" by code_simp+
  show "validate_budget_record sample_budget = Inr sample_budget"
    by (simp add: validate_budget_record_def sample_budget_def t valid_budget_def between_def
        sample_limits_def within_limits_def exhausted_def)
  show c: "validate_charge sample_charge = Inr ()"
    by (simp add: sample_charge_def validate_read_charge_def t valid_read_request_def SERVICE_NAMES_def
        between_def)
  show "validate_budget_record (sample_budget\<lparr>br_charges := [sample_charge]\<rparr>)
     = Inr (sample_budget\<lparr>br_charges := [sample_charge]\<rparr>)"
    using c by (simp add: validate_budget_record_def sample_budget_def t valid_budget_def between_def
        sample_limits_def within_limits_def exhausted_def sample_charge_def)
qed

definition sample_budget_db :: budget_db where
  "sample_budget_db = [''inc-1'' \<mapsto> Dump sample_budget]"

lemma sample_budget_opened:
  "budget_open ''inc-1'' (sha256_hex ''b'') sample_limits Map.empty = (Inr sample_budget, sample_budget_db)"
  using sample_budget_valid(1)
  by (simp add: budget_open_def sample_budget_db_def sample_budget_def)

lemma sample_budget_reachable: "budget_step\<^sup>*\<^sup>* Map.empty sample_budget_db"
  using budget_step.opened [OF sample_budget_opened] by blast

lemma sample_reserved:
  "\<exists>db. budget_reserve sample_budget sample_charge sample_budget_db = (Inr NEW, db)"
  using sample_budget_valid
  by (simp add: budget_reserve_def find_charge_def budget_replace_def load_budget_iff)
     (simp add: sample_budget_db_def sample_budget_def budget_replace_def)

section \<open>Properties\<close>

text \<open>C30: In every ledger that any sequence of operations can produce, every row is readable and its
  recorded charges never exceed any of the six allowances of the run.\<close>

theorem budget_never_exceeded:
  assumes "budget_step\<^sup>*\<^sup>* Map.empty db" and "db run = Some t"
  shows "\<exists>r. budget_get db run = Inr r \<and> budget_spent_within r"
proof -
  have "budget_ok db" using budget_ok_steps [OF assms(1)] by (simp add: budget_ok_def)
  with assms(2) obtain r where "t = Dump r" "br_run r = run" "validate_budget_record r = Inr r"
    unfolding budget_ok_def by blast
  with assms(2) validate_budget_record_Inr(2) show ?thesis by (auto simp: budget_get_iff)
qed

theorem budget_never_exceeded_witness:
  "\<exists>r. budget_get sample_budget_db ''inc-1'' = Inr r \<and> budget_spent_within r"
  by (rule budget_never_exceeded [OF sample_budget_reachable, of _ "Dump sample_budget"])
     (simp add: sample_budget_db_def)

text \<open>An operation identity is granted for dispatch at most once per run: after one caller got
  \<open>NEW\<close>, no later reservation with that identity gets \<open>NEW\<close>, whatever was committed in between and
  whatever record the caller holds.\<close>

theorem reservation_is_exclusive:
  assumes "budget_ok db" and "budget_reserve r c db = (Inr NEW, db1)" and "budget_step\<^sup>*\<^sup>* db1 db2"
    and "br_run r' = br_run r" and "charge_operation c' = charge_operation c"
  shows "fst (budget_reserve r' c' db2) \<noteq> Inr NEW"
  by (rule second_reservation [OF assms])

theorem reservation_is_exclusive_witness:
  "\<exists>db. budget_reserve sample_budget sample_charge sample_budget_db = (Inr NEW, db)
        \<and> fst (budget_reserve sample_budget sample_charge db) \<noteq> Inr NEW"
proof -
  have ok: "budget_ok sample_budget_db"
    using budget_ok_steps [OF sample_budget_reachable] by (simp add: budget_ok_def)
  from sample_reserved reservation_is_exclusive [OF ok _ rtranclp.rtrancl_refl] show ?thesis by blast
qed

text \<open>A run's record only grows: its binding and limits never change, no charge or completion
  disappears, and an operation that was completed with one artifact is never completed with
  another.\<close>

theorem budget_history_is_immutable:
  assumes "budget_ok db" and "db run = Some (Dump r)" and "budget_step\<^sup>*\<^sup>* db db'"
  shows "\<exists>r'. budget_get db' run = Inr r' \<and> grows r r'
           \<and> inj_on co_operation (set (br_completions r'))"
proof -
  obtain r' where r': "db' run = Some (Dump r')" "grows r r'"
    using budget_steps_grow [OF assms(3,2)] by blast
  have "budget_ok db'" by (rule budget_ok_steps [OF assms(3,1)])
  with r' have "budget_get db' run = Inr r'" "distinct (map co_operation (br_completions r'))"
    by (auto simp: budget_ok_def budget_get_iff dest: validate_budget_record_Inr(4))
  with r' show ?thesis by (auto simp: distinct_map)
qed

theorem budget_history_is_immutable_witness:
  "\<exists>db r'. budget_reserve sample_budget sample_charge sample_budget_db = (Inr NEW, db)
     \<and> budget_get db ''inc-1'' = Inr r' \<and> grows sample_budget r'"
proof -
  have ok: "budget_ok sample_budget_db"
    using budget_ok_steps [OF sample_budget_reachable] by (simp add: budget_ok_def)
  obtain db where db: "budget_reserve sample_budget sample_charge sample_budget_db = (Inr NEW, db)"
    using sample_reserved by blast
  then have "budget_step\<^sup>*\<^sup>* sample_budget_db db" using budget_step.reserved by blast
  from budget_history_is_immutable [OF ok _ this, of "''inc-1''" sample_budget] db show ?thesis
    by (auto simp: sample_budget_db_def)
qed

end
