(* ===== verification/Registry.thy ===== *)
theory Registry
  imports Budget "HOL-Library.Sublist"
begin

text \<open>
  Closed read dispatch: \<^verbatim>\<open>src/payops/tools/registry.py\<close>.

  The readers, the identity refresh and the verifier are the environment \<open>read_env\<close>; each of their
  answers takes the number of the call. The reservation is the stateful function \<open>reserve\<close> on a ledger
  of any type. Reads run on two worker threads; their calls are independent of each other, so a batch
  runs them one after the other, and the environment says, whenever the slots are inspected, how many
  running reads have finished and given their slot back (\<open>rv_finished\<close>). A read is accepted only when
  its completion time and the wait stay within its deadline. Tracing is left out.

  Main facts: no reader is called before the whole batch is reserved at its catalog cost
  (\<open>dispatch_calls\<close>), at most two reads hold a slot (\<open>dispatch_slots\<close>), and an OK result carries only
  verified evidence of its own incident and service under an authority refreshed before, after and at
  publication (\<open>dispatch_ok\<close>).
\<close>

section \<open>Catalog and results\<close>

record read_spec =
  sp_description :: string
  sp_backend_reads :: int
  sp_deadline :: rat

fun CATALOG :: "tool_name \<Rightarrow> read_spec" where
  "CATALOG Workload_status = \<lparr>sp_description = ''Read workload rollout and current labeled pod status.'',
     sp_backend_reads = 2, sp_deadline = 26\<rparr>"
| "CATALOG Pod_events = \<lparr>sp_description = ''Read events bound to current pod identities.'',
     sp_backend_reads = 2, sp_deadline = 26\<rparr>"
| "CATALOG Recent_logs = \<lparr>sp_description = ''Read bounded recent application logs as untrusted evidence.'',
     sp_backend_reads = 1, sp_deadline = 14\<rparr>"
| "CATALOG Payment_snapshot = \<lparr>sp_description = ''Read counters and scrape watermark at one fixed instant.'',
     sp_backend_reads = 2, sp_deadline = 14\<rparr>"
| "CATALOG Runbook_search = \<lparr>sp_description = ''Search scoped runbooks; guidance has no action authority.'',
     sp_backend_reads = 1, sp_deadline = 8\<rparr>"
| "CATALOG Incident_search = \<lparr>sp_description = ''Search scoped prior incidents with original source times.'',
     sp_backend_reads = 1, sp_deadline = 8\<rparr>"

text \<open>The ledger charges what the catalog lists.\<close>

lemma catalog_cost [simp]: "sp_backend_reads (CATALOG tool) = backend_reads tool"
  by (cases tool) simp_all

datatype read_status = Read_ok | Read_denied | Read_error | Read_timeout | Read_busy | Read_exhausted

record read_result =
  re_request :: read_request
  re_status :: read_status
  re_evidence :: "evidence_item list"

definition no_evidence :: "read_request \<Rightarrow> read_status \<Rightarrow> read_result" where
  "no_evidence request status = \<lparr>re_request = request, re_status = status, re_evidence = []\<rparr>"

section \<open>Environment and state\<close>

record read_env =
  rv_handler :: "nat \<Rightarrow> read_request \<Rightarrow> exn + evidence_item list"
  rv_authorize :: "nat \<Rightarrow> exn + bool"
  rv_verify :: "nat \<Rightarrow> evidence_item \<Rightarrow> exn + unit"
  rv_monotonic :: "nat \<Rightarrow> rat"
  rv_finished :: "nat \<Rightarrow> nat"
  rv_in_time :: "nat \<Rightarrow> bool"
  rv_incident :: string
  rv_ceiling :: rat

text \<open>\<open>rg_busy\<close> counts the slots in use and \<open>rg_calls\<close> records every reader call.\<close>

record 'l registry_state =
  rg_tick :: nat
  rg_busy :: nat
  rg_closed :: bool
  rg_calls :: "read_request list"
  rg_ledger :: 'l

definition rg_ask :: "(nat \<Rightarrow> 'a) \<Rightarrow> ('l registry_state, 'a) prog" where
  "rg_ask f s = (Inr (f (rg_tick s)), s\<lparr>rg_tick := Suc (rg_tick s)\<rparr>)"

definition rg_call :: "(nat \<Rightarrow> exn + 'a) \<Rightarrow> ('l registry_state, 'a) prog" where
  "rg_call f s = (f (rg_tick s), s\<lparr>rg_tick := Suc (rg_tick s)\<rparr>)"

text \<open>\<^verbatim>\<open>self._slots.acquire(blocking=False)\<close> on a semaphore of two.\<close>

definition acquire_slot :: "read_env \<Rightarrow> ('l registry_state, bool) prog" where
  "acquire_slot env s =
     (let busy = rg_busy s - rv_finished env (rg_tick s); s' = s\<lparr>rg_tick := Suc (rg_tick s)\<rparr> in
      if busy < 2 then (Inr True, s'\<lparr>rg_busy := Suc busy\<rparr>) else (Inr False, s'\<lparr>rg_busy := busy\<rparr>))"

section \<open>One read\<close>

definition verify_item ::
  "read_env \<Rightarrow> read_request \<Rightarrow> evidence_item \<Rightarrow> ('l registry_state, unit) prog" where
  "verify_item env request item =
     bindP (checkP (\<not> (ev_incident item \<noteq> rv_incident env \<or> ev_resource item \<noteq> rr_service request))
              (ValueError ''foreign incident or service evidence'')) (\<lambda>_.
     rg_call (\<lambda>n. rv_verify env n item))"

fun verify_items ::
  "read_env \<Rightarrow> read_request \<Rightarrow> evidence_item list \<Rightarrow> ('l registry_state, unit) prog" where
  "verify_items env request [] = returnP ()"
| "verify_items env request (item # items) =
     bindP (verify_item env request item) (\<lambda>_. verify_items env request items)"

definition call_handler :: "read_env \<Rightarrow> read_request \<Rightarrow> ('l registry_state, evidence_item list) prog" where
  "call_handler env request s =
     rg_call (\<lambda>n. rv_handler env n request) (s\<lparr>rg_calls := rg_calls s @ [request]\<rparr>)"

definition guarded_read :: "read_env \<Rightarrow> read_request \<Rightarrow> ('l registry_state, read_result) prog" where
  "guarded_read env request =
     bindP (rg_call (rv_authorize env)) (\<lambda>allowed.
     if \<not> allowed then returnP (no_evidence request Read_denied)
     else
       bindP (call_handler env request) (\<lambda>evidence.
       bindP (checkP (\<not> (length evidence > 64 \<or> \<not> no_duplicates (map ev_id evidence)))
                (ValueError ''invalid evidence count'')) (\<lambda>_.
       bindP (verify_items env request evidence) (\<lambda>_.
       bindP (rg_call (rv_authorize env)) (\<lambda>still.
       if \<not> still then returnP (no_evidence request Read_denied)
       else returnP \<lparr>re_request = request, re_status = Read_ok, re_evidence = evidence\<rparr>)))))"

definition authorized_read :: "read_env \<Rightarrow> read_request \<Rightarrow> ('l registry_state, read_result) prog" where
  "authorized_read env request =
     tryP (guarded_read env request) (\<lambda>_. True)
       (\<lambda>e. returnP (no_evidence request (if is_PermissionError e then Read_denied else Read_error)))"

section \<open>Batches\<close>

text \<open>A submitted read and its deadline; \<open>None\<close> when no slot was free.\<close>

type_synonym pending_read = "read_request \<times> bool \<times> rat"

definition submit_read :: "read_env \<Rightarrow> read_request \<Rightarrow> ('l registry_state, pending_read) prog" where
  "submit_read env request =
     bindP (rg_ask (rv_monotonic env)) (\<lambda>now.
     let deadline = now + min (sp_deadline (CATALOG (rr_tool request))) (rv_ceiling env) in
     bindP (acquire_slot env) (\<lambda>started. returnP (request, started, deadline)))"

definition read_outcome :: "read_env \<Rightarrow> pending_read \<Rightarrow> ('l registry_state, read_result) prog" where
  "read_outcome env p =
     (case p of (request, started, deadline) \<Rightarrow>
        if \<not> started then returnP (no_evidence request Read_busy)
        else
          bindP (authorized_read env request) (\<lambda>result.
          bindP (rg_ask (rv_monotonic env)) (\<lambda>completed.
          bindP (rg_ask (rv_in_time env)) (\<lambda>in_time.
          returnP (if \<not> in_time \<or> completed > deadline then no_evidence request Read_timeout
                   else result)))))"

fun each_read :: "('a \<Rightarrow> ('s, 'b) prog) \<Rightarrow> 'a list \<Rightarrow> ('s, 'b list) prog" where
  "each_read f [] = returnP []"
| "each_read f (x # xs) = bindP (f x) (\<lambda>y. bindP (each_read f xs) (\<lambda>ys. returnP (y # ys)))"

definition refresh_status :: "read_env \<Rightarrow> ('l registry_state, read_status) prog" where
  "refresh_status env =
     tryP
       (bindP (rg_call (rv_authorize env)) (\<lambda>ok. returnP (if ok then Read_ok else Read_denied)))
       (\<lambda>_. True)
       (\<lambda>e. returnP (if is_PermissionError e then Read_denied else Read_error))"

definition publication_status :: "read_env \<Rightarrow> ('l registry_state, read_status) prog" where
  "publication_status env s =
     (if rg_closed s then (Inr Read_busy, s)
      else
        bindP (acquire_slot env) (\<lambda>started.
        if \<not> started then returnP Read_busy
        else
          bindP (rg_ask (rv_monotonic env)) (\<lambda>now.
          bindP (refresh_status env) (\<lambda>status.
          bindP (rg_ask (rv_monotonic env)) (\<lambda>completed.
          bindP (rg_ask (rv_in_time env)) (\<lambda>in_time.
          returnP (if \<not> in_time then Read_timeout
                   else if completed \<le> now + min 8 (rv_ceiling env) then status
                   else Read_timeout)))))) s)"

definition publish_reads :: "read_env \<Rightarrow> read_result list \<Rightarrow> ('l registry_state, read_result list) prog" where
  "publish_reads env results =
     (if \<not> list_ex (\<lambda>r. re_status r = Read_ok) results then returnP results
      else
        bindP (publication_status env) (\<lambda>status.
        returnP (map (\<lambda>r. if re_status r = Read_ok \<and> status \<noteq> Read_ok
                          then no_evidence (re_request r) status else r) results)))"

definition on_ledger :: "('l, 'a) prog \<Rightarrow> ('l registry_state, 'a) prog" where
  "on_ledger m s = (let (x, l) = m (rg_ledger s) in (x, s\<lparr>rg_ledger := l\<rparr>))"

definition read_cost :: "read_request list \<Rightarrow> int" where
  "read_cost requests = sum_list (map (\<lambda>r. sp_backend_reads (CATALOG (rr_tool r))) requests)"

definition dispatch_reads ::
  "read_env \<Rightarrow> (read_request list \<Rightarrow> int \<Rightarrow> ('l, bool) prog) \<Rightarrow> read_request list
     \<Rightarrow> ('l registry_state, read_result list) prog" where
  "dispatch_reads env reserve requests s =
     (bindP (checkP (list_all valid_read_request requests) invalid) (\<lambda>_.
      bindP (checkP (1 \<le> length requests \<and> length requests \<le> 2 \<and> no_duplicates requests)
               (ValueError ''read batch must contain one or two distinct requests'')) (\<lambda>_.
      bindP (checkP (\<not> rg_closed s) (RuntimeError ''registry closed'')) (\<lambda>_.
      bindP (on_ledger (reserve requests (read_cost requests))) (\<lambda>granted.
      if \<not> granted then returnP (map (\<lambda>r. no_evidence r Read_exhausted) requests)
      else
        bindP (each_read (submit_read env) requests) (\<lambda>started.
        bindP (each_read (read_outcome env) started) (\<lambda>results.
        publish_reads env results)))))) s)"

definition close_registry :: "('l registry_state, unit) prog" where
  "close_registry s = (Inr (), s\<lparr>rg_closed := True\<rparr>)"

definition new_registry :: "read_env \<Rightarrow> 'l \<Rightarrow> exn + 'l registry_state" where
  "new_registry env ledger =
     bindR (check (0 < rv_ceiling env \<and> rv_ceiling env \<le> 30)
              (ValueError ''registry requires exact catalog and bounded deadline'')) (\<lambda>_.
     Inr \<lparr>rg_tick = 0, rg_busy = 0, rg_closed = False, rg_calls = [], rg_ledger = ledger\<rparr>)"

section \<open>What the state remembers\<close>

text \<open>Time moves on, the slots stay bounded and the ledger is left alone.\<close>

definition moves :: "'l registry_state \<Rightarrow> 'l registry_state \<Rightarrow> bool" where
  "moves s s' \<longleftrightarrow>
     rg_tick s \<le> rg_tick s' \<and> (rg_busy s \<le> 2 \<longrightarrow> rg_busy s' \<le> 2) \<and> rg_ledger s' = rg_ledger s
     \<and> rg_closed s' = rg_closed s"

definition silent :: "'l registry_state \<Rightarrow> 'l registry_state \<Rightarrow> bool" where
  "silent s s' \<longleftrightarrow> moves s s' \<and> rg_calls s' = rg_calls s"

lemma moves_trans: "moves a b \<Longrightarrow> moves b c \<Longrightarrow> moves a c"
  by (auto simp: moves_def)

lemma silent_trans: "silent a b \<Longrightarrow> silent b c \<Longrightarrow> silent a c"
  by (auto simp: silent_def intro: moves_trans)

lemma silent_refl [simp]: "silent s s" "moves s s"
  by (simp_all add: silent_def moves_def)

lemma silent_rules [intro!]:
  "keeps silent (rg_ask f)" "keeps silent (rg_call g)" "keeps silent (acquire_slot env)"
  "keeps silent (returnP x)" "keeps silent (raiseP e)" "keeps silent (checkP b e)"
  "keeps silent (Pair r)"
  by (auto simp: keeps_def silent_def moves_def rg_ask_def rg_call_def acquire_slot_def Let_def)

lemma silent_bindP [intro!]:
  "keeps silent m \<Longrightarrow> (\<And>x. keeps silent (f x)) \<Longrightarrow> keeps silent (bindP m f)"
  by (rule keeps_bindP) (auto intro: silent_trans)

lemma silent_tryP [intro!]:
  "keeps silent m \<Longrightarrow> (\<And>e. keeps silent (h e)) \<Longrightarrow> keeps silent (tryP m p h)"
  by (rule keeps_tryP) (auto intro: silent_trans)

lemma silent_verify [intro!]: "keeps silent (verify_items env request items)"
  by (induction items) (auto simp: verify_item_def)

lemma silent_submit [intro!]: "keeps silent (submit_read env request)"
  by (auto simp: submit_read_def Let_def)

lemma silent_each_read [intro!]: "(\<And>x. keeps silent (f x)) \<Longrightarrow> keeps silent (each_read f xs)"
  by (induction xs) auto

lemma silent_publication: "keeps silent (publication_status env)"
proof -
  have "keeps silent (bindP (acquire_slot env) (\<lambda>started.
        if \<not> started then returnP Read_busy
        else bindP (rg_ask (rv_monotonic env)) (\<lambda>now.
          bindP (refresh_status env) (\<lambda>status.
          bindP (rg_ask (rv_monotonic env)) (\<lambda>completed.
          bindP (rg_ask (rv_in_time env)) (\<lambda>in_time.
          returnP (if \<not> in_time then Read_timeout
                   else if completed \<le> now + min 8 (rv_ceiling env) then status else Read_timeout)))))))"
    by (auto simp: refresh_status_def)
  then show ?thesis by (auto simp: keeps_def publication_status_def)
qed

lemma silent_publish [intro!]: "keeps silent (publish_reads env results)"
  by (auto simp: publish_reads_def intro: silent_publication)

lemmas silentD = keepsD [of silent]

text \<open>A read calls its reader at most once, for its own request.\<close>

definition may_call :: "read_request \<Rightarrow> 'l registry_state \<Rightarrow> 'l registry_state \<Rightarrow> bool" where
  "may_call request s s' \<longleftrightarrow>
     moves s s' \<and> (rg_calls s' = rg_calls s \<or> rg_calls s' = rg_calls s @ [request])"

lemma silent_may_call: "silent a b \<Longrightarrow> may_call r b c \<Longrightarrow> may_call r a c"
    "may_call r a b \<Longrightarrow> silent b c \<Longrightarrow> may_call r a c"
  by (auto simp: silent_def may_call_def intro: moves_trans)

lemma may_call_before:
  assumes "keeps silent m" and "\<And>x. keeps (may_call r) (f x)"
  shows "keeps (may_call r) (bindP m f)"
  using assms unfolding keeps_def bindP_def
  by (auto split: prod.splits sum.splits)
     (metis silent_may_call(1) snd_conv silent_def may_call_def)+

lemma may_call_after:
  assumes "keeps (may_call r) m" and "\<And>x. keeps silent (f x)"
  shows "keeps (may_call r) (bindP m f)"
  using assms unfolding keeps_def bindP_def
  by (auto split: prod.splits sum.splits) (metis silent_may_call(2) snd_conv)+

lemma keeps_silent_may_call: "keeps silent m \<Longrightarrow> keeps (may_call r) m"
  by (auto simp: keeps_def silent_def may_call_def)

lemma authorized_read_state: "snd (authorized_read env request s) = snd (guarded_read env request s)"
  by (simp add: authorized_read_def tryP_def split: prod.splits sum.splits)

lemma may_call_read: "keeps (may_call request) (authorized_read env request)"
proof -
  have call: "keeps (may_call request) (call_handler env request)"
    by (simp add: keeps_def may_call_def moves_def call_handler_def rg_call_def)
  have guarded: "keeps (may_call request) (guarded_read env request)"
    unfolding guarded_read_def
    by (rule may_call_before, blast, split if_split, intro conjI impI)
       (rule keeps_silent_may_call, blast, rule may_call_after [OF call], auto)
  show ?thesis
    using guarded by (simp add: keeps_def authorized_read_state)
qed

lemma may_call_outcome: "keeps (may_call (fst p)) (read_outcome env p)"
proof -
  obtain request started deadline where p: "p = (request, started, deadline)" by (cases p)
  show ?thesis unfolding p read_outcome_def prod.case fst_conv
    by (split if_split, intro conjI impI)
       (rule keeps_silent_may_call, blast, rule may_call_after [OF may_call_read], blast)
qed

lemma each_outcome_calls:
  assumes "each_read (read_outcome env) ps s = (x, s')"
  shows "moves s s' \<and> (\<exists>rs. subseq rs (map fst ps) \<and> rg_calls s' = rg_calls s @ rs)"
  using assms
proof (induction ps arbitrary: s x s')
  case (Cons p ps)
  obtain y s1 where y: "read_outcome env p s = (y, s1)" by force
  have one: "may_call (fst p) s s1" using keepsD [OF may_call_outcome y] .
  show ?case
  proof (cases y)
    case (Inl e)
    with Cons.prems y have "s' = s1" by (simp add: bindP_def)
    with one show ?thesis
      by (auto simp: may_call_def intro: exI [of _ "[]"] exI [of _ "[fst p]"])
  next
    case (Inr v)
    obtain z s2 where z: "each_read (read_outcome env) ps s1 = (z, s2)" by force
    with Cons.prems y Inr have "s' = s2" by (auto simp: bindP_def split: sum.splits)
    with Cons.IH [OF z] obtain rs where "moves s1 s'" "subseq rs (map fst ps)"
        "rg_calls s' = rg_calls s1 @ rs" by auto
    with one show ?thesis
      by (auto simp: may_call_def intro: moves_trans exI [of _ rs] exI [of _ "fst p # rs"])
  qed
qed (auto intro: exI [of _ "[]"])

section \<open>What an OK result means\<close>

definition vetted_item :: "read_env \<Rightarrow> read_request \<Rightarrow> evidence_item \<Rightarrow> bool" where
  "vetted_item env request item \<longleftrightarrow>
     ev_incident item = rv_incident env \<and> ev_resource item = rr_service request
     \<and> (\<exists>n. rv_verify env n item = Inr ())"

text \<open>Authority before and after the reader call, all before call number \<open>k\<close>.\<close>

definition vetted_read :: "read_env \<Rightarrow> nat \<Rightarrow> read_result \<Rightarrow> bool" where
  "vetted_read env k r \<longleftrightarrow>
     (\<exists>n m. n < m \<and> m < k \<and> rv_authorize env n = Inr True \<and> rv_authorize env m = Inr True
        \<and> rv_handler env (Suc n) (re_request r) = Inr (re_evidence r))
     \<and> length (re_evidence r) \<le> 64 \<and> distinct (map ev_id (re_evidence r))
     \<and> list_all (vetted_item env (re_request r)) (re_evidence r)"

definition sound_result :: "read_env \<Rightarrow> nat \<Rightarrow> read_request \<Rightarrow> read_result \<Rightarrow> bool" where
  "sound_result env k request r \<longleftrightarrow>
     re_request r = request
     \<and> (if re_status r = Read_ok then vetted_read env k r else re_evidence r = [])"

lemma vetted_mono: "vetted_read env k r \<Longrightarrow> k \<le> k' \<Longrightarrow> vetted_read env k' r"
  by (fastforce simp: vetted_read_def)

lemma sound_mono: "sound_result env k q r \<Longrightarrow> k \<le> k' \<Longrightarrow> sound_result env k' q r"
  by (auto simp: sound_result_def intro: vetted_mono split: if_splits)

lemma verify_items_Inr:
  "verify_items env request items s = (Inr u, s') \<Longrightarrow> list_all (vetted_item env request) items"
  by (induction items arbitrary: s)
     (auto simp: bindP_Inr_iff verify_item_def vetted_item_def rg_call_def)

lemma guarded_read_Inr:
  assumes "guarded_read env request s = (Inr r, s')"
  shows "sound_result env (rg_tick s') request r"
proof -
  from assms obtain allowed s1 where s1: "rg_call (rv_authorize env) s = (Inr allowed, s1)"
    by (auto simp: guarded_read_def bindP_Inr_iff)
  show ?thesis
  proof (cases "allowed")
    case False
    with assms s1 show ?thesis
      by (auto simp: guarded_read_def bindP_def sound_result_def no_evidence_def)
  next
    case True
    with assms s1 have "bindP (call_handler env request) (\<lambda>evidence.
       bindP (checkP (\<not> (length evidence > 64 \<or> \<not> no_duplicates (map ev_id evidence)))
                (ValueError ''invalid evidence count'')) (\<lambda>_.
       bindP (verify_items env request evidence) (\<lambda>_.
       bindP (rg_call (rv_authorize env)) (\<lambda>still.
       if \<not> still then returnP (no_evidence request Read_denied)
       else returnP \<lparr>re_request = request, re_status = Read_ok, re_evidence = evidence\<rparr>)))) s1 = (Inr r, s')"
      by (simp add: guarded_read_def bindP_def)
    then obtain evidence s2 s3 still s4 where
        s2: "call_handler env request s1 = (Inr evidence, s2)"
        and bounds: "length evidence \<le> 64" "distinct (map ev_id evidence)"
        and s3: "verify_items env request evidence s2 = (Inr (), s3)"
        and s4: "rg_call (rv_authorize env) s3 = (Inr still, s4)"
        and r: "s' = s4" "r = (if still then \<lparr>re_request = request, re_status = Read_ok, re_evidence = evidence\<rparr>
              else no_evidence request Read_denied)"
      unfolding bindP_Inr_iff by (auto split: if_splits)
    have ticks: "rg_tick s2 = rg_tick s + 2" "rg_tick s2 \<le> rg_tick s3"
      using s1 s2 silentD [OF silent_verify s3]
      by (auto simp: call_handler_def rg_call_def silent_def moves_def)
    have "rv_authorize env (rg_tick s) = Inr True" "rv_handler env (Suc (rg_tick s)) request = Inr evidence"
      using s1 s2 True by (auto simp: call_handler_def rg_call_def)
    moreover have "rv_authorize env (rg_tick s3) = Inr still" "rg_tick s4 = Suc (rg_tick s3)"
      using s4 by (auto simp: rg_call_def)
    ultimately have "vetted_read env (rg_tick s') r" if "still"
      using that ticks bounds r verify_items_Inr [OF s3]
      unfolding vetted_read_def
      by (intro conjI exI [of _ "rg_tick s"] exI [of _ "rg_tick s3"]) simp_all
    with r show ?thesis by (auto simp: sound_result_def no_evidence_def)
  qed
qed

lemma authorized_read_Inr:
  assumes "authorized_read env request s = (Inr r, s')"
  shows "sound_result env (rg_tick s') request r"
  using assms guarded_read_Inr [of env request s r s']
  by (auto simp: authorized_read_def tryP_Inr_iff sound_result_def no_evidence_def split: if_splits)

lemma outcome_Inr:
  assumes "read_outcome env p s = (Inr r, s')"
  shows "sound_result env (rg_tick s') (fst p) r"
proof -
  obtain request started deadline where p: "p = (request, started, deadline)" by (cases p)
  show ?thesis
  proof (cases started)
    case False
    with assms p show ?thesis by (auto simp: read_outcome_def sound_result_def no_evidence_def)
  next
    case True
    with assms p obtain result s1 where s1: "authorized_read env request s = (Inr result, s1)"
        and r: "rg_tick s1 \<le> rg_tick s'" "r = result \<or> r = no_evidence request Read_timeout"
      by (auto simp: read_outcome_def bindP_Inr_iff rg_ask_def split: if_splits)
    from authorized_read_Inr [OF s1] r p show ?thesis
      by (auto intro: vetted_mono simp: sound_result_def no_evidence_def)
  qed
qed

lemma each_outcome_Inr:
  assumes "each_read (read_outcome env) ps s = (Inr rs, s')"
  shows "list_all2 (sound_result env (rg_tick s')) (map fst ps) rs"
  using assms
proof (induction ps arbitrary: s rs)
  case (Cons p ps)
  then obtain r s1 rs' where r: "read_outcome env p s = (Inr r, s1)"
      "each_read (read_outcome env) ps s1 = (Inr rs', s')" "rs = r # rs'"
    by (auto simp: bindP_Inr_iff)
  have "rg_tick s1 \<le> rg_tick s'" using each_outcome_calls [OF r(2)] by (simp add: moves_def)
  with outcome_Inr [OF r(1)] Cons.IH [OF r(2)] r(3) show ?case by (auto intro: sound_mono)
qed simp

lemma submit_requests:
  "each_read (submit_read env) qs s = (Inr ps, s') \<Longrightarrow> map fst ps = qs"
proof (induction qs arbitrary: s ps)
  case (Cons q qs)
  then obtain p s1 ps' where "submit_read env q s = (Inr p, s1)"
      "each_read (submit_read env) qs s1 = (Inr ps', s')" "ps = p # ps'"
    by (auto simp: bindP_Inr_iff)
  moreover from this(1) have "fst p = q" by (auto simp: submit_read_def bindP_Inr_iff Let_def)
  ultimately show ?case using Cons.IH by simp
qed simp

lemma refresh_ok:
  "refresh_status env s = (Inr Read_ok, s') \<Longrightarrow> rv_authorize env (rg_tick s) = Inr True"
  by (auto simp: refresh_status_def tryP_Inr_iff bindP_Inr_iff rg_call_def split: if_splits)

text \<open>Publication requires one more grant, read after every result.\<close>

lemma publication_ok:
  assumes "publication_status env s = (Inr Read_ok, s')"
  shows "\<exists>k \<ge> rg_tick s. rv_authorize env k = Inr True"
proof -
  from assms obtain started s1 where s1: "acquire_slot env s = (Inr started, s1)" and "started"
    by (auto simp: publication_status_def bindP_Inr_iff split: if_splits)
  with assms obtain now s2 s3 where s2: "rg_ask (rv_monotonic env) s1 = (Inr now, s2)"
      "refresh_status env s2 = (Inr Read_ok, s3)"
    by (auto simp: publication_status_def bindP_Inr_iff split: if_splits)
  have "rg_tick s \<le> rg_tick s2"
    using s1 s2(1) silentD [OF silent_rules(3) s1] by (auto simp: rg_ask_def silent_def moves_def)
  with refresh_ok [OF s2(2)] show ?thesis by blast
qed

definition published :: "read_env \<Rightarrow> read_request \<Rightarrow> read_result \<Rightarrow> bool" where
  "published env request r \<longleftrightarrow>
     re_request r = request
     \<and> (if re_status r = Read_ok then \<exists>k. vetted_read env k r \<and> (\<exists>l \<ge> k. rv_authorize env l = Inr True)
        else re_evidence r = [])"

lemma publish_Inr:
  assumes "publish_reads env rs s = (Inr out, s')" and "list_all2 (sound_result env (rg_tick s)) qs rs"
  shows "list_all2 (published env) qs out"
proof (cases "list_ex (\<lambda>r. re_status r = Read_ok) rs")
  case False
  then have "r \<in> set rs \<Longrightarrow> re_status r \<noteq> Read_ok" for r by (auto simp: list_ex_iff)
  moreover have "out = rs" using assms(1) False by (simp add: publish_reads_def)
  ultimately show ?thesis using assms(2)
    by (auto simp: published_def sound_result_def elim!: list.rel_mono_strong)
next
  case True
  with assms(1) obtain st s1 where st: "publication_status env s = (Inr st, s1)"
      and out: "out = map (\<lambda>r. if re_status r = Read_ok \<and> st \<noteq> Read_ok
                          then no_evidence (re_request r) st else r) rs"
    by (auto simp: publish_reads_def bindP_Inr_iff)
  have grant: "st = Read_ok \<Longrightarrow> \<exists>k \<ge> rg_tick s. rv_authorize env k = Inr True"
    using st publication_ok by blast
  show ?thesis unfolding out list.rel_map
    using assms(2) by (rule list.rel_mono_strong)
       (use grant in \<open>auto simp: published_def sound_result_def no_evidence_def\<close>)
qed

lemma dispatch_reads_cases:
  assumes "dispatch_reads env reserve qs s = (x, s')"
  obtains (refused) "rg_calls s' = rg_calls s" "rg_busy s' = rg_busy s"
      "rg_ledger s' = rg_ledger s \<or> (\<exists>y. reserve qs (read_cost qs) (rg_ledger s) = (y, rg_ledger s'))"
      "\<And>out. x = Inr out \<Longrightarrow> out = map (\<lambda>r. no_evidence r Read_exhausted) qs"
  | (granted) l y s1 where "reserve qs (read_cost qs) (rg_ledger s) = (Inr True, l)"
      "list_all valid_read_request qs" "length qs \<le> 2" "distinct qs"
      "each_read (submit_read env) qs (s\<lparr>rg_ledger := l\<rparr>) = (y, s1)"
      "bindP (each_read (submit_read env) qs) (\<lambda>started.
        bindP (each_read (read_outcome env) started) (publish_reads env)) (s\<lparr>rg_ledger := l\<rparr>) = (x, s')"
proof (cases "list_all valid_read_request qs \<and> 1 \<le> length qs \<and> length qs \<le> 2 \<and> distinct qs \<and> \<not> rg_closed s")
  case False
  with assms show thesis by (intro refused) (auto simp: dispatch_reads_def bindP_def check_def split: if_splits)
next
  case True
  obtain g l where g: "reserve qs (read_cost qs) (rg_ledger s) = (g, l)" by force
  show thesis
  proof (cases "g = Inr True")
    case False
    then show thesis using assms g True
      by (intro refused)
         (auto simp: dispatch_reads_def bindP_def on_ledger_def split: sum.splits if_splits)
  next
    case gr: True
    obtain y s1 where "each_read (submit_read env) qs (s\<lparr>rg_ledger := l\<rparr>) = (y, s1)" by force
    moreover have "bindP (each_read (submit_read env) qs) (\<lambda>started.
        bindP (each_read (read_outcome env) started) (publish_reads env)) (s\<lparr>rg_ledger := l\<rparr>) = (x, s')"
      using assms g gr True by (simp add: dispatch_reads_def bindP_def on_ledger_def)
    ultimately show thesis using g gr True by (intro granted) auto
  qed
qed

lemma dispatch_moves:
  "keeps moves (bindP (each_read (submit_read env) qs) (\<lambda>started.
     bindP (each_read (read_outcome env) started) (publish_reads env)))"
proof -
  have "keeps moves (each_read (submit_read env) qs)" "\<And>rs. keeps moves (publish_reads env rs)"
    using silent_each_read [of "submit_read env" qs, OF silent_submit] silent_publish [of env]
    by (auto simp: keeps_def silent_def)
  moreover have "keeps moves (each_read (read_outcome env) started)" for started
    unfolding keeps_def using each_outcome_calls by (metis prod.collapse)
  ultimately show ?thesis by (intro keeps_bindP) (auto intro: moves_trans)
qed

lemma dispatch_slots:
  assumes "dispatch_reads env reserve qs s = (x, s')" and "rg_busy s \<le> 2"
  shows "rg_busy s' \<le> 2"
  using assms(1)
proof (cases rule: dispatch_reads_cases)
  case (granted l y s1)
  from keepsD [OF dispatch_moves granted(6)] assms(2) show ?thesis by (simp add: moves_def)
qed (use assms(2) in simp)

text \<open>The ledger is touched by the reservation alone.\<close>

lemma dispatch_ledger:
  assumes "dispatch_reads env reserve qs s = (x, s')"
  shows "rg_ledger s' = rg_ledger s \<or> (\<exists>y. reserve qs (read_cost qs) (rg_ledger s) = (y, rg_ledger s'))"
    and "reserve qs (read_cost qs) (rg_ledger s) = (Inr True, l) \<Longrightarrow> rg_calls s' \<noteq> rg_calls s \<Longrightarrow> rg_ledger s' = l"
  using assms
proof (atomize (full), cases rule: dispatch_reads_cases)
  case refused
  then show "(rg_ledger s' = rg_ledger s \<or> (\<exists>y. reserve qs (read_cost qs) (rg_ledger s) = (y, rg_ledger s'))) \<and>
      (reserve qs (read_cost qs) (rg_ledger s) = (Inr True, l) \<longrightarrow> rg_calls s' \<noteq> rg_calls s \<longrightarrow> rg_ledger s' = l)"
    by simp
next
  case (granted l' y s1)
  from keepsD [OF dispatch_moves granted(6)] granted(1)
  show "(rg_ledger s' = rg_ledger s \<or> (\<exists>y. reserve qs (read_cost qs) (rg_ledger s) = (y, rg_ledger s'))) \<and>
      (reserve qs (read_cost qs) (rg_ledger s) = (Inr True, l) \<longrightarrow> rg_calls s' \<noteq> rg_calls s \<longrightarrow> rg_ledger s' = l)"
    by (simp add: moves_def)
qed

lemma dispatch_calls:
  assumes "dispatch_reads env reserve qs s = (x, s')"
  shows "rg_calls s' = rg_calls s
    \<or> (\<exists>l rs. reserve qs (read_cost qs) (rg_ledger s) = (Inr True, l) \<and> distinct qs \<and> length qs \<le> 2
         \<and> list_all valid_read_request qs \<and> subseq rs qs \<and> rg_calls s' = rg_calls s @ rs)"
  using assms
proof (cases rule: dispatch_reads_cases)
  case (granted l y s1)
  have s1: "rg_calls s1 = rg_calls s"
    using silentD [OF silent_each_read [OF silent_submit] granted(5)] by (simp add: silent_def)
  show ?thesis
  proof (cases y)
    case (Inl e)
    with granted have "s' = s1" by (simp add: bindP_def)
    with s1 show ?thesis by simp
  next
    case (Inr started)
    obtain z s2 where z: "each_read (read_outcome env) started s1 = (z, s2)" by force
    obtain rs where rs: "subseq rs qs" "rg_calls s2 = rg_calls s1 @ rs"
      using each_outcome_calls [OF z] submit_requests granted(5) Inr by blast
    have "rg_calls s' = rg_calls s2"
    proof (cases z)
      case (Inl e)
      with granted Inr z show ?thesis by (simp add: bindP_def)
    next
      case z2: (Inr results)
      with granted Inr z have "publish_reads env results s2 = (x, s')" by (simp add: bindP_def)
      from silentD [OF silent_publish this] show ?thesis by (simp add: silent_def)
    qed
    with rs s1 granted(1-4) show ?thesis by auto
  qed
qed simp

lemma dispatch_ok:
  assumes "dispatch_reads env reserve qs s = (Inr out, s')"
  shows "list_all2 (published env) qs out"
  using assms
proof (cases rule: dispatch_reads_cases)
  case refused
  then have "out = map (\<lambda>r. no_evidence r Read_exhausted) qs" by simp
  then show ?thesis by (simp add: list.rel_map list.rel_refl published_def no_evidence_def)
next
  case (granted l y s1)
  then obtain started results s2 where run: "y = Inr started"
      "each_read (read_outcome env) started s1 = (Inr results, s2)" "publish_reads env results s2 = (Inr out, s')"
    by (auto simp: bindP_Inr_iff)
  have "map fst started = qs" using submit_requests granted(5) run(1) by blast
  with each_outcome_Inr [OF run(2)] have "list_all2 (sound_result env (rg_tick s2)) qs results" by simp
  from publish_Inr [OF run(3) this] show ?thesis .
qed

section \<open>Properties\<close>

definition sample_log_item :: "string \<Rightarrow> evidence_item" where
  "sample_log_item service =
     \<lparr>ev_id = ''ev-1'', ev_incident = ''inc-1'', ev_source = LOG, ev_observed = 5, ev_collected = 5,
      ev_query = ''logs'', ev_resource = service, ev_uri = ''u'', ev_sha256 = ''d'', ev_summary = ''errors''\<rparr>"

definition sample_read_env :: read_env where
  "sample_read_env =
     \<lparr>rv_handler = (\<lambda>_ r. Inr [sample_log_item (rr_service r)]), rv_authorize = (\<lambda>_. Inr True),
      rv_verify = (\<lambda>_ _. Inr ()), rv_monotonic = (\<lambda>_. 0), rv_finished = (\<lambda>_. 2), rv_in_time = (\<lambda>_. True),
      rv_incident = ''inc-1'', rv_ceiling = 30\<rparr>"

definition sample_read :: read_request where
  "sample_read = \<lparr>rr_tool = Recent_logs, rr_service = ''payments-api'', rr_query = None\<rparr>"

definition sample_registry :: "int registry_state" where
  "sample_registry = \<lparr>rg_tick = 0, rg_busy = 0, rg_closed = False, rg_calls = [], rg_ledger = 5\<rparr>"

definition sample_reserve :: "read_request list \<Rightarrow> int \<Rightarrow> (int, bool) prog" where
  "sample_reserve qs cost left = (if cost \<le> left then (Inr True, left - cost) else (Inr False, left))"

lemma sample_dispatch:
  "\<exists>out s'. dispatch_reads sample_read_env sample_reserve [sample_read] sample_registry = (Inr out, s')
     \<and> rg_calls s' = [sample_read] \<and> map re_status out = [Read_ok]"
proof -
  have "valid_read_request sample_read"
    by (simp add: valid_read_request_def sample_read_def SERVICE_NAMES_def)
  moreover have "ev_incident (sample_log_item z) = ''inc-1''" "ev_resource (sample_log_item z) = z" for z
    by (simp_all add: sample_log_item_def)
  ultimately show ?thesis
    by (auto simp: dispatch_reads_def bindP_def on_ledger_def sample_reserve_def read_cost_def
        submit_read_def rg_ask_def acquire_slot_def read_outcome_def authorized_read_def tryP_def
        guarded_read_def rg_call_def call_handler_def verify_item_def publish_reads_def publication_status_def
        refresh_status_def sample_registry_def sample_read_env_def Let_def)
      (simp_all add: sample_read_def)
qed

text \<open>C34: A batch of reads touches no reader before it is paid for and publishes nothing unvetted. Any
  reader call of a dispatch was preceded by a granted reservation of the whole batch, one or two
  distinct valid requests, at the sum of their catalog costs, and each request is read at most once;
  the two slots are never exceeded; and the results answer the requests in order, an OK result carrying
  exactly what the reader returned: at most 64 distinct items of this incident and of the requested
  service, each verified, with authority granted before the read, after the verification and once more
  at publication, every other result carrying no evidence.\<close>

theorem reads_are_reserved_and_vetted:
  assumes "dispatch_reads env reserve qs s = (x, s')" and "rg_busy s \<le> 2"
  shows "(rg_calls s' = rg_calls s
      \<or> (\<exists>l rs. reserve qs (read_cost qs) (rg_ledger s) = (Inr True, l) \<and> distinct qs \<and> length qs \<le> 2
           \<and> list_all valid_read_request qs \<and> subseq rs qs \<and> rg_calls s' = rg_calls s @ rs))
    \<and> rg_busy s' \<le> 2 \<and> pred_option (list_all2 (published env) qs) (case x of Inr out \<Rightarrow> Some out | Inl _ \<Rightarrow> None)"
  using dispatch_calls [OF assms(1)] dispatch_slots [OF assms] dispatch_ok [of env reserve qs s _ s'] assms(1)
  by (auto split: sum.splits)

theorem reads_are_reserved_and_vetted_witness:
  "\<exists>out s'. dispatch_reads sample_read_env sample_reserve [sample_read] sample_registry = (Inr out, s')
     \<and> rg_calls s' = [sample_read] \<and> rg_busy s' \<le> 2 \<and> list_all2 (published sample_read_env) [sample_read] out"
proof -
  obtain out s' where run: "dispatch_reads sample_read_env sample_reserve [sample_read] sample_registry = (Inr out, s')"
      "rg_calls s' = [sample_read]"
    using sample_dispatch by blast
  have "rg_busy sample_registry \<le> 2" by (simp add: sample_registry_def)
  from reads_are_reserved_and_vetted [OF run(1) this] run show ?thesis by auto
qed

end
