(* ===== verification/ModelRuntime.thy ===== *)
theory ModelRuntime
  imports Registry
begin

text \<open>
  The provider boundary: \<^verbatim>\<open>src/payops/orchestrator/model_runtime.py\<close>.

  The adapter, the identity refresh and the monotonic clock are the environment \<open>model_env\<close>; each
  answer takes the number of the call. A staged adapter counts tokens, asks the runtime's hook and
  generates only when the hook returned true, as both staged adapters of the repository do. The JSON
  reader of \<open>parse_decision\<close> is the parameter \<open>loads\<close>. Generation calls are recorded in the state. The
  single slot of the semaphore is the flag \<open>ms_busy\<close>, and the environment says when late work has given
  it back. Tracing is left out.

  Main facts: nothing is generated without a stage grant given just before (\<open>invoke_contract\<close>), and an
  observation with a decision carries a grounded decision and a usage within the reserved prompt and
  the output limit (\<open>observe_contract\<close>).
\<close>

section \<open>Data\<close>

datatype model_mode = Fixture | Provider

record model_settings =
  se_provider :: string
  se_model :: string
  se_mode :: model_mode
  se_input_limit :: int
  se_output_limit :: int
  se_timeout :: rat
  se_price :: text_price
  se_accounting :: token_accounting

definition validate_settings :: "model_settings \<Rightarrow> exn + model_settings" where
  "validate_settings s =
     bindR (check (is_identifier (se_provider s) \<and> 1 \<le> length (se_model s) \<and> length (se_model s) \<le> 200
                   \<and> between 1 100000 (se_input_limit s) \<and> between 1 16384 (se_output_limit s)
                   \<and> 0 < se_timeout s \<and> se_timeout s \<le> 30 \<and> valid_price (se_price s)) invalid) (\<lambda>_.
     bindR (check ((se_mode s = Provider) = (se_accounting s = Provider_ceiling))
              (ValueError ''model mode and token accounting differ'')) (\<lambda>_.
     Inr s))"

text \<open>The two messages are the system instruction and the user data, in this order.\<close>

record model_prompt =
  mp_system :: string
  mp_user :: string
  mp_input :: int
  mp_accounting :: token_accounting

definition is_message :: "string \<Rightarrow> bool" where
  "is_message s \<longleftrightarrow> 1 \<le> length s \<and> length s \<le> 32768"

definition validate_prompt :: "model_prompt \<Rightarrow> exn + model_prompt" where
  "validate_prompt p =
     bindR (check (is_message (mp_system p) \<and> is_message (mp_user p) \<and> between 0 100000 (mp_input p)) invalid)
       (\<lambda>_. Inr p)"

record provider_details =
  pd_counted :: int
  pd_count_seconds :: rat
  pd_generation_seconds :: rat
  pd_shape :: string
  pd_refusal :: bool

definition valid_details :: "provider_details \<Rightarrow> bool" where
  "valid_details d \<longleftrightarrow>
     between 0 100000 (pd_counted d) \<and> 0 \<le> pd_count_seconds d \<and> 0 \<le> pd_generation_seconds d
     \<and> is_digest (pd_shape d)"

datatype model_status = Ob_ok | Ob_refused | Ob_invalid | Ob_error | Ob_timeout | Ob_denied | Ob_busy

record model_observation =
  ob_status :: model_status
  ob_decision :: "reasoning_decision option"
  ob_usage :: "token_usage option"
  ob_seconds :: "rat option"
  ob_digest :: "string option"
  ob_details :: "provider_details option"

definition coherent_observation :: "model_observation \<Rightarrow> exn + model_observation" where
  "coherent_observation ob =
     bindR (check ((ob_status ob \<in> {Ob_ok, Ob_refused}) = (ob_decision ob \<noteq> None))
              (ValueError ''model outcome and decision disagree'')) (\<lambda>_.
     bindR (check (case ob_decision ob of None \<Rightarrow> True
                   | Some d \<Rightarrow> (rd_decision d = Refuse) = (ob_status ob = Ob_refused))
              (ValueError ''refusal status differs from structured decision'')) (\<lambda>_.
     Inr ob))"

definition validate_observation :: "model_observation \<Rightarrow> exn + model_observation" where
  "validate_observation ob =
     bindR (check (pred_option (\<lambda>s. 0 \<le> s) (ob_seconds ob) \<and> pred_option is_digest (ob_digest ob)
                   \<and> pred_option valid_details (ob_details ob)
                   \<and> pred_option (\<lambda>u. validate_usage u = Inr u) (ob_usage ob)
                   \<and> pred_option (\<lambda>d. validate_decision d = Inr d) (ob_decision ob)) invalid) (\<lambda>_.
     coherent_observation ob)"

definition bare_observation :: "model_status \<Rightarrow> model_observation" where
  "bare_observation st =
     \<lparr>ob_status = st, ob_decision = None, ob_usage = None, ob_seconds = None, ob_digest = None,
      ob_details = None\<rparr>"

section \<open>Environment\<close>

text \<open>A message has text content or something else (\<open>None\<close>), and the adapter's readings of it.\<close>

record ai_message =
  am_content :: "string option"
  am_usage :: "exn + token_usage option"
  am_details :: "exn + provider_details"

record model_env =
  me_settings :: "nat \<Rightarrow> model_settings"
  me_authorize :: "nat \<Rightarrow> exn + bool"
  me_monotonic :: "nat \<Rightarrow> rat"
  me_in_time :: "nat \<Rightarrow> bool"
  me_released :: "nat \<Rightarrow> bool"
  me_count :: "nat \<Rightarrow> model_prompt \<Rightarrow> exn + int"
  me_staged :: bool
  me_remote_count :: "nat \<Rightarrow> model_prompt \<Rightarrow> exn + json"
  me_generate :: "nat \<Rightarrow> model_prompt \<Rightarrow> int \<Rightarrow> exn + ai_message"

record model_state =
  ms_tick :: nat
  ms_busy :: bool
  ms_closed :: bool
  ms_generated :: "nat list"

definition ms_ask :: "(nat \<Rightarrow> 'a) \<Rightarrow> (model_state, 'a) prog" where
  "ms_ask f s = (Inr (f (ms_tick s)), s\<lparr>ms_tick := Suc (ms_tick s)\<rparr>)"

definition ms_call :: "(nat \<Rightarrow> exn + 'a) \<Rightarrow> (model_state, 'a) prog" where
  "ms_call f s = (f (ms_tick s), s\<lparr>ms_tick := Suc (ms_tick s)\<rparr>)"

definition take_slot :: "model_env \<Rightarrow> (model_state, bool) prog" where
  "take_slot env s =
     (if ms_busy s \<and> \<not> me_released env (ms_tick s)
      then (Inr False, s\<lparr>ms_tick := Suc (ms_tick s)\<rparr>)
      else (Inr True, s\<lparr>ms_tick := Suc (ms_tick s), ms_busy := True\<rparr>))"

section \<open>Preparation and authority\<close>

definition prepare_prompt ::
  "model_env \<Rightarrow> model_settings \<Rightarrow> string \<Rightarrow> string \<Rightarrow> (model_state, model_prompt) prog" where
  "prepare_prompt env settings system data =
     bindP (liftR (validate_prompt \<lparr>mp_system = system, mp_user = data, mp_input = 0,
                                    mp_accounting = se_accounting settings\<rparr>)) (\<lambda>provisional.
     bindP (ms_call (\<lambda>n. me_count env n provisional)) (\<lambda>count.
     bindP (liftR (validate_prompt (provisional\<lparr>mp_input := count\<rparr>))) (\<lambda>p.
     bindP (checkP (\<not> (mp_input p > se_input_limit settings
                        \<or> se_accounting settings = Provider_ceiling
                           \<and> mp_input p \<noteq> se_input_limit settings))
              (ValueError ''prepared prompt exceeds model input allowance'')) (\<lambda>_.
     returnP p))))"

datatype authority = Granted | Stopped model_status

definition timed_authority :: "model_env \<Rightarrow> model_settings \<Rightarrow> (model_state, authority) prog" where
  "timed_authority env settings =
     bindP (ms_ask (me_monotonic env)) (\<lambda>now.
     bindP (ms_call (me_authorize env)) (\<lambda>allowed.
     bindP (ms_ask (me_monotonic env)) (\<lambda>completed.
     bindP (ms_ask (me_in_time env)) (\<lambda>in_time.
     returnP (if \<not> in_time \<or> completed > now + min 8 (se_timeout settings) then Stopped Ob_timeout
              else if allowed then Granted else Stopped Ob_denied)))))"

definition runtime_authority :: "model_env \<Rightarrow> model_settings \<Rightarrow> (model_state, authority) prog" where
  "runtime_authority env settings s =
     (if ms_closed s then (Inr (Stopped Ob_busy), s)
      else
        bindP (take_slot env) (\<lambda>free.
        if \<not> free then returnP (Stopped Ob_busy)
        else tryP (timed_authority env settings) (\<lambda>_. True)
               (\<lambda>_. bindP (ms_ask (me_in_time env)) (\<lambda>in_time.
                    returnP (Stopped (if in_time then Ob_error else Ob_timeout))))) s)"

section \<open>One provider call\<close>

definition stage_allowed :: "model_env \<Rightarrow> model_settings \<Rightarrow> rat \<Rightarrow> (model_state, bool) prog" where
  "stage_allowed env settings deadline =
     bindP (ms_ask (me_monotonic env)) (\<lambda>now.
     bindP (ms_ask (me_settings env)) (\<lambda>current.
     if now \<ge> deadline \<or> current \<noteq> settings then returnP False
     else
       bindP (ms_call (me_authorize env)) (\<lambda>allowed.
       bindP (ms_ask (me_monotonic env)) (\<lambda>later.
       bindP (ms_ask (me_settings env)) (\<lambda>still.
       returnP (allowed \<and> later < deadline \<and> still = settings))))))"

definition count_allowed ::
  "model_env \<Rightarrow> model_settings \<Rightarrow> model_prompt \<Rightarrow> rat \<Rightarrow> json \<Rightarrow> (model_state, bool) prog" where
  "count_allowed env settings prompt deadline count =
     bindP (checkP (case count of JInt n \<Rightarrow> 0 \<le> n \<and> n \<le> mp_input prompt | _ \<Rightarrow> False)
              (ValueError ''provider count exceeds reservation or has invalid type'')) (\<lambda>_.
     stage_allowed env settings deadline)"

definition generate :: "model_env \<Rightarrow> model_settings \<Rightarrow> model_prompt \<Rightarrow> (model_state, ai_message) prog" where
  "generate env settings prompt s =
     ms_call (\<lambda>n. me_generate env n prompt (se_output_limit settings))
       (s\<lparr>ms_generated := ms_generated s @ [ms_tick s]\<rparr>)"

definition invoke_staged ::
  "model_env \<Rightarrow> model_settings \<Rightarrow> model_prompt \<Rightarrow> rat \<Rightarrow> (model_state, ai_message) prog" where
  "invoke_staged env settings prompt deadline =
     bindP (ms_call (\<lambda>n. me_remote_count env n prompt)) (\<lambda>count.
     bindP (count_allowed env settings prompt deadline count) (\<lambda>allowed.
     if \<not> allowed then raiseP (PermissionError ''provider authority denied'')
     else generate env settings prompt))"

definition runtime_dispatch ::
  "model_env \<Rightarrow> model_settings \<Rightarrow> model_prompt \<Rightarrow> rat
     \<Rightarrow> (model_state, ai_message \<times> rat \<times> provider_details option) prog" where
  "runtime_dispatch env settings prompt deadline =
     (if se_accounting settings = Fixture_exact then
        bindP (ms_ask (me_monotonic env)) (\<lambda>started.
        bindP (generate env settings prompt) (\<lambda>message.
        bindP (ms_ask (me_monotonic env)) (\<lambda>finished.
        returnP (message, finished - started, None))))
      else
        bindP (checkP (me_staged env) (ValueError ''provider ceiling requires staged adapter'')) (\<lambda>_.
        bindP (invoke_staged env settings prompt deadline) (\<lambda>message.
        bindP (liftR (am_details message)) (\<lambda>details.
        bindP (checkP (valid_details details) invalid) (\<lambda>_.
        bindP (checkP (\<not> pd_counted details > mp_input prompt)
                 (ValueError ''provider count exceeds reserved ceiling'')) (\<lambda>_.
        returnP (message, pd_generation_seconds details, Some details)))))))"

definition decision_observation ::
  "(string \<Rightarrow> exn + json) \<Rightarrow> ai_message \<Rightarrow> token_usage option \<Rightarrow> rat \<Rightarrow> string set \<Rightarrow> string set
     \<Rightarrow> exn + model_observation" where
  "decision_observation loads message usage seconds evidence_ids causes =
     (let unread = (bare_observation Ob_invalid)\<lparr>ob_usage := usage, ob_seconds := Some seconds\<rparr> in
      case am_content message of
        None \<Rightarrow> validate_observation unread
      | Some content \<Rightarrow>
          if length content > 16384 \<or> length (utf8 content) > 16384 then validate_observation unread
          else
            (let digest = sha256_hex (utf8 content) in
             case parse_decision loads content evidence_ids causes of
               Inl e \<Rightarrow> if is_ValueError e then validate_observation (unread\<lparr>ob_digest := Some digest\<rparr>) else Inl e
             | Inr d \<Rightarrow>
                 validate_observation
                   \<lparr>ob_status = (if rd_decision d = Refuse then Ob_refused else Ob_ok), ob_decision = Some d,
                    ob_usage = usage, ob_seconds = Some seconds, ob_digest = Some digest,
                    ob_details = None\<rparr>))"

definition usage_contract ::
  "model_settings \<Rightarrow> model_prompt \<Rightarrow> provider_details option \<Rightarrow> token_usage option \<Rightarrow> bool" where
  "usage_contract settings prompt details usage \<longleftrightarrow>
     (let expected = (case details of None \<Rightarrow> mp_input prompt | Some d \<Rightarrow> pd_counted d) in
      case usage of
        None \<Rightarrow> True
      | Some u \<Rightarrow> \<not> (us_input u \<noteq> expected \<or> us_input u > mp_input prompt
                      \<or> us_output u > se_output_limit settings))"

text \<open>The part of \<^verbatim>\<open>_invoke\<close> after the first stage grant. The values that the exception handlers publish
  (\<^verbatim>\<open>usage\<close>, \<^verbatim>\<open>seconds\<close>, \<^verbatim>\<open>details\<close>) are returned beside the error.\<close>

type_synonym partial_call = "token_usage option \<times> rat option \<times> provider_details option"

definition failed_call :: "exn \<Rightarrow> partial_call \<Rightarrow> exn + model_observation" where
  "failed_call e known =
     (case known of (usage, seconds, details) \<Rightarrow>
        validate_observation
          \<lparr>ob_status = (if is_PermissionError e then Ob_denied else Ob_error), ob_decision = None,
           ob_usage = usage, ob_seconds = seconds, ob_digest = None, ob_details = details\<rparr>)"

definition judged ::
  "(string \<Rightarrow> exn + json) \<Rightarrow> model_env \<Rightarrow> model_settings \<Rightarrow> rat \<Rightarrow> string set \<Rightarrow> string set
     \<Rightarrow> ai_message \<Rightarrow> token_usage option \<Rightarrow> rat \<Rightarrow> provider_details option
     \<Rightarrow> (model_state, model_observation) prog" where
  "judged loads env settings deadline evidence_ids causes message usage seconds details =
     bindP (liftR (decision_observation loads message usage seconds evidence_ids causes)) (\<lambda>result.
     bindP (checkP (\<not> ((case details of None \<Rightarrow> False | Some d \<Rightarrow> pd_refusal d) \<and> ob_status result \<noteq> Ob_refused))
              (ValueError ''normalized provider refusal differs from parsed decision'')) (\<lambda>_.
     bindP (stage_allowed env settings deadline) (\<lambda>allowed.
     let final = (if allowed then result
                  else (bare_observation Ob_denied)\<lparr>ob_usage := usage, ob_seconds := Some seconds\<rparr>)
     in liftR (validate_observation (final\<lparr>ob_details := details\<rparr>)))))"

definition runtime_invoke ::
  "(string \<Rightarrow> exn + json) \<Rightarrow> model_env \<Rightarrow> model_settings \<Rightarrow> model_prompt \<Rightarrow> string set \<Rightarrow> string set \<Rightarrow> rat
     \<Rightarrow> (model_state, model_observation) prog" where
  "runtime_invoke loads env settings prompt evidence_ids causes deadline s =
     (case stage_allowed env settings deadline s of
        (Inl e, s1) \<Rightarrow> (failed_call e (None, None, None), s1)
      | (Inr False, s1) \<Rightarrow> (validate_observation (bare_observation Ob_denied), s1)
      | (Inr True, s1) \<Rightarrow>
          (case runtime_dispatch env settings prompt deadline s1 of
             (Inl e, s2) \<Rightarrow> (failed_call e (None, None, None), s2)
           | (Inr (message, seconds, details), s2) \<Rightarrow>
               (case bindR (am_usage message) (\<lambda>u. bindR (check (pred_option (\<lambda>x. validate_usage x = Inr x) u) invalid)
                                                     (\<lambda>_. Inr u)) of
                  Inl e \<Rightarrow> (failed_call e (None, Some seconds, details), s2)
                | Inr usage \<Rightarrow>
                    if \<not> usage_contract settings prompt details usage
                    then (failed_call (ValueError ''provider usage violates prepared token contract'')
                            (usage, Some seconds, details), s2)
                    else
                      (case judged loads env settings deadline evidence_ids causes message usage seconds details s2 of
                         (Inl e, s3) \<Rightarrow> (failed_call e (usage, Some seconds, details), s3)
                       | (Inr ob, s3) \<Rightarrow> (Inr ob, s3)))))"

definition timed_call ::
  "(string \<Rightarrow> exn + json) \<Rightarrow> model_env \<Rightarrow> model_settings \<Rightarrow> model_prompt \<Rightarrow> string set \<Rightarrow> string set
     \<Rightarrow> (model_state, model_observation) prog" where
  "timed_call loads env settings prompt evidence_ids causes =
     bindP (ms_ask (me_monotonic env)) (\<lambda>now.
     let deadline = now + se_timeout settings in
     bindP (runtime_invoke loads env settings prompt evidence_ids causes deadline) (\<lambda>ob.
     bindP (ms_ask (me_monotonic env)) (\<lambda>finished.
     bindP (ms_ask (me_in_time env)) (\<lambda>in_time.
     returnP (if \<not> in_time then bare_observation Ob_timeout
              else if finished \<le> deadline then ob else bare_observation Ob_timeout)))))"

definition runtime_observe ::
  "(string \<Rightarrow> exn + json) \<Rightarrow> model_env \<Rightarrow> model_settings \<Rightarrow> model_prompt \<Rightarrow> string set \<Rightarrow> string set
     \<Rightarrow> (model_state, model_observation) prog" where
  "runtime_observe loads env settings prompt evidence_ids causes s =
     (bindP (liftR (validate_prompt prompt)) (\<lambda>_.
      bindP (checkP (\<not> (mp_input prompt > se_input_limit settings \<or> ms_closed s
                         \<or> mp_accounting prompt \<noteq> se_accounting settings))
               (ValueError ''model runtime closed or prompt exceeds input allowance'')) (\<lambda>_.
      bindP (take_slot env) (\<lambda>free.
      if \<not> free then returnP (bare_observation Ob_busy)
      else tryP (timed_call loads env settings prompt evidence_ids causes) (\<lambda>_. True)
             (\<lambda>_. bindP (ms_ask (me_in_time env)) (\<lambda>in_time.
                  returnP (bare_observation (if in_time then Ob_error else Ob_timeout))))))) s)"

definition close_runtime :: "(model_state, unit) prog" where
  "close_runtime s = (Inr (), s\<lparr>ms_closed := True\<rparr>)"

section \<open>Stages\<close>

definition grant :: "model_env \<Rightarrow> nat \<Rightarrow> bool" where
  "grant env k \<longleftrightarrow> me_authorize env k = Inr True"

text \<open>Everything but a generation moves time on and generates nothing.\<close>

definition idle :: "model_state \<Rightarrow> model_state \<Rightarrow> bool" where
  "idle s s' \<longleftrightarrow> ms_tick s \<le> ms_tick s' \<and> ms_generated s' = ms_generated s"

lemma idle_trans: "idle a b \<Longrightarrow> idle b c \<Longrightarrow> idle a c"
  by (auto simp: idle_def)

lemma idle_rules [intro!]:
  "keeps idle (ms_ask f)" "keeps idle (ms_call g)" "keeps idle (take_slot env)" "keeps idle (returnP x)"
  "keeps idle (raiseP e)" "keeps idle (checkP b e)" "keeps idle (liftR r)" "keeps idle (Pair r)"
  by (auto simp: keeps_def idle_def ms_ask_def ms_call_def take_slot_def)

lemma idle_bindP [intro!]: "keeps idle m \<Longrightarrow> (\<And>x. keeps idle (f x)) \<Longrightarrow> keeps idle (bindP m f)"
  by (rule keeps_bindP) (auto intro: idle_trans)

lemma idle_stage [intro!]: "keeps idle (stage_allowed env settings d)"
  by (auto simp: stage_allowed_def)

lemma idle_judged [intro!]: "keeps idle (judged loads env settings d ids causes m u t det)"
  by (auto simp: judged_def Let_def)

lemmas idleD = keepsD [of idle]

lemma stage_allowed_True:
  assumes "stage_allowed env settings d s = (Inr True, s')"
  shows "grant env (ms_tick s + 2) \<and> ms_tick s' = ms_tick s + 5 \<and> ms_generated s' = ms_generated s"
  using assms
  by (auto simp: stage_allowed_def bindP_Inr_iff ms_ask_def ms_call_def grant_def split: if_splits)

text \<open>At most one generation, inside the given interval of calls.\<close>

definition one_generation :: "model_state \<Rightarrow> model_state \<Rightarrow> bool" where
  "one_generation s s' \<longleftrightarrow>
     ms_tick s \<le> ms_tick s'
     \<and> (ms_generated s' = ms_generated s
        \<or> (\<exists>n. ms_tick s \<le> n \<and> n < ms_tick s' \<and> ms_generated s' = ms_generated s @ [n]))"

lemma one_generation_idle:
  "idle a b \<Longrightarrow> one_generation b c \<Longrightarrow> one_generation a c"
  "one_generation a b \<Longrightarrow> idle b c \<Longrightarrow> one_generation a c"
  "idle a b \<Longrightarrow> one_generation a b"
  by (auto simp: idle_def one_generation_def)

lemma one_generation_before:
  assumes "keeps idle m" and "\<And>x. keeps one_generation (f x)"
  shows "keeps one_generation (bindP m f)"
  unfolding keeps_def
proof
  fix s
  obtain x s1 where m: "m s = (x, s1)" by force
  have "one_generation s1 (snd (f y s1))" for y using assms(2) by (simp add: keeps_def)
  with idleD [OF assms(1) m] show "one_generation s (snd (bindP m f s))"
    by (cases x) (auto simp: bindP_def m intro: one_generation_idle)
qed

lemma one_generation_after:
  assumes "keeps one_generation m" and "\<And>x. keeps idle (f x)"
  shows "keeps one_generation (bindP m f)"
  unfolding keeps_def
proof
  fix s
  obtain x s1 where m: "m s = (x, s1)" by force
  have "idle s1 (snd (f y s1))" for y using assms(2) by (simp add: keeps_def)
  with keepsD [OF assms(1) m] show "one_generation s (snd (bindP m f s))"
    by (cases x) (auto simp: bindP_def m intro: one_generation_idle)
qed

lemma keeps_idle_one: "keeps idle m \<Longrightarrow> keeps one_generation m"
  by (auto simp: keeps_def intro: one_generation_idle)

lemma generate_one: "keeps one_generation (generate env settings prompt)"
  by (auto simp: keeps_def one_generation_def generate_def ms_call_def)

lemma staged_one: "keeps one_generation (invoke_staged env settings prompt d)"
  unfolding invoke_staged_def count_allowed_def
  by (intro one_generation_before idle_rules idle_bindP idle_stage)
     (auto intro: generate_one keeps_idle_one)

lemma dispatch_one: "keeps one_generation (runtime_dispatch env settings prompt d)"
  unfolding runtime_dispatch_def
proof (split if_split, intro conjI impI)
  show "keeps one_generation (bindP (ms_ask (me_monotonic env)) (\<lambda>started.
        bindP (generate env settings prompt) (\<lambda>message.
        bindP (ms_ask (me_monotonic env)) (\<lambda>finished. returnP (message, finished - started, None)))))"
    by (rule one_generation_before [OF idle_rules(1)], rule one_generation_after [OF generate_one]) blast
  show "keeps one_generation (bindP (checkP (me_staged env) (ValueError ''provider ceiling requires staged adapter'')) (\<lambda>_.
        bindP (invoke_staged env settings prompt d) (\<lambda>message.
        bindP (liftR (am_details message)) (\<lambda>details.
        bindP (checkP (valid_details details) invalid) (\<lambda>_.
        bindP (checkP (\<not> pd_counted details > mp_input prompt)
                 (ValueError ''provider count exceeds reserved ceiling'')) (\<lambda>_.
        returnP (message, pd_generation_seconds details, Some details)))))))"
    by (rule one_generation_before [OF idle_rules(6)], rule one_generation_after [OF staged_one]) blast
qed

text \<open>A dispatch that returns a message generated it.\<close>

lemma dispatch_generated:
  assumes "runtime_dispatch env settings prompt d s = (Inr r, s')"
  shows "\<exists>n. ms_tick s \<le> n \<and> n < ms_tick s' \<and> ms_generated s' = ms_generated s @ [n]"
proof -
  have gen: "generate env settings prompt a = (Inr m, b) \<Longrightarrow> ms_generated b = ms_generated a @ [ms_tick a]" for a b m
    by (auto simp: generate_def ms_call_def)
  have "ms_generated s' \<noteq> ms_generated s"
  proof (cases "se_accounting settings = Fixture_exact")
    case True
    then show ?thesis using assms
      by (auto simp: runtime_dispatch_def bindP_Inr_iff ms_ask_def dest!: gen)
  next
    case False
    with assms obtain message where "invoke_staged env settings prompt d s = (Inr message, s')"
      by (auto simp: runtime_dispatch_def bindP_Inr_iff)
    then obtain count s1 s2 where "ms_call (\<lambda>n. me_remote_count env n prompt) s = (Inr count, s1)"
        "count_allowed env settings prompt d count s1 = (Inr True, s2)" "generate env settings prompt s2 = (Inr message, s')"
      by (auto simp: invoke_staged_def bindP_Inr_iff split: if_splits)
    moreover from this(2) have "ms_generated s2 = ms_generated s1"
      using idleD [OF idle_stage, of env settings d s1] by (auto simp: count_allowed_def bindP_Inr_iff idle_def)
    ultimately show ?thesis by (auto simp: ms_call_def dest!: gen)
  qed
  with keepsD [OF dispatch_one assms] show ?thesis by (auto simp: one_generation_def)
qed

section \<open>What an observation promises\<close>

definition usage_bounded :: "model_settings \<Rightarrow> model_prompt \<Rightarrow> token_usage \<Rightarrow> bool" where
  "usage_bounded settings prompt u \<longleftrightarrow>
     validate_usage u = Inr u \<and> us_input u \<le> mp_input prompt \<and> us_output u \<le> se_output_limit settings"

text \<open>A decision is published only grounded, with a bounded usage and a grant read after the generation.\<close>

definition contracted ::
  "model_env \<Rightarrow> model_settings \<Rightarrow> model_prompt \<Rightarrow> string set \<Rightarrow> string set \<Rightarrow> model_state \<Rightarrow> model_state
     \<Rightarrow> model_observation \<Rightarrow> bool" where
  "contracted env settings prompt ids causes s s' ob \<longleftrightarrow>
     (case ob_decision ob of
        None \<Rightarrow> ob_status ob \<notin> {Ob_ok, Ob_refused}
      | Some d \<Rightarrow>
          ob_status ob = (if rd_decision d = Refuse then Ob_refused else Ob_ok)
          \<and> validate_decision d = Inr d \<and> list_all (cited_well ids causes) (rd_hypotheses d)
          \<and> pred_option (usage_bounded settings prompt) (ob_usage ob)
          \<and> (\<exists>n k. ms_generated s' = ms_generated s @ [n] \<and> n < k \<and> grant env k))"

lemma validate_observation_Inr:
  "validate_observation ob = Inr ob' \<Longrightarrow> ob' = ob \<and>
     (ob_status ob \<in> {Ob_ok, Ob_refused}) = (ob_decision ob \<noteq> None)"
  by (auto simp: validate_observation_def coherent_observation_def)

lemma bare_contracted [simp]:
  "st \<notin> {Ob_ok, Ob_refused} \<Longrightarrow> contracted env settings prompt ids causes s s' (bare_observation st)"
  by (auto simp: contracted_def bare_observation_def)

lemma failed_call_Inr:
  "failed_call e known = Inr ob \<Longrightarrow> ob_decision ob = None \<and> ob_status ob \<notin> {Ob_ok, Ob_refused}"
  by (cases known) (auto simp: failed_call_def dest!: validate_observation_Inr)

lemma decision_observation_Inr:
  assumes "decision_observation loads message usage seconds ids causes = Inr ob"
  shows "ob_usage ob = usage
    \<and> (case ob_decision ob of None \<Rightarrow> ob_status ob \<notin> {Ob_ok, Ob_refused}
       | Some d \<Rightarrow> ob_status ob = (if rd_decision d = Refuse then Ob_refused else Ob_ok)
           \<and> validate_decision d = Inr d \<and> list_all (cited_well ids causes) (rd_hypotheses d))"
proof -
  have parsed: "validate_decision d = Inr d \<and> list_all (cited_well ids causes) (rd_hypotheses d)"
    if "parse_decision loads content ids causes = Inr d" for content d
    using parse_decision_Inr [OF that] by (auto simp: list_all_iff)
  show ?thesis
    using assms unfolding decision_observation_def Let_def
    by (auto simp: bare_observation_def split: option.splits if_splits sum.splits
        dest!: validate_observation_Inr dest: parsed)
qed

lemma judged_Inr:
  assumes "judged loads env settings d ids causes message usage seconds details s = (Inr ob, s')"
  shows "case ob_decision ob of None \<Rightarrow> ob_status ob \<notin> {Ob_ok, Ob_refused}
    | Some dec \<Rightarrow> ob_status ob = (if rd_decision dec = Refuse then Ob_refused else Ob_ok)
        \<and> validate_decision dec = Inr dec \<and> list_all (cited_well ids causes) (rd_hypotheses dec)
        \<and> ob_usage ob = usage \<and> (\<exists>k \<ge> ms_tick s. grant env k)"
proof -
  from assms obtain result allowed s1 where
      r: "decision_observation loads message usage seconds ids causes = Inr result"
      and a: "stage_allowed env settings d s = (Inr allowed, s1)"
      and v: "validate_observation ((if allowed then result else (bare_observation Ob_denied)
              \<lparr>ob_usage := usage, ob_seconds := Some seconds\<rparr>)\<lparr>ob_details := details\<rparr>) = Inr ob"
    by (auto simp: judged_def bindP_Inr_iff Let_def)
  show ?thesis
  proof (cases allowed)
    case True
    with v have "ob = result\<lparr>ob_details := details\<rparr>" by (auto dest: validate_observation_Inr)
    moreover from a True have "grant env (ms_tick s + 2)" using stage_allowed_True by simp
    then have "\<exists>k \<ge> ms_tick s. grant env k" using le_add1 by blast
    ultimately show ?thesis using decision_observation_Inr [OF r] by (auto split: option.splits)
  next
    case False
    with v have "ob = (bare_observation Ob_denied)\<lparr>ob_usage := usage, ob_seconds := Some seconds, ob_details := details\<rparr>"
      by (auto dest: validate_observation_Inr)
    then show ?thesis by (simp add: bare_observation_def)
  qed
qed

definition staged_generation :: "model_env \<Rightarrow> model_state \<Rightarrow> model_state \<Rightarrow> bool" where
  "staged_generation env s s' \<longleftrightarrow>
     ms_generated s' = ms_generated s
     \<or> (\<exists>k n. ms_tick s \<le> k \<and> k < n \<and> grant env k \<and> ms_generated s' = ms_generated s @ [n])"

lemma invoke_contract:
  assumes "runtime_invoke loads env settings prompt ids causes d s = (x, s')"
  shows "staged_generation env s s' \<and> pred_option (contracted env settings prompt ids causes s s')
           (case x of Inr ob \<Rightarrow> Some ob | Inl _ \<Rightarrow> None) \<and> ms_tick s \<le> ms_tick s'"
proof -
  obtain a s1 where a: "stage_allowed env settings d s = (a, s1)" by force
  have s1: "idle s s1" using idleD [OF idle_stage a] .
  have none: "pred_option (contracted env settings prompt ids causes s t) (case y of Inr ob \<Rightarrow> Some ob | Inl _ \<Rightarrow> None)"
    if "(\<exists>e known. y = failed_call e known) \<or> y = validate_observation (bare_observation Ob_denied)" for y t
    using that failed_call_Inr
    by (fastforce simp: contracted_def bare_observation_def split: sum.splits option.splits dest: validate_observation_Inr)
  show ?thesis
  proof (cases "a = Inr True")
    case False
    with assms a have "s' = s1" "(\<exists>e known. x = failed_call e known) \<or> x = validate_observation (bare_observation Ob_denied)"
      by (auto simp: runtime_invoke_def split: sum.splits bool.splits)
    with s1 none [of x s'] show ?thesis by (auto simp: staged_generation_def idle_def)
  next
    case True
    note g = stage_allowed_True [OF a [unfolded True]]
    obtain b s2 where b: "runtime_dispatch env settings prompt d s1 = (b, s2)" by force
    have s2: "one_generation s1 s2" using keepsD [OF dispatch_one b] .
    have staged: "staged_generation env s t" if "idle s2 t" for t
    proof (cases "ms_generated s2 = ms_generated s1")
      case True
      with g that show ?thesis by (simp add: staged_generation_def idle_def)
    next
      case False
      then obtain n where "ms_tick s1 \<le> n" "ms_generated s2 = ms_generated s1 @ [n]"
        using s2 by (auto simp: one_generation_def)
      with g that have "ms_tick s \<le> ms_tick s + 2 \<and> ms_tick s + 2 < n \<and> grant env (ms_tick s + 2)
          \<and> ms_generated t = ms_generated s @ [n]" by (simp add: idle_def)
      then show ?thesis unfolding staged_generation_def by blast
    qed
    show ?thesis
    proof (cases b)
      case (Inl e)
      with assms a True b have "s' = s2" "x = failed_call e (None, None, None)"
        by (auto simp: runtime_invoke_def)
      with none [of x s'] staged [of s'] g s2 show ?thesis by (auto simp: idle_def one_generation_def)
    next
      case (Inr r)
      obtain message seconds details where r: "r = (message, seconds, details)" by (cases r)
      define u where "u = bindR (am_usage message) (\<lambda>u. bindR (check (pred_option (\<lambda>x. validate_usage x = Inr x) u) invalid)
                                                     (\<lambda>_. Inr u))"
      have x: "(x, s') = (case u of
                  Inl e \<Rightarrow> (failed_call e (None, Some seconds, details), s2)
                | Inr usage \<Rightarrow>
                    if \<not> usage_contract settings prompt details usage
                    then (failed_call (ValueError ''provider usage violates prepared token contract'')
                            (usage, Some seconds, details), s2)
                    else
                      (case judged loads env settings d ids causes message usage seconds details s2 of
                         (Inl e, s3) \<Rightarrow> (failed_call e (usage, Some seconds, details), s3)
                       | (Inr ob, s3) \<Rightarrow> (Inr ob, s3)))"
        using assms a True b Inr r by (simp add: runtime_invoke_def u_def)
      show ?thesis
      proof (cases "\<exists>usage. u = Inr usage \<and> usage_contract settings prompt details usage")
        case False
        with x have "s' = s2" "\<exists>e known. x = failed_call e known" by (auto split: sum.splits if_splits)
        with none [of x s'] staged [of s'] g s2 show ?thesis by (auto simp: idle_def one_generation_def)
      next
        case True
        then obtain usage where usage: "u = Inr usage" "usage_contract settings prompt details usage" by blast
        obtain y s3 where y: "judged loads env settings d ids causes message usage seconds details s2 = (y, s3)" by force
        have s3: "idle s2 s3" using idleD [OF idle_judged y] .
        have bounded: "pred_option (usage_bounded settings prompt) usage"
          using usage by (cases usage) (auto simp: u_def usage_contract_def usage_bounded_def Let_def)
        from x usage y have xs: "s' = s3" "x = (case y of Inl e \<Rightarrow> failed_call e (usage, Some seconds, details) | Inr ob \<Rightarrow> Inr ob)"
          by (auto split: sum.splits)
        obtain n where n: "ms_tick s1 \<le> n" "n < ms_tick s2" "ms_generated s2 = ms_generated s1 @ [n]"
          using dispatch_generated b Inr by blast
        have "contracted env settings prompt ids causes s s' ob" if "y = Inr ob" for ob
          using judged_Inr [OF y [unfolded that]] bounded n s3 g xs(1)
          by (auto simp: contracted_def idle_def split: option.splits intro: less_le_trans)
        moreover have "\<exists>e known. x = failed_call e known" if "y = Inl e" for e using xs(2) that by auto
        ultimately show ?thesis using xs none [of x s'] staged [OF s3] s3 g s2
          by (cases y) (auto simp: idle_def one_generation_def)
      qed
    qed
  qed
qed

lemma observe_contract:
  assumes "runtime_observe loads env settings prompt ids causes s = (Inr ob, s')"
  shows "staged_generation env s s' \<and> contracted env settings prompt ids causes s s' ob"
proof -
  from assms obtain free s1 where free: "take_slot env s = (Inr free, s1)"
      and rest: "(if \<not> free then returnP (bare_observation Ob_busy)
         else tryP (timed_call loads env settings prompt ids causes) (\<lambda>_. True)
             (\<lambda>_. bindP (ms_ask (me_in_time env)) (\<lambda>in_time.
                  returnP (bare_observation (if in_time then Ob_error else Ob_timeout))))) s1 = (Inr ob, s')"
    by (auto simp: runtime_observe_def bindP_Inr_iff)
  have s1: "idle s s1" using idleD [OF idle_rules(3) free] .
  show ?thesis
  proof (cases free)
    case False
    with rest s1 show ?thesis by (auto simp: idle_def staged_generation_def)
  next
    case True
    obtain now s2 where now: "ms_ask (me_monotonic env) s1 = (Inr now, s2)" by (auto simp: ms_ask_def)
    then have s2: "idle s1 s2" by (auto simp: ms_ask_def idle_def)
    obtain y s3 where y: "runtime_invoke loads env settings prompt ids causes (now + se_timeout settings) s2 = (y, s3)"
      by force
    note c = invoke_contract [OF y]
    have fin: "idle s3 s'" "(case y of Inl _ \<Rightarrow> False | Inr b \<Rightarrow> ob = b)
        \<or> (\<exists>st. ob = bare_observation st \<and> st \<notin> {Ob_ok, Ob_refused})"
      using rest True now y
      by (auto simp: timed_call_def tryP_def bindP_def ms_ask_def Let_def idle_def split: sum.splits if_splits)
    have "staged_generation env s s'"
      using c s1 s2 fin(1) by (auto simp: staged_generation_def idle_def)
    moreover have "contracted env settings prompt ids causes s s' ob"
      using fin(2)
    proof
      assume "case y of Inl _ \<Rightarrow> False | Inr b \<Rightarrow> ob = b"
      with c have "contracted env settings prompt ids causes s2 s3 ob" by (auto split: sum.splits)
      with s1 s2 fin(1) show ?thesis by (auto simp: contracted_def idle_def split: option.splits)
    qed auto
    ultimately show ?thesis ..
  qed
qed

text \<open>A usage within the reservation costs no more than the charge that reserved it.\<close>

lemma usage_bounded_cost:
  assumes "usage_bounded settings prompt u" and "valid_price (se_price settings)"
    and "mc_input c = mp_input prompt" and "mc_output_limit c = se_output_limit settings"
    and "mc_price c = se_price settings"
  shows "the (cost_nano_usd (se_price settings) (Some u)) \<le> charge_cost c"
  using usage_within_reservation [of u "se_price settings" "mp_input prompt" "se_output_limit settings"] assms
  by (simp add: usage_bounded_def charge_cost_def)

section \<open>Properties\<close>

definition sample_settings :: model_settings where
  "sample_settings =
     \<lparr>se_provider = ''fixture'', se_model = ''m'', se_mode = Fixture, se_input_limit = 100,
      se_output_limit = 50, se_timeout = 10, se_price = \<lparr>tp_input = 1, tp_cached = 1, tp_output = 2\<rparr>,
      se_accounting = Fixture_exact\<rparr>"

definition sample_prompt :: model_prompt where
  "sample_prompt = \<lparr>mp_system = ''s'', mp_user = ''u'', mp_input = 10, mp_accounting = Fixture_exact\<rparr>"

definition sample_model_env :: model_env where
  "sample_model_env =
     \<lparr>me_settings = (\<lambda>_. sample_settings), me_authorize = (\<lambda>_. Inr True), me_monotonic = (\<lambda>_. 0),
      me_in_time = (\<lambda>_. True), me_released = (\<lambda>_. True), me_count = (\<lambda>_ _. Inr 10), me_staged = False,
      me_remote_count = (\<lambda>_ _. Inl invalid),
      me_generate = (\<lambda>_ _ _. Inr \<lparr>am_content = Some ''{}'', am_usage = Inr None, am_details = Inl invalid\<rparr>)\<rparr>"

definition sample_runtime :: model_state where
  "sample_runtime = \<lparr>ms_tick = 0, ms_busy = False, ms_closed = False, ms_generated = []\<rparr>"

lemma sample_observe:
  "\<exists>ob s'. runtime_observe (\<lambda>_. Inr sample_decision_json) sample_model_env sample_settings sample_prompt
       {''ev-1''} {''OOM''} sample_runtime = (Inr ob, s') \<and> ob_decision ob = Some sample_decision"
proof -
  let ?ob = "\<lparr>ob_status = Ob_ok, ob_decision = Some sample_decision, ob_usage = None, ob_seconds = Some 0,
      ob_digest = Some (sha256_hex (utf8 ''{}'')), ob_details = None\<rparr>"
  have d: "validate_decision sample_decision = Inr sample_decision" "rd_decision sample_decision = Finish"
    using parse_decision_Inr(1) [OF sample_decision_parses] by (simp_all add: sample_decision_def)
  have ok: "validate_observation ?ob = Inr ?ob"
    by (simp add: validate_observation_def coherent_observation_def d)
  have env: "me_settings sample_model_env = (\<lambda>_. sample_settings)" "me_authorize sample_model_env = (\<lambda>_. Inr True)"
      "me_monotonic sample_model_env = (\<lambda>_. 0)" "me_in_time sample_model_env = (\<lambda>_. True)"
      "me_generate sample_model_env = (\<lambda>_ _ _. Inr \<lparr>am_content = Some ''{}'', am_usage = Inr None, am_details = Inl invalid\<rparr>)"
    by (simp_all add: sample_model_env_def)
  have set: "se_timeout sample_settings = 10" "se_input_limit sample_settings = 100"
      "se_accounting sample_settings = Fixture_exact" by (simp_all add: sample_settings_def)
  have stage: "stage_allowed sample_model_env sample_settings 10 s = (Inr True, s\<lparr>ms_tick := ms_tick s + 5\<rparr>)" for s
    by (simp add: stage_allowed_def bindP_def ms_ask_def ms_call_def env)
  have short: "\<not> length (utf8 ''{}'') > 16384" by code_simp
  have dec: "decision_observation (\<lambda>_. Inr sample_decision_json) \<lparr>am_content = Some ''{}'', am_usage = Inr None,
      am_details = Inl invalid\<rparr> None 0 {''ev-1''} {''OOM''} = Inr ?ob"
    using ok short by (simp add: decision_observation_def sample_decision_parses Let_def d)
  have prompt: "validate_prompt sample_prompt = Inr sample_prompt" "mp_input sample_prompt = 10"
      "mp_accounting sample_prompt = Fixture_exact"
    by (simp_all add: validate_prompt_def sample_prompt_def is_message_def between_def)
  show ?thesis
    by (simp add: runtime_observe_def prompt set bindP_def take_slot_def sample_runtime_def tryP_def timed_call_def
        ms_ask_def env Let_def runtime_invoke_def stage runtime_dispatch_def generate_def ms_call_def
        usage_contract_def judged_def dec ok)
qed

text \<open>C35: An observation of a provider call keeps the reasoning contract. At most one generation takes
  place and an authority grant was read during this call before it. A decision is published only under
  status OK or REFUSED, matching its verdict; it passed the decision schema, every cause and citation
  resolves against the submitted identifiers, the reported usage is consistent and within the prepared
  input and the configured output limit, and authority was granted again after the generation. Every
  other status carries no decision.\<close>

theorem observations_are_contracted:
  assumes "runtime_observe loads env settings prompt ids causes s = (Inr ob, s')"
  shows "staged_generation env s s' \<and> contracted env settings prompt ids causes s s' ob"
  by (rule observe_contract [OF assms])

theorem observations_are_contracted_witness:
  "\<exists>ob s'. ob_decision ob = Some sample_decision
     \<and> contracted sample_model_env sample_settings sample_prompt {''ev-1''} {''OOM''} sample_runtime s' ob"
proof -
  obtain ob s' where "runtime_observe (\<lambda>_. Inr sample_decision_json) sample_model_env sample_settings sample_prompt
       {''ev-1''} {''OOM''} sample_runtime = (Inr ob, s')" "ob_decision ob = Some sample_decision"
    using sample_observe by blast
  with observations_are_contracted [OF this(1)] show ?thesis by blast
qed

end
