(* ===== verification/Baseline.thy ===== *)
theory Baseline
  imports Window
begin

text \<open>
  The deterministic ranker: \<^verbatim>\<open>src/payops/orchestrator/baseline.py\<close>.

  Every predicate on a verified observation is a bool-valued function of the decoded payload. The three
  regular expressions are recognisers, with a search over the possible splits where the expression has
  a choice. \<^verbatim>\<open>datetime.fromisoformat\<close> is the argument \<open>fromiso\<close>: the instant a text denotes and whether
  it carries an offset, or \<open>None\<close> for a \<^verbatim>\<open>ValueError\<close>.

  Main facts: whatever the payloads say, the ranked causes are distinct and cite distinct, verified,
  fresh items of the input only (\<open>rank_evidence_Inr\<close>), so a report built on them is grounded; a single
  item that does not verify stops the ranking (\<open>rank_evidence_verifies\<close>).
\<close>

type_synonym iso_reader = "string \<Rightarrow> (instant \<times> bool) option"

definition MAX_AGE_SECONDS :: int where
  "MAX_AGE_SECONDS = 120"

section \<open>Regular expressions\<close>

definition HEADER_START :: string where
  "HEADER_START = ''pydantic_core._pydantic_core.ValidationError: ''"

text \<open>\<^verbatim>\<open>[1-9][0-9]* validation errors? for SandboxConfig\<close> after the fixed start.\<close>

definition config_header :: "string \<Rightarrow> bool" where
  "config_header s \<longleftrightarrow>
     is_prefix HEADER_START s \<and>
     (let rest = drop (length HEADER_START) s; digits = takeWhile is_digit rest in
      digits \<noteq> [] \<and> hd digits \<noteq> CHR ''0''
      \<and> dropWhile is_digit rest \<in> set ['' validation error for SandboxConfig'',
                                        '' validation errors for SandboxConfig''])"

definition config_detail :: "string \<Rightarrow> bool" where
  "config_detail s \<longleftrightarrow>
     is_prefix ''Value error, destination must be an approved synthetic service origin [type=value_error,''
       (dropWhile py_space s)"

text \<open>The text from the port's colon on.\<close>

definition access_tail :: "string \<Rightarrow> bool" where
  "access_tail s \<longleftrightarrow>
     (case s of
        c # rest \<Rightarrow>
          c = CHR '':'' \<and> takeWhile is_digit rest \<noteq> []
          \<and> dropWhile is_digit rest
              \<in> set [ '' - '' @ quoted (''POST /simulate HTTP/1.'' @ v) @ '' 503'' @ reason.
                      v \<leftarrow> [''0'', ''1''], reason \<leftarrow> ['''', '' Service Unavailable'']]
      | [] \<Rightarrow> False)"

definition access_failure :: "string \<Rightarrow> bool" where
  "access_failure s \<longleftrightarrow>
     is_prefix ''INFO:'' s \<and>
     (let rest = drop 5 s; body = dropWhile py_space rest in
      takeWhile py_space rest \<noteq> []
      \<and> list_ex (\<lambda>k. list_all (\<lambda>c. \<not> py_space c) (take k body) \<and> access_tail (drop k body))
          [1..<Suc (length body)])"

definition is_lower_alnum :: "char \<Rightarrow> bool" where
  "is_lower_alnum c \<longleftrightarrow> is_digit c \<or> 97 \<le> (of_char c :: nat) \<and> (of_char c :: nat) \<le> 122"

definition payment_pod_name :: "string \<Rightarrow> bool" where
  "payment_pod_name s \<longleftrightarrow>
     is_prefix ''payments-api-'' s \<and>
     (let rest = drop 13 s; tail = dropWhile is_lower_alnum rest in
      takeWhile is_lower_alnum rest \<noteq> [] \<and> is_prefix ''-'' tail
      \<and> tl tail \<noteq> [] \<and> list_all is_lower_alnum (tl tail))"

section \<open>Payload access\<close>

definition object_or_nil :: "json option \<Rightarrow> json_object" where
  "object_or_nil v = (case v of Some (JObj kvs) \<Rightarrow> kvs | _ \<Rightarrow> [])"

definition objects_in :: "json option \<Rightarrow> json_object list" where
  "objects_in v =
     (case v of
        Some (JArr xs) \<Rightarrow> concat (map (\<lambda>x. case x of JObj kvs \<Rightarrow> [kvs] | _ \<Rightarrow> []) xs)
      | _ \<Rightarrow> [])"

text \<open>\<^verbatim>\<open>type(v) is int\<close> with a condition on the value: booleans are not counted as integers.\<close>

definition int_field :: "(int \<Rightarrow> bool) \<Rightarrow> json option \<Rightarrow> bool" where
  "int_field p v \<longleftrightarrow> (case v of Some (JInt i) \<Rightarrow> p i | _ \<Rightarrow> False)"

text \<open>\<^verbatim>\<open>a or b or c\<close> on values that may be missing.\<close>

fun first_truthy :: "json option list \<Rightarrow> json option" where
  "first_truthy [] = None"
| "first_truthy [v] = v"
| "first_truthy (v # vs) = (if pred_option truthy v \<and> v \<noteq> None then v else first_truthy vs)"

text \<open>\<^verbatim>\<open>str(value)\<close>, for the comparison of an event's object with the observed pods: only a string is
  equal to its text, and the Python rendering of anything else is spelt out.\<close>

definition repr_char :: "char \<Rightarrow> char \<Rightarrow> string" where
  "repr_char q c =
     (let n = (of_char c :: nat) in
      if c = q \<or> n = 92 then [CHR 0x5C, c]
      else if n = 10 then [CHR 0x5C, CHR ''n''] else if n = 13 then [CHR 0x5C, CHR ''r'']
      else if n = 9 then [CHR 0x5C, CHR ''t'']
      else if n < 32 \<or> 127 \<le> n \<and> n \<le> 160 \<or> n = 173
      then [CHR 0x5C, CHR ''x'', ''0123456789abcdef'' ! (n div 16), ''0123456789abcdef'' ! (n mod 16)]
      else [c])"

definition repr_text :: "string \<Rightarrow> string" where
  "repr_text s =
     (let q = (if CHR 0x27 \<in> set s \<and> CHR 0x22 \<notin> set s then CHR 0x22 else CHR 0x27) in
      [q] @ concat (map (repr_char q) s) @ [q])"

fun py_repr :: "json \<Rightarrow> string" where
  "py_repr JNull = ''None''"
| "py_repr (JBool b) = (if b then ''True'' else ''False'')"
| "py_repr (JInt i) = int_str i"
| "py_repr (JFloat s) = s"
| "py_repr (JStr s) = repr_text s"
| "py_repr (JArr xs) = ''['' @ join '', '' (map py_repr xs) @ '']''"
| "py_repr (JObj kvs) = ''{'' @ join '', '' (map (\<lambda>(k, v). repr_text k @ '': '' @ py_repr v) kvs) @ ''}''"

definition py_str :: "json option \<Rightarrow> string" where
  "py_str v = (case v of None \<Rightarrow> ''None'' | Some (JStr s) \<Rightarrow> s | Some x \<Rightarrow> py_repr x)"

section \<open>Signals\<close>

record signal =
  sg_item :: evidence_item
  sg_payload :: json_object

definition is_fresh :: "instant option \<Rightarrow> evidence_item \<Rightarrow> bool" where
  "is_fresh latest item \<longleftrightarrow>
     (let age = (case latest of Some t \<Rightarrow> t - ev_observed item | None \<Rightarrow> 0) in
      0 \<le> age \<and> age \<le> MAX_AGE_SECONDS * one_second \<and> ev_observed item \<le> ev_collected item)"

definition signal_payload :: "json_object \<Rightarrow> exn + json_object" where
  "signal_payload env =
     (case get_field env ''payload'' of
        Some (JObj payload) \<Rightarrow> Inr payload
      | _ \<Rightarrow> Inl (EvidenceIntegrityError ''baseline artifact payload is not an object''))"

fun verified_signals ::
  "('r artifact_store_scheme) \<Rightarrow> instant option \<Rightarrow> evidence_item list \<Rightarrow> exn + signal list" where
  "verified_signals st latest [] = Inr []"
| "verified_signals st latest (item # items) =
     bindR (store_verify st item) (\<lambda>env.
     bindR (signal_payload env) (\<lambda>payload.
     bindR (verified_signals st latest items) (\<lambda>signals.
     Inr (if is_fresh latest item then \<lparr>sg_item = item, sg_payload = payload\<rparr> # signals else signals))))"

definition latest_collected :: "evidence_item list \<Rightarrow> instant option" where
  "latest_collected items =
     (if items = [] then None else Some (Max (set (map ev_collected items))))"

definition baseline_verified :: "('r artifact_store_scheme) \<Rightarrow> evidence_item list \<Rightarrow> exn + signal list" where
  "baseline_verified st evidence =
     bindR (check (card (set (map ev_incident evidence)) \<le> 1)
              (EvidenceIntegrityError ''baseline evidence crosses incidents'')) (\<lambda>_.
     bindR (check (no_duplicates (map ev_id evidence))
              (EvidenceIntegrityError ''baseline evidence IDs are duplicated'')) (\<lambda>_.
     verified_signals st (latest_collected evidence) evidence))"

section \<open>Predicates\<close>

definition payment_pod :: "signal \<Rightarrow> bool" where
  "payment_pod s \<longleftrightarrow>
     ev_source (sg_item s) = KUBERNETES \<and> get_field (sg_payload s) ''kind'' = Some (JStr ''Pod'')
     \<and> payment_pod_name (ev_resource (sg_item s))"

definition container_statuses :: "signal \<Rightarrow> json_object list" where
  "container_statuses s =
     objects_in (get_field (object_or_nil (get_field (sg_payload s) ''status'')) ''containerStatuses'')"

definition crashed_status :: "json_object \<Rightarrow> bool" where
  "crashed_status status \<longleftrightarrow>
     (let terminated = object_or_nil
            (get_field (object_or_nil (get_field status ''lastState'')) ''terminated'') in
      int_field (\<lambda>code. code \<noteq> 0) (get_field terminated ''exitCode'')
      \<and> int_field (\<lambda>n. n > 0) (get_field status ''restartCount'')
      \<and> get_field terminated ''reason'' \<noteq> Some (JStr ''OOMKilled'')
      \<and> get_field status ''ready'' \<noteq> Some (JBool True))"

definition crashed :: "signal \<Rightarrow> bool" where
  "crashed s \<longleftrightarrow> payment_pod s \<and> list_ex crashed_status (container_statuses s)"

definition running_unready :: "signal \<Rightarrow> bool" where
  "running_unready s \<longleftrightarrow>
     payment_pod s
     \<and> list_ex (\<lambda>status. ''running'' \<in> set (keys (object_or_nil (get_field status ''state'')))
                         \<and> get_field status ''ready'' = Some (JBool False)) (container_statuses s)"

definition degraded :: "signal \<Rightarrow> bool" where
  "degraded s \<longleftrightarrow>
     ev_source (sg_item s) = DEPLOYMENT \<and> ev_resource (sg_item s) = ''payments-api'' \<and>
     (let desired = get_field (sg_payload s) ''replicas'';
          status = object_or_nil (get_field (sg_payload s) ''status'');
          unavailable = list_ex (\<lambda>c. get_field c ''type'' = Some (JStr ''Available'')
                                     \<and> get_field c ''status'' = Some (JStr ''False''))
                          (objects_in (get_field status ''conditions''))
      in get_field (sg_payload s) ''kind'' = Some (JStr ''Deployment'')
         \<and> int_field (\<lambda>d. d > 0 \<and> (int_field (\<lambda>a. a < d) (get_field status ''availableReplicas'')
                                    \<or> unavailable)) desired)"

definition timestamp_of :: "iso_reader \<Rightarrow> string \<Rightarrow> instant option" where
  "timestamp_of fromiso s =
     (case fromiso (concat (map (\<lambda>c. if c = CHR ''Z'' then ''+00:00'' else [c]) s)) of
        None \<Rightarrow> None
      | Some (t, aware) \<Rightarrow> if aware then Some t else None)"

definition recent_line :: "iso_reader \<Rightarrow> instant \<Rightarrow> string \<Rightarrow> string option" where
  "recent_line fromiso collected line =
     (case partition_blank line of (stamp, separated, content) \<Rightarrow>
        case (if separated then timestamp_of fromiso stamp else None) of
          None \<Rightarrow> None
        | Some observed \<Rightarrow>
            if 0 \<le> collected - observed \<and> collected - observed \<le> MAX_AGE_SECONDS * one_second
            then Some content else None)"

definition log_lines :: "iso_reader \<Rightarrow> signal \<Rightarrow> string list" where
  "log_lines fromiso s =
     (if ev_source (sg_item s) \<noteq> LOG \<or> ev_resource (sg_item s) \<noteq> ''payments-api'' then []
      else case get_field (sg_payload s) ''lines'' of
             Some (JStr raw) \<Rightarrow> List.map_filter (recent_line fromiso (ev_collected (sg_item s))) (splitlines raw)
           | _ \<Rightarrow> [])"

fun invalid_configuration_lines :: "string list \<Rightarrow> bool" where
  "invalid_configuration_lines [] \<longleftrightarrow> False"
| "invalid_configuration_lines (line # lines) \<longleftrightarrow>
     config_header line \<and> list_ex config_detail (take 3 lines) \<or> invalid_configuration_lines lines"

definition invalid_configuration :: "iso_reader \<Rightarrow> signal \<Rightarrow> bool" where
  "invalid_configuration fromiso s \<longleftrightarrow> invalid_configuration_lines (log_lines fromiso s)"

definition readiness_event :: "iso_reader \<Rightarrow> string set \<Rightarrow> signal \<Rightarrow> bool" where
  "readiness_event fromiso pod_uids s \<longleftrightarrow>
     ev_source (sg_item s) = KUBERNETES \<and> ev_resource (sg_item s) = ''payments-api'' \<and>
     (let payload = sg_payload s;
          involved = object_or_nil (get_field payload ''involvedObject'');
          series = object_or_nil (get_field payload ''series'');
          event_time = first_truthy [get_field series ''lastObservedTime'',
                                     get_field payload ''lastTimestamp'', get_field payload ''eventTime''];
          stamp = (case event_time of Some (JStr t) \<Rightarrow> timestamp_of fromiso t | _ \<Rightarrow> None)
      in py_str (get_field involved ''uid'') \<in> pod_uids
         \<and> get_field involved ''namespace'' = Some (JStr ''payops-sandbox'')
         \<and> get_field payload ''reason'' = Some (JStr ''Unhealthy'')
         \<and> get_field payload ''type'' = Some (JStr ''Warning'')
         \<and> get_field payload ''message''
             = Some (JStr ''Readiness probe failed: HTTP probe failed with statuscode: 404'')
         \<and> (case stamp of None \<Rightarrow> False | Some t \<Rightarrow> \<bar>ev_observed (sg_item s) - t\<bar> \<le> one_second))"

definition processor_absent :: "signal \<Rightarrow> bool" where
  "processor_absent s \<longleftrightarrow>
     ev_source (sg_item s) = DEPLOYMENT \<and> ev_resource (sg_item s) = ''processor-adapter''
     \<and> get_field (sg_payload s) ''kind'' = Some (JStr ''Deployment'')
     \<and> int_field (\<lambda>n. n = 0) (get_field (sg_payload s) ''replicas'')"

definition no_processor_pods :: "signal \<Rightarrow> bool" where
  "no_processor_pods s \<longleftrightarrow>
     ev_source (sg_item s) = KUBERNETES \<and> ev_resource (sg_item s) = ''processor-adapter''
     \<and> ev_query (sg_item s) = ''pods.count''
     \<and> int_field (\<lambda>n. n = 0) (get_field (sg_payload s) ''pod_count'')"

section \<open>Ranking\<close>

definition first_occurrences :: "'a list \<Rightarrow> 'a list" where
  "first_occurrences xs = rev (remdups (rev xs))"

definition rule_hypothesis :: "string \<Rightarrow> rat \<Rightarrow> signal list \<Rightarrow> exn + hypothesis" where
  "rule_hypothesis code score signals =
     (let h = \<lparr>hy_cause = code, hy_confidence = score,
               hy_supports = first_occurrences (map (\<lambda>s. ev_id (sg_item s)) signals),
               hy_refutes = [], hy_missing = []\<rparr>
      in bindR (check (valid_hypothesis h) (ValueError ''field constraint'')) (\<lambda>_. Inr h))"

definition observed_uids :: "signal list \<Rightarrow> string set" where
  "observed_uids unready =
     set (concat (map (\<lambda>s. case get_field (sg_payload s) ''resource_uid'' of Some (JStr u) \<Rightarrow> [u] | _ \<Rightarrow> [])
                    unready))"

text \<open>One \<^verbatim>\<open>if ...: ranked.append(...)\<close>: a rule applies when each of its groups has a signal.\<close>

type_synonym rule = "string \<times> rat \<times> signal list list"

fun apply_rules :: "rule list \<Rightarrow> exn + hypothesis list" where
  "apply_rules [] = Inr []"
| "apply_rules ((code, score, groups) # rules) =
     (if list_all (\<lambda>g. g \<noteq> []) groups
      then bindR (rule_hypothesis code score (concat groups)) (\<lambda>h.
           bindR (apply_rules rules) (\<lambda>hs. Inr (h # hs)))
      else apply_rules rules)"

definition baseline_rules :: "iso_reader \<Rightarrow> signal list \<Rightarrow> rule list" where
  "baseline_rules fromiso signals =
     (let deg = filter degraded signals; crashes = filter crashed signals;
          config = filter (invalid_configuration fromiso) signals;
          unready = filter running_unready signals;
          probes = filter (readiness_event fromiso (observed_uids unready)) signals;
          absent = filter processor_absent signals; empty = filter no_processor_pods signals;
          errors = filter (\<lambda>s. list_ex access_failure (log_lines fromiso s)) signals
      in [(''INVALID_CONFIGURATION'', 95 / 100, [deg, crashes, config]),
          (''READINESS_PROBE_FAILURE'', 90 / 100, [deg, unready, probes]),
          (''PROCESSOR_UNAVAILABLE'', 85 / 100, [absent, empty, errors]),
          (''STARTUP_FAILURE'', 75 / 100, [deg, crashes])])"

definition rank_evidence ::
  "iso_reader \<Rightarrow> evidence_item list \<Rightarrow> ('r artifact_store_scheme) \<Rightarrow> exn + hypothesis list" where
  "rank_evidence fromiso evidence st =
     bindR (baseline_verified st evidence) (\<lambda>signals. apply_rules (baseline_rules fromiso signals))"

section \<open>Facts\<close>

lemma first_occurrences_set [simp]: "set (first_occurrences xs) = set xs"
  by (simp add: first_occurrences_def)

lemma first_occurrences_distinct [simp]: "distinct (first_occurrences xs)"
  by (simp add: first_occurrences_def)

lemma latest_collected_ge:
  "item \<in> set items \<Longrightarrow> \<exists>t. latest_collected items = Some t \<and> ev_collected item \<le> t"
  by (auto simp: latest_collected_def)

text \<open>What a signal promises: its item is of the input, verifies to the payload and is fresh.\<close>

definition sound_signal ::
  "('r artifact_store_scheme) \<Rightarrow> instant option \<Rightarrow> evidence_item list \<Rightarrow> signal \<Rightarrow> bool" where
  "sound_signal st latest items s \<longleftrightarrow>
     sg_item s \<in> set items \<and> is_fresh latest (sg_item s)
     \<and> (\<exists>env. store_verify st (sg_item s) = Inr env \<and> get_field env ''payload'' = Some (JObj (sg_payload s)))"

lemma signal_payload_iff [simp]:
  "signal_payload env = Inr payload \<longleftrightarrow> get_field env ''payload'' = Some (JObj payload)"
  by (simp add: signal_payload_def split: option.split json.split)

lemma verified_signals_Cons:
  "verified_signals st latest (item # items) = Inr signals \<longleftrightarrow>
     (\<exists>env payload rest. store_verify st item = Inr env \<and> get_field env ''payload'' = Some (JObj payload)
        \<and> verified_signals st latest items = Inr rest
        \<and> signals = (if is_fresh latest item then \<lparr>sg_item = item, sg_payload = payload\<rparr> # rest else rest))"
  by (simp only: verified_signals.simps bindR_Inr_iff signal_payload_iff) blast

lemma sound_signal_Cons: "sound_signal st latest items s \<Longrightarrow> sound_signal st latest (item # items) s"
  by (auto simp: sound_signal_def)

lemma verified_signals_items:
  "verified_signals st latest items = Inr signals \<Longrightarrow> item \<in> set items \<Longrightarrow>
     \<exists>env payload. store_verify st item = Inr env \<and> get_field env ''payload'' = Some (JObj payload)"
proof (induction items arbitrary: signals)
  case (Cons a items)
  then show ?case unfolding verified_signals_Cons by (metis set_ConsD)
qed simp

lemma verified_signals_sound:
  "verified_signals st latest items = Inr signals \<Longrightarrow> s \<in> set signals \<Longrightarrow> sound_signal st latest items s"
proof (induction items arbitrary: signals)
  case (Cons item items)
  then obtain env payload rest where item: "store_verify st item = Inr env"
      "get_field env ''payload'' = Some (JObj payload)" "verified_signals st latest items = Inr rest"
      and signals: "signals = (if is_fresh latest item then \<lparr>sg_item = item, sg_payload = payload\<rparr> # rest else rest)"
    unfolding verified_signals_Cons by blast
  show ?case
  proof (cases "s \<in> set rest")
    case True
    then show ?thesis using Cons.IH [OF item(3)] by (simp add: sound_signal_Cons)
  next
    case False
    with Cons.prems signals have "is_fresh latest item" "s = \<lparr>sg_item = item, sg_payload = payload\<rparr>"
      by (auto split: if_splits)
    with item show ?thesis by (simp add: sound_signal_def)
  qed
qed simp

lemma rule_hypothesis_Inr:
  "rule_hypothesis code score signals = Inr h \<Longrightarrow>
     valid_hypothesis h \<and> hy_cause h = code \<and> hy_confidence h = score \<and> hy_refutes h = [] \<and> hy_missing h = []
     \<and> distinct (hy_supports h) \<and> set (hy_supports h) = (\<lambda>s. ev_id (sg_item s)) ` set signals"
  by (auto simp: rule_hypothesis_def Let_def)

lemma apply_rules_Cons:
  "apply_rules ((code, score, groups) # rules) = Inr hs \<longleftrightarrow>
     (if list_all (\<lambda>g. g \<noteq> []) groups
      then \<exists>h rest. rule_hypothesis code score (concat groups) = Inr h \<and> apply_rules rules = Inr rest
                   \<and> hs = h # rest
      else apply_rules rules = Inr hs)"
  by auto

declare apply_rules.simps(2) [simp del] verified_signals.simps(2) [simp del]

lemma apply_rules_Inr:
  assumes "apply_rules rules = Inr hs" and "h \<in> set hs"
  shows "\<exists>(code, score, groups) \<in> set rules. list_all (\<lambda>g. g \<noteq> []) groups
           \<and> rule_hypothesis code score (concat groups) = Inr h"
  using assms
proof (induction rules arbitrary: hs)
  case (Cons r rules)
  obtain code score groups where r: "r = (code, score, groups)" by (cases r)
  show ?case
  proof (cases "list_all (\<lambda>g. g \<noteq> []) groups \<and> rule_hypothesis code score (concat groups) = Inr h")
    case True
    then show ?thesis by (simp add: r)
  next
    case False
    with Cons.prems obtain rest where "apply_rules rules = Inr rest" "h \<in> set rest"
      unfolding r apply_rules_Cons by (auto split: if_splits)
    with Cons.IH show ?thesis by auto
  qed
qed simp

lemma apply_rules_causes:
  assumes "apply_rules rules = Inr hs" and "distinct (map fst rules)"
  shows "distinct (map hy_cause hs) \<and> set (map hy_cause hs) \<subseteq> set (map fst rules)"
  using assms
proof (induction rules arbitrary: hs)
  case (Cons r rules)
  obtain code score groups where r: "r = (code, score, groups)" by (cases r)
  have new: "code \<notin> set (map fst rules)" "distinct (map fst rules)" using Cons.prems(2) by (auto simp: r)
  show ?case
  proof (cases "list_all (\<lambda>g. g \<noteq> []) groups")
    case True
    with Cons.prems(1) obtain h rest where h: "rule_hypothesis code score (concat groups) = Inr h"
        and rest: "apply_rules rules = Inr rest" and hs: "hs = h # rest"
      unfolding r apply_rules_Cons by auto
    have "hy_cause h = code" using rule_hypothesis_Inr [OF h] by blast
    with Cons.IH [OF rest new(2)] new(1) show ?thesis by (auto simp: hs r)
  next
    case False
    with Cons.prems(1) have "apply_rules rules = Inr hs" unfolding r apply_rules_Cons by simp
    from Cons.IH [OF this new(2)] show ?thesis by (auto simp: r)
  qed
qed simp

lemma rule_hypothesis_total:
  assumes "is_identifier code" "0 \<le> score" "score \<le> 1" "\<forall>s \<in> set signals. is_identifier (ev_id (sg_item s))"
  shows "\<exists>h. rule_hypothesis code score signals = Inr h"
  using assms by (auto simp: rule_hypothesis_def Let_def valid_hypothesis_def list_all_iff)

lemma apply_rules_total:
  assumes "\<forall>(code, score, groups) \<in> set rules. is_identifier code \<and> 0 \<le> score \<and> score \<le> 1
             \<and> (\<forall>s \<in> set (concat groups). is_identifier (ev_id (sg_item s)))"
  shows "\<exists>hs. apply_rules rules = Inr hs"
  using assms
proof (induction rules)
  case (Cons r rules)
  obtain code score groups where r: "r = (code, score, groups)" by (cases r)
  from Cons obtain rest where rest: "apply_rules rules = Inr rest" by auto
  have "\<exists>h. rule_hypothesis code score (concat groups) = Inr h"
    by (rule rule_hypothesis_total) (use Cons.prems in \<open>auto simp: r\<close>)
  with rest show ?case by (auto simp: r apply_rules.simps(2))
qed simp

text \<open>A cause cites a signal with the property \<open>p\<close>: an item of the input that verifies, is fresh and whose
  verified payload has it.\<close>

definition cites ::
  "('r artifact_store_scheme) \<Rightarrow> evidence_item list \<Rightarrow> hypothesis \<Rightarrow> (signal \<Rightarrow> bool) \<Rightarrow> bool" where
  "cites st evidence h p \<longleftrightarrow>
     (\<exists>s. sound_signal st (latest_collected evidence) evidence s \<and> p s \<and> ev_id (sg_item s) \<in> set (hy_supports h))"

lemma baseline_verified_Inr:
  "baseline_verified st evidence = Inr signals \<longleftrightarrow>
     card (set (map ev_incident evidence)) \<le> 1 \<and> distinct (map ev_id evidence)
     \<and> verified_signals st (latest_collected evidence) evidence = Inr signals"
  by (auto simp: baseline_verified_def)

lemma baseline_rules_fst:
  "map fst (baseline_rules fromiso signals) =
     [''INVALID_CONFIGURATION'', ''READINESS_PROBE_FAILURE'', ''PROCESSOR_UNAVAILABLE'', ''STARTUP_FAILURE'']"
  by (simp add: baseline_rules_def Let_def)

lemma baseline_rules_scores:
  assumes "(code, score, groups) \<in> set (baseline_rules fromiso signals)"
  shows "is_identifier code" "0 \<le> score" "score \<le> 1" "groups \<noteq> []" "set (concat groups) \<subseteq> set signals"
  using assms
  by (auto simp: baseline_rules_def Let_def is_identifier_def is_word_char_def)

lemma rank_evidence_Inr:
  assumes "rank_evidence fromiso evidence st = Inr hs" and "h \<in> set hs"
  obtains signals code score groups where "baseline_verified st evidence = Inr signals"
    "(code, score, groups) \<in> set (baseline_rules fromiso signals)" "list_all (\<lambda>g. g \<noteq> []) groups"
    "rule_hypothesis code score (concat groups) = Inr h"
  using assms apply_rules_Inr unfolding rank_evidence_def by (fastforce simp del: apply_rules.simps)

lemma rank_evidence_supports:
  assumes "rank_evidence fromiso evidence st = Inr hs" and "h \<in> set hs"
  shows "valid_hypothesis h" "hy_supports h \<noteq> []" "distinct (hy_supports h)" "hy_refutes h = []"
    "i \<in> set (hy_supports h) \<Longrightarrow>
       \<exists>s. sound_signal st (latest_collected evidence) evidence s \<and> ev_id (sg_item s) = i"
proof -
  from assms obtain signals code score groups where v: "baseline_verified st evidence = Inr signals"
    and rule: "(code, score, groups) \<in> set (baseline_rules fromiso signals)" "list_all (\<lambda>g. g \<noteq> []) groups"
    and h: "rule_hypothesis code score (concat groups) = Inr h"
    by (rule rank_evidence_Inr)
  note hyp = rule_hypothesis_Inr [OF h]
  have vs: "verified_signals st (latest_collected evidence) evidence = Inr signals"
    using v by (simp add: baseline_verified_Inr)
  have "set (concat groups) \<noteq> {}"
    using rule(2) baseline_rules_scores(4) [OF rule(1)] by (cases groups) auto
  with hyp show "valid_hypothesis h" "hy_supports h \<noteq> []" "distinct (hy_supports h)" "hy_refutes h = []"
    by auto
  assume "i \<in> set (hy_supports h)"
  then obtain s where "s \<in> set signals" "ev_id (sg_item s) = i"
    using hyp baseline_rules_scores(5) [OF rule(1)] by auto
  then show "\<exists>s. sound_signal st (latest_collected evidence) evidence s \<and> ev_id (sg_item s) = i"
    using verified_signals_sound [OF vs] by blast
qed

lemma rank_evidence_causes:
  assumes "rank_evidence fromiso evidence st = Inr hs"
  shows "distinct (map hy_cause hs)"
proof -
  from assms obtain signals where "apply_rules (baseline_rules fromiso signals) = Inr hs"
    by (auto simp: rank_evidence_def)
  then show ?thesis by (rule apply_rules_causes [THEN conjunct1]) (simp add: baseline_rules_fst)
qed

lemma rank_evidence_verifies:
  assumes "rank_evidence fromiso evidence st = Inr hs" and "item \<in> set evidence"
  shows "\<exists>env payload. store_verify st item = Inr env \<and> get_field env ''payload'' = Some (JObj payload)"
  using assms verified_signals_items by (fastforce simp: rank_evidence_def baseline_verified_Inr)

lemma rank_evidence_total:
  assumes "baseline_verified st evidence = Inr signals" and "\<forall>item \<in> set evidence. is_identifier (ev_id item)"
  shows "\<exists>hs. rank_evidence fromiso evidence st = Inr hs"
proof -
  have "\<forall>s \<in> set signals. is_identifier (ev_id (sg_item s))"
    using assms verified_signals_sound by (fastforce simp: baseline_verified_Inr sound_signal_def)
  then have "\<exists>hs. apply_rules (baseline_rules fromiso signals) = Inr hs"
    by (intro apply_rules_total) (use baseline_rules_scores in fastforce)
  with assms show ?thesis by (simp add: rank_evidence_def)
qed

lemma group_cited:
  assumes v: "baseline_verified st evidence = Inr signals"
    and h: "rule_hypothesis code score (concat groups) = Inr h"
    and g: "filter p signals \<in> set groups" "list_all (\<lambda>g. g \<noteq> []) groups"
  shows "cites st evidence h p"
proof -
  from g have "filter p signals \<noteq> []" by (auto simp: list_all_iff)
  then obtain s where s: "s \<in> set signals" "p s" by (auto simp: filter_empty_conv)
  then have "ev_id (sg_item s) \<in> set (hy_supports h)"
    using g(1) rule_hypothesis_Inr [OF h] by force
  moreover have "sound_signal st (latest_collected evidence) evidence s"
    using v s verified_signals_sound by (auto simp: baseline_verified_Inr)
  ultimately show ?thesis using s by (auto simp: cites_def)
qed

text \<open>A cause cites an unready pod together with a probe event of that very pod: the event's object has the
  identifier that was observed for the pod.\<close>

definition cites_probe_of_pod ::
  "iso_reader \<Rightarrow> ('r artifact_store_scheme) \<Rightarrow> evidence_item list \<Rightarrow> hypothesis \<Rightarrow> bool" where
  "cites_probe_of_pod fromiso st evidence h \<longleftrightarrow>
     (\<exists>pod event uid.
        sound_signal st (latest_collected evidence) evidence pod \<and> ev_id (sg_item pod) \<in> set (hy_supports h)
        \<and> running_unready pod \<and> get_field (sg_payload pod) ''resource_uid'' = Some (JStr uid)
        \<and> sound_signal st (latest_collected evidence) evidence event \<and> ev_id (sg_item event) \<in> set (hy_supports h)
        \<and> readiness_event fromiso {uid} event
        \<and> py_str (get_field (object_or_nil (get_field (sg_payload event) ''involvedObject'')) ''uid'') = uid)"

lemma observed_uids_iff:
  "uid \<in> observed_uids signals \<longleftrightarrow>
     (\<exists>s \<in> set signals. get_field (sg_payload s) ''resource_uid'' = Some (JStr uid))"
  by (force simp: observed_uids_def split: option.splits json.splits)

lemma readiness_event_of:
  "readiness_event fromiso uids s \<longleftrightarrow>
     (\<exists>uid \<in> uids. readiness_event fromiso {uid} s
        \<and> py_str (get_field (object_or_nil (get_field (sg_payload s) ''involvedObject'')) ''uid'') = uid)"
  by (auto simp: readiness_event_def Let_def)

lemma probe_cited:
  assumes v: "baseline_verified st evidence = Inr signals"
    and h: "rule_hypothesis code score (concat groups) = Inr h"
    and g: "filter running_unready signals \<in> set groups"
      "filter (readiness_event fromiso (observed_uids (filter running_unready signals))) signals \<in> set groups"
      "list_all (\<lambda>g. g \<noteq> []) groups"
  shows "cites_probe_of_pod fromiso st evidence h"
proof -
  have cited: "sound_signal st (latest_collected evidence) evidence s \<and> ev_id (sg_item s) \<in> set (hy_supports h)"
    if "s \<in> set signals" "s \<in> set (concat groups)" for s
    using that v rule_hypothesis_Inr [OF h] verified_signals_sound by (auto simp: baseline_verified_Inr)
  from g(2,3) obtain event where event: "event \<in> set signals" "event \<in> set (concat groups)"
      "readiness_event fromiso (observed_uids (filter running_unready signals)) event"
    by (fastforce simp: list_all_iff filter_empty_conv)
  from event(3) obtain uid where uid: "uid \<in> observed_uids (filter running_unready signals)"
      "readiness_event fromiso {uid} event"
      "py_str (get_field (object_or_nil (get_field (sg_payload event) ''involvedObject'')) ''uid'') = uid"
    unfolding readiness_event_of [of _ "observed_uids (filter running_unready signals)"] by blast
  from uid(1) obtain pod where pod: "pod \<in> set signals" "running_unready pod"
      "get_field (sg_payload pod) ''resource_uid'' = Some (JStr uid)"
    by (auto simp: observed_uids_iff)
  then have "pod \<in> set (concat groups)"
    using g(1) by (auto intro!: bexI [of _ "filter running_unready signals"])
  from cited [OF pod(1) this] cited [OF event(1,2)] pod uid show ?thesis
    unfolding cites_probe_of_pod_def by blast
qed

lemma rank_evidence_corroborates:
  assumes "rank_evidence fromiso evidence st = Inr hs" and "h \<in> set hs"
  shows "hy_cause h = ''STARTUP_FAILURE'' \<Longrightarrow> cites st evidence h degraded \<and> cites st evidence h crashed"
    and "hy_cause h = ''INVALID_CONFIGURATION'' \<Longrightarrow>
           cites st evidence h degraded \<and> cites st evidence h crashed
           \<and> cites st evidence h (invalid_configuration fromiso)"
    and "hy_cause h = ''READINESS_PROBE_FAILURE'' \<Longrightarrow>
           cites st evidence h degraded \<and> cites_probe_of_pod fromiso st evidence h"
    and "hy_cause h = ''PROCESSOR_UNAVAILABLE'' \<Longrightarrow>
           cites st evidence h processor_absent \<and> cites st evidence h no_processor_pods
           \<and> cites st evidence h (\<lambda>s. list_ex access_failure (log_lines fromiso s))"
    and "hy_cause h \<in> {''STARTUP_FAILURE'', ''INVALID_CONFIGURATION'', ''READINESS_PROBE_FAILURE'',
                       ''PROCESSOR_UNAVAILABLE''}"
proof -
  from assms obtain signals code score groups where v: "baseline_verified st evidence = Inr signals"
    and rule: "(code, score, groups) \<in> set (baseline_rules fromiso signals)" "list_all (\<lambda>g. g \<noteq> []) groups"
    and h: "rule_hypothesis code score (concat groups) = Inr h"
    by (rule rank_evidence_Inr)
  have code: "hy_cause h = code" using rule_hypothesis_Inr [OF h] by blast
  note cited = group_cited [OF v h _ rule(2)]
  show "hy_cause h = ''STARTUP_FAILURE'' \<Longrightarrow> cites st evidence h degraded \<and> cites st evidence h crashed"
    and "hy_cause h = ''INVALID_CONFIGURATION'' \<Longrightarrow>
           cites st evidence h degraded \<and> cites st evidence h crashed
           \<and> cites st evidence h (invalid_configuration fromiso)"
    and "hy_cause h = ''READINESS_PROBE_FAILURE'' \<Longrightarrow>
           cites st evidence h degraded \<and> cites_probe_of_pod fromiso st evidence h"
    and "hy_cause h = ''PROCESSOR_UNAVAILABLE'' \<Longrightarrow>
           cites st evidence h processor_absent \<and> cites st evidence h no_processor_pods
           \<and> cites st evidence h (\<lambda>s. list_ex access_failure (log_lines fromiso s))"
    using rule(1) code by (auto simp: baseline_rules_def Let_def intro!: cited probe_cited [OF v h _ _ rule(2)])
  show "hy_cause h \<in> {''STARTUP_FAILURE'', ''INVALID_CONFIGURATION'', ''READINESS_PROBE_FAILURE'',
                       ''PROCESSOR_UNAVAILABLE''}"
    using rule(1) code by (auto simp: baseline_rules_def Let_def)
qed

section \<open>Properties\<close>

definition sample_degraded :: json_object where
  "sample_degraded =
     [(''kind'', JStr ''Deployment''), (''replicas'', JInt 2),
      (''status'', JObj [(''availableReplicas'', JInt 0)])]"

definition sample_deployment_item :: evidence_item where
  "sample_deployment_item =
     \<lparr>ev_id = ''ev-1'', ev_incident = ''inc-1'', ev_source = DEPLOYMENT, ev_observed = 5, ev_collected = 7,
      ev_query = ''deployment'', ev_resource = ''payments-api'',
      ev_uri = ''sha256://'' @ sha256_hex ''a'', ev_sha256 = sha256_hex ''a'', ev_summary = ''state''\<rparr>"

definition sample_baseline_store :: artifact_store where
  "sample_baseline_store =
     \<lparr>st_files = [sha256_hex ''a'' \<mapsto> ''a''],
      st_decode = (\<lambda>_. Inr [(''evidence'', evidence_json sample_deployment_item),
                            (''payload'', JObj sample_degraded)])\<rparr>"

lemma sample_deployment_verifies:
  "store_verify sample_baseline_store sample_deployment_item =
     Inr [(''evidence'', evidence_json sample_deployment_item), (''payload'', JObj sample_degraded)]"
  by (simp add: store_verify_iff sample_baseline_store_def MAX_ARTIFACT_BYTES_def)
     (simp add: sample_deployment_item_def evidence_json_def)

lemma sample_rank:
  "rank_evidence fromiso [sample_deployment_item] sample_baseline_store = Inr []"
proof -
  have s: "baseline_verified sample_baseline_store [sample_deployment_item] =
      Inr [\<lparr>sg_item = sample_deployment_item, sg_payload = sample_degraded\<rparr>]"
    unfolding baseline_verified_Inr verified_signals_Cons
    by (simp add: sample_deployment_verifies latest_collected_def)
       (simp add: is_fresh_def sample_deployment_item_def MAX_AGE_SECONDS_def one_second_def)
  show ?thesis
    unfolding rank_evidence_def s
    by (simp add: baseline_rules_def apply_rules.simps(2) Let_def crashed_def payment_pod_def running_unready_def
        processor_absent_def sample_deployment_item_def)
qed

end
