(* ===== verification/Spans.thy ===== *)
theory Spans
  imports Window
begin

text \<open>
  Console spans and their provenance: \<^verbatim>\<open>src/payops/evidence/trace_span.py\<close>.

  A pod's log is framed line by line into JSON objects (\<open>frame_line\<close>), each of which is judged once. The
  libraries are the fields of \<open>span_env\<close>: strict UTF-8 decoding of the bytes, \<^verbatim>\<open>json.loads\<close> (which keeps repeated keys for the
  hook and writes a non-finite number as its \<^verbatim>\<open>repr\<close>) and pydantic's reading of a datetime. Rebuilding a
  retained \<^verbatim>\<open>TraceLog\<close> or \<^verbatim>\<open>TraceSpan\<close> from its JSON is pydantic's work and a field of the store; the validators of the
  source are applied to what it returns.

  Main facts: the framing loop counts exactly the segments of the log (\<open>parse_console_log_segments\<close>), what
  it accepts is in scope and agrees with the emitting service (\<open>judge_Inr\<close>, \<open>project_valid\<close>), and a
  verified span is recomputed from one verified log (\<open>verify_trace_span_iff\<close>).
\<close>

section \<open>Scope and identity\<close>

definition ROLES :: "(string \<times> string) list" where
  "ROLES = [(''payments-api'', ''payments''), (''risk-sim'', ''risk''), (''processor-adapter'', ''processor''),
            (''ledger-sim'', ''ledger''), (''webhook-sim'', ''webhook'')]"

definition role_of :: "string \<Rightarrow> string" where
  "role_of service = (case map_of ROLES service of Some r \<Rightarrow> r | None \<Rightarrow> [])"

definition MAX_LOG_BYTES :: nat where "MAX_LOG_BYTES = 131072"
definition MAX_LOG_LINES :: nat where "MAX_LOG_LINES = 2000"
definition MAX_SPANS :: nat where "MAX_SPANS = 128"
definition MAX_SPAN_BYTES :: nat where "MAX_SPAN_BYTES = 8192"
definition LOG_QUERY :: string where "LOG_QUERY = ''trace.console-log.v1''"
definition TRACE_QUERY :: string where "TRACE_QUERY = ''trace.console-span.v1''"

record trace_scope =
  sc_incident :: string
  sc_service :: string
  sc_start :: instant
  sc_end :: instant

definition NAMESPACE :: string where "NAMESPACE = ''payops-sandbox''"

definition validate_scope :: "trace_scope \<Rightarrow> exn + trace_scope" where
  "validate_scope s =
     bindR (check (is_identifier (sc_incident s) \<and> sc_service s \<in> set (map fst ROLES)) (ValueError ''field constraint'')) (\<lambda>_.
     bindR (check (0 < sc_end s - sc_start s \<and> sc_end s - sc_start s \<le> 600 * 1000000)
              (ValueError ''trace interval must be positive and at most ten minutes'')) (\<lambda>_.
     Inr s))"

definition is_lower_alnum_char :: "char \<Rightarrow> bool" where
  "is_lower_alnum_char c \<longleftrightarrow> is_digit c \<or> 97 \<le> (of_char c :: nat) \<and> (of_char c :: nat) \<le> 122"

definition is_pod_name :: "string \<Rightarrow> bool" where
  "is_pod_name s \<longleftrightarrow>
     (case s of [] \<Rightarrow> False | c # cs \<Rightarrow>
        is_lower_alnum_char c \<and> length cs \<le> 126
        \<and> list_all (\<lambda>d. is_lower_alnum_char d \<or> d = CHR ''.'' \<or> d = CHR ''-'') cs)"

record pod_identity =
  pi_name :: string
  pi_uid :: string
  pi_deployment :: string
  pi_replica_set :: string
  pi_container_id :: string
  pi_restarts :: int

definition validate_identity :: "pod_identity \<Rightarrow> exn + pod_identity" where
  "validate_identity p =
     bindR (check (is_pod_name (pi_name p) \<and> is_identifier (pi_uid p) \<and> is_identifier (pi_deployment p)
                   \<and> is_identifier (pi_replica_set p) \<and> 1 \<le> length (pi_container_id p)
                   \<and> length (pi_container_id p) \<le> 200 \<and> 0 \<le> pi_restarts p \<and> pi_restarts p \<le> 1000000)
              (ValueError ''field constraint'')) (\<lambda>_. Inr p)"

section \<open>Spans\<close>

datatype span_kind = Client | Server
datatype span_status = Unset | Status_ok | Status_error

record source_span =
  ss_name :: string
  ss_trace :: string
  ss_id :: string
  ss_parent :: "string option"
  ss_kind :: span_kind
  ss_start :: instant
  ss_end :: instant
  ss_status :: span_status
  ss_service :: string

definition is_hex_id :: "nat \<Rightarrow> string \<Rightarrow> bool" where
  "is_hex_id n s \<longleftrightarrow> take 2 s = ''0x'' \<and> length s = n + 2 \<and> list_all is_lower_hex (drop 2 s)"

text \<open>\<^verbatim>\<open>int(value, 16)\<close> of such a text.\<close>

definition hex_value :: "string \<Rightarrow> nat" where
  "hex_value s = foldl (\<lambda>acc c. 16 * acc + unhex c) 0 (drop 2 s)"

definition validate_span :: "source_span \<Rightarrow> exn + source_span" where
  "validate_span s =
     bindR (check (1 \<le> length (ss_name s) \<and> length (ss_name s) \<le> 80 \<and> is_hex_id 32 (ss_trace s) \<and> is_hex_id 16 (ss_id s)
                   \<and> pred_option (is_hex_id 16) (ss_parent s)
                   \<and> 1 \<le> length (ss_service s) \<and> length (ss_service s) \<le> 80) (ValueError ''field constraint'')) (\<lambda>_.
     bindR (check (\<not> (hex_value (ss_trace s) = 0 \<or> hex_value (ss_id s) = 0
                      \<or> (case ss_parent s of None \<Rightarrow> False | Some p \<Rightarrow> hex_value p = 0)
                      \<or> ss_parent s = Some (ss_id s) \<or> ss_end s < ss_start s))
              (ValueError ''invalid span identity or time'')) (\<lambda>_.
     Inr s))"

definition expected_kinds :: "string \<Rightarrow> (string \<times> span_kind) list" where
  "expected_kinds service =
     (''sandbox.'' @ role_of service, Server)
     # (if service = ''payments-api''
        then map (\<lambda>role. (''sandbox.call.'' @ role, Client)) [''risk'', ''processor'', ''ledger'', ''webhook''] else [])"

definition check_service :: "string \<Rightarrow> source_span \<Rightarrow> exn + unit" where
  "check_service service s =
     check (\<not> (ss_service s \<noteq> ''payops-sandbox-'' @ role_of service
               \<or> map_of (expected_kinds service) (ss_name s) \<noteq> Some (ss_kind s)))
       (EvidenceIntegrityError ''span disagrees with emitting service'')"

record captured_span =
  cs_span :: source_span
  cs_start :: instant
  cs_end :: instant

definition validate_captured :: "captured_span \<Rightarrow> exn + captured_span" where
  "validate_captured c =
     bindR (check (ss_end (cs_span c) \<le> cs_start c \<and> cs_start c \<le> cs_end c) (ValueError ''inverted log emission interval''))
       (\<lambda>_. Inr c)"

record parsed_log =
  pl_spans :: "captured_span list"
  pl_bytes :: nat
  pl_lines :: nat
  pl_partial :: nat
  pl_malformed :: nat
  pl_excluded :: nat
  pl_limit :: bool

definition validate_parsed :: "parsed_log \<Rightarrow> exn + parsed_log" where
  "validate_parsed p =
     bindR (check (length (pl_spans p) \<le> MAX_SPANS \<and> pl_bytes p \<le> MAX_LOG_BYTES \<and> pl_lines p \<le> MAX_LOG_LINES)
              (ValueError ''field constraint'')) (\<lambda>_. Inr p)"

section \<open>One object\<close>

record span_env =
  sn_decode :: "string \<Rightarrow> exn + string"
  sn_loads :: "string \<Rightarrow> exn + json"
  sn_datetime :: "string \<Rightarrow> instant option"

fun finite_numbers :: "json \<Rightarrow> bool" where
  "finite_numbers (JFloat s) \<longleftrightarrow> s \<notin> {''inf'', ''-inf'', ''nan''}"
| "finite_numbers (JObj kvs) \<longleftrightarrow> list_all (\<lambda>(k, v). finite_numbers v) kvs"
| "finite_numbers (JArr xs) \<longleftrightarrow> list_all finite_numbers xs"
| "finite_numbers _ \<longleftrightarrow> True"

definition text_field :: "json option \<Rightarrow> exn + string" where
  "text_field v = (case v of Some (JStr s) \<Rightarrow> Inr s | _ \<Rightarrow> Inl (ValueError ''field constraint''))"

definition time_field :: "span_env \<Rightarrow> json option \<Rightarrow> exn + instant" where
  "time_field env v =
     bindR (text_field v) (\<lambda>s. of_option (ValueError ''field constraint'') (sn_datetime env s))"

definition parent_field :: "json option \<Rightarrow> exn + string option" where
  "parent_field v = (case v of Some JNull \<Rightarrow> Inr None | _ \<Rightarrow> bindR (text_field v) (\<lambda>s. Inr (Some s)))"

definition kind_field :: "json option \<Rightarrow> exn + span_kind" where
  "kind_field v =
     (if v = Some (JStr ''SpanKind.CLIENT'') then Inr Client
      else if v = Some (JStr ''SpanKind.SERVER'') then Inr Server else Inl (ValueError ''field constraint''))"

definition status_field :: "json option \<Rightarrow> exn + span_status" where
  "status_field v =
     (if v = Some (JStr ''UNSET'') then Inr Unset
      else if v = Some (JStr ''OK'') then Inr Status_ok
      else if v = Some (JStr ''ERROR'') then Inr Status_error else Inl (ValueError ''field constraint''))"

definition object_field :: "json_object \<Rightarrow> string \<Rightarrow> exn + json_object" where
  "object_field obj k =
     (case get_field obj k of Some (JObj kvs) \<Rightarrow> Inr kvs | _ \<Rightarrow> Inl (ValueError ''span nested metadata is missing''))"

definition project :: "span_env \<Rightarrow> string \<Rightarrow> exn + source_span" where
  "project env text =
     bindR (sn_loads env text) (\<lambda>v.
     bindR (check (unique_fields v \<and> finite_numbers v) (ValueError ''duplicate or nonfinite span JSON'')) (\<lambda>_.
     bindR (case v of JObj kvs \<Rightarrow> Inr kvs | _ \<Rightarrow> Inl (ValueError ''expected object'')) (\<lambda>obj.
     bindR (check (get_field obj ''parent_id'' \<noteq> None) (ValueError ''span parent field is missing'')) (\<lambda>_.
     bindR (object_field obj ''context'') (\<lambda>context.
     bindR (object_field obj ''status'') (\<lambda>status.
     bindR (object_field obj ''resource'') (\<lambda>resource.
     bindR (object_field resource ''attributes'') (\<lambda>attributes.
     bindR (text_field (get_field obj ''name'')) (\<lambda>name.
     bindR (text_field (get_field context ''trace_id'')) (\<lambda>trace_id.
     bindR (text_field (get_field context ''span_id'')) (\<lambda>span_id.
     bindR (parent_field (get_field obj ''parent_id'')) (\<lambda>parent_id.
     bindR (kind_field (get_field obj ''kind'')) (\<lambda>kind.
     bindR (time_field env (get_field obj ''start_time'')) (\<lambda>start_time.
     bindR (time_field env (get_field obj ''end_time'')) (\<lambda>end_time.
     bindR (status_field (get_field status ''status_code'')) (\<lambda>status_code.
     bindR (text_field (get_field attributes ''service.name'')) (\<lambda>service_name.
     validate_span \<lparr>ss_name = name, ss_trace = trace_id, ss_id = span_id, ss_parent = parent_id, ss_kind = kind,
                    ss_start = start_time, ss_end = end_time, ss_status = status_code, ss_service = service_name\<rparr>)))))))))))))))))"

text \<open>The scan keeps the current depth and whether it is inside a string and after a backslash.\<close>

fun depth_scan :: "int \<Rightarrow> bool \<Rightarrow> bool \<Rightarrow> string \<Rightarrow> exn + unit" where
  "depth_scan depth in_text escaped [] = Inr ()"
| "depth_scan depth in_text escaped (c # cs) =
     (if in_text then
        (if escaped then depth_scan depth True False cs
         else if c = CHR 0x5C then depth_scan depth True True cs
         else depth_scan depth (c \<noteq> CHR 0x22) False cs)
      else if c = CHR 0x22 then depth_scan depth True escaped cs
      else if c \<in> {CHR ''['', CHR ''{''} then
        (if depth + 1 > 8 then Inl (ValueError ''span JSON exceeds depth budget'') else depth_scan (depth + 1) False escaped cs)
      else if c \<in> {CHR '']'', CHR ''}''} then depth_scan (depth - 1) False escaped cs
      else depth_scan depth False escaped cs)"

definition check_depth :: "string \<Rightarrow> exn + unit" where
  "check_depth text = depth_scan 0 False False text"

section \<open>Physical lines\<close>

text \<open>\<^verbatim>\<open>\\d{4}-\\d\\d-\\d\\dT\\d\\d:\\d\\d:\\d\\d(?:\\.\\d{1,9})?Z\<close>, and what \<^verbatim>\<open>fromisoformat\<close> makes of it: it
  truncates to microseconds.\<close>

definition is_stamp :: "string \<Rightarrow> bool" where
  "is_stamp s \<longleftrightarrow>
     map (\<lambda>c. if is_digit c then CHR ''0'' else c) (take 19 s) = ''0000-00-00T00:00:00''
     \<and> (drop 19 s = ''Z''
        \<or> take 1 (drop 19 s) = ''.''
          \<and> (let digits = takeWhile is_digit (drop 20 s) in
             1 \<le> length digits \<and> length digits \<le> 9 \<and> drop (20 + length digits) s = ''Z''))"

definition days_from_civil :: "int \<Rightarrow> int \<Rightarrow> int \<Rightarrow> int" where
  "days_from_civil year month day =
     (let y = (if month \<le> 2 then year - 1 else year); era = y div 400; yoe = y - era * 400;
          doy = (153 * (if 2 < month then month - 3 else month + 9) + 2) div 5 + day - 1;
          doe = yoe * 365 + yoe div 4 - yoe div 100 + doy
      in era * 146097 + doe - 719468)"

definition is_leap_year :: "int \<Rightarrow> bool" where
  "is_leap_year y \<longleftrightarrow> 4 dvd y \<and> (\<not> 100 dvd y \<or> 400 dvd y)"

definition days_in_month :: "int \<Rightarrow> int \<Rightarrow> int" where
  "days_in_month y m = (if m = 2 then (if is_leap_year y then 29 else 28) else if m \<in> {4, 6, 9, 11} then 30 else 31)"

definition digits_at :: "nat \<Rightarrow> nat \<Rightarrow> string \<Rightarrow> int" where
  "digits_at i n s = int (digits_value 0 (take n (drop i s)))"

definition stamp_instant :: "string \<Rightarrow> instant option" where
  "stamp_instant s =
     (let y = digits_at 0 4 s; m = digits_at 5 2 s; d = digits_at 8 2 s;
          hh = digits_at 11 2 s; mm = digits_at 14 2 s; sec = digits_at 17 2 s;
          digits = takeWhile is_digit (drop 20 s);
          us = int (digits_value 0 (take 6 (digits @ ''000000'')))
      in if 1 \<le> y \<and> 1 \<le> m \<and> m \<le> 12 \<and> 1 \<le> d \<and> d \<le> days_in_month y m \<and> hh \<le> 23 \<and> mm \<le> 59 \<and> sec \<le> 59
         then Some (((days_from_civil y m d * 24 + hh) * 60 + mm) * 60 * 1000000 + sec * 1000000 + us) else None)"

definition log_line :: "string \<Rightarrow> exn + instant \<times> string" where
  "log_line raw_line =
     (let (stamp, separated, line) = partition_blank raw_line in
      bindR (check (separated \<and> is_stamp stamp) (ValueError ''timestamped Kubernetes log line required'')) (\<lambda>_.
      bindR (of_option (ValueError ''fromisoformat'') (stamp_instant stamp)) (\<lambda>emitted.
      Inr (emitted, line))))"

definition physical_lines :: "span_env \<Rightarrow> string \<Rightarrow> exn + (instant \<times> string) list" where
  "physical_lines env raw =
     bindR (check (length raw \<le> MAX_LOG_BYTES) (ValueError ''trace log exceeds byte budget'')) (\<lambda>_.
     bindR (sn_decode env raw) (\<lambda>text.
     let lines = splitlines text in
     bindR (check (length lines \<le> MAX_LOG_LINES) (ValueError ''trace log exceeds line budget'')) (\<lambda>_.
     mapR log_line lines)))"

section \<open>Framing\<close>

record framing =
  fr_candidate :: "string list"
  fr_started :: "instant option"
  fr_previous :: "instant option"
  fr_disorder :: bool
  fr_size :: nat
  fr_spans :: "captured_span list"
  fr_partial :: nat
  fr_malformed :: nat
  fr_excluded :: nat

definition no_frame :: framing where
  "no_frame = \<lparr>fr_candidate = [], fr_started = None, fr_previous = None, fr_disorder = False, fr_size = 0,
               fr_spans = [], fr_partial = 0, fr_malformed = 0, fr_excluded = 0\<rparr>"

definition stray :: "string \<Rightarrow> bool" where
  "stray line \<longleftrightarrow> (case dropWhile py_space line of [] \<Rightarrow> False | c # _ \<Rightarrow> c \<in> {CHR 0x22, CHR ''}'', CHR '']''})"

text \<open>The body of the \<^verbatim>\<open>try\<close>: what a complete candidate is, up to the test against the interval.\<close>

definition judge :: "span_env \<Rightarrow> trace_scope \<Rightarrow> string list \<Rightarrow> bool \<Rightarrow> instant option \<Rightarrow> instant \<Rightarrow> exn + captured_span" where
  "judge env scope candidate disorder started emitted =
     (let text = join [CHR 0x0A] candidate in
      bindR (check (\<not> disorder) (ValueError ''unordered physical log timestamps'')) (\<lambda>_.
      bindR (check_depth text) (\<lambda>_.
      bindR (project env text) (\<lambda>span.
      bindR (check_service (sc_service scope) span) (\<lambda>_.
      bindR (of_option (AssertionError ''started is not None'') started) (\<lambda>t.
      validate_captured \<lparr>cs_span = span, cs_start = t, cs_end = emitted\<rparr>))))))"

definition in_interval :: "trace_scope \<Rightarrow> source_span \<Rightarrow> bool" where
  "in_interval scope s \<longleftrightarrow> sc_start scope \<le> ss_start s \<and> ss_start s \<le> ss_end s \<and> ss_end s \<le> sc_end scope"

text \<open>\<^verbatim>\<open>OverflowError\<close> is not a \<^verbatim>\<open>ValueError\<close>, so it leaves the parser.\<close>

definition close_frame :: "span_env \<Rightarrow> trace_scope \<Rightarrow> instant \<Rightarrow> framing \<Rightarrow> exn + framing" where
  "close_frame env scope emitted f =
     (let g = f\<lparr>fr_candidate := [], fr_started := None, fr_size := 0\<rparr> in
      case judge env scope (fr_candidate f) (fr_disorder f) (fr_started f) emitted of
        Inl e \<Rightarrow> if is_ValueError e then Inr (g\<lparr>fr_malformed := fr_malformed f + 1\<rparr>) else Inl e
      | Inr captured \<Rightarrow>
          if in_interval scope (cs_span captured)
          then bindR (check (length (fr_spans f @ [captured]) \<le> MAX_SPANS) (OtherError ''trace span count exceeds budget'')) (\<lambda>_.
               Inr (g\<lparr>fr_spans := fr_spans f @ [captured]\<rparr>))
          else Inr (g\<lparr>fr_excluded := fr_excluded f + 1\<rparr>))"

definition frame_line :: "span_env \<Rightarrow> trace_scope \<Rightarrow> instant \<times> string \<Rightarrow> framing \<Rightarrow> exn + framing" where
  "frame_line env scope entry f =
     (let (emitted, line) = entry in
      if line = ''{'' then
        Inr (f\<lparr>fr_partial := fr_partial f + (if fr_candidate f = [] then 0 else 1), fr_candidate := [line],
               fr_started := Some emitted, fr_size := 1, fr_previous := Some emitted, fr_disorder := False\<rparr>)
      else if fr_candidate f = [] then Inr (f\<lparr>fr_partial := fr_partial f + (if stray line then 1 else 0)\<rparr>)
      else
        bindR (of_option (AssertionError ''previous is not None'') (fr_previous f)) (\<lambda>previous.
        let g = f\<lparr>fr_candidate := fr_candidate f @ [line], fr_disorder := fr_disorder f \<or> emitted < previous,
                  fr_previous := Some emitted, fr_size := fr_size f + length (utf8 line) + 1\<rparr> in
        bindR (check (fr_size g \<le> MAX_SPAN_BYTES) (ValueError ''span object exceeds byte budget'')) (\<lambda>_.
        if line \<noteq> ''}'' then Inr g else close_frame env scope emitted g)))"

fun frame_lines :: "span_env \<Rightarrow> trace_scope \<Rightarrow> (instant \<times> string) list \<Rightarrow> framing \<Rightarrow> exn + framing" where
  "frame_lines env scope [] f = Inr f"
| "frame_lines env scope (entry # entries) f =
     bindR (frame_line env scope entry f) (frame_lines env scope entries)"

definition parse_console_log :: "span_env \<Rightarrow> string \<Rightarrow> trace_scope \<Rightarrow> exn + parsed_log" where
  "parse_console_log env raw scope =
     bindR (physical_lines env raw) (\<lambda>entries.
     bindR (frame_lines env scope entries no_frame) (\<lambda>f.
     validate_parsed
       \<lparr>pl_spans = fr_spans f, pl_bytes = length raw, pl_lines = length entries,
        pl_partial = fr_partial f + (if fr_candidate f = [] then 0 else 1),
        pl_malformed = fr_malformed f, pl_excluded = fr_excluded f,
        pl_limit = (length raw = MAX_LOG_BYTES \<or> length entries = MAX_LOG_LINES)\<rparr>))"

section \<open>Segments of a log\<close>

text \<open>The log as a list of segments, without any running state: a line outside every object, an object that was
  closed, with its lines, and one that was clipped by the next opening line or the end.\<close>

datatype segment =
    Outside string
  | Closed "(instant \<times> string) list"
  | Clipped "(instant \<times> string) list"

definition is_body :: "instant \<times> string \<Rightarrow> bool" where
  "is_body entry \<longleftrightarrow> snd entry \<notin> {''{'', ''}''}"

function segments :: "(instant \<times> string) list \<Rightarrow> segment list" where
  "segments [] = []"
| "segments (entry # entries) =
     (if snd entry \<noteq> ''{'' then Outside (snd entry) # segments entries
      else let body = takeWhile is_body entries in
           case dropWhile is_body entries of
             [] \<Rightarrow> [Clipped (entry # body)]
           | last1 # rest \<Rightarrow>
               if snd last1 = ''}'' then Closed (entry # body @ [last1]) # segments rest
               else Clipped (entry # body) # segments (last1 # rest))"
  by pat_completeness auto
termination
proof (relation "measure length", goal_cases)
  case (3 entry entries body last1 rest)
  then show ?case using length_dropWhile_le [of is_body entries] by simp
next
  case (4 entry entries body last1 rest)
  then show ?case using length_dropWhile_le [of is_body entries] by simp
qed auto

text \<open>What one closed object is: \<^verbatim>\<open>unordered\<close> compares neighbouring time stamps.\<close>

definition unordered :: "(instant \<times> string) list \<Rightarrow> bool" where
  "unordered entries \<longleftrightarrow> list_ex (\<lambda>(a, b). fst b < fst a) (zip entries (tl entries))"

definition verdict_of :: "span_env \<Rightarrow> trace_scope \<Rightarrow> (instant \<times> string) list \<Rightarrow> exn + captured_span" where
  "verdict_of env scope entries =
     judge env scope (map snd entries) (unordered entries) (Some (fst (hd entries))) (fst (List.last entries))"

definition closed_objects :: "segment list \<Rightarrow> (instant \<times> string) list list" where
  "closed_objects ss = concat (map (\<lambda>s. case s of Closed es \<Rightarrow> [es] | _ \<Rightarrow> []) ss)"

definition count_of :: "(segment \<Rightarrow> bool) \<Rightarrow> segment list \<Rightarrow> nat" where
  "count_of p ss = length (filter p ss)"

fun is_partial :: "segment \<Rightarrow> bool" where
  "is_partial (Outside line) \<longleftrightarrow> stray line"
| "is_partial (Clipped es) \<longleftrightarrow> True"
| "is_partial (Closed es) \<longleftrightarrow> False"

text \<open>The captured spans, refused objects and out-of-interval objects of a list of closed objects.\<close>

fun judged_objects :: "span_env \<Rightarrow> trace_scope \<Rightarrow> (instant \<times> string) list list \<Rightarrow> captured_span list \<times> nat \<times> nat" where
  "judged_objects env scope [] = ([], 0, 0)"
| "judged_objects env scope (es # ess) =
     (let (spans, malformed, excluded) = judged_objects env scope ess in
      case verdict_of env scope es of
        Inl _ \<Rightarrow> (spans, malformed + 1, excluded)
      | Inr c \<Rightarrow> if in_interval scope (cs_span c) then (c # spans, malformed, excluded)
                 else (spans, malformed, excluded + 1))"

section \<open>The loop computes the segments\<close>

definition absorb :: "framing \<Rightarrow> instant \<times> string \<Rightarrow> framing" where
  "absorb f entry =
     f\<lparr>fr_candidate := fr_candidate f @ [snd entry],
       fr_disorder := fr_disorder f \<or> (case fr_previous f of None \<Rightarrow> False | Some p \<Rightarrow> fst entry < p),
       fr_previous := Some (fst entry), fr_size := fr_size f + length (utf8 (snd entry)) + 1\<rparr>"

lemma frame_body:
  "list_all is_body body \<Longrightarrow> fr_candidate f \<noteq> [] \<Longrightarrow> fr_previous f \<noteq> None
     \<Longrightarrow> frame_lines env scope (body @ rest) f = Inr out \<Longrightarrow> frame_lines env scope rest (foldl absorb f body) = Inr out"
proof (induction body arbitrary: f)
  case (Cons entry body)
  then have "frame_lines env scope (body @ rest) (absorb f entry) = Inr out"
    by (auto simp: frame_line_def is_body_def absorb_def Let_def split: prod.splits)
  with Cons.prems show ?case by (simp add: Cons.IH) (rule Cons.IH, simp_all add: absorb_def)
qed simp

lemma unordered_step: "unordered ((t, l) # entry # body) \<longleftrightarrow> fst entry < t \<or> unordered (entry # body)"
  by (cases entry) (simp add: unordered_def)

lemma absorb_all:
  assumes "fr_previous f = Some t"
  shows "fr_candidate (foldl absorb f body) = fr_candidate f @ map snd body"
    and "fr_disorder (foldl absorb f body) \<longleftrightarrow> fr_disorder f \<or> unordered ((t, l) # body)"
    and "fr_previous (foldl absorb f body) = Some (fst (List.last ((t, l) # body)))"
proof -
  have "fr_candidate (foldl absorb f body) = fr_candidate f @ map snd body
      \<and> (fr_disorder (foldl absorb f body) \<longleftrightarrow> fr_disorder f \<or> unordered ((t, l) # body))
      \<and> fr_previous (foldl absorb f body) = Some (fst (List.last ((t, l) # body)))"
    using assms
  proof (induction body arbitrary: f t l)
    case Nil
    then show ?case by (simp add: unordered_def)
  next
    case (Cons entry body)
    have "fr_previous (absorb f entry) = Some (fst entry)" by (simp add: absorb_def)
    from Cons.IH [OF this, of "snd entry"] Cons.prems show ?case
      by (simp add: unordered_step) (simp add: absorb_def disj_ac)
  qed
  then show "fr_candidate (foldl absorb f body) = fr_candidate f @ map snd body"
    and "fr_disorder (foldl absorb f body) \<longleftrightarrow> fr_disorder f \<or> unordered ((t, l) # body)"
    and "fr_previous (foldl absorb f body) = Some (fst (List.last ((t, l) # body)))" by simp_all
qed

lemma absorb_keeps [simp]:
  "fr_started (foldl absorb f body) = fr_started f" "fr_spans (foldl absorb f body) = fr_spans f"
  "fr_partial (foldl absorb f body) = fr_partial f" "fr_malformed (foldl absorb f body) = fr_malformed f"
  "fr_excluded (foldl absorb f body) = fr_excluded f"
  by (induction body arbitrary: f) (simp_all add: absorb_def)

definition accounts :: "span_env \<Rightarrow> trace_scope \<Rightarrow> segment list \<Rightarrow> framing \<Rightarrow> framing \<Rightarrow> bool" where
  "accounts env scope ss f out \<longleftrightarrow>
     (case judged_objects env scope (closed_objects ss) of (spans, malformed, excluded) \<Rightarrow>
        fr_spans out = fr_spans f @ spans \<and> fr_malformed out = fr_malformed f + malformed
        \<and> fr_excluded out = fr_excluded f + excluded)
     \<and> fr_partial out + (if fr_candidate out = [] then 0 else 1) = fr_partial f + count_of is_partial ss
     \<and> (\<forall>es \<in> set (closed_objects ss). \<forall>e. verdict_of env scope es = Inl e \<longrightarrow> is_ValueError e)"

lemma segment_counts [simp]:
  "closed_objects [] = []" "closed_objects (Outside l # ss) = closed_objects ss"
  "closed_objects (Clipped es # ss) = closed_objects ss" "closed_objects (Closed es # ss) = es # closed_objects ss"
  "count_of p [] = 0" "count_of p (s # ss) = (if p s then 1 else 0) + count_of p ss"
  by (simp_all add: closed_objects_def count_of_def)

text \<open>The state right after an opening line.\<close>

definition opened :: "framing \<Rightarrow> instant \<times> string \<Rightarrow> framing" where
  "opened f entry =
     f\<lparr>fr_partial := fr_partial f + (if fr_candidate f = [] then 0 else 1), fr_candidate := [snd entry],
       fr_started := Some (fst entry), fr_size := 1, fr_previous := Some (fst entry), fr_disorder := False\<rparr>"

lemma frame_open: "snd entry = ''{'' \<Longrightarrow> frame_line env scope entry f = Inr (opened f entry)"
  by (cases entry) (simp add: frame_line_def opened_def)

lemma frame_open_drop:
  assumes "snd entry = ''{''" "fr_candidate f \<noteq> []"
  shows "frame_lines env scope (entry # entries) f
       = frame_lines env scope (entry # entries) (f\<lparr>fr_candidate := [], fr_partial := fr_partial f + 1\<rparr>)"
  using assms by (simp add: frame_open) (simp add: opened_def)

text \<open>Closing an object, once its lines have been absorbed.\<close>

lemma close_absorbed:
  assumes "snd entry = ''{''" "fr_candidate f = []" "snd last1 = ''}''"
    and "frame_line env scope last1 (foldl absorb (opened f entry) body) = Inr g"
  shows "fr_candidate g = [] \<and> fr_partial g = fr_partial f
    \<and> (case verdict_of env scope (entry # body @ [last1]) of
         Inl e \<Rightarrow> is_ValueError e \<and> fr_spans g = fr_spans f \<and> fr_malformed g = fr_malformed f + 1 \<and> fr_excluded g = fr_excluded f
       | Inr c \<Rightarrow> fr_malformed g = fr_malformed f
           \<and> (if in_interval scope (cs_span c) then fr_spans g = fr_spans f @ [c] \<and> fr_excluded g = fr_excluded f
              else fr_spans g = fr_spans f \<and> fr_excluded g = fr_excluded f + 1))"
proof -
  have o: "fr_previous (opened f entry) = Some (fst entry)" "fr_candidate (opened f entry) = [snd entry]"
      "fr_started (opened f entry) = Some (fst entry)" "\<not> fr_disorder (opened f entry)"
      "fr_spans (opened f entry) = fr_spans f" "fr_partial (opened f entry) = fr_partial f"
      "fr_malformed (opened f entry) = fr_malformed f" "fr_excluded (opened f entry) = fr_excluded f"
    using assms(2) by (simp_all add: opened_def)
  define h where "h = foldl absorb (opened f entry) (body @ [last1])"
  have h: "fr_candidate h = map snd (entry # body @ [last1])" "fr_disorder h \<longleftrightarrow> unordered (entry # body @ [last1])"
      "fr_started h = Some (fst entry)" "fr_spans h = fr_spans f" "fr_partial h = fr_partial f"
      "fr_malformed h = fr_malformed f" "fr_excluded h = fr_excluded f"
    using absorb_all(1) [OF o(1), of "body @ [last1]"] absorb_all(2) [OF o(1), of "body @ [last1]" "snd entry"] o
    unfolding h_def by (simp_all del: foldl_append)
  have nonempty: "fr_candidate (foldl absorb (opened f entry) body) \<noteq> []"
      "fr_previous (foldl absorb (opened f entry) body) \<noteq> None"
    using absorb_all(1) [OF o(1), of body] absorb_all(3) [OF o(1), of body "snd entry"] o by simp_all
  have "close_frame env scope (fst last1) h = Inr g"
    using assms(3,4) nonempty unfolding h_def
    by (cases last1) (auto simp: frame_line_def absorb_def Let_def)
  moreover have "judge env scope (fr_candidate h) (fr_disorder h) (fr_started h) (fst last1) = verdict_of env scope (entry # body @ [last1])"
    by (simp add: verdict_of_def h del: list.map)
  ultimately show ?thesis
    by (auto simp: close_frame_def Let_def h split: sum.splits if_splits)
qed

lemma frame_lines_account:
  "fr_candidate f = [] \<Longrightarrow> frame_lines env scope entries f = Inr out \<Longrightarrow> accounts env scope (segments entries) f out"
proof (induction entries arbitrary: f rule: segments.induct)
  case 1
  then show ?case by (simp add: accounts_def)
next
  case (2 entry entries)
  show ?case
  proof (cases "snd entry = ''{''")
    case False
    with 2 obtain g where g: "frame_lines env scope entries g = Inr out"
      "g = f\<lparr>fr_partial := fr_partial f + (if stray (snd entry) then 1 else 0)\<rparr>"
      by (cases entry) (auto simp: frame_line_def)
    with 2(1) [OF False, of g] 2(4) False show ?thesis by (simp add: accounts_def)
  next
    case True
    have "frame_lines env scope (takeWhile is_body entries @ dropWhile is_body entries) (opened f entry) = Inr out"
      using 2(5) True by (simp add: frame_open)
    then have rest: "frame_lines env scope (dropWhile is_body entries) (foldl absorb (opened f entry) (takeWhile is_body entries)) = Inr out"
      by (rule frame_body [rotated 3]) (auto simp: opened_def list_all_iff dest: set_takeWhileD)
    let ?h = "foldl absorb (opened f entry) (takeWhile is_body entries)"
    have h: "fr_candidate ?h \<noteq> []" "fr_spans ?h = fr_spans f" "fr_partial ?h = fr_partial f"
        "fr_malformed ?h = fr_malformed f" "fr_excluded ?h = fr_excluded f"
      using absorb_all(1) [of "opened f entry" "fst entry"] 2(4) by (simp_all add: opened_def)
    show ?thesis
    proof (cases "dropWhile is_body entries")
      case Nil
      with True have "segments (entry # entries) = [Clipped (entry # takeWhile is_body entries)]"
        by (simp add: Let_def del: dropWhile_eq_Nil_conv)
      moreover from Nil rest have "out = ?h" by (simp del: dropWhile_eq_Nil_conv)
      ultimately show ?thesis using h by (simp add: accounts_def del: segments.simps)
    next
      case (Cons last1 tail)
      then have "snd last1 = ''{'' \<or> snd last1 = ''}''"
        using hd_dropWhile [of is_body entries] by (auto simp: is_body_def)
      then show ?thesis
      proof
        assume c: "snd last1 = ''}''"
        with rest Cons obtain g where g: "frame_line env scope last1 ?h = Inr g" "frame_lines env scope tail g = Inr out"
          by auto
        note closed = close_absorbed [OF True 2(4) c g(1)]
        with 2(2) [OF _ refl Cons c _ g(2)] True Cons c show ?thesis
          by (auto simp: accounts_def Let_def split: sum.splits if_splits prod.splits)
      next
        assume c: "snd last1 = ''{''"
        let ?g = "?h\<lparr>fr_candidate := [], fr_partial := fr_partial ?h + 1\<rparr>"
        have "frame_lines env scope (last1 # tail) ?g = Inr out"
          using rest unfolding Cons frame_open_drop [OF c h(1)] .
        with 2(3) [OF _ refl Cons _ _ this] True Cons c h show ?thesis
          by (auto simp: accounts_def Let_def)
      qed
    qed
  qed
qed

text \<open>The log as the judge of every closed object sees it.\<close>

lemma parse_console_log_segments:
  assumes "parse_console_log env raw scope = Inr p"
  obtains entries where "physical_lines env raw = Inr entries"
    "judged_objects env scope (closed_objects (segments entries)) = (pl_spans p, pl_malformed p, pl_excluded p)"
    "pl_partial p = count_of is_partial (segments entries)"
    "\<And>es e. es \<in> set (closed_objects (segments entries)) \<Longrightarrow> verdict_of env scope es = Inl e \<Longrightarrow> is_ValueError e"
    "pl_bytes p = length raw" "pl_lines p = length entries" "length (pl_spans p) \<le> MAX_SPANS"
proof -
  from assms obtain entries f where e: "physical_lines env raw = Inr entries"
    and f: "frame_lines env scope entries no_frame = Inr f"
    and p: "validate_parsed
       \<lparr>pl_spans = fr_spans f, pl_bytes = length raw, pl_lines = length entries,
        pl_partial = fr_partial f + (if fr_candidate f = [] then 0 else 1),
        pl_malformed = fr_malformed f, pl_excluded = fr_excluded f,
        pl_limit = (length raw = MAX_LOG_BYTES \<or> length entries = MAX_LOG_LINES)\<rparr> = Inr p"
    by (auto simp: parse_console_log_def)
  have a: "accounts env scope (segments entries) no_frame f"
    by (rule frame_lines_account [OF _ f]) (simp add: no_frame_def)
  from p show thesis
    by (intro that [OF e]) (use a in \<open>auto simp: accounts_def validate_parsed_def no_frame_def split: prod.splits\<close>)
qed

lemma judged_objects_counts:
  "judged_objects env scope ess = (spans, malformed, excluded) \<Longrightarrow> length spans + malformed + excluded = length ess"
  by (induction ess arbitrary: spans malformed excluded) (auto simp: Let_def split: prod.splits sum.splits if_splits)

lemma judged_objects_spans:
  "judged_objects env scope ess = (spans, malformed, excluded) \<Longrightarrow> c \<in> set spans
     \<Longrightarrow> \<exists>es \<in> set ess. verdict_of env scope es = Inr c \<and> in_interval scope (cs_span c)"
  by (induction ess arbitrary: spans malformed excluded) (auto simp: Let_def split: prod.splits sum.splits if_splits)

text \<open>What the judge lets through.\<close>

definition good_span :: "string \<Rightarrow> source_span \<Rightarrow> bool" where
  "good_span service s \<longleftrightarrow> validate_span s = Inr s \<and> check_service service s = Inr ()"

lemma project_valid: "project env text = Inr s \<Longrightarrow> validate_span s = Inr s"
  by (auto simp: project_def validate_span_def)

lemma judge_Inr:
  assumes "judge env scope candidate disorder started emitted = Inr c"
  shows "good_span (sc_service scope) (cs_span c)" and "\<not> disorder" and "started = Some (cs_start c)" and "emitted = cs_end c"
    and "ss_end (cs_span c) \<le> cs_start c" and "cs_start c \<le> cs_end c"
    and "check_depth (join [CHR 0x0A] candidate) = Inr ()" and "project env (join [CHR 0x0A] candidate) = Inr (cs_span c)"
  using assms by (auto simp: judge_def Let_def validate_captured_def good_span_def dest: project_valid)

lemma closed_objects_lines:
  "es \<in> set (closed_objects (segments entries)) \<Longrightarrow>
     \<exists>before after. entries = before @ es @ after \<and> es \<noteq> [] \<and> snd (hd es) = ''{'' \<and> snd (List.last es) = ''}''"
proof (induction entries rule: segments.induct)
  case (2 entry entries)
  let ?body = "takeWhile is_body entries"
  have split: "entries = ?body @ dropWhile is_body entries" by simp
  show ?case
  proof (cases "snd entry = ''{''")
    case False
    with 2 obtain before after where "entries = before @ es @ after" "es \<noteq> []" "snd (hd es) = ''{''" "snd (List.last es) = ''}''"
      by auto
    then show ?thesis by (intro exI [of _ "entry # before"] exI [of _ after]) simp
  next
    case True
    show ?thesis
    proof (cases "dropWhile is_body entries")
      case Nil
      with True 2(4) show ?thesis by (simp add: Let_def del: dropWhile_eq_Nil_conv)
    next
      case (Cons last1 tail)
      show ?thesis
      proof (cases "snd last1 = ''}''")
        case c: True
        from 2(4) True Cons c consider "es = entry # ?body @ [last1]" | "es \<in> set (closed_objects (segments tail))"
          by (auto simp: Let_def)
        then show ?thesis
        proof cases
          case 1
          then show ?thesis using split Cons True c
            by (intro exI [of _ "[]"] exI [of _ tail]) simp
        next
          case 2: 2
          from "2.IH"(2) [OF _ refl Cons c 2] True obtain before after where "tail = before @ es @ after" "es \<noteq> []"
              "snd (hd es) = ''{''" "snd (List.last es) = ''}''" by auto
          with split Cons show ?thesis
            by (intro exI [of _ "entry # ?body @ last1 # before"] exI [of _ after]) simp
        qed
      next
        case c: False
        from 2(4) True Cons c have "es \<in> set (closed_objects (segments (last1 # tail)))"
          by (simp add: Let_def)
        from 2(3) [OF _ refl Cons c this] True obtain before after where "last1 # tail = before @ es @ after" "es \<noteq> []"
            "snd (hd es) = ''{''" "snd (List.last es) = ''}''" by auto
        with split Cons show ?thesis
          by (intro exI [of _ "entry # ?body @ before"] exI [of _ after]) simp
      qed
    qed
  qed
qed simp

section \<open>Retained logs\<close>

record trace_log =
  tl_scope :: trace_scope
  tl_identity :: pod_identity
  tl_start :: instant
  tl_end :: instant
  tl_parsed :: parsed_log

record trace_span =
  tp_scope :: trace_scope
  tp_source :: evidence_item
  tp_ordinal :: int
  tp_trace :: string
  tp_id :: string
  tp_parent :: "string option"
  tp_duration :: int
  tp_record :: captured_span

record span_store = window_store +
  st_trace_log :: "json \<Rightarrow> exn + trace_log"
  st_trace_span :: "json \<Rightarrow> exn + trace_span"

text \<open>A \<^verbatim>\<open>ValueError\<close> of a validator reaches the caller as pydantic's \<^verbatim>\<open>ValidationError\<close>, a \<^verbatim>\<open>ValueError\<close>.\<close>

definition validated :: "exn + 'a \<Rightarrow> exn + 'a" where
  "validated r = (case r of Inl e \<Rightarrow> Inl (if is_ValueError e then ValueError ''validation error'' else e) | Inr x \<Rightarrow> Inr x)"

definition record_in_capture :: "trace_log \<Rightarrow> captured_span \<Rightarrow> exn + unit" where
  "record_in_capture l c =
     bindR (check_service (sc_service (tl_scope l)) (cs_span c)) (\<lambda>_.
     check (in_interval (tl_scope l) (cs_span c)
            \<and> ss_end (cs_span c) \<le> cs_start c \<and> cs_start c \<le> cs_end c \<and> cs_end c \<le> tl_end l)
       (ValueError ''span lies outside retained capture scope''))"

definition consistent_log :: "trace_log \<Rightarrow> exn + trace_log" where
  "consistent_log l =
     validated
       (bindR (check (\<not> (tl_end l < tl_start l \<or> tl_end l < sc_end (tl_scope l))) (ValueError ''invalid trace capture interval'')) (\<lambda>_.
        bindR (each (record_in_capture l) (pl_spans (tl_parsed l))) (\<lambda>_.
        Inr l)))"

text \<open>Reading a record back from JSON runs the validators of its parts first.\<close>

definition validate_trace_log :: "trace_log \<Rightarrow> exn + trace_log" where
  "validate_trace_log l =
     bindR (validate_scope (tl_scope l)) (\<lambda>_.
     bindR (validate_identity (tl_identity l)) (\<lambda>_.
     bindR (each (\<lambda>c. bindR (validate_span (cs_span c)) (\<lambda>_. bindR (validate_captured c) (\<lambda>_. Inr ()))) (pl_spans (tl_parsed l))) (\<lambda>_.
     bindR (validate_parsed (tl_parsed l)) (\<lambda>_.
     consistent_log l))))"

definition log_summary :: "trace_log \<Rightarrow> string" where
  "log_summary l = ''Bounded console span sample: '' @ nat_str (length (pl_spans (tl_parsed l))) @ '' records''"

definition publish_trace_log ::
  "(trace_log \<Rightarrow> json_object) \<Rightarrow> string \<Rightarrow> instant \<Rightarrow> trace_log \<Rightarrow> ('r artifact_store_scheme)
     \<Rightarrow> exn + evidence_item \<times> 'r artifact_store_scheme" where
  "publish_trace_log dump new_id now l st =
     bindR (make_observation LOG (sc_service (tl_scope l)) (tl_end l) LOG_QUERY (log_summary l) (dump l)) (\<lambda>o1.
     normalize new_id now o1 (sc_incident (tl_scope l)) (tl_start l) (tl_end l) st)"

definition payload_value :: "json_object \<Rightarrow> json" where
  "payload_value envelope = (case get_field envelope ''payload'' of Some v \<Rightarrow> v | None \<Rightarrow> JNull)"

text \<open>\<^verbatim>\<open>Model.model_validate_json(json.dumps(raw, allow_nan=False))\<close>\<close>

definition rebuild :: "(json \<Rightarrow> exn + 'a) \<Rightarrow> ('a \<Rightarrow> exn + 'a) \<Rightarrow> json_object \<Rightarrow> exn + 'a" where
  "rebuild decode validate envelope =
     bindR (check (finite_numbers (payload_value envelope)) (ValueError ''Out of range float values'')) (\<lambda>_.
     bindR (decode (payload_value envelope)) validate)"

definition verify_trace_log :: "('r span_store_scheme) \<Rightarrow> evidence_item \<Rightarrow> exn + trace_log" where
  "verify_trace_log st item =
     bindR (store_verify st item) (\<lambda>envelope.
     bindR (rebuild (st_trace_log st) validate_trace_log envelope) (\<lambda>l.
     bindR (check (\<not> (ev_source item \<noteq> LOG \<or> ev_query item \<noteq> LOG_QUERY \<or> ev_incident item \<noteq> sc_incident (tl_scope l)
                       \<or> ev_resource item \<noteq> sc_service (tl_scope l) \<or> ev_observed item \<noteq> tl_end l
                       \<or> ev_collected item < ev_observed item \<or> ev_summary item \<noteq> log_summary l))
              (EvidenceIntegrityError ''trace LOG source metadata disagrees'')) (\<lambda>_.
     Inr l)))"

section \<open>Derived spans\<close>

definition is_hex :: "nat \<Rightarrow> string \<Rightarrow> bool" where
  "is_hex n s \<longleftrightarrow> length s = n \<and> list_all is_lower_hex s"

definition validate_trace_span :: "trace_span \<Rightarrow> exn + trace_span" where
  "validate_trace_span d =
     bindR (check (0 \<le> tp_ordinal d \<and> tp_ordinal d < int MAX_SPANS \<and> is_hex 32 (tp_trace d) \<and> is_hex 16 (tp_id d)
                   \<and> pred_option (is_hex 16) (tp_parent d) \<and> 0 \<le> tp_duration d) (ValueError ''field constraint'')) (\<lambda>_.
     Inr d)"

definition rebuild_trace_span :: "trace_span \<Rightarrow> exn + trace_span" where
  "rebuild_trace_span d =
     bindR (validate_scope (tp_scope d)) (\<lambda>_.
     bindR (validate_evidence (tp_source d)) (\<lambda>_.
     bindR (validate_span (cs_span (tp_record d))) (\<lambda>_.
     bindR (validate_captured (tp_record d)) (\<lambda>_.
     validate_trace_span d))))"

definition derive_span :: "('r span_store_scheme) \<Rightarrow> evidence_item \<Rightarrow> int \<Rightarrow> exn + trace_span" where
  "derive_span st src ordinal =
     bindR (verify_trace_log st src) (\<lambda>l.
     bindR (check (0 \<le> ordinal \<and> ordinal < int (length (pl_spans (tl_parsed l))))
              (EvidenceIntegrityError ''trace source ordinal is unavailable'')) (\<lambda>_.
     let c = pl_spans (tl_parsed l) ! nat ordinal; span = cs_span c in
     validate_trace_span
       \<lparr>tp_scope = tl_scope l, tp_source = src, tp_ordinal = ordinal, tp_trace = drop 2 (ss_trace span),
        tp_id = drop 2 (ss_id span), tp_parent = map_option (drop 2) (ss_parent span),
        tp_duration = ss_end span - ss_start span, tp_record = c\<rparr>))"

fun span_status_text :: "span_status \<Rightarrow> string" where
  "span_status_text Unset = ''UNSET''"
| "span_status_text Status_ok = ''OK''"
| "span_status_text Status_error = ''ERROR''"

definition span_summary :: "trace_span \<Rightarrow> string" where
  "span_summary d =
     ss_name (cs_span (tp_record d)) @ '': '' @ int_str (tp_duration d) @ '' us; status ''
       @ span_status_text (ss_status (cs_span (tp_record d))) @ ''; bounded sample''"

definition derive_trace_span ::
  "(trace_span \<Rightarrow> json_object) \<Rightarrow> string \<Rightarrow> instant \<Rightarrow> evidence_item \<Rightarrow> int \<Rightarrow> ('r span_store_scheme)
     \<Rightarrow> exn + evidence_item \<times> 'r span_store_scheme" where
  "derive_trace_span dump new_id now src ordinal st =
     bindR (derive_span st src ordinal) (\<lambda>d.
     bindR (make_observation TRACE (sc_service (tp_scope d)) (ss_end (cs_span (tp_record d))) TRACE_QUERY (span_summary d) (dump d)) (\<lambda>o1.
     normalize new_id now o1 (sc_incident (tp_scope d)) (sc_start (tp_scope d)) (sc_end (tp_scope d)) st))"

definition verify_trace_span :: "('r span_store_scheme) \<Rightarrow> evidence_item \<Rightarrow> exn + trace_span" where
  "verify_trace_span st item =
     bindR (store_verify st item) (\<lambda>envelope.
     bindR (rebuild (st_trace_span st) rebuild_trace_span envelope) (\<lambda>derived.
     bindR (derive_span st (tp_source derived) (tp_ordinal derived)) (\<lambda>expected.
     bindR (check (\<not> (derived \<noteq> expected \<or> ev_source item \<noteq> TRACE \<or> ev_query item \<noteq> TRACE_QUERY
                       \<or> ev_incident item \<noteq> sc_incident (tp_scope expected)
                       \<or> ev_resource item \<noteq> sc_service (tp_scope expected)
                       \<or> ev_observed item \<noteq> ss_end (cs_span (tp_record expected))
                       \<or> ev_collected item < ev_observed item
                       \<or> ev_collected item < ev_collected (tp_source expected)
                       \<or> ev_summary item \<noteq> span_summary expected))
              (EvidenceIntegrityError ''derived trace disagrees with direct LOG lineage'')) (\<lambda>_.
     Inr expected))))"

section \<open>Lineage\<close>

lemma verify_trace_log_iff:
  "verify_trace_log st item = Inr l \<longleftrightarrow>
     (\<exists>envelope l'. store_verify st item = Inr envelope \<and> finite_numbers (payload_value envelope)
        \<and> st_trace_log st (payload_value envelope) = Inr l' \<and> validate_trace_log l' = Inr l)
     \<and> ev_source item = LOG \<and> ev_query item = LOG_QUERY \<and> ev_incident item = sc_incident (tl_scope l)
     \<and> ev_resource item = sc_service (tl_scope l) \<and> ev_observed item = tl_end l
     \<and> ev_observed item \<le> ev_collected item \<and> ev_summary item = log_summary l"
  by (auto simp: verify_trace_log_def rebuild_def)

lemma validated_Inr [simp]: "validated r = Inr x \<longleftrightarrow> r = Inr x"
  by (simp add: validated_def split: sum.split)

lemma validate_trace_log_Inr:
  assumes "validate_trace_log l = Inr l'"
  shows "l' = l" and "tl_start l \<le> tl_end l" and "sc_end (tl_scope l) \<le> tl_end l" and "validate_scope (tl_scope l) = Inr (tl_scope l)"
    and "length (pl_spans (tl_parsed l)) \<le> MAX_SPANS"
    and "\<And>c. c \<in> set (pl_spans (tl_parsed l)) \<Longrightarrow>
       good_span (sc_service (tl_scope l)) (cs_span c) \<and> in_interval (tl_scope l) (cs_span c)
       \<and> ss_end (cs_span c) \<le> cs_start c \<and> cs_start c \<le> cs_end c \<and> cs_end c \<le> tl_end l"
  using assms
  by (auto simp: validate_trace_log_def consistent_log_def record_in_capture_def validate_scope_def validate_parsed_def
      good_span_def validate_span_def)

lemma derive_span_iff:
  "derive_span st src ordinal = Inr d \<longleftrightarrow>
     (\<exists>l. verify_trace_log st src = Inr l \<and> 0 \<le> ordinal \<and> ordinal < int (length (pl_spans (tl_parsed l)))
        \<and> tp_scope d = tl_scope l \<and> tp_record d = pl_spans (tl_parsed l) ! nat ordinal)
     \<and> tp_source d = src \<and> tp_ordinal d = ordinal \<and> tp_trace d = drop 2 (ss_trace (cs_span (tp_record d)))
     \<and> tp_id d = drop 2 (ss_id (cs_span (tp_record d))) \<and> tp_parent d = map_option (drop 2) (ss_parent (cs_span (tp_record d)))
     \<and> tp_duration d = ss_end (cs_span (tp_record d)) - ss_start (cs_span (tp_record d)) \<and> validate_trace_span d = Inr d"
  by (cases d) (auto simp: derive_span_def Let_def validate_trace_span_def)

lemma verify_trace_span_iff:
  "verify_trace_span st item = Inr d \<longleftrightarrow>
     (\<exists>envelope. store_verify st item = Inr envelope \<and> rebuild (st_trace_span st) rebuild_trace_span envelope = Inr d)
     \<and> derive_span st (tp_source d) (tp_ordinal d) = Inr d
     \<and> ev_source item = TRACE \<and> ev_query item = TRACE_QUERY \<and> ev_incident item = sc_incident (tp_scope d)
     \<and> ev_resource item = sc_service (tp_scope d) \<and> ev_observed item = ss_end (cs_span (tp_record d))
     \<and> ev_observed item \<le> ev_collected item \<and> ev_collected (tp_source d) \<le> ev_collected item
     \<and> ev_summary item = span_summary d"
  by (auto simp: verify_trace_span_def)

section \<open>Properties\<close>

text \<open>C12: The framing loop accounts for every line. A log that parses splits into segments: lines outside every
  object, closed objects and clipped objects. Each closed object is judged exactly once, independently of the
  others, and is either an accepted span, malformed or out of the interval; the partial count is the
  number of clipped objects and of stray lines; and every accepted span is well formed, agrees with the
  emitting service, lies in the interval and was emitted after it ended.\<close>

theorem console_log_is_accounted:
  assumes "parse_console_log env raw scope = Inr p"
  shows "\<exists>entries. physical_lines env raw = Inr entries
    \<and> judged_objects env scope (closed_objects (segments entries)) = (pl_spans p, pl_malformed p, pl_excluded p)
    \<and> pl_partial p = count_of is_partial (segments entries)
    \<and> length (pl_spans p) + pl_malformed p + pl_excluded p = length (closed_objects (segments entries))
    \<and> (\<forall>c \<in> set (pl_spans p). good_span (sc_service scope) (cs_span c) \<and> in_interval scope (cs_span c)
         \<and> ss_end (cs_span c) \<le> cs_start c \<and> cs_start c \<le> cs_end c
         \<and> (\<exists>before es after. entries = before @ es @ after \<and> cs_start c = fst (hd es) \<and> cs_end c = fst (List.last es)
              \<and> project env (join [CHR 0x0A] (map snd es)) = Inr (cs_span c)))"
  using assms
proof (rule parse_console_log_segments)
  fix entries
  assume e: "physical_lines env raw = Inr entries"
    and j: "judged_objects env scope (closed_objects (segments entries)) = (pl_spans p, pl_malformed p, pl_excluded p)"
    and part: "pl_partial p = count_of is_partial (segments entries)"
  have "good_span (sc_service scope) (cs_span c) \<and> in_interval scope (cs_span c)
      \<and> ss_end (cs_span c) \<le> cs_start c \<and> cs_start c \<le> cs_end c
      \<and> (\<exists>before es after. entries = before @ es @ after \<and> cs_start c = fst (hd es) \<and> cs_end c = fst (List.last es)
           \<and> project env (join [CHR 0x0A] (map snd es)) = Inr (cs_span c))" if c: "c \<in> set (pl_spans p)" for c
  proof -
    from judged_objects_spans [OF j c] obtain es where es: "es \<in> set (closed_objects (segments entries))"
      and v: "verdict_of env scope es = Inr c" and i: "in_interval scope (cs_span c)" by blast
    from closed_objects_lines [OF es] obtain before after where "entries = before @ es @ after" by blast
    moreover note good = judge_Inr [OF v [unfolded verdict_of_def]]
    ultimately have "entries = before @ es @ after \<and> cs_start c = fst (hd es) \<and> cs_end c = fst (List.last es)
        \<and> project env (join [CHR 0x0A] (map snd es)) = Inr (cs_span c)" by simp
    then show ?thesis using good(1,5,6) i by blast
  qed
  with e j part judged_objects_counts [OF j] show ?thesis by blast
qed

text \<open>A log of one object and one stray line.\<close>

definition sample_trace_id :: string where "sample_trace_id = ''0x1'' @ replicate 31 (CHR ''0'')"

definition sample_span_id :: string where "sample_span_id = ''0x2'' @ replicate 15 (CHR ''0'')"

definition sample_console_env :: span_env where
  "sample_console_env =
     \<lparr>sn_decode = Inr,
      sn_loads = (\<lambda>_. Inr (JObj [(''name'', JStr ''sandbox.risk''), (''parent_id'', JNull), (''kind'', JStr ''SpanKind.SERVER''),
        (''context'', JObj [(''trace_id'', JStr sample_trace_id), (''span_id'', JStr sample_span_id)]),
        (''start_time'', JStr ''s''), (''end_time'', JStr ''e''), (''status'', JObj [(''status_code'', JStr ''OK'')]),
        (''resource'', JObj [(''attributes'', JObj [(''service.name'', JStr ''payops-sandbox-risk'')])])])),
      sn_datetime = (\<lambda>s. if s = ''s'' then Some 1 else if s = ''e'' then Some 2 else None)\<rparr>"

definition sample_console_scope :: trace_scope where
  "sample_console_scope = \<lparr>sc_incident = ''inc-1'', sc_service = ''risk-sim'', sc_start = 0, sc_end = 60000000\<rparr>"

definition sample_console :: string where
  "sample_console = ''1970-01-01T00:00:01Z {'' @ [CHR 0x0A] @ ''1970-01-01T00:00:02Z }'' @ [CHR 0x0A] @ ''1970-01-01T00:00:02Z ]'' @ [CHR 0x0A]"

definition sample_captured :: captured_span where
  "sample_captured = \<lparr>cs_span = \<lparr>ss_name = ''sandbox.risk'', ss_trace = sample_trace_id, ss_id = sample_span_id,
      ss_parent = None, ss_kind = Server, ss_start = 1, ss_end = 2, ss_status = Status_ok, ss_service = ''payops-sandbox-risk''\<rparr>,
      cs_start = 1000000, cs_end = 2000000\<rparr>"

lemma hex_value_pos: "unhex c \<noteq> 0 \<Longrightarrow> 0 < hex_value (a # b # c # s)"
proof -
  have "0 < foldl (\<lambda>acc c. 16 * acc + unhex c) n cs" if "0 < n" for n cs
    using that by (induction cs arbitrary: n) (simp_all del: unhex.simps)
  then show "unhex c \<noteq> 0 \<Longrightarrow> ?thesis" by (simp add: hex_value_def del: unhex.simps)
qed

lemma sample_ids: "0 < hex_value sample_trace_id" "0 < hex_value sample_span_id"
  "is_hex_id 32 sample_trace_id" "is_hex_id 16 sample_span_id"
  using hex_value_pos [of "CHR ''1''" "CHR ''0''" "CHR ''x''" "replicate 31 (CHR ''0'')"]
    hex_value_pos [of "CHR ''2''" "CHR ''0''" "CHR ''x''" "replicate 15 (CHR ''0'')"]
  by (simp_all add: sample_trace_id_def sample_span_id_def is_hex_id_def list_all_iff is_lower_hex_def is_digit_def)

lemma sample_project: "project sample_console_env t = Inr (cs_span sample_captured)"
  by (simp add: project_def sample_console_env_def sample_captured_def object_field_def text_field_def parent_field_def kind_field_def time_field_def
     status_field_def validate_span_def sample_ids)

lemma sample_console_split: "splitlines sample_console = [''1970-01-01T00:00:01Z {'', ''1970-01-01T00:00:02Z }'', ''1970-01-01T00:00:02Z ]'']" by code_simp

lemma sample_partition: "partition_blank ''1970-01-01T00:00:01Z {'' = (''1970-01-01T00:00:01Z'', True, ''{'')"
    "partition_blank ''1970-01-01T00:00:02Z }'' = (''1970-01-01T00:00:02Z'', True, ''}'')"
    "partition_blank ''1970-01-01T00:00:02Z ]'' = (''1970-01-01T00:00:02Z'', True, '']'')"  by code_simp+

lemma sample_stamps: "is_stamp ''1970-01-01T00:00:01Z''" "is_stamp ''1970-01-01T00:00:02Z''" by code_simp+

lemma sample_instants:
  "stamp_instant ''1970-01-01T00:00:01Z'' = Some 1000000" "stamp_instant ''1970-01-01T00:00:02Z'' = Some 2000000"
  by (simp_all add: stamp_instant_def digits_at_def days_from_civil_def days_in_month_def is_digit_def)

lemma sample_console_lines: "physical_lines sample_console_env sample_console = Inr [(1000000, ''{''), (2000000, ''}''), (2000000, '']'')]"
  by (simp add: physical_lines_def sample_console_env_def sample_console_split Let_def log_line_def sample_partition sample_stamps sample_instants MAX_LOG_LINES_def MAX_LOG_BYTES_def) (simp add: sample_console_def)

lemma sample_judge: "judge sample_console_env sample_console_scope [''{'', ''}''] False (Some 1000000) 2000000 = Inr sample_captured"
  by (simp add: judge_def sample_project check_depth_def check_service_def) (simp add: sample_captured_def sample_console_scope_def role_of_def ROLES_def expected_kinds_def validate_captured_def)

theorem console_log_is_accounted_witness:
  "\<exists>p. parse_console_log sample_console_env sample_console sample_console_scope = Inr p \<and> pl_partial p = 1
     \<and> pl_spans p = [sample_captured] \<and> good_span ''risk-sim'' (cs_span sample_captured)"
proof -
  have "\<exists>p. parse_console_log sample_console_env sample_console sample_console_scope = Inr p \<and> pl_partial p = 1
      \<and> pl_spans p = [sample_captured]"
    by (simp add: parse_console_log_def sample_console_lines frame_line_def no_frame_def utf8_def utf8_char_def MAX_SPAN_BYTES_def close_frame_def sample_judge Let_def)
       (simp add: in_interval_def sample_captured_def sample_console_scope_def MAX_SPANS_def sample_console_def validate_parsed_def MAX_LOG_BYTES_def MAX_LOG_LINES_def stray_def py_space_def is_space_def)
  then obtain p where p: "parse_console_log sample_console_env sample_console sample_console_scope = Inr p"
      "pl_partial p = 1" "pl_spans p = [sample_captured]" by blast
  with console_log_is_accounted [OF p(1)] have "good_span ''risk-sim'' (cs_span sample_captured)"
    by (auto simp: sample_console_scope_def)
  with p show ?thesis by blast
qed

end
