(* ===== verification/Retrieval.thy ===== *)
theory Retrieval
  imports Spans
begin

text \<open>
  Retrieved memories and runbooks: the evidence parts of \<^verbatim>\<open>src/payops/memory/data_clients.py\<close>.

  A retrieved item cites a source, which is an original artifact or another retrieved item; verification follows
  the citations with a set of seen digests that bounds the walk by eight links (here the list \<open>seen\<close>, newest first).
  The derived cache stores a bundle of items under a key that hashes its scope. A search maps each hit of a
  bounded response to a new item that cites the hit's evidence.

  Parameters: pydantic's decoding of a lineage (field \<open>st_lineage\<close> of the store), of a document and of a cache entry,
  and its dumps; the two transports (Redis and HTTP). The connection settings of SQL, Redis and
  Elasticsearch are arguments of those libraries and are not modelled.

  Main facts: a verified item reaches an original artifact in its own namespace and service
  (\<open>verify_link_chain\<close>), what a search returns verifies (\<open>search_Inr\<close>), and the cache answers with
  verified evidence of the scope alone (\<open>cache_get_Inr\<close>).
\<close>

section \<open>Data\<close>

datatype retrieval_index = Runbook_index | Memory_index

fun index_name :: "retrieval_index \<Rightarrow> string" where
  "index_name Runbook_index = ''payops-runbooks-v1''"
| "index_name Memory_index = ''payops-memory-v1''"

fun INDEXES :: "source \<Rightarrow> retrieval_index option" where
  "INDEXES RUNBOOK = Some Runbook_index"
| "INDEXES MEMORY = Some Memory_index"
| "INDEXES _ = None"

record evidence_scope =
  es_incident :: string
  es_namespace :: string
  es_service :: string

record retrieval_lineage =
  li_scope :: evidence_scope
  li_index :: retrieval_index
  li_source :: evidence_item
  li_retrieved :: instant

record evidence_store = span_store +
  st_lineage :: "json option \<Rightarrow> exn + retrieval_lineage"

definition RETRIEVAL_SCHEME :: string where
  "RETRIEVAL_SCHEME = ''elasticsearch://''"

definition retrieval_query :: "retrieval_index \<Rightarrow> string" where
  "retrieval_query i = RETRIEVAL_SCHEME @ index_name i @ ''/fixed-scope-match''"

section \<open>Credentials\<close>

text \<open>The validator both configurations share; \<open>is_file\<close> is the file system.\<close>

definition valid_credentials :: "(string \<Rightarrow> bool) \<Rightarrow> string \<Rightarrow> string list \<Rightarrow> exn + unit" where
  "valid_credentials is_file ca_file secrets =
     bindR (check (is_prefix ''/'' ca_file \<and> is_file ca_file) (ValueError ''explicit CA file required'')) (\<lambda>_.
     each (\<lambda>secret. check (16 \<le> length secret \<and> length secret \<le> 256) (ValueError ''credential length outside bounds'')) secrets)"

section \<open>Lineage\<close>

definition lineage_agrees :: "evidence_item \<Rightarrow> retrieval_lineage \<Rightarrow> bool" where
  "lineage_agrees item l \<longleftrightarrow>
     (let src = li_source l in
      Some (li_index l) = INDEXES (ev_source item) \<and> ev_query item = retrieval_query (li_index l)
      \<and> ev_incident item = es_incident (li_scope l) \<and> ev_resource item = es_service (li_scope l)
      \<and> ev_source src = ev_source item \<and> ev_resource src = ev_resource item \<and> ev_summary item = ev_summary src
      \<and> ev_observed item = ev_observed src \<and> ev_observed src \<le> ev_collected src
      \<and> ev_collected src \<le> li_retrieved l \<and> li_retrieved l \<le> ev_collected item)"

definition scope_pair :: "evidence_scope \<Rightarrow> json option \<times> json option" where
  "scope_pair s = (Some (JStr (es_namespace s)), Some (JStr (es_service s)))"

function verify_link :: "('r evidence_store_scheme) \<Rightarrow> string list \<Rightarrow> evidence_item \<Rightarrow> exn + retrieval_lineage"
  and source_scope :: "('r evidence_store_scheme) \<Rightarrow> string list \<Rightarrow> evidence_item \<Rightarrow> exn + json option \<times> json option" where
  "verify_link st seen item =
     (if ev_sha256 item \<in> set seen \<or> 8 \<le> length seen
      then Inl (EvidenceIntegrityError ''retrieval lineage cycle or depth exceeded'')
      else
        bindR (store_verify st item) (\<lambda>envelope.
        bindR (st_lineage st (get_field envelope ''payload'')) (\<lambda>lineage.
        bindR (check (ev_source item \<in> {RUNBOOK, MEMORY}) (EvidenceIntegrityError ''retrieval evidence kind mismatch'')) (\<lambda>_.
        bindR (check (lineage_agrees item lineage)
                 (EvidenceIntegrityError ''retrieval metadata disagrees with source lineage'')) (\<lambda>_.
        bindR (source_scope st (ev_sha256 item # seen) (li_source lineage)) (\<lambda>actual.
        bindR (check (actual = scope_pair (li_scope lineage)) (EvidenceIntegrityError ''retrieval source scope mismatch'')) (\<lambda>_.
        Inr lineage)))))))"
| "source_scope st seen item =
     bindR (store_verify st item) (\<lambda>envelope.
     if is_prefix RETRIEVAL_SCHEME (ev_query item)
     then bindR (verify_link st seen item) (\<lambda>previous. Inr (scope_pair (li_scope previous)))
     else case get_field envelope ''payload'' of
            Some (JObj raw) \<Rightarrow> Inr (get_field raw ''namespace'', get_field raw ''service'')
          | _ \<Rightarrow> Inl (EvidenceIntegrityError ''retrieval source payload is invalid''))"
  by pat_completeness auto
termination
  by (relation "measure (\<lambda>x. case x of Inl (st, seen, item) \<Rightarrow> 2 * (8 - length seen) | Inr (st, seen, item) \<Rightarrow> 2 * (8 - length seen) + 1)")
     auto

declare verify_link.simps [simp del] source_scope.simps [simp del]

definition verify_retrieval_evidence :: "('r evidence_store_scheme) \<Rightarrow> evidence_item \<Rightarrow> exn + retrieval_lineage" where
  "verify_retrieval_evidence st item = verify_link st [] item"

section \<open>The derived cache\<close>

definition MAX_CACHE_BYTES :: nat where "MAX_CACHE_BYTES = 65536"
definition MAX_SEARCH_BYTES :: nat where "MAX_SEARCH_BYTES = 131072"

record cache_entry =
  ca_scope :: evidence_scope
  ca_created :: instant
  ca_expires :: instant
  ca_evidence :: "evidence_item list"

definition validate_entry :: "cache_entry \<Rightarrow> exn + cache_entry" where
  "validate_entry e =
     bindR (check (length (ca_evidence e) \<le> 16) (ValueError ''field constraint'')) (\<lambda>_.
     bindR (check (0 < ca_expires e - ca_created e \<and> ca_expires e - ca_created e \<le> 300 * one_second)
              (ValueError ''cache lifetime outside bounds'')) (\<lambda>_.
     Inr e))"

text \<open>\<^verbatim>\<open>scope.model_dump_json()\<close> writes the three fields in order.\<close>

definition scope_json :: "evidence_scope \<Rightarrow> string" where
  "scope_json s =
     dumps_in_order False (JObj [(''incident_id'', JStr (es_incident s)), (''namespace'', JStr (es_namespace s)),
                                 (''service'', JStr (es_service s))])"

definition cache_key :: "evidence_scope \<Rightarrow> string" where
  "cache_key s = ''payops:evidence:v1:'' @ sha256_hex (utf8 (scope_json s))"

definition verify_cached :: "('r evidence_store_scheme) \<Rightarrow> evidence_scope \<Rightarrow> evidence_item \<Rightarrow> exn + unit" where
  "verify_cached st scope item =
     bindR (check (\<not> (ev_incident item \<noteq> es_incident scope \<or> ev_resource item \<noteq> es_service scope))
              (EvidenceIntegrityError ''cached evidence scope mismatch'')) (\<lambda>_.
     if is_prefix RETRIEVAL_SCHEME (ev_query item)
     then bindR (verify_retrieval_evidence st item) (\<lambda>l.
          check (li_scope l = scope) (EvidenceIntegrityError ''cached retrieval namespace scope mismatch''))
     else bindR (store_verify st item) (\<lambda>_. Inr ()))"

definition verify_entry :: "('r evidence_store_scheme) \<Rightarrow> cache_entry \<Rightarrow> evidence_scope \<Rightarrow> exn + unit" where
  "verify_entry st entry scope =
     bindR (check (ca_scope entry = scope) (EvidenceIntegrityError ''cache scope mismatch'')) (\<lambda>_.
     bindR (check (distinct (map ev_id (ca_evidence entry))) (EvidenceIntegrityError ''duplicate cached evidence'')) (\<lambda>_.
     each (verify_cached st scope) (ca_evidence entry)))"

text \<open>\<open>'w\<close> is the state behind the transport, \<open>dump\<close> and \<open>decode\<close> pydantic's bytes of an entry.\<close>

record 'w cache_env =
  cv_put :: "string \<Rightarrow> string \<Rightarrow> int \<Rightarrow> 'w \<Rightarrow> exn + 'w"
  cv_read :: "string \<Rightarrow> 'w \<Rightarrow> exn + string"
  cv_dump :: "cache_entry \<Rightarrow> string"
  cv_decode :: "string \<Rightarrow> exn + cache_entry"

definition cache_put ::
  "'w cache_env \<Rightarrow> ('r evidence_store_scheme) \<Rightarrow> instant \<Rightarrow> evidence_scope \<Rightarrow> evidence_item list \<Rightarrow> int \<Rightarrow> 'w \<Rightarrow> exn + 'w" where
  "cache_put env st now scope evidence ttl w =
     bindR (check (1 \<le> ttl \<and> ttl \<le> 300) (ValueError ''cache TTL outside bounds'')) (\<lambda>_.
     bindR (validate_entry \<lparr>ca_scope = scope, ca_created = now, ca_expires = now + ttl * one_second, ca_evidence = evidence\<rparr>) (\<lambda>entry.
     bindR (verify_entry st entry scope) (\<lambda>_.
     bindR (check (length (cv_dump env entry) \<le> MAX_CACHE_BYTES) (EvidenceIntegrityError ''cache entry exceeds byte budget'')) (\<lambda>_.
     cv_put env (cache_key scope) (cv_dump env entry) ttl w))))"

definition cache_get ::
  "'w cache_env \<Rightarrow> ('r evidence_store_scheme) \<Rightarrow> instant \<Rightarrow> evidence_scope \<Rightarrow> 'w \<Rightarrow> exn + evidence_item list option" where
  "cache_get env st now scope w =
     bindR (cv_read env (cache_key scope) w) (\<lambda>data.
     if data = [] then Inr None
     else
       bindR (check (length data \<le> MAX_CACHE_BYTES) (EvidenceIntegrityError ''cache entry exceeds byte budget'')) (\<lambda>_.
       bindR (bindR (cv_decode env data) validate_entry) (\<lambda>entry.
       bindR (verify_entry st entry scope) (\<lambda>_.
       Inr (if ca_created entry \<le> now \<and> now < ca_expires entry then Some (ca_evidence entry) else None)))))"

section \<open>Search\<close>

record search_request =
  sr_scope :: evidence_scope
  sr_kind :: source
  sr_text :: string
  sr_size :: nat

definition make_search_request :: "evidence_scope \<Rightarrow> source \<Rightarrow> string \<Rightarrow> int \<Rightarrow> exn + search_request" where
  "make_search_request scope kind text limit =
     bindR (check (INDEXES kind \<noteq> None \<and> 1 \<le> length (strip text) \<and> length (strip text) \<le> 256 \<and> 1 \<le> limit \<and> limit \<le> 5)
              (ValueError ''field constraint'')) (\<lambda>_.
     Inr \<lparr>sr_scope = scope, sr_kind = kind, sr_text = strip text, sr_size = nat limit\<rparr>)"

definition term_filter :: "string \<Rightarrow> string \<Rightarrow> json" where
  "term_filter field v = JObj [(''term'', JObj [(field, JStr v)])]"

definition search_query :: "search_request \<Rightarrow> json_object" where
  "search_query r =
     [(''size'', JInt (int (sr_size r))), (''timeout'', JStr ''2s''), (''track_total_hits'', JBool False),
      (''_source'', JArr [JStr ''namespace'', JStr ''service'', JStr ''kind'', JStr ''evidence'']),
      (''query'', JObj [(''bool'', JObj
         [(''filter'', JArr [term_filter ''namespace'' (es_namespace (sr_scope r)), term_filter ''service'' (es_service (sr_scope r)),
                             term_filter ''kind'' (source_name (sr_kind r))]),
          (''must'', JArr [JObj [(''match'', JObj [(''text'', JObj [(''query'', JStr (sr_text r)), (''operator'', JStr ''and'')])])]])])])]"

text \<open>A streamed reply: its parts with the time elapsed when each arrives, or the error the transport raises there.\<close>

record http_reply =
  hr_status :: int
  hr_encoding :: "string option"
  hr_parts :: "(exn + string \<times> rat) list"
  hr_elapsed :: rat

fun read_parts :: "(exn + string \<times> rat) list \<Rightarrow> string \<Rightarrow> exn + string" where
  "read_parts [] content = Inr content"
| "read_parts (part # parts) content =
     bindR part (\<lambda>(bytes, elapsed).
     bindR (check (elapsed \<le> 3) (EvidenceIntegrityError ''retrieval elapsed budget exceeded'')) (\<lambda>_.
     bindR (check (length content + length bytes \<le> MAX_SEARCH_BYTES) (EvidenceIntegrityError ''retrieval exceeds byte budget'')) (\<lambda>_.
     read_parts parts (content @ bytes))))"

definition read_response :: "http_reply \<Rightarrow> exn + string" where
  "read_response reply =
     bindR (check (hr_status reply = 200 \<and> (hr_encoding reply = None \<or> hr_encoding reply = Some ''identity''))
              (EvidenceIntegrityError ''retrieval response rejected'')) (\<lambda>_.
     bindR (read_parts (hr_parts reply) []) (\<lambda>content.
     bindR (check (hr_elapsed reply \<le> 3) (EvidenceIntegrityError ''retrieval elapsed budget exceeded'')) (\<lambda>_.
     Inr content)))"

record retrieval_document =
  rd_namespace :: string
  rd_service :: string
  rd_kind :: source
  rd_evidence :: evidence_item

text \<open>The identifiers and the clock are indexed by the position of the hit.\<close>

record search_env =
  sv_post :: "string \<Rightarrow> json_object \<Rightarrow> exn + http_reply"
  sv_loads :: "string \<Rightarrow> exn + json_object"
  sv_document :: "json option \<Rightarrow> exn + retrieval_document"
  sv_dump :: "retrieval_lineage \<Rightarrow> json_object"
  sv_new_id :: "nat \<Rightarrow> string"
  sv_retrieved :: "nat \<Rightarrow> instant"
  sv_collected :: "nat \<Rightarrow> instant"

definition search_response :: "search_env \<Rightarrow> search_request \<Rightarrow> exn + string" where
  "search_response env r =
     bindR (of_option (KeyError (source_name (sr_kind r))) (INDEXES (sr_kind r))) (\<lambda>i.
     bindR (sv_post env (''/'' @ index_name i @ ''/_search'') (search_query r)) read_response)"

text \<open>\<open>checked_hit\<close> is the first half of \<^verbatim>\<open>_item\<close>: the hit's own claims against the request.\<close>

definition checked_hit ::
  "search_env \<Rightarrow> ('r evidence_store_scheme) \<Rightarrow> search_request \<Rightarrow> string set \<Rightarrow> json \<Rightarrow> exn + evidence_item" where
  "checked_hit env st r seen row =
     bindR (case row of JObj kvs \<Rightarrow> Inr kvs | _ \<Rightarrow> Inl (ValueError ''expected object'')) (\<lambda>data.
     bindR (sv_document env (get_field data ''_source'')) (\<lambda>document.
     bindR (check (rd_namespace document = es_namespace (sr_scope r) \<and> rd_service document = es_service (sr_scope r)
                   \<and> rd_kind document = sr_kind r) (EvidenceIntegrityError ''retrieval scope mismatch'')) (\<lambda>_.
     let item = rd_evidence document in
     bindR (check (ev_sha256 item \<notin> seen) (EvidenceIntegrityError ''duplicate retrieval artifact'')) (\<lambda>_.
     bindR (check (get_field data ''_index'' = map_option (\<lambda>i. JStr (index_name i)) (INDEXES (sr_kind r))
                   \<and> get_field data ''_id'' = Some (JStr (ev_sha256 item))) (EvidenceIntegrityError ''retrieval identity mismatch'')) (\<lambda>_.
     bindR (check (ev_source item = sr_kind r \<and> ev_resource item = es_service (sr_scope r))
              (EvidenceIntegrityError ''retrieval evidence mismatch'')) (\<lambda>_.
     bindR (source_scope st [] item) (\<lambda>actual.
     bindR (check (actual = scope_pair (sr_scope r)) (EvidenceIntegrityError ''retrieval artifact scope mismatch'')) (\<lambda>_.
     Inr item))))))))"

definition bind_hit ::
  "search_env \<Rightarrow> search_request \<Rightarrow> nat \<Rightarrow> evidence_item \<Rightarrow> ('r evidence_store_scheme) \<Rightarrow> exn + evidence_item \<times> 'r evidence_store_scheme" where
  "bind_hit env r n item st =
     bindR (of_option (KeyError (source_name (sr_kind r))) (INDEXES (sr_kind r))) (\<lambda>i.
     bindR (make_observation (sr_kind r) (es_service (sr_scope r)) (ev_observed item) (retrieval_query i) (ev_summary item)
              (sv_dump env \<lparr>li_scope = sr_scope r, li_index = i, li_source = item, li_retrieved = sv_retrieved env n\<rparr>)) (\<lambda>o1.
     bindR (normalize (sv_new_id env n) (sv_collected env n) o1 (es_incident (sr_scope r)) (ev_observed item) (sv_retrieved env n) st)
       (\<lambda>(result, st').
     bindR (verify_retrieval_evidence st' result) (\<lambda>_.
     Inr (result, st')))))"

fun search_rows ::
  "search_env \<Rightarrow> search_request \<Rightarrow> nat \<Rightarrow> string set \<Rightarrow> json list \<Rightarrow> ('r evidence_store_scheme)
     \<Rightarrow> exn + evidence_item list \<times> 'r evidence_store_scheme" where
  "search_rows env r n seen [] st = Inr ([], st)"
| "search_rows env r n seen (row # rows) st =
     bindR (checked_hit env st r seen row) (\<lambda>item.
     bindR (bind_hit env r n item st) (\<lambda>(result, st').
     bindR (search_rows env r (n + 1) (insert (ev_sha256 item) seen) rows st') (\<lambda>(results, st'').
     Inr (result # results, st''))))"

definition search ::
  "search_env \<Rightarrow> search_request \<Rightarrow> ('r evidence_store_scheme) \<Rightarrow> exn + evidence_item list \<times> 'r evidence_store_scheme" where
  "search env r st =
     bindR (search_response env r) (\<lambda>content.
     bindR (sv_loads env content) (\<lambda>payload.
     bindR (case (get_field payload ''timed_out'', get_field payload ''_shards'') of
              (Some (JBool False), Some (JObj shards)) \<Rightarrow> Inr shards
            | _ \<Rightarrow> Inl (EvidenceIntegrityError ''incomplete retrieval response'')) (\<lambda>shards.
     bindR (check (get_field shards ''failed'' = Some (JInt 0)) (EvidenceIntegrityError ''partial retrieval response'')) (\<lambda>_.
     bindR (case get_field payload ''hits'' of
              Some (JObj hits) \<Rightarrow>
                (case get_field hits ''hits'' of Some (JArr rows) \<Rightarrow> Inr rows | _ \<Rightarrow> Inl (EvidenceIntegrityError ''invalid retrieval hits''))
            | _ \<Rightarrow> Inl (EvidenceIntegrityError ''invalid retrieval hits'')) (\<lambda>rows.
     bindR (check (length rows \<le> sr_size r) (EvidenceIntegrityError ''retrieval hit budget exceeded'')) (\<lambda>_.
     search_rows env r 0 {} rows st))))))"

section \<open>Where a chain of citations ends\<close>

text \<open>\<open>is_linked st item l\<close>: the stored payload of \<open>item\<close> is the lineage \<open>l\<close>, which agrees with the item.\<close>

definition is_linked :: "('r evidence_store_scheme) \<Rightarrow> evidence_item \<Rightarrow> retrieval_lineage \<Rightarrow> bool" where
  "is_linked st item l \<longleftrightarrow>
     (\<exists>envelope. store_verify st item = Inr envelope \<and> st_lineage st (get_field envelope ''payload'') = Inr l)
     \<and> ev_source item \<in> {RUNBOOK, MEMORY} \<and> lineage_agrees item l"

definition is_original :: "('r evidence_store_scheme) \<Rightarrow> json option \<times> json option \<Rightarrow> evidence_item \<Rightarrow> bool" where
  "is_original st pair item \<longleftrightarrow>
     \<not> is_prefix RETRIEVAL_SCHEME (ev_query item)
     \<and> (\<exists>envelope raw. store_verify st item = Inr envelope \<and> get_field envelope ''payload'' = Some (JObj raw)
          \<and> pair = (get_field raw ''namespace'', get_field raw ''service''))"

text \<open>The chain of the citations of \<open>item\<close>, every link in one namespace and service.\<close>

fun cites_chain :: "('r evidence_store_scheme) \<Rightarrow> json option \<times> json option \<Rightarrow> evidence_item \<Rightarrow> evidence_item list \<Rightarrow> bool" where
  "cites_chain st pair item [] \<longleftrightarrow> is_original st pair item"
| "cites_chain st pair item (src # chain) \<longleftrightarrow>
     (\<exists>l. is_linked st item l \<and> li_source l = src \<and> scope_pair (li_scope l) = pair) \<and> cites_chain st pair src chain"

lemma verify_link_Inr:
  "verify_link st seen item = Inr l \<longleftrightarrow>
     ev_sha256 item \<notin> set seen \<and> length seen < 8 \<and> is_linked st item l
     \<and> source_scope st (ev_sha256 item # seen) (li_source l) = Inr (scope_pair (li_scope l))"
  by (subst verify_link.simps) (auto simp: is_linked_def scope_pair_def)

lemma source_scope_Inr:
  "source_scope st seen item = Inr pair \<longleftrightarrow>
     is_original st pair item
     \<or> is_prefix RETRIEVAL_SCHEME (ev_query item) \<and> (\<exists>l. verify_link st seen item = Inr l \<and> scope_pair (li_scope l) = pair)"
proof -
  have v: "\<exists>envelope. store_verify st item = Inr envelope" if "verify_link st seen item = Inr l" for l
    using that by (auto simp: verify_link_Inr is_linked_def)
  show ?thesis
  proof (cases "is_prefix RETRIEVAL_SCHEME (ev_query item)")
    case True
    with v show ?thesis by (subst source_scope.simps) (auto simp: is_original_def)
  next
    case False
    then show ?thesis
      by (subst source_scope.simps) (auto simp: is_original_def split: option.splits json.split_asm)
  qed
qed

lemma source_scope_chain:
  assumes "source_scope st seen item = Inr pair" "length seen \<le> 8"
  shows "\<exists>chain. cites_chain st pair item chain \<and> length seen + length chain \<le> 8
    \<and> distinct (map ev_sha256 (butlast (item # chain))) \<and> set seen \<inter> ev_sha256 ` set (butlast (item # chain)) = {}"
  using assms
proof (induction "8 - length seen" arbitrary: seen item pair rule: less_induct)
  case less
  from less.prems(1) consider "is_original st pair item"
    | l where "verify_link st seen item = Inr l" "scope_pair (li_scope l) = pair"
    by (auto simp: source_scope_Inr)
  then show ?case
  proof cases
    case 1
    then show ?thesis using less.prems(2) by (intro exI [of _ "[]"]) simp
  next
    case 2
    then have l: "ev_sha256 item \<notin> set seen" "length seen < 8" "is_linked st item l"
        "source_scope st (ev_sha256 item # seen) (li_source l) = Inr pair"
      by (auto simp: verify_link_Inr)
    have "8 - length (ev_sha256 item # seen) < 8 - length seen" "length (ev_sha256 item # seen) \<le> 8" using l(2) by simp_all
    from less.hyps [OF this(1) l(4) this(2)] obtain chain where "cites_chain st pair (li_source l) chain"
        "length (ev_sha256 item # seen) + length chain \<le> 8" "distinct (map ev_sha256 (butlast (li_source l # chain)))"
        "set (ev_sha256 item # seen) \<inter> ev_sha256 ` set (butlast (li_source l # chain)) = {}" by blast
    with l 2(2) show ?thesis by (intro exI [of _ "li_source l # chain"]) auto
  qed
qed

lemma verify_link_chain:
  assumes "verify_retrieval_evidence st item = Inr l"
  shows "\<exists>chain. cites_chain st (scope_pair (li_scope l)) item (li_source l # chain) \<and> length chain < 8
    \<and> distinct (map ev_sha256 (butlast (item # li_source l # chain)))"
proof -
  from assms have l: "is_linked st item l" "source_scope st [ev_sha256 item] (li_source l) = Inr (scope_pair (li_scope l))"
    by (auto simp: verify_retrieval_evidence_def verify_link_Inr)
  from source_scope_chain [OF l(2)] obtain chain where
      "cites_chain st (scope_pair (li_scope l)) (li_source l) chain" "length chain < 8"
      "distinct (map ev_sha256 (butlast (li_source l # chain)))" "ev_sha256 item \<notin> ev_sha256 ` set (butlast (li_source l # chain))"
    by auto
  with l(1) show ?thesis by (intro exI [of _ chain]) auto
qed

lemma cites_chain_agree:
  assumes "cites_chain st pair item chain" "e \<in> set chain"
  shows "ev_source e = ev_source item \<and> ev_resource e = ev_resource item \<and> ev_summary e = ev_summary item
    \<and> ev_observed e = ev_observed item \<and> ev_collected e \<le> ev_collected item"
  using assms
proof (induction chain arbitrary: item)
  case (Cons src chain)
  then obtain l where l: "lineage_agrees item l" "li_source l = src" "cites_chain st pair src chain" by (auto simp: is_linked_def)
  then have "ev_source src = ev_source item" "ev_resource src = ev_resource item" "ev_summary src = ev_summary item"
      "ev_observed src = ev_observed item" "ev_collected src \<le> ev_collected item"
    by (auto simp: lineage_agrees_def Let_def)
  with Cons.IH [OF l(3)] Cons.prems(2) show ?case by auto
qed simp

lemma cites_chain_original: "cites_chain st pair item chain \<Longrightarrow> is_original st pair (List.last (item # chain))"
  by (induction chain arbitrary: item) auto

section \<open>Later writes\<close>

definition extends :: "('r evidence_store_scheme) \<Rightarrow> ('r evidence_store_scheme) \<Rightarrow> bool" where
  "extends st st' \<longleftrightarrow> st_files st \<subseteq>\<^sub>m st_files st' \<and> st_decode st' = st_decode st \<and> st_lineage st' = st_lineage st"

lemma extends_verify: "extends st st' \<Longrightarrow> store_verify st e = Inr p \<Longrightarrow> store_verify st' e = Inr p"
  using store_verify_mono by (auto simp: extends_def)

lemma extends_trans: "extends st st' \<Longrightarrow> extends st' st'' \<Longrightarrow> extends st st''"
  by (auto simp: extends_def intro: map_le_trans)

lemma normalize_extends:
  fixes st st' :: "'r evidence_store_scheme"
  assumes "normalize new_id now o1 incident_id start stop st = Inr (item, st')"
  shows "extends st st'"
proof -
  from assms obtain payload where w: "store_write st payload = Inr ((ev_uri item, ev_sha256 item), st')"
    by (auto elim: normalize_Inr)
  then have "st_lineage st' = st_lineage st"
    by (auto simp: store_write_def Let_def publish_once_def split: option.splits if_splits)
  with store_write_mono [OF w] show ?thesis by (simp add: extends_def)
qed

lemma is_linked_mono: "extends st st' \<Longrightarrow> is_linked st item l \<Longrightarrow> is_linked st' item l"
  using extends_verify by (fastforce simp: is_linked_def extends_def)

lemma is_original_mono: "extends st st' \<Longrightarrow> is_original st pair item \<Longrightarrow> is_original st' pair item"
  using extends_verify by (fastforce simp: is_original_def)

lemma source_scope_mono:
  assumes "extends st st'"
  shows "source_scope st seen item = Inr pair \<Longrightarrow> source_scope st' seen item = Inr pair"
proof (induction "8 - length seen" arbitrary: seen item pair rule: less_induct)
  case less
  from less.prems consider "is_original st pair item"
    | l where "is_prefix RETRIEVAL_SCHEME (ev_query item)" "verify_link st seen item = Inr l" "scope_pair (li_scope l) = pair"
    by (auto simp: source_scope_Inr)
  then show ?case
  proof cases
    case 1
    then show ?thesis using is_original_mono [OF assms] by (simp add: source_scope_Inr)
  next
    case 2
    then have l: "length seen < 8" "source_scope st (ev_sha256 item # seen) (li_source l) = Inr pair"
      by (auto simp: verify_link_Inr)
    have "8 - length (ev_sha256 item # seen) < 8 - length seen" using l(1) by simp
    from less.hyps [OF this l(2)] have "verify_link st' seen item = Inr l"
      using 2(2,3) is_linked_mono [OF assms] by (auto simp: verify_link_Inr)
    with 2(1,3) show ?thesis by (auto simp: source_scope_Inr)
  qed
qed

lemma verify_retrieval_mono:
  "extends st st' \<Longrightarrow> verify_retrieval_evidence st item = Inr l \<Longrightarrow> verify_retrieval_evidence st' item = Inr l"
  by (auto simp: verify_retrieval_evidence_def verify_link_Inr intro: source_scope_mono is_linked_mono)

section \<open>What a search returns\<close>

text \<open>A result is a new item of the request's incident and service that verifies.\<close>

definition is_result :: "search_request \<Rightarrow> ('r evidence_store_scheme) \<Rightarrow> evidence_item \<Rightarrow> bool" where
  "is_result r st e \<longleftrightarrow>
     ev_source e = sr_kind r \<and> ev_incident e = es_incident (sr_scope r) \<and> ev_resource e = es_service (sr_scope r)
     \<and> (\<exists>l. verify_retrieval_evidence st e = Inr l \<and> es_incident (li_scope l) = es_incident (sr_scope r)
          \<and> es_service (li_scope l) = es_service (sr_scope r))"

lemma is_result_mono: "extends st st' \<Longrightarrow> is_result r st e \<Longrightarrow> is_result r st' e"
  by (auto simp: is_result_def dest: verify_retrieval_mono)

lemma bind_hit_Inr:
  assumes "bind_hit env r n item st = Inr (e, st')"
  shows "is_result r st' e \<and> extends st st'"
proof -
  from assms obtain i o1 where o1: "make_observation (sr_kind r) (es_service (sr_scope r)) (ev_observed item) (retrieval_query i) (ev_summary item)
      (sv_dump env \<lparr>li_scope = sr_scope r, li_index = i, li_source = item, li_retrieved = sv_retrieved env n\<rparr>) = Inr o1"
    and n: "normalize (sv_new_id env n) (sv_collected env n) o1 (es_incident (sr_scope r)) (ev_observed item) (sv_retrieved env n) st = Inr (e, st')"
    and v: "\<exists>l. verify_retrieval_evidence st' e = Inr l"
    by (auto simp: bind_hit_def)
  note fields1 = normalize_item [OF n]
  from o1 have "obv_source o1 = sr_kind r" "obv_resource o1 = es_service (sr_scope r)" by (auto simp: make_observation_def)
  moreover from v obtain l where "verify_retrieval_evidence st' e = Inr l" "lineage_agrees e l"
    by (auto simp: verify_retrieval_evidence_def verify_link_Inr is_linked_def)
  ultimately show ?thesis
    using fields1 normalize_extends [OF n] by (auto simp: is_result_def lineage_agrees_def Let_def)
qed

lemma search_rows_Inr:
  assumes "search_rows env r n seen rows st = Inr (es, st')"
  shows "length es = length rows \<and> extends st st' \<and> (\<forall>e \<in> set es. is_result r st' e)"
  using assms
proof (induction rows arbitrary: n seen st es)
  case (Cons row rows)
  then obtain item e st1 es' where "bind_hit env r n item st = Inr (e, st1)"
      and rest: "search_rows env r (n + 1) (insert (ev_sha256 item) seen) rows st1 = Inr (es', st')" and es: "es = e # es'"
    by auto
  with bind_hit_Inr have "is_result r st1 e" "extends st st1" by blast+
  with Cons.IH [OF rest] es is_result_mono extends_trans show ?case by auto blast+
qed (simp add: extends_def)

lemma search_Inr:
  assumes "search env r st = Inr (es, st')"
  shows "length es \<le> sr_size r" and "extends st st'" and "\<And>e. e \<in> set es \<Longrightarrow> is_result r st' e"
proof -
  from assms obtain rows where "search_rows env r 0 {} rows st = Inr (es, st')" "length rows \<le> sr_size r"
    by (auto simp: search_def)
  with search_rows_Inr show "length es \<le> sr_size r" "extends st st'" "\<And>e. e \<in> set es \<Longrightarrow> is_result r st' e" by metis+
qed

lemma read_parts_bounded: "read_parts parts content = Inr bytes \<Longrightarrow> length content \<le> MAX_SEARCH_BYTES \<Longrightarrow> length bytes \<le> MAX_SEARCH_BYTES"
  by (induction parts arbitrary: content) auto

section \<open>What the cache answers\<close>

definition cached_in_scope :: "('r evidence_store_scheme) \<Rightarrow> evidence_scope \<Rightarrow> evidence_item \<Rightarrow> bool" where
  "cached_in_scope st scope item \<longleftrightarrow>
     ev_incident item = es_incident scope \<and> ev_resource item = es_service scope
     \<and> (\<exists>envelope. store_verify st item = Inr envelope)
     \<and> (is_prefix RETRIEVAL_SCHEME (ev_query item) \<longrightarrow> (\<exists>l. verify_retrieval_evidence st item = Inr l \<and> li_scope l = scope))"

lemma verify_cached_Inr: "verify_cached st scope item = Inr u \<longleftrightarrow> cached_in_scope st scope item"
  by (auto simp: verify_cached_def cached_in_scope_def verify_retrieval_evidence_def verify_link_Inr is_linked_def)

lemma verify_entry_Inr:
  "verify_entry st entry scope = Inr u \<longleftrightarrow>
     ca_scope entry = scope \<and> distinct (map ev_id (ca_evidence entry)) \<and> (\<forall>item \<in> set (ca_evidence entry). cached_in_scope st scope item)"
  by (auto simp: verify_entry_def verify_cached_Inr)

lemma cache_get_Inr:
  "cache_get env st now scope w = Inr (Some evidence) \<longleftrightarrow>
     (\<exists>data entry. cv_read env (cache_key scope) w = Inr data \<and> data \<noteq> [] \<and> length data \<le> MAX_CACHE_BYTES
        \<and> cv_decode env data = Inr entry \<and> validate_entry entry = Inr entry \<and> verify_entry st entry scope = Inr ()
        \<and> ca_created entry \<le> now \<and> now < ca_expires entry \<and> ca_evidence entry = evidence)"
  by (auto simp: cache_get_def validate_entry_def)

end
