(* ===== verification/Verification.thy ===== *)
theory Verification
  imports Baseline Retrieval
begin

text \<open>
  The shared verification of retained evidence: \<^verbatim>\<open>src/payops/evidence/verification.py\<close>. Beside its own artifact an item is
  verified through the chain of its source: windows are recomputed, spans and console logs are checked against
  their records, and retrieved items against the artifacts they cite.
\<close>

section \<open>Collections\<close>

text \<open>What a collector hands over (\<^verbatim>\<open>src/payops/tools/collect.py\<close>).\<close>

record collection_failure =
  cf_tool :: string
  cf_resource :: string
  cf_error :: string

record collection =
  co_incident :: string
  co_evidence :: "evidence_item list"
  co_failures :: "collection_failure list"

section \<open>Verification\<close>

definition discard :: "exn + 'a \<Rightarrow> exn + unit" where
  "discard r = bindR r (\<lambda>_. Inr ())"

definition source_chain :: "('r evidence_store_scheme) \<Rightarrow> evidence_item \<Rightarrow> exn + unit" where
  "source_chain st item =
     bindR (store_verify st item) (\<lambda>_.
     if ev_source item = PAYMENT then discard (verify_payment_window st item)
     else if ev_source item = TRACE then discard (verify_trace_span st item)
     else if ev_source item = LOG \<and> ev_query item = LOG_QUERY then discard (verify_trace_log st item)
     else if ev_source item \<in> {RUNBOOK, MEMORY} then discard (verify_retrieval_evidence st item)
     else Inr ())"

definition verify_evidence :: "('r evidence_store_scheme) \<Rightarrow> evidence_item \<Rightarrow> exn + unit" where
  "verify_evidence st item =
     (case source_chain st item of
        Inl e \<Rightarrow> Inl (if is_ValueError e then EvidenceIntegrityError ''evidence source verification failed'' else e)
      | Inr u \<Rightarrow> Inr u)"

lemma verify_evidence_Inr: "verify_evidence st item = Inr u \<longleftrightarrow> source_chain st item = Inr u"
  by (simp add: verify_evidence_def split: sum.split)

lemma verify_evidence_store:
  assumes "verify_evidence st item = Inr u"
  shows "\<exists>env. store_verify st item = Inr env"
    and "ev_source item = PAYMENT \<Longrightarrow> \<exists>window. verify_payment_window st item = Inr window"
    and "ev_source item = TRACE \<Longrightarrow> \<exists>span. verify_trace_span st item = Inr span"
    and "ev_source item \<in> {RUNBOOK, MEMORY} \<Longrightarrow> \<exists>l. verify_retrieval_evidence st item = Inr l"
  using assms by (auto simp: verify_evidence_Inr source_chain_def discard_def)

lemma verify_evidence_Inl:
  "verify_evidence st item = Inl e \<Longrightarrow> is_ValueError e \<Longrightarrow> is_IntegrityFailure e"
  by (auto simp: verify_evidence_def split: sum.splits if_splits)

end
