(* ===== verification/Lifecycle.thy ===== *)
theory Lifecycle
  imports ModelRuntime Verification
begin

text \<open>
  The durable investigation: \<^verbatim>\<open>state.py\<close>, \<^verbatim>\<open>nodes.py\<close>, \<^verbatim>\<open>graph.py\<close> and \<^verbatim>\<open>graph_reasoning.py\<close> of
  \<^verbatim>\<open>src/payops/orchestrator/\<close>.

  A node is a program on the files of an incident's directory. Everything outside is the environment
  \<open>life_env\<close>, whose answers take the number of the call: the clocks, the collector, the contents of
  the artifact store, and a fault that any file operation may raise. A fault outside the classes the code
  catches stands for the death of the process: it leaves the files as they are and no checkpoint. The
  graph library is the argument \<open>engine\<close> of the worker; what is used of its documentation is
  \<open>follows_graph\<close>: it runs the scheduled node on the saved state and saves the node's output with
  the node that the declared edges choose. Completion additionally uses \<open>runs_undisturbed\<close>: a run in
  which nothing fails goes on until no node is scheduled and returns the saved state. The reasoning loop of a configured model is the record
  \<open>reasoner\<close>.
\<close>

section \<open>State\<close>

datatype phase = RECEIVED | TRIAGED | READS_RESERVED | EVIDENCE_COLLECTED | RANKED | FINISHED

datatype collection_profile = Instant_v1 | Payment_windows_v1

record investigation_budget =
  ib_max_steps :: int
  ib_max_tool_calls :: int
  ib_max_backend_reads :: int
  ib_deadline :: instant

record step_record =
  sp_node :: string
  sp_observed :: instant
  sp_duration :: rat

record investigation =
  iv_incident :: incident
  iv_budget :: investigation_budget
  iv_mode :: run_mode
  iv_profile :: collection_profile
  iv_ranking_profile :: string
  iv_method :: ranking_method
  iv_stop_reason :: "string option"
  iv_receipts :: "string list"
  iv_phase :: phase
  iv_started :: instant
  iv_steps_used :: int
  iv_tool_calls :: int
  iv_backend_reads :: int
  iv_evidence :: "evidence_item list"
  iv_failures :: "collection_failure list"
  iv_hypotheses :: "hypothesis list"
  iv_terminal :: "terminal_state option"
  iv_steps :: "step_record list"
  iv_report :: "incident_report option"

definition valid_life_budget :: "investigation_budget \<Rightarrow> bool" where
  "valid_life_budget b \<longleftrightarrow>
     between 0 16 (ib_max_steps b) \<and> between 0 40 (ib_max_tool_calls b) \<and> between 0 64 (ib_max_backend_reads b)"

definition valid_step :: "step_record \<Rightarrow> bool" where
  "valid_step r \<longleftrightarrow> 0 \<le> sp_duration r"

definition validate_state :: "investigation \<Rightarrow> exn + investigation" where
  "validate_state s =
     bindR (validate_incident (iv_incident s)) (\<lambda>_.
     bindR (check (valid_life_budget (iv_budget s) \<and> iv_mode s \<in> {Local_kind, Fixture_replay}
                   \<and> is_identifier (iv_ranking_profile s) \<and> pred_option is_identifier (iv_stop_reason s)
                   \<and> length (iv_receipts s) \<le> 20 \<and> between 0 16 (iv_steps_used s)
                   \<and> between 0 40 (iv_tool_calls s) \<and> between 0 64 (iv_backend_reads s)
                   \<and> list_all valid_evidence_item (iv_evidence s) \<and> list_all valid_hypothesis (iv_hypotheses s)
                   \<and> list_all valid_step (iv_steps s)) invalid) (\<lambda>_.
     bindR (case iv_report s of None \<Rightarrow> Inr () | Some r \<Rightarrow> bindR (validate_report r) (\<lambda>_. Inr ())) (\<lambda>_.
     Inr s)))"

definition pack :: "investigation \<Rightarrow> investigation row_text" where
  "pack s = Dump s"

definition unpack :: "investigation row_text \<Rightarrow> exn + investigation" where
  "unpack v = load validate_state v"

definition updated :: "investigation \<Rightarrow> exn + investigation" where
  "updated s = validate_state s"

section \<open>Environment and files\<close>

text \<open>The part of a reasoning loop that the ranking node uses.\<close>

datatype stop_reason =
    Stop_finished | Stop_refused | Stop_invalid | Stop_exhausted | Stop_unknown | Stop_error | Stop_timeout
  | Stop_denied | Stop_busy

fun stop_text :: "stop_reason \<Rightarrow> string" where
  "stop_text Stop_finished = ''FINISHED''"
| "stop_text Stop_refused = ''REFUSED''"
| "stop_text Stop_invalid = ''INVALID_OUTPUT''"
| "stop_text Stop_exhausted = ''BUDGET_EXHAUSTED''"
| "stop_text Stop_unknown = ''UNKNOWN_COMPLETION''"
| "stop_text Stop_error = ''ERROR''"
| "stop_text Stop_timeout = ''TIMEOUT''"
| "stop_text Stop_denied = ''DENIED''"
| "stop_text Stop_busy = ''BUSY''"

record loop_result =
  lr_run :: string
  lr_mode :: model_mode
  lr_stop :: stop_reason
  lr_hypotheses :: "hypothesis list"
  lr_evidence :: "evidence_item list"
  lr_receipts :: "string list"

record reasoner =
  rs_mode :: model_mode
  rs_same_root :: bool
  rs_limits :: reasoning_budget
  rs_run :: "incident \<Rightarrow> evidence_item list \<Rightarrow> exn + loop_result"
  rs_charges :: "string \<Rightarrow> exn + charge list"

record life_env =
  le_now :: "nat \<Rightarrow> instant"
  le_perf :: "nat \<Rightarrow> rat"
  le_trace_id :: "nat \<Rightarrow> string"
  le_lock :: "nat \<Rightarrow> bool"
  le_fault :: "nat \<Rightarrow> exn option"
  le_store :: "nat \<Rightarrow> string \<Rightarrow> evidence_store"
  le_collect :: "nat \<Rightarrow> incident \<Rightarrow> string \<Rightarrow> exn + collection"
  le_type_name :: "exn \<Rightarrow> string"
  le_fromiso :: iso_reader
  le_reasoner :: "(nat \<Rightarrow> investigation \<Rightarrow> evidence_store \<Rightarrow> exn + reasoner) option"

text \<open>The files of an incident directory: the names under \<^verbatim>\<open>attempts\<close>, the dispatch marker and the
  retained collection. A file that was opened and not completely written is \<open>Unreadable\<close>.\<close>

record incident_dir =
  dr_attempts :: "string list"
  dr_dispatched :: bool
  dr_retained :: "collection row_text option"

datatype node = Triage | Reserve | Collect | Rank | Final

record thread =
  th_state :: "investigation row_text"
  th_next :: "node option"

text \<open>\<open>lw_calls\<close> records the collector calls: the directory and the state they were made in.\<close>

record life_world =
  lw_tick :: nat
  lw_dirs :: "string \<Rightarrow> incident_dir"
  lw_threads :: "string \<Rightarrow> thread option"
  lw_calls :: "(string \<times> investigation) list"

definition lw_ask :: "(nat \<Rightarrow> 'a) \<Rightarrow> (life_world, 'a) prog" where
  "lw_ask f w = (Inr (f (lw_tick w)), w\<lparr>lw_tick := Suc (lw_tick w)\<rparr>)"

definition lw_call :: "(nat \<Rightarrow> exn + 'a) \<Rightarrow> (life_world, 'a) prog" where
  "lw_call f w = (f (lw_tick w), w\<lparr>lw_tick := Suc (lw_tick w)\<rparr>)"

definition file_op :: "life_env \<Rightarrow> (life_world, unit) prog" where
  "file_op env = lw_call (\<lambda>n. case le_fault env n of None \<Rightarrow> Inr () | Some e \<Rightarrow> Inl e)"

definition on_dir :: "string \<Rightarrow> (incident_dir \<Rightarrow> incident_dir) \<Rightarrow> (life_world, unit) prog" where
  "on_dir d f w = (Inr (), w\<lparr>lw_dirs := (lw_dirs w)(d := f (lw_dirs w d))\<rparr>)"

definition look :: "(life_world \<Rightarrow> 'a) \<Rightarrow> (life_world, 'a) prog" where
  "look f w = (Inr (f w), w)"

definition incident_directory :: "string \<Rightarrow> string" where
  "incident_directory incident_id = sha256_hex (utf8 incident_id)"

abbreviation home :: "investigation \<Rightarrow> string" where
  "home s \<equiv> incident_directory (in_id (iv_incident s))"

section \<open>Attempts\<close>

definition attempt_name :: "int \<Rightarrow> string" where
  "attempt_name n = ''attempt-'' @ zero_pad 2 (nat n) @ ''.json''"

definition create_attempt :: "life_env \<Rightarrow> string \<Rightarrow> int \<Rightarrow> (life_world, unit) prog" where
  "create_attempt env d n =
     bindP (file_op env) (\<lambda>_.
     bindP (look (\<lambda>w. dr_attempts (lw_dirs w d))) (\<lambda>names.
     bindP (checkP (attempt_name n \<notin> set names) (FileExistsError ''attempt'')) (\<lambda>_.
     bindP (on_dir d (\<lambda>r. r\<lparr>dr_attempts := dr_attempts r @ [attempt_name n]\<rparr>)) (\<lambda>_.
     file_op env))))"

definition reserve_attempt :: "life_env \<Rightarrow> investigation \<Rightarrow> string \<Rightarrow> (life_world, investigation) prog" where
  "reserve_attempt env s name =
     bindP (file_op env) (\<lambda>_.
     bindP (look (\<lambda>w. dr_attempts (lw_dirs w (home s)))) (\<lambda>names.
     let used = max (iv_steps_used s) (int (length names));
         exhausted = liftR (updated (s\<lparr>iv_steps_used := used, iv_terminal := Some BUDGET_EXHAUSTED\<rparr>)) in
     if used \<ge> ib_max_steps (iv_budget s) then exhausted
     else
       bindP (lw_ask (le_now env)) (\<lambda>now.
       if now \<ge> ib_deadline (iv_budget s) then exhausted
       else
         bindP (lw_ask (le_now env)) (\<lambda>_.
         bindP (create_attempt env (home s) (used + 1)) (\<lambda>_.
         liftR (updated (s\<lparr>iv_steps_used := used + 1\<rparr>)))))))"

definition node_step ::
  "life_env \<Rightarrow> string \<Rightarrow> (investigation \<Rightarrow> (life_world, investigation) prog) \<Rightarrow> investigation row_text
     \<Rightarrow> (life_world, investigation row_text) prog" where
  "node_step env name operation v =
     bindP (liftR (unpack v)) (\<lambda>s.
     bindP (lw_ask (le_perf env)) (\<lambda>started.
     bindP (reserve_attempt env s name) (\<lambda>reserved.
     bindP (if iv_terminal reserved \<noteq> None then returnP reserved else operation reserved) (\<lambda>result.
     bindP (lw_ask (le_now env)) (\<lambda>now.
     bindP (lw_ask (le_perf env)) (\<lambda>finished.
     let record = \<lparr>sp_node = name, sp_observed = now, sp_duration = finished - started\<rparr> in
     bindP (checkP (valid_step record) invalid) (\<lambda>_.
     bindP (liftR (updated (result\<lparr>iv_steps := iv_steps s @ [record]\<rparr>))) (\<lambda>final.
     returnP (pack final)))))))))"

section \<open>Nodes\<close>

definition in_read_scope :: "investigation \<Rightarrow> bool" where
  "in_read_scope s \<longleftrightarrow>
     ic_namespace (in_request (iv_incident s)) = ''payops-sandbox''
     \<and> ic_service (in_request (iv_incident s)) \<in> set READ_SERVICES"

definition triage_op :: "investigation \<Rightarrow> exn + investigation" where
  "triage_op s =
     updated (s\<lparr>iv_phase := TRIAGED, iv_terminal := if in_read_scope s then None else Some SECURITY_BLOCK\<rparr>)"

definition required_reads :: "investigation \<Rightarrow> int" where
  "required_reads s = (if iv_profile s = Payment_windows_v1 then 34 else 30)"

definition reserve_op :: "investigation \<Rightarrow> exn + investigation" where
  "reserve_op s =
     (let reserved = iv_tool_calls s + 20; backend = iv_backend_reads s + required_reads s in
      if reserved > ib_max_tool_calls (iv_budget s) then updated (s\<lparr>iv_terminal := Some BUDGET_EXHAUSTED\<rparr>)
      else if backend > ib_max_backend_reads (iv_budget s)
      then updated (s\<lparr>iv_terminal := Some BUDGET_EXHAUSTED\<rparr>)
      else updated (s\<lparr>iv_phase := READS_RESERVED, iv_tool_calls := reserved, iv_backend_reads := backend\<rparr>))"

definition verify_collected_item :: "life_env \<Rightarrow> string \<Rightarrow> evidence_item \<Rightarrow> (life_world, unit) prog" where
  "verify_collected_item env d item =
     tryP (lw_call (\<lambda>n. verify_evidence (le_store env n d) item)) is_ValueError
       (\<lambda>_. raiseP (EvidenceIntegrityError ''collected evidence failed verification''))"

fun verify_collected :: "life_env \<Rightarrow> string \<Rightarrow> string \<Rightarrow> evidence_item list \<Rightarrow> (life_world, unit) prog" where
  "verify_collected env d i [] = returnP ()"
| "verify_collected env d i (item # items) =
     bindP (checkP (\<not> (ev_incident item \<noteq> i))
              (EvidenceIntegrityError ''evidence belongs to another incident'')) (\<lambda>_.
     bindP (verify_collected_item env d item) (\<lambda>_.
     verify_collected env d i items))"

definition collected :: "life_env \<Rightarrow> investigation \<Rightarrow> collection \<Rightarrow> (life_world, investigation) prog" where
  "collected env s result =
     bindP (checkP (\<not> (co_incident result \<noteq> in_id (iv_incident s)))
              (EvidenceIntegrityError ''collection belongs to another incident'')) (\<lambda>_.
     bindP (verify_collected env (home s) (in_id (iv_incident s)) (co_evidence result)) (\<lambda>_.
     liftR (updated (s\<lparr>iv_phase := EVIDENCE_COLLECTED, iv_evidence := co_evidence result,
                      iv_failures := co_failures result\<rparr>))))"

definition validate_collection :: "collection \<Rightarrow> exn + collection" where
  "validate_collection c = bindR (check (list_all valid_evidence_item (co_evidence c)) invalid) (\<lambda>_. Inr c)"

definition call_collector :: "life_env \<Rightarrow> investigation \<Rightarrow> (life_world, collection) prog" where
  "call_collector env s w =
     bindP (lw_call (\<lambda>n. le_collect env n (iv_incident s) (home s))) (\<lambda>c. liftR (validate_collection c))
       (w\<lparr>lw_calls := lw_calls w @ [(home s, s)]\<rparr>)"

text \<open>The guarded part of \<^verbatim>\<open>_collect\<close>: the marker and the call, then the retained result. Opening the
  result file creates it; the bytes are complete only after the write.\<close>

definition first_collection :: "life_env \<Rightarrow> investigation \<Rightarrow> (life_world, collection) prog" where
  "first_collection env s =
     bindP (file_op env) (\<lambda>_.
     bindP (look (\<lambda>w. lw_dirs w (home s))) (\<lambda>d.
     bindP (checkP (\<not> dr_dispatched d) (FileExistsError ''collection-dispatched'')) (\<lambda>_.
     bindP (on_dir (home s) (\<lambda>r. r\<lparr>dr_dispatched := True\<rparr>)) (\<lambda>_.
     bindP (file_op env) (\<lambda>_.
     call_collector env s)))))"

definition retain_collection :: "life_env \<Rightarrow> investigation \<Rightarrow> collection \<Rightarrow> (life_world, unit) prog" where
  "retain_collection env s result =
     bindP (file_op env) (\<lambda>_.
     bindP (look (\<lambda>w. dr_retained (lw_dirs w (home s)))) (\<lambda>old.
     bindP (checkP (old = None) (FileExistsError ''graph-collection.json'')) (\<lambda>_.
     bindP (on_dir (home s) (\<lambda>r. r\<lparr>dr_retained := Some Unreadable\<rparr>)) (\<lambda>_.
     bindP (file_op env) (\<lambda>_.
     on_dir (home s) (\<lambda>r. r\<lparr>dr_retained := Some (Dump result)\<rparr>))))))"

definition dispatch_collection :: "life_env \<Rightarrow> investigation \<Rightarrow> (life_world, investigation) prog" where
  "dispatch_collection env s =
     bindP (first_collection env s) (\<lambda>result.
     bindP (retain_collection env s result) (\<lambda>_.
     collected env s result))"

definition guarded_collect :: "life_env \<Rightarrow> investigation \<Rightarrow> (life_world, investigation) prog" where
  "guarded_collect env s =
     bindP (look (\<lambda>w. dr_retained (lw_dirs w (home s)))) (\<lambda>retained.
     case retained of
       Some bytes \<Rightarrow>
         bindP (file_op env) (\<lambda>_.
         bindP (liftR (load validate_collection bytes)) (\<lambda>result. collected env s result))
     | None \<Rightarrow> dispatch_collection env s)"

definition collect_failed :: "life_env \<Rightarrow> investigation \<Rightarrow> exn \<Rightarrow> exn + investigation" where
  "collect_failed env s e =
     (if is_IntegrityFailure e then updated (s\<lparr>iv_terminal := Some SECURITY_BLOCK\<rparr>)
      else updated (s\<lparr>iv_terminal := Some DEPENDENCY_UNAVAILABLE,
                      iv_failures := iv_failures s
                        @ [\<lparr>cf_tool = ''collection'', cf_resource = ic_service (in_request (iv_incident s)),
                            cf_error = le_type_name env e\<rparr>]\<rparr>))"

definition collect_op :: "life_env \<Rightarrow> investigation \<Rightarrow> (life_world, investigation) prog" where
  "collect_op env s =
     (if iv_tool_calls s < 20 \<or> iv_backend_reads s < required_reads s
      then liftR (updated (s\<lparr>iv_terminal := Some BUDGET_EXHAUSTED\<rparr>))
      else
        bindP (file_op env) (\<lambda>_.
        tryP (guarded_collect env s) (\<lambda>e. is_IntegrityFailure e \<or> is_OSError e \<or> is_ValueError e)
          (\<lambda>e. liftR (collect_failed env s e))))"

section \<open>Ranking and the report\<close>

fun verify_again :: "life_env \<Rightarrow> string \<Rightarrow> evidence_item list \<Rightarrow> (life_world, unit) prog" where
  "verify_again env d [] = returnP ()"
| "verify_again env d (item # items) =
     bindP (verify_collected_item env d item) (\<lambda>_. verify_again env d items)"

definition method_of :: "model_mode \<Rightarrow> ranking_method" where
  "method_of m = (if m = Fixture then Model_fixture else Model_provider)"

fun loop_terminal :: "loop_result \<Rightarrow> terminal_state" where
  "loop_terminal r =
     (if lr_stop r = Stop_finished then (if lr_hypotheses r \<noteq> [] then ESCALATED else EVIDENCE_INSUFFICIENT)
      else if lr_stop r = Stop_denied then SECURITY_BLOCK
      else if lr_stop r = Stop_exhausted then BUDGET_EXHAUSTED
      else if lr_stop r \<in> {Stop_refused, Stop_invalid} then EVIDENCE_INSUFFICIENT
      else DEPENDENCY_UNAVAILABLE)"

definition reason :: "investigation \<Rightarrow> reasoner \<Rightarrow> exn + investigation" where
  "reason s loop =
     bindR (check (\<not> (\<not> rs_same_root loop \<or> method_of (rs_mode loop) \<noteq> iv_method s
                       \<or> rb_tool_calls (rs_limits loop) > ib_max_tool_calls (iv_budget s) - iv_tool_calls s
                       \<or> rb_backend_reads (rs_limits loop)
                           > ib_max_backend_reads (iv_budget s) - iv_backend_reads s))
              (EvidenceIntegrityError ''reasoner store or remaining read allowance differs'')) (\<lambda>_.
     bindR (rs_run loop (iv_incident s) (iv_evidence s)) (\<lambda>result.
     bindR (check (\<not> (lr_run result \<noteq> in_id (iv_incident s)))
              (EvidenceIntegrityError ''reasoning result belongs to another incident'')) (\<lambda>_.
     bindR (rs_charges loop (lr_run result)) (\<lambda>charges.
     let reads = read_charges charges in
     validate_state
       (s\<lparr>iv_phase := RANKED, iv_evidence := lr_evidence result, iv_hypotheses := lr_hypotheses result,
          iv_terminal := Some (loop_terminal result), iv_method := method_of (lr_mode result),
          iv_stop_reason := Some (stop_text (lr_stop result)), iv_receipts := lr_receipts result,
          iv_tool_calls := iv_tool_calls s + sum_list (map (\<lambda>c. int (length (rc_requests c))) reads),
          iv_backend_reads := iv_backend_reads s + sum_list (map rc_count reads)\<rparr>)))))"

definition ranked :: "investigation \<Rightarrow> hypothesis list \<Rightarrow> exn + investigation" where
  "ranked s hs =
     updated (s\<lparr>iv_phase := RANKED, iv_hypotheses := hs,
                iv_terminal := Some (if hs \<noteq> [] then ESCALATED else EVIDENCE_INSUFFICIENT)\<rparr>)"

definition rank_op :: "life_env \<Rightarrow> investigation \<Rightarrow> (life_world, investigation) prog" where
  "rank_op env s =
     tryP
       (bindP (verify_again env (home s) (iv_evidence s)) (\<lambda>_.
        bindP (lw_ask (\<lambda>n. le_store env n (home s))) (\<lambda>st.
        case le_reasoner env of
          Some factory \<Rightarrow> bindP (lw_call (\<lambda>n. factory n s st)) (\<lambda>loop. liftR (reason s loop))
        | None \<Rightarrow> bindP (liftR (rank_evidence (le_fromiso env) (iv_evidence s) st)) (\<lambda>hs. liftR (ranked s hs)))))
       is_IntegrityFailure
       (\<lambda>_. liftR (updated (s\<lparr>iv_terminal := Some SECURITY_BLOCK,
                             iv_stop_reason := if le_reasoner env \<noteq> None then Some ''SECURITY_BLOCK'' else None\<rparr>)))"

definition report_of :: "investigation \<Rightarrow> string \<Rightarrow> incident_report" where
  "report_of s trace_id =
     \<lparr>rp_incident = in_id (iv_incident s), rp_evidence = iv_evidence s, rp_causes = iv_hypotheses s,
      rp_terminal = (case iv_terminal s of Some t \<Rightarrow> t | None \<Rightarrow> UNRECOVERABLE), rp_mode = iv_mode s,
      rp_duration = sum_list (map sp_duration (iv_steps s)), rp_method = iv_method s,
      rp_stop_reason = iv_stop_reason s, rp_receipts = iv_receipts s, rp_trace_id = trace_id\<rparr>"

definition node_finish :: "life_env \<Rightarrow> investigation row_text \<Rightarrow> (life_world, investigation row_text) prog" where
  "node_finish env v =
     bindP (liftR (unpack v)) (\<lambda>s.
     bindP (lw_ask (le_trace_id env)) (\<lambda>trace_id.
     bindP (liftR (validate_report (report_of s trace_id))) (\<lambda>report.
     bindP (liftR (updated (s\<lparr>iv_phase := FINISHED, iv_report := Some report\<rparr>))) (\<lambda>final.
     returnP (pack final)))))"

section \<open>The graph\<close>

definition route :: "investigation row_text \<Rightarrow> exn + node" where
  "route v =
     bindR (unpack v) (\<lambda>s.
     if iv_terminal s \<noteq> None then Inr Final
     else case iv_phase s of
            TRIAGED \<Rightarrow> Inr Reserve
          | READS_RESERVED \<Rightarrow> Inr Collect
          | EVIDENCE_COLLECTED \<Rightarrow> Inr Rank
          | _ \<Rightarrow> Inl (ValueError ''illegal investigation transition''))"

fun run_node :: "life_env \<Rightarrow> node \<Rightarrow> investigation row_text \<Rightarrow> (life_world, investigation row_text) prog" where
  "run_node env Triage = node_step env ''triage'' (\<lambda>s. liftR (triage_op s))"
| "run_node env Reserve = node_step env ''reserve'' (\<lambda>s. liftR (reserve_op s))"
| "run_node env Collect = node_step env ''collect'' (collect_op env)"
| "run_node env Rank = node_step env ''rank'' (rank_op env)"
| "run_node env Final = node_finish env"

text \<open>The edges that \<^verbatim>\<open>compile_graph\<close> declares; \<open>None\<close> is the end.\<close>

fun graph_next :: "node \<Rightarrow> investigation row_text \<Rightarrow> exn + node option" where
  "graph_next Rank v = Inr (Some Final)"
| "graph_next Final v = Inr None"
| "graph_next _ v = bindR (route v) (\<lambda>n. Inr (Some n))"

definition checkpoint :: "string \<Rightarrow> investigation row_text \<Rightarrow> node option \<Rightarrow> life_world \<Rightarrow> life_world" where
  "checkpoint i v next w = w\<lparr>lw_threads := (lw_threads w)(i \<mapsto> \<lparr>th_state = v, th_next = next\<rparr>)\<rparr>"

text \<open>What one step of the engine may do to the thread of an incident: save the input of a new thread,
  run the scheduled node and save its output, or lose the output of a node whose files stay.\<close>

inductive graph_step ::
  "life_env \<Rightarrow> string \<Rightarrow> investigation row_text option \<Rightarrow> life_world \<Rightarrow> life_world \<Rightarrow> bool"
  for env :: life_env and i :: string and input :: "investigation row_text option" where
  accept: "lw_threads w i = None \<Longrightarrow> input = Some v \<Longrightarrow>
             graph_step env i input w (checkpoint i v (Some Triage) w)"
| commit: "lw_threads w i = Some th \<Longrightarrow> th_next th = Some node \<Longrightarrow>
             run_node env node (th_state th) w = (Inr v, w') \<Longrightarrow> graph_next node v = Inr next \<Longrightarrow>
             graph_step env i input w (checkpoint i v next w')"
| lost: "lw_threads w i = Some th \<Longrightarrow> th_next th = Some node \<Longrightarrow>
             run_node env node (th_state th) w = (r, w') \<Longrightarrow> graph_step env i input w w'"

section \<open>The worker\<close>

type_synonym engine =
  "string \<Rightarrow> investigation row_text option \<Rightarrow> (life_world, investigation row_text) prog"

definition follows_graph :: "life_env \<Rightarrow> engine \<Rightarrow> bool" where
  "follows_graph env engine \<longleftrightarrow>
     (\<forall>i input w. (graph_step env i input)\<^sup>*\<^sup>* w (snd (engine i input w)))"

text \<open>What an undisturbed run of the compiled graph does: the scheduled node returns, its router names the
  next node, and both are saved.\<close>

inductive graph_commit :: "life_env \<Rightarrow> string \<Rightarrow> life_world \<Rightarrow> life_world \<Rightarrow> bool"
  for env :: life_env and i :: string where
  "lw_threads w i = Some th \<Longrightarrow> th_next th = Some node \<Longrightarrow>
     run_node env node (th_state th) w = (Inr v, w') \<Longrightarrow> graph_next node v = Inr next \<Longrightarrow>
     graph_commit env i w (checkpoint i v next w')"

definition recursion_limit :: nat where
  "recursion_limit = 16"

text \<open>The documented run of an engine without a breakpoint. Called with an input for a thread that has no
  checkpoint, it saves the input with the first node scheduled and runs the scheduled nodes. If fewer
  nodes than the recursion limit return and are saved until no node is scheduled, the call returns the
  saved state and has done nothing else. About every other call (a node that raises, a thread that
  exists, a run that is killed) nothing is said here.\<close>

definition runs_undisturbed :: "life_env \<Rightarrow> engine \<Rightarrow> bool" where
  "runs_undisturbed env engine \<longleftrightarrow>
     (\<forall>i v w n w' th. lw_threads w i = None \<longrightarrow> n < recursion_limit \<longrightarrow>
        (graph_commit env i ^^ n) (checkpoint i v (Some Triage) w) w' \<longrightarrow>
        lw_threads w' i = Some th \<longrightarrow> th_next th = None \<longrightarrow>
        engine i (Some v) w = (Inr (th_state th), w'))"

record worker =
  wk_env :: life_env
  wk_mode :: run_mode
  wk_profile :: collection_profile
  wk_ranking_profile :: string
  wk_method :: ranking_method

definition new_worker :: "worker \<Rightarrow> exn + worker" where
  "new_worker k =
     bindR (check (\<not> ((le_reasoner (wk_env k) = None) \<noteq> (wk_ranking_profile k = ''deterministic-v1'')))
              (ValueError ''model ranking requires its own stable host profile'')) (\<lambda>_.
     bindR (check (\<not> ((le_reasoner (wk_env k) = None) \<noteq> (wk_method k = Deterministic)))
              (ValueError ''ranking method must identify the selected model or baseline'')) (\<lambda>_.
     Inr k))"

definition same_profile :: "worker \<Rightarrow> investigation \<Rightarrow> exn + unit" where
  "same_profile k s =
     bindR (check (\<not> (iv_mode s \<noteq> wk_mode k)) (ValueError ''worker mode differs from saved investigation'')) (\<lambda>_.
     bindR (check (\<not> (iv_profile s \<noteq> wk_profile k))
              (ValueError ''collection profile differs from saved investigation'')) (\<lambda>_.
     bindR (check (\<not> (iv_ranking_profile s \<noteq> wk_ranking_profile k))
              (ValueError ''ranking profile differs from saved investigation'')) (\<lambda>_.
     check (\<not> (iv_method s \<noteq> wk_method k)) (ValueError ''ranking method differs from saved investigation''))))"

definition engine_result ::
  "engine \<Rightarrow> string \<Rightarrow> investigation row_text option \<Rightarrow> (life_world, investigation) prog" where
  "engine_result engine i input = bindP (engine i input) (\<lambda>v. liftR (unpack v))"

definition worker_invoke ::
  "worker \<Rightarrow> engine \<Rightarrow> string \<Rightarrow> investigation option \<Rightarrow> (life_world, investigation) prog" where
  "worker_invoke k engine i initial =
     bindP (lw_ask (le_lock (wk_env k))) (\<lambda>acquired.
     bindP (checkP acquired (TimeoutError ''lock'')) (\<lambda>_.
     bindP (look (\<lambda>w. lw_threads w i)) (\<lambda>snapshot.
     case snapshot of
       None \<Rightarrow>
         (case initial of
            None \<Rightarrow> raiseP (KeyError i)
          | Some s \<Rightarrow> engine_result engine i (Some (pack s)))
     | Some th \<Rightarrow>
         bindP (liftR (unpack (th_state th))) (\<lambda>existing.
         bindP (liftR (same_profile k existing)) (\<lambda>_.
         case initial of
           Some s \<Rightarrow>
             bindP (checkP (\<not> (iv_incident existing \<noteq> iv_incident s))
                      (ValueError ''thread already belongs to a different incident'')) (\<lambda>_.
             returnP existing)
         | None \<Rightarrow>
             if iv_phase existing = FINISHED then returnP existing else engine_result engine i None)))))"

definition default_life_budget :: "instant \<Rightarrow> investigation_budget" where
  "default_life_budget now =
     \<lparr>ib_max_steps = 4, ib_max_tool_calls = 20, ib_max_backend_reads = 34,
      ib_deadline = now + 600 * one_second\<rparr>"

definition initial_state :: "worker \<Rightarrow> incident \<Rightarrow> investigation_budget \<Rightarrow> instant \<Rightarrow> investigation" where
  "initial_state k incident budget now =
     \<lparr>iv_incident = incident, iv_budget = budget, iv_mode = wk_mode k, iv_profile = wk_profile k,
      iv_ranking_profile = wk_ranking_profile k, iv_method = wk_method k, iv_stop_reason = None,
      iv_receipts = [], iv_phase = RECEIVED, iv_started = now, iv_steps_used = 0, iv_tool_calls = 0,
      iv_backend_reads = 0, iv_evidence = [], iv_failures = [], iv_hypotheses = [], iv_terminal = None,
      iv_steps = [], iv_report = None\<rparr>"

definition worker_start ::
  "worker \<Rightarrow> engine \<Rightarrow> incident \<Rightarrow> investigation_budget option \<Rightarrow> (life_world, investigation) prog" where
  "worker_start k engine incident budget =
     bindP (case budget of
              Some b \<Rightarrow> returnP b
            | None \<Rightarrow> bindP (lw_ask (le_now (wk_env k))) (\<lambda>now. returnP (default_life_budget now))) (\<lambda>b.
     bindP (lw_ask (le_now (wk_env k))) (\<lambda>now.
     bindP (liftR (validate_state (initial_state k incident b now))) (\<lambda>initial.
     worker_invoke k engine (in_id incident) (Some initial))))"

definition worker_resume :: "worker \<Rightarrow> engine \<Rightarrow> string \<Rightarrow> (life_world, investigation) prog" where
  "worker_resume k engine i = worker_invoke k engine i None"

section \<open>An engine that satisfies the laws\<close>

text \<open>The engine is third-party code and stays a parameter of the worker. This instance shows that its laws
  can hold and serves the witnesses only: node after node, each output saved before the next node,
  stopping before \<open>Rank\<close> when the breakpoint is set unless the run resumes there.\<close>

fun run_graph :: "life_env \<Rightarrow> bool \<Rightarrow> nat \<Rightarrow> bool \<Rightarrow> string \<Rightarrow> (life_world, investigation row_text) prog" where
  "run_graph env pause 0 resumed i w = (Inl (OtherError ''GraphRecursionError''), w)"
| "run_graph env pause (Suc n) resumed i w =
     (case lw_threads w i of
        None \<Rightarrow> (Inl (KeyError i), w)
      | Some th \<Rightarrow>
          (case th_next th of
             None \<Rightarrow> (Inr (th_state th), w)
           | Some node \<Rightarrow>
               if pause \<and> node = Rank \<and> \<not> resumed then (Inr (th_state th), w)
               else
                 (case run_node env node (th_state th) w of
                    (Inl e, w') \<Rightarrow> (Inl e, w')
                  | (Inr v, w') \<Rightarrow>
                      (case graph_next node v of
                         Inl e \<Rightarrow> (Inl e, w')
                       | Inr next \<Rightarrow> run_graph env pause n False i (checkpoint i v next w')))))"

definition reference_engine :: "life_env \<Rightarrow> bool \<Rightarrow> engine" where
  "reference_engine env pause i input w =
     (case input of
        Some v \<Rightarrow> if lw_threads w i = None
                  then run_graph env pause recursion_limit False i (checkpoint i v (Some Triage) w)
                  else run_graph env pause recursion_limit True i w
      | None \<Rightarrow> run_graph env pause recursion_limit True i w)"

lemma run_graph_follows: "(graph_step env i input)\<^sup>*\<^sup>* w (snd (run_graph env pause n resumed i w))"
proof (induction n arbitrary: w resumed)
  case (Suc n)
  show ?case
  proof (cases "lw_threads w i")
    case (Some th)
    show ?thesis
    proof (cases "th_next th")
      case next_node: (Some node)
      obtain r w' where r: "run_node env node (th_state th) w = (r, w')" by force
      then have lost: "(graph_step env i input)\<^sup>*\<^sup>* w w'"
        using Some next_node by (auto intro: graph_step.lost)
      have commit: "r = Inr v \<Longrightarrow> graph_next node v = Inr next \<Longrightarrow>
          (graph_step env i input)\<^sup>*\<^sup>* w (snd (run_graph env pause n False i (checkpoint i v next w')))" for v "next"
        using r Some next_node Suc.IH
        by (blast intro: converse_rtranclp_into_rtranclp graph_step.commit)
      show ?thesis using Some next_node r lost commit
        by (simp split: sum.split)
    qed (simp add: Some)
  qed simp
qed simp

lemma reference_follows: "follows_graph env (reference_engine env pause)"
  unfolding follows_graph_def
proof (intro allI)
  fix i input w
  show "(graph_step env i input)\<^sup>*\<^sup>* w (snd (reference_engine env pause i input w))"
  proof (cases "lw_threads w i = None \<and> input \<noteq> None")
    case True
    then obtain v where v: "input = Some v" "lw_threads w i = None" by auto
    from graph_step.accept [OF v(2,1), of env] run_graph_follows
    have "(graph_step env i input)\<^sup>*\<^sup>* w (snd (run_graph env pause recursion_limit False i (checkpoint i v (Some Triage) w)))"
      by (rule converse_rtranclp_into_rtranclp)
    then show ?thesis by (simp add: reference_engine_def v)
  next
    case False
    then show ?thesis
      using run_graph_follows by (auto simp: reference_engine_def split: option.split)
  qed
qed

lemma run_graph_commits:
  assumes "(graph_commit env i ^^ n) w w'" "lw_threads w' i = Some th" "th_next th = None" "n < m"
  shows "run_graph env False m resumed i w = (Inr (th_state th), w')"
  using assms(1,4)
proof (induction n arbitrary: w m resumed)
  case 0
  then show ?case using assms(2,3) by (cases m) auto
next
  case (Suc n)
  obtain y where y: "graph_commit env i w y" "(graph_commit env i ^^ n) y w'"
    using Suc.prems(1) by (rule relpowp_Suc_E2)
  obtain m' where m: "m = Suc m'" "n < m'" using Suc.prems(2) by (cases m) auto
  from y(1) have "run_graph env False (Suc m') resumed i w = run_graph env False m' False i y"
    by (cases rule: graph_commit.cases) simp
  with Suc.IH [OF y(2) m(2)] show ?case by (simp add: m(1))
qed

lemma reference_runs: "runs_undisturbed env (reference_engine env False)"
  unfolding runs_undisturbed_def reference_engine_def by (auto intro: run_graph_commits)

section \<open>What a node may do\<close>

lemma keeps_bind:
  assumes "keeps R m" and "\<And>x. (\<exists>s s'. m s = (Inr x, s')) \<Longrightarrow> keeps R (f x)"
    and "\<And>a b c. R a b \<Longrightarrow> R b c \<Longrightarrow> R a c"
  shows "keeps R (bindP m f)"
  unfolding keeps_def
proof
  fix s
  obtain r t where m: "m s = (r, t)" by force
  then have first: "R s t" using assms(1) by (auto dest: keepsD)
  show "R s (snd (bindP m f s))"
  proof (cases r)
    case (Inl e)
    with m first show ?thesis by (simp add: bindP_def)
  next
    case (Inr x)
    with m assms(2) [of x] have "R t (snd (f x t))" by (auto simp: keeps_def)
    with first have "R s (snd (f x t))" by (rule assms(3))
    with m Inr show ?thesis by (simp add: bindP_def)
  qed
qed

definition call_ok :: "investigation \<Rightarrow> bool" where
  "call_ok s \<longleftrightarrow>
     in_read_scope s \<and> 20 \<le> iv_tool_calls s \<and> iv_tool_calls s \<le> ib_max_tool_calls (iv_budget s)
     \<and> required_reads s \<le> iv_backend_reads s \<and> iv_backend_reads s \<le> ib_max_backend_reads (iv_budget s)"

text \<open>The effect on the files: threads and other directories stay, the marker stays, at most one call is
  made and only with the marker newly set, and attempts stay within the step limit.\<close>

definition life_frame :: "string \<Rightarrow> int \<Rightarrow> life_world \<Rightarrow> life_world \<Rightarrow> bool" where
  "life_frame d m w w' \<longleftrightarrow>
     lw_threads w' = lw_threads w \<and> (\<forall>d'. d' \<noteq> d \<longrightarrow> lw_dirs w' d' = lw_dirs w d')
     \<and> (dr_dispatched (lw_dirs w d) \<longrightarrow> dr_dispatched (lw_dirs w' d))
     \<and> (lw_calls w' = lw_calls w
        \<or> \<not> dr_dispatched (lw_dirs w d) \<and> dr_dispatched (lw_dirs w' d)
          \<and> (\<exists>s. call_ok s \<and> home s = d \<and> lw_calls w' = lw_calls w @ [(d, s)]))
     \<and> int (length (dr_attempts (lw_dirs w' d))) \<le> max (int (length (dr_attempts (lw_dirs w d)))) m"

lemma life_frame_refl [simp]: "life_frame d m w w"
  by (simp add: life_frame_def)

lemma life_frame_trans: "life_frame d m a b \<Longrightarrow> life_frame d m b c \<Longrightarrow> life_frame d m a c"
  by (auto simp: life_frame_def)

lemmas frame_bind = keeps_bind [where R = "life_frame d m" for d m, OF _ _ life_frame_trans]

lemma frame_rules [simp]:
  "keeps (life_frame d m) (liftR r)" "keeps (life_frame d m) (checkP b e)" "keeps (life_frame d m) (returnP x)"
  "keeps (life_frame d m) (raiseP e)" "keeps (life_frame d m) (lw_ask f)" "keeps (life_frame d m) (lw_call g)"
  "keeps (life_frame d m) (look h)" "keeps (life_frame d m) (file_op env)"
  by (simp_all add: keeps_def life_frame_def lw_ask_def lw_call_def look_def file_op_def)

lemma frame_try: "keeps (life_frame d m) p \<Longrightarrow> (\<And>e. keeps (life_frame d m) (h e)) \<Longrightarrow>
    keeps (life_frame d m) (tryP p c h)"
  by (rule keeps_tryP) (auto intro: life_frame_trans)

lemma frame_verify_item [simp]: "keeps (life_frame d m) (verify_collected_item env d' item)"
  by (simp add: verify_collected_item_def frame_try)

lemma frame_verify [simp]:
  "keeps (life_frame d m) (verify_collected env d' i items)" "keeps (life_frame d m) (verify_again env d' items)"
  by (induction items) (simp_all add: frame_bind)

lemma frame_collected [simp]: "keeps (life_frame d m) (collected env s result)"
  by (simp add: collected_def frame_bind)

lemma validate_state_same: "validate_state s = Inr s' \<Longrightarrow> s' = s"
  by (auto simp: validate_state_def)

lemma validate_state_bounds:
  "validate_state s = Inr s' \<Longrightarrow> valid_life_budget (iv_budget s) \<and> between 0 16 (iv_steps_used s)"
  by (auto simp: validate_state_def)

lemma updated_iff: "updated s = Inr s' \<longleftrightarrow> s' = s \<and> validate_state s = Inr s"
  using validate_state_same by (auto simp: updated_def)

lemma unpack_Dump: "unpack v = Inr s \<longleftrightarrow> v = Dump s \<and> validate_state s = Inr s"
  using validate_state_same by (cases v) (auto simp: unpack_def)

text \<open>The fields that every node keeps.\<close>

definition same_case :: "investigation \<Rightarrow> investigation \<Rightarrow> bool" where
  "same_case s s' \<longleftrightarrow> iv_incident s' = iv_incident s \<and> iv_budget s' = iv_budget s \<and> iv_profile s' = iv_profile s"

definition within_reads :: "investigation \<Rightarrow> bool" where
  "within_reads s \<longleftrightarrow>
     iv_tool_calls s \<le> ib_max_tool_calls (iv_budget s) \<and> iv_backend_reads s \<le> ib_max_backend_reads (iv_budget s)"

definition same_reads :: "investigation \<Rightarrow> investigation \<Rightarrow> bool" where
  "same_reads s s' \<longleftrightarrow> iv_tool_calls s' = iv_tool_calls s \<and> iv_backend_reads s' = iv_backend_reads s"

lemma reserve_attempt_Inr:
  assumes "reserve_attempt env s name w = (Inr s', w')"
  shows "same_case s s' \<and> same_reads s s' \<and> iv_phase s' = iv_phase s \<and> validate_state s' = Inr s'
         \<and> (iv_terminal s' = iv_terminal s \<or> iv_terminal s' = Some BUDGET_EXHAUSTED)"
proof -
  from assms obtain n where "updated (s\<lparr>iv_steps_used := n\<rparr>) = Inr s'
      \<or> updated (s\<lparr>iv_steps_used := n, iv_terminal := Some BUDGET_EXHAUSTED\<rparr>) = Inr s'"
    unfolding reserve_attempt_def Let_def bindP_Inr_iff liftR_apply prod.inject
    by (auto split: if_splits simp: bindP_Inr_iff)
  then show ?thesis by (auto simp: updated_iff same_case_def same_reads_def)
qed

lemma create_attempt_frame:
  assumes "int (length (dr_attempts (lw_dirs w d))) < m"
  shows "life_frame d m w (snd (create_attempt env d n w))"
  using assms
  by (auto simp: create_attempt_def file_op_def lw_call_def look_def on_dir_def bindP_def check_def life_frame_def
      split: option.splits)

lemma frame_tick [simp]: "life_frame d m (w\<lparr>lw_tick := n\<rparr>) w' \<longleftrightarrow> life_frame d m w w'"
  by (simp add: life_frame_def)

lemma file_op_world: "file_op env w = (r, w') \<Longrightarrow> w' = w\<lparr>lw_tick := Suc (lw_tick w)\<rparr>"
  by (simp add: file_op_def lw_call_def)

lemma frame_reserve_attempt:
  "keeps (life_frame (home s) (ib_max_steps (iv_budget s))) (reserve_attempt env s name)"
  unfolding keeps_def
proof
  fix w :: life_world
  let ?d = "home s" and ?m = "ib_max_steps (iv_budget s)"
  let ?names = "dr_attempts (lw_dirs w ?d)"
  let ?used = "max (iv_steps_used s) (int (length ?names))"
  have create: "life_frame ?d ?m w (snd (bindP (create_attempt env ?d n) (\<lambda>_. liftR r) (w\<lparr>lw_tick := k\<rparr>)))"
    if "?used < ?m" for k r n
  proof -
    have "life_frame ?d ?m (w\<lparr>lw_tick := k\<rparr>) (snd (create_attempt env ?d n (w\<lparr>lw_tick := k\<rparr>)))"
      by (rule create_attempt_frame) (use that in simp)
    then show ?thesis by (auto simp: bindP_def split: prod.split sum.split)
  qed
  obtain r w1 where f: "file_op env w = (r, w1)" by force
  note w1 = file_op_world [OF f]
  have tick: "life_frame ?d ?m w (w\<lparr>lw_tick := k\<rparr>)" for k by (simp add: life_frame_def)
  show "life_frame ?d ?m w (snd (reserve_attempt env s name w))"
  proof (cases r)
    case (Inl e)
    with f w1 tick show ?thesis by (simp add: reserve_attempt_def bindP_def)
  next
    case (Inr u)
    have "reserve_attempt env s name w =
       (if ?used \<ge> ?m then (updated (s\<lparr>iv_steps_used := ?used, iv_terminal := Some BUDGET_EXHAUSTED\<rparr>), w1)
        else if le_now env (lw_tick w1) \<ge> ib_deadline (iv_budget s)
        then (updated (s\<lparr>iv_steps_used := ?used, iv_terminal := Some BUDGET_EXHAUSTED\<rparr>),
              w1\<lparr>lw_tick := Suc (lw_tick w1)\<rparr>)
        else bindP (create_attempt env ?d (?used + 1)) (\<lambda>_. liftR (updated (s\<lparr>iv_steps_used := ?used + 1\<rparr>)))
               (w1\<lparr>lw_tick := Suc (Suc (lw_tick w1))\<rparr>))"
      using f Inr by (simp add: reserve_attempt_def bindP_def look_def lw_ask_def Let_def w1)
    then show ?thesis using create tick by (auto simp: w1 not_le)
  qed
qed

lemma frame_retain [simp]: "keeps (life_frame (home s) m) (retain_collection env s result)"
  unfolding keeps_def
  by (auto simp: retain_collection_def file_op_def lw_call_def look_def on_dir_def bindP_def check_def life_frame_def
      split: option.splits)

lemma frame_first_collection: "call_ok s \<Longrightarrow> keeps (life_frame (home s) m) (first_collection env s)"
  unfolding keeps_def
  by (auto simp: first_collection_def call_collector_def file_op_def lw_call_def look_def on_dir_def bindP_def
      check_def life_frame_def split: option.splits sum.splits)

lemma frame_collect_op:
  assumes "in_read_scope s" "within_reads s"
  shows "keeps (life_frame (home s) m) (collect_op env s)"
proof (cases "iv_tool_calls s < 20 \<or> iv_backend_reads s < required_reads s")
  case True
  then show ?thesis by (simp add: collect_op_def)
next
  case False
  with assms have ok: "call_ok s" by (auto simp: call_ok_def within_reads_def)
  have "keeps (life_frame (home s) m) (guarded_collect env s)"
    unfolding guarded_collect_def dispatch_collection_def
    by (intro frame_bind) (auto intro!: frame_bind frame_first_collection [OF ok] split: option.split)
  with False show ?thesis
    by (auto simp: collect_op_def intro!: frame_bind frame_try)
qed

lemma frame_rank_op [simp]: "keeps (life_frame d m) (rank_op env s)"
  unfolding rank_op_def by (intro frame_try frame_bind) (auto intro!: frame_bind split: option.split)

text \<open>When a node may run.\<close>

definition node_ready :: "node \<Rightarrow> investigation \<Rightarrow> bool" where
  "node_ready node s \<longleftrightarrow>
     (node \<noteq> Final \<longrightarrow> within_reads s) \<and> (node \<in> {Reserve, Collect, Rank} \<longrightarrow> in_read_scope s)"

lemma same_case_facts:
  assumes "same_case s s'"
  shows "home s' = home s" "iv_budget s' = iv_budget s" "in_read_scope s' \<longleftrightarrow> in_read_scope s"
    "required_reads s' = required_reads s"
  using assms by (simp_all add: same_case_def in_read_scope_def required_reads_def)

lemma frame_node_step:
  assumes "\<And>s'. same_case s s' \<Longrightarrow> same_reads s s' \<Longrightarrow>
             keeps (life_frame (home s) (ib_max_steps (iv_budget s))) (op s')"
  shows "keeps (life_frame (home s) (ib_max_steps (iv_budget s))) (node_step env name op (Dump s))"
  unfolding node_step_def
  by (intro frame_bind)
     (auto simp: unpack_Dump Let_def dest!: reserve_attempt_Inr intro!: frame_bind frame_reserve_attempt assms)

lemma frame_run_node:
  assumes "node_ready node s"
  shows "keeps (life_frame (home s) (ib_max_steps (iv_budget s))) (run_node env node (Dump s))"
proof (cases node)
  case Collect
  have "keeps (life_frame (home s) (ib_max_steps (iv_budget s))) (collect_op env s')"
    if "same_case s s'" "same_reads s s'" for s'
  proof -
    have "in_read_scope s'" "within_reads s'" "home s' = home s"
      using assms that same_case_facts [OF that(1)]
      by (simp_all add: node_ready_def Collect same_reads_def within_reads_def)
    with frame_collect_op [of s'] show ?thesis by metis
  qed
  then show ?thesis unfolding Collect run_node.simps by (rule frame_node_step)
next
  case Final
  then show ?thesis by (auto simp: node_finish_def intro!: frame_bind)
qed (simp_all only: run_node.simps, (rule frame_node_step, simp)+)

section \<open>What a node returns\<close>

lemma triage_op_Inr:
  "triage_op s = Inr s' \<Longrightarrow> same_case s s' \<and> same_reads s s' \<and> validate_state s' = Inr s'
     \<and> (iv_terminal s' = None \<longrightarrow> in_read_scope s)"
  by (auto simp: triage_op_def updated_iff same_case_def same_reads_def split: if_splits)

lemma reserve_op_Inr:
  "reserve_op s = Inr s' \<Longrightarrow> within_reads s \<Longrightarrow> same_case s s' \<and> within_reads s' \<and> validate_state s' = Inr s'"
  by (auto simp: reserve_op_def updated_iff same_case_def within_reads_def Let_def split: if_splits)

lemma collected_Inr:
  "collected env s result w = (Inr s', w') \<Longrightarrow> same_case s s' \<and> same_reads s s' \<and> validate_state s' = Inr s'"
  by (auto simp: collected_def bindP_Inr_iff updated_iff same_case_def same_reads_def)

lemma collect_failed_Inr:
  "collect_failed env s e = Inr s' \<Longrightarrow> same_case s s' \<and> same_reads s s' \<and> validate_state s' = Inr s'"
  by (auto simp: collect_failed_def updated_iff same_case_def same_reads_def split: if_splits)

lemma collect_op_Inr:
  assumes "collect_op env s w = (Inr s', w')"
  shows "same_case s s' \<and> same_reads s s' \<and> validate_state s' = Inr s'"
proof (cases "iv_tool_calls s < 20 \<or> iv_backend_reads s < required_reads s")
  case True
  with assms show ?thesis by (auto simp: collect_op_def updated_iff same_case_def same_reads_def)
next
  case False
  with assms obtain w1 where "guarded_collect env s w1 = (Inr s', w') \<or> (\<exists>e. collect_failed env s e = Inr s')"
    by (auto simp: collect_op_def bindP_Inr_iff tryP_Inr_iff)
  then consider w2 result where "collected env s result w2 = (Inr s', w')" | e where "collect_failed env s e = Inr s'"
    by (auto simp: guarded_collect_def dispatch_collection_def bindP_Inr_iff split: option.splits)
  then show ?thesis using collected_Inr collect_failed_Inr by cases blast+
qed

lemma reason_Inr: "reason s loop = Inr s' \<Longrightarrow> same_case s s' \<and> validate_state s' = Inr s'"
  using validate_state_same by (fastforce simp: reason_def Let_def same_case_def)

lemma rank_op_Inr: "rank_op env s w = (Inr s', w') \<Longrightarrow> same_case s s' \<and> validate_state s' = Inr s'"
  by (auto simp: rank_op_def tryP_Inr_iff bindP_Inr_iff ranked_def updated_iff same_case_def
      split: option.splits dest!: reason_Inr)

lemma node_step_Inr:
  assumes "node_step env name op (Dump s) w = (Inr v, w')"
  obtains s1 s2 r w1 w2 where "same_case s s1" "same_reads s s1"
    "iv_terminal s1 = iv_terminal s \<or> iv_terminal s1 = Some BUDGET_EXHAUSTED"
    "s2 = s1 \<and> iv_terminal s1 \<noteq> None \<or> iv_terminal s1 = None \<and> op s1 w1 = (Inr s2, w2)"
    "v = Dump (s2\<lparr>iv_steps := iv_steps s @ [r]\<rparr>)" "validate_state (s2\<lparr>iv_steps := iv_steps s @ [r]\<rparr>)
       = Inr (s2\<lparr>iv_steps := iv_steps s @ [r]\<rparr>)"
proof -
  from assms obtain s1 s2 r wa wb w1 w2 where res: "reserve_attempt env s name wa = (Inr s1, w1)"
    and op: "(if iv_terminal s1 \<noteq> None then returnP s1 else op s1) w1 = (Inr s2, w2)"
    and v: "updated (s2\<lparr>iv_steps := iv_steps s @ [r]\<rparr>) = Inr wb" "v = pack wb"
    by (auto simp: node_step_def bindP_Inr_iff unpack_Dump Let_def)
  from op have "s2 = s1 \<and> iv_terminal s1 \<noteq> None \<or> iv_terminal s1 = None \<and> op s1 w1 = (Inr s2, w2)"
    by (auto split: if_splits)
  with that reserve_attempt_Inr [OF res] v show ?thesis by (auto simp: updated_iff pack_def)
qed

lemma route_cases:
  assumes "route (Dump s) = Inr n"
  shows "n = Final \<or> iv_terminal s = None \<and> n \<in> {Reserve, Collect, Rank}"
  using assms by (auto simp: route_def unpack_Dump split: if_splits phase.splits)

lemma route_ready:
  assumes "route (Dump s) = Inr n" and "iv_terminal s = None \<Longrightarrow> within_reads s \<and> in_read_scope s"
  shows "node_ready n s"
  using route_cases [OF assms(1)] assms(2) by (auto simp: node_ready_def)

lemma step_fields [simp]:
  "within_reads (s\<lparr>iv_steps := x\<rparr>) = within_reads s" "in_read_scope (s\<lparr>iv_steps := x\<rparr>) = in_read_scope s"
  "same_case t (s\<lparr>iv_steps := x\<rparr>) = same_case t s"
  by (simp_all add: within_reads_def in_read_scope_def same_case_def)

lemma within_reads_same: "same_case s s' \<Longrightarrow> same_reads s s' \<Longrightarrow> within_reads s' = within_reads s"
  by (simp add: within_reads_def same_case_def same_reads_def)

lemma same_case_trans: "same_case a b \<Longrightarrow> same_case b c \<Longrightarrow> same_case a c"
  by (simp add: same_case_def)

text \<open>A routed node: if its operation keeps the case, and leaves a state without a terminal outcome in
  scope and within its reads, then so is the next node ready.\<close>

lemma node_step_ready:
  assumes step: "node_step env name op (Dump s) w = (Inr v, w')" and "route v = Inr n"
    and op: "\<And>s1 s2 w1 w2. same_case s s1 \<Longrightarrow> same_reads s s1 \<Longrightarrow> op s1 w1 = (Inr s2, w2) \<Longrightarrow>
               same_case s1 s2 \<and> (iv_terminal s2 = None \<longrightarrow> within_reads s2 \<and> in_read_scope s2)"
  shows "\<exists>s'. v = Dump s' \<and> validate_state s' = Inr s' \<and> same_case s s' \<and> node_ready n s'"
  using step
proof (rule node_step_Inr)
  fix s1 s2 :: investigation and r w1 w2
  let ?s = "s2\<lparr>iv_steps := iv_steps s @ [r]\<rparr>"
  assume s1: "same_case s s1" "same_reads s s1"
    and run: "s2 = s1 \<and> iv_terminal s1 \<noteq> None \<or> iv_terminal s1 = None \<and> op s1 w1 = (Inr s2, w2)"
    and v: "v = Dump ?s" "validate_state ?s = Inr ?s"
  from run have "same_case s1 s2 \<and> (iv_terminal s2 = None \<longrightarrow> within_reads s2 \<and> in_read_scope s2)"
    using op [OF s1] by (auto simp: same_case_def)
  with s1 v assms(2) show ?thesis
    by (auto intro!: route_ready intro: same_case_trans)
qed

lemma node_step_case:
  assumes "node_step env name op (Dump s) w = (Inr v, w')"
    and "\<And>s1 s2 w1 w2. op s1 w1 = (Inr s2, w2) \<Longrightarrow> same_case s1 s2"
  shows "\<exists>s'. v = Dump s' \<and> validate_state s' = Inr s' \<and> same_case s s'"
  using assms(1)
proof (rule node_step_Inr)
  fix s1 s2 :: investigation and r w1 w2
  assume "same_case s s1" "s2 = s1 \<and> iv_terminal s1 \<noteq> None \<or> iv_terminal s1 = None \<and> op s1 w1 = (Inr s2, w2)"
    and v: "v = Dump (s2\<lparr>iv_steps := iv_steps s @ [r]\<rparr>)"
      "validate_state (s2\<lparr>iv_steps := iv_steps s @ [r]\<rparr>) = Inr (s2\<lparr>iv_steps := iv_steps s @ [r]\<rparr>)"
  then have "same_case s s2" using assms(2) same_case_trans by blast
  with v show ?thesis by auto
qed

lemma node_finish_Inr:
  "node_finish env (Dump s) w = (Inr v, w') \<Longrightarrow>
     \<exists>s' trace_id. v = Dump s' \<and> validate_state s' = Inr s' \<and> same_case s s' \<and> iv_phase s' = FINISHED
        \<and> iv_report s' = Some (report_of s trace_id) \<and> grounded (report_of s trace_id)"
  by (auto simp: node_finish_def bindP_Inr_iff unpack_Dump updated_iff pack_def same_case_def validate_report_iff)

lemma op_ready:
  assumes "same_case s s1" "same_reads s s1" "within_reads s"
  shows "liftR (triage_op s1) w1 = (Inr s2, w2) \<Longrightarrow>
           same_case s1 s2 \<and> (iv_terminal s2 = None \<longrightarrow> within_reads s2 \<and> in_read_scope s2)"
    and "in_read_scope s \<Longrightarrow> liftR (reserve_op s1) w1 = (Inr s2, w2) \<Longrightarrow>
           same_case s1 s2 \<and> (iv_terminal s2 = None \<longrightarrow> within_reads s2 \<and> in_read_scope s2)"
    and "in_read_scope s \<Longrightarrow> collect_op env s1 w1 = (Inr s2, w2) \<Longrightarrow>
           same_case s1 s2 \<and> (iv_terminal s2 = None \<longrightarrow> within_reads s2 \<and> in_read_scope s2)"
proof -
  have s1: "within_reads s1" "in_read_scope s1 = in_read_scope s"
    using assms within_reads_same same_case_facts(3) by blast+
  {
    assume "liftR (triage_op s1) w1 = (Inr s2, w2)"
    then have "triage_op s1 = Inr s2" by simp
    from triage_op_Inr [OF this] s1
    show "same_case s1 s2 \<and> (iv_terminal s2 = None \<longrightarrow> within_reads s2 \<and> in_read_scope s2)"
      using within_reads_same same_case_facts(3) by blast
  }
  {
    assume "in_read_scope s" "liftR (reserve_op s1) w1 = (Inr s2, w2)"
    then have "reserve_op s1 = Inr s2" "in_read_scope s" by simp_all
    with reserve_op_Inr [OF this(1) s1(1)] s1
    show "same_case s1 s2 \<and> (iv_terminal s2 = None \<longrightarrow> within_reads s2 \<and> in_read_scope s2)"
      using same_case_facts(3) by blast
  }
  assume "in_read_scope s" "collect_op env s1 w1 = (Inr s2, w2)"
  with collect_op_Inr [OF this(2)] s1
  show "same_case s1 s2 \<and> (iv_terminal s2 = None \<longrightarrow> within_reads s2 \<and> in_read_scope s2)"
    using within_reads_same same_case_facts(3) by blast
qed

lemma run_node_ready:
  assumes ready: "node_ready node s" and run: "run_node env node (Dump s) w = (Inr v, w')"
    and "next": "graph_next node v = Inr next"
  shows "\<exists>s'. v = Dump s' \<and> validate_state s' = Inr s' \<and> same_case s s' \<and> (\<forall>n. next = Some n \<longrightarrow> node_ready n s')"
proof (cases node)
  case Triage
  then obtain n where n: "route v = Inr n" "next = Some n" using "next" by auto
  have "\<exists>s'. v = Dump s' \<and> validate_state s' = Inr s' \<and> same_case s s' \<and> node_ready n s'"
    by (rule node_step_ready [OF run [unfolded Triage run_node.simps] n(1)], rule op_ready(1))
       (use ready in \<open>auto simp: node_ready_def Triage\<close>)
  then show ?thesis using n by auto
next
  case Reserve
  then obtain n where n: "route v = Inr n" "next = Some n" using "next" by auto
  have "\<exists>s'. v = Dump s' \<and> validate_state s' = Inr s' \<and> same_case s s' \<and> node_ready n s'"
    by (rule node_step_ready [OF run [unfolded Reserve run_node.simps] n(1)], rule op_ready(2))
       (use ready in \<open>auto simp: node_ready_def Reserve\<close>)
  then show ?thesis using n by auto
next
  case Collect
  then obtain n where n: "route v = Inr n" "next = Some n" using "next" by auto
  have "\<exists>s'. v = Dump s' \<and> validate_state s' = Inr s' \<and> same_case s s' \<and> node_ready n s'"
    by (rule node_step_ready [OF run [unfolded Collect run_node.simps] n(1)], rule op_ready(3))
       (use ready in \<open>auto simp: node_ready_def Collect\<close>)
  then show ?thesis using n by auto
next
  case Rank
  have "\<exists>s'. v = Dump s' \<and> validate_state s' = Inr s' \<and> same_case s s'"
    by (rule node_step_case [OF run [unfolded Rank run_node.simps]]) (use rank_op_Inr in blast)
  then show ?thesis using "next" by (auto simp: Rank node_ready_def)
next
  case Final
  then show ?thesis using node_finish_Inr run "next" by (fastforce simp: node_ready_def)
qed

section \<open>The invariant of the service\<close>

definition thread_ok :: "string \<Rightarrow> thread \<Rightarrow> bool" where
  "thread_ok i th \<longleftrightarrow>
     (\<exists>s. th_state th = Dump s \<and> validate_state s = Inr s \<and> in_id (iv_incident s) = i
        \<and> (\<forall>node. th_next th = Some node \<longrightarrow> node_ready node s))"

definition calls_ok :: "life_world \<Rightarrow> bool" where
  "calls_ok w \<longleftrightarrow>
     (\<forall>d. length (filter (\<lambda>c. fst c = d) (lw_calls w)) \<le> (if dr_dispatched (lw_dirs w d) then 1 else 0))
     \<and> (\<forall>c \<in> set (lw_calls w). fst c = home (snd c) \<and> call_ok (snd c))"

text \<open>No other incident shares the directory, that is, no two identifiers in use have one digest.\<close>

definition own_directory :: "life_world \<Rightarrow> string \<Rightarrow> bool" where
  "own_directory w i \<longleftrightarrow>
     (\<forall>j. lw_threads w j \<noteq> None \<longrightarrow> incident_directory j = incident_directory i \<longrightarrow> j = i)"

definition attempts_ok :: "life_world \<Rightarrow> bool" where
  "attempts_ok w \<longleftrightarrow>
     (\<forall>d. (\<forall>i. lw_threads w i \<noteq> None \<longrightarrow> incident_directory i \<noteq> d) \<longrightarrow> dr_attempts (lw_dirs w d) = [])
     \<and> (\<forall>i th s. lw_threads w i = Some th \<longrightarrow> th_state th = Dump s \<longrightarrow> own_directory w i \<longrightarrow>
          int (length (dr_attempts (lw_dirs w (incident_directory i)))) \<le> ib_max_steps (iv_budget s))"

definition life_ok :: "life_world \<Rightarrow> bool" where
  "life_ok w \<longleftrightarrow> (\<forall>i th. lw_threads w i = Some th \<longrightarrow> thread_ok i th) \<and> calls_ok w \<and> attempts_ok w"

definition empty_life :: "nat \<Rightarrow> life_world" where
  "empty_life n =
     \<lparr>lw_tick = n, lw_dirs = (\<lambda>_. \<lparr>dr_attempts = [], dr_dispatched = False, dr_retained = None\<rparr>),
      lw_threads = Map.empty, lw_calls = []\<rparr>"

lemma life_ok_empty: "life_ok (empty_life n)"
  by (simp add: life_ok_def calls_ok_def attempts_ok_def empty_life_def)

lemma life_okD: "life_ok w \<Longrightarrow> lw_threads w i = Some th \<Longrightarrow> thread_ok i th"
  by (simp add: life_ok_def)

lemma calls_ok_frame:
  assumes "calls_ok w" "life_frame d m w w'"
  shows "calls_ok w'"
  unfolding calls_ok_def
proof (intro conjI allI ballI)
  fix e
  show "length (filter (\<lambda>c. fst c = e) (lw_calls w')) \<le> (if dr_dispatched (lw_dirs w' e) then 1 else 0)"
  proof (cases "e = d")
    case True
    have "length (filter (\<lambda>c. fst c = d) (lw_calls w)) \<le> (if dr_dispatched (lw_dirs w d) then 1 else 0)"
      using assms(1) by (simp add: calls_ok_def)
    with assms(2) show ?thesis by (auto simp: life_frame_def True split: if_splits)
  next
    case False
    have "length (filter (\<lambda>c. fst c = e) (lw_calls w)) \<le> (if dr_dispatched (lw_dirs w e) then 1 else 0)"
      using assms(1) by (simp add: calls_ok_def)
    with assms(2) False show ?thesis by (auto simp: life_frame_def)
  qed
next
  fix c
  assume "c \<in> set (lw_calls w')"
  with assms show "fst c = home (snd c)" "call_ok (snd c)"
    by (auto simp: life_frame_def calls_ok_def)
qed

lemma attempts_ok_frame:
  assumes ok: "attempts_ok w" and frame: "life_frame (incident_directory i) (ib_max_steps (iv_budget s)) w w'"
    and thread: "lw_threads w i = Some th" "th_state th = Dump s"
  shows "attempts_ok w'"
  unfolding attempts_ok_def
proof (intro conjI allI impI)
  fix d
  assume "\<forall>j. lw_threads w' j \<noteq> None \<longrightarrow> incident_directory j \<noteq> d"
  with frame thread have "\<forall>j. lw_threads w j \<noteq> None \<longrightarrow> incident_directory j \<noteq> d" "d \<noteq> incident_directory i"
    by (auto simp: life_frame_def)
  with ok frame show "dr_attempts (lw_dirs w' d) = []" by (simp add: attempts_ok_def life_frame_def)
next
  fix j th' t
  assume j: "lw_threads w' j = Some th'" "th_state th' = Dump t" "own_directory w' j"
  have same: "lw_threads w' = lw_threads w" using frame by (simp add: life_frame_def)
  then have old: "int (length (dr_attempts (lw_dirs w (incident_directory j)))) \<le> ib_max_steps (iv_budget t)"
    using ok j by (simp add: attempts_ok_def own_directory_def)
  show "int (length (dr_attempts (lw_dirs w' (incident_directory j)))) \<le> ib_max_steps (iv_budget t)"
  proof (cases "incident_directory j = incident_directory i")
    case True
    with j(3) same thread have "j = i" by (metis own_directory_def option.distinct(1))
    with j same thread old frame show ?thesis by (auto simp: life_frame_def)
  next
    case False
    with old frame show ?thesis by (simp add: life_frame_def)
  qed
qed

lemma life_ok_frame:
  assumes "life_ok w" "lw_threads w i = Some th" "th_state th = Dump s"
    "life_frame (home s) (ib_max_steps (iv_budget s)) w w'"
  shows "life_ok w'"
proof -
  have "in_id (iv_incident s) = i" using life_okD [OF assms(1,2)] assms(3) by (auto simp: thread_ok_def)
  with assms calls_ok_frame attempts_ok_frame [of w i s w' th] show ?thesis
    by (auto simp: life_ok_def) (auto simp: life_frame_def)
qed

lemma checkpoint_simps [simp]:
  "lw_dirs (checkpoint i v n w) = lw_dirs w" "lw_calls (checkpoint i v n w) = lw_calls w"
  "lw_threads (checkpoint i v n w) = (lw_threads w)(i \<mapsto> \<lparr>th_state = v, th_next = n\<rparr>)"
  by (simp_all add: checkpoint_def)

lemma life_ok_commit:
  assumes ok: "life_ok w" and old: "lw_threads w i = Some th" "th_state th = Dump s"
    and new: "thread_ok i \<lparr>th_state = Dump s', th_next = n\<rparr>" "same_case s s'"
  shows "life_ok (checkpoint i (Dump s') n w)"
proof -
  have own: "own_directory (checkpoint i (Dump s') n w) j = own_directory w j" for j
    using old by (auto simp: own_directory_def)
  have "attempts_ok (checkpoint i (Dump s') n w)"
    using ok old new(2) unfolding life_ok_def attempts_ok_def own
    by (auto simp: same_case_def)
  with ok new(1) show ?thesis by (simp add: life_ok_def calls_ok_def)
qed

lemma life_ok_accept:
  assumes ok: "life_ok w" and "lw_threads w i = None" and new: "thread_ok i \<lparr>th_state = v, th_next = n\<rparr>"
  shows "life_ok (checkpoint i v n w)"
proof -
  let ?w = "checkpoint i v n w"
  have own: "own_directory ?w j \<Longrightarrow> own_directory w j" for j by (auto simp: own_directory_def)
  have first: "int (length (dr_attempts (lw_dirs w (incident_directory i)))) \<le> ib_max_steps (iv_budget s)"
    if "own_directory ?w i" "v = Dump s" for s
  proof -
    have "\<forall>j. lw_threads w j \<noteq> None \<longrightarrow> incident_directory j \<noteq> incident_directory i"
    proof (intro allI impI notI)
      fix j
      assume "lw_threads w j \<noteq> None" "incident_directory j = incident_directory i"
      moreover from this have "j = i" using that(1) by (auto simp: own_directory_def split: if_splits)
      ultimately show False using assms(2) by simp
    qed
    then have "dr_attempts (lw_dirs w (incident_directory i)) = []"
      using ok by (simp add: life_ok_def attempts_ok_def)
    moreover have "valid_life_budget (iv_budget s)"
      using new that(2) validate_state_bounds by (auto simp: thread_ok_def)
    ultimately show ?thesis by (simp add: valid_life_budget_def between_def)
  qed
  have "attempts_ok ?w"
    using ok first own unfolding life_ok_def attempts_ok_def by (auto split: if_splits)
  with ok new show ?thesis by (simp add: life_ok_def calls_ok_def)
qed


definition input_ok :: "string \<Rightarrow> investigation row_text option \<Rightarrow> bool" where
  "input_ok i input \<longleftrightarrow> (\<forall>v. input = Some v \<longrightarrow> thread_ok i \<lparr>th_state = v, th_next = Some Triage\<rparr>)"

lemma life_ok_step:
  assumes "graph_step env i input w w'" "life_ok w" "input_ok i input"
  shows "life_ok w'"
  using assms
proof (cases rule: graph_step.cases)
  case (accept v)
  with assms show ?thesis by (auto simp: input_ok_def intro!: life_ok_accept)
next
  case (commit th node v w1 "next")
  obtain s where s: "th_state th = Dump s" "in_id (iv_incident s) = i" "node_ready node s"
    using life_okD [OF assms(2) commit(2)] commit(3) by (auto simp: thread_ok_def)
  have "life_frame (home s) (ib_max_steps (iv_budget s)) w w1"
    using keepsD [OF frame_run_node [OF s(3)]] commit(4) s(1) by simp
  then have ok1: "life_ok w1" and "lw_threads w1 = lw_threads w"
    using life_ok_frame [OF assms(2) commit(2) s(1)] by (auto simp: life_frame_def)
  moreover obtain s' where s': "v = Dump s'" "validate_state s' = Inr s'" "same_case s s'"
      "\<forall>n. next = Some n \<longrightarrow> node_ready n s'"
    using run_node_ready [OF s(3) commit(4) [unfolded s(1)] commit(5)] by blast
  moreover have "thread_ok i \<lparr>th_state = Dump s', th_next = next\<rparr>"
    using s' s(2) by (auto simp: thread_ok_def same_case_def)
  ultimately show ?thesis using life_ok_commit [OF ok1 _ s(1)] commit(1,2) by auto
next
  case (lost th node r)
  obtain s where s: "th_state th = Dump s" "node_ready node s"
    using life_okD [OF assms(2) lost(1)] lost(2) by (auto simp: thread_ok_def)
  have "life_frame (home s) (ib_max_steps (iv_budget s)) w w'"
    using keepsD [OF frame_run_node [OF s(2)]] lost(3) s(1) by simp
  then show ?thesis using life_ok_frame [OF assms(2) lost(1) s(1)] by blast
qed

lemma life_ok_steps:
  assumes "(graph_step env i input)\<^sup>*\<^sup>* w w'" "life_ok w" "input_ok i input"
  shows "life_ok w'"
  using assms by (induction rule: rtranclp_induct) (auto intro: life_ok_step)

lemma life_ok_tick [simp]: "life_ok (w\<lparr>lw_tick := n\<rparr>) = life_ok w"
  by (simp add: life_ok_def calls_ok_def attempts_ok_def own_directory_def)

lemma engine_result_ok:
  assumes "follows_graph env engine" "life_ok w" "input_ok i input"
  shows "life_ok (snd (engine_result engine i input w))"
proof -
  obtain r w' where e: "engine i input w = (r, w')" by force
  then have "(graph_step env i input)\<^sup>*\<^sup>* w w'"
    using assms(1) unfolding follows_graph_def by (metis snd_conv)
  then have "life_ok w'" using assms life_ok_steps by blast
  with e show ?thesis by (simp add: engine_result_def bindP_def split: sum.split)
qed

lemma worker_invoke_ok:
  assumes "follows_graph (wk_env k) engine" "life_ok w" "\<And>s. initial = Some s \<Longrightarrow> input_ok i (Some (Dump s))"
  shows "life_ok (snd (worker_invoke k engine i initial w))"
  using assms engine_result_ok [OF assms(1), of "w\<lparr>lw_tick := n\<rparr>" i for n] 
  by (auto simp: worker_invoke_def bindP_def lw_ask_def look_def pack_def input_ok_def check_def
      split: option.split sum.split)

lemma initial_ok:
  assumes "validate_state (initial_state k incident b now) = Inr s"
  shows "input_ok (in_id incident) (Some (Dump s))"
proof -
  have s: "s = initial_state k incident b now" "validate_state s = Inr s"
    using assms validate_state_same by auto
  then have "valid_life_budget b" using validate_state_bounds [OF s(2)] by (simp add: initial_state_def)
  with s show ?thesis
    by (auto simp: input_ok_def thread_ok_def node_ready_def within_reads_def initial_state_def
        valid_life_budget_def between_def)
qed


text \<open>Everything that can happen: any worker starts any incident or resumes any thread, over any engine
  that follows the declared graph.\<close>

inductive service_step :: "life_world \<Rightarrow> life_world \<Rightarrow> bool" where
  start: "follows_graph (wk_env k) engine \<Longrightarrow> worker_start k engine incident budget w = (r, w') \<Longrightarrow>
            service_step w w'"
| resume: "follows_graph (wk_env k) engine \<Longrightarrow> worker_resume k engine i w = (r, w') \<Longrightarrow> service_step w w'"

lemma worker_start_ok:
  assumes "follows_graph (wk_env k) engine" "life_ok w"
  shows "life_ok (snd (worker_start k engine incident budget w))"
proof -
  have step: "life_ok (snd (bindP (liftR (validate_state (initial_state k incident b now)))
      (\<lambda>initial. worker_invoke k engine (in_id incident) (Some initial)) (w\<lparr>lw_tick := n\<rparr>)))" for b now n
  proof (cases "validate_state (initial_state k incident b now)")
    case (Inr s)
    then show ?thesis
      using assms worker_invoke_ok [OF assms(1), of "w\<lparr>lw_tick := n\<rparr>" "Some s"] initial_ok [OF Inr]
      by (simp add: bindP_def)
  qed (use assms in \<open>simp add: bindP_def\<close>)
  show ?thesis
    by (cases budget) (simp_all add: worker_start_def bindP_def [of "lw_ask _"] bindP_def [of "returnP _"]
        bindP_def [of "bindP _ _"] lw_ask_def step)
qed

lemma life_ok_service:
  assumes "service_step\<^sup>*\<^sup>* w w'" "life_ok w"
  shows "life_ok w'"
  using assms
proof (induction rule: rtranclp_induct)
  case (step w1 w2)
  from step(2,4,3) show ?case
  proof (cases rule: service_step.cases)
    case (start k engine incident budget r)
    with worker_start_ok [of k engine w1 incident budget] step show ?thesis by simp
  next
    case (resume k engine i r)
    with worker_invoke_ok [of k engine w1 None i] step show ?thesis by (simp add: worker_resume_def)
  qed
qed simp

section \<open>An undisturbed run\<close>

text \<open>No file operation fails, the lock is free, the deadline is ahead and the performance counter does not
  run backwards.\<close>

definition calm :: "life_env \<Rightarrow> instant \<Rightarrow> bool" where
  "calm env deadline \<longleftrightarrow>
     (\<forall>n. le_fault env n = None \<and> le_lock env n \<and> le_now env n < deadline) \<and> mono (le_perf env)"

lemma validate_state_iff:
  "validate_state s = Inr s \<longleftrightarrow>
     validate_incident (iv_incident s) = Inr (iv_incident s)
     \<and> valid_life_budget (iv_budget s) \<and> iv_mode s \<in> {Local_kind, Fixture_replay}
     \<and> is_identifier (iv_ranking_profile s) \<and> pred_option is_identifier (iv_stop_reason s)
     \<and> length (iv_receipts s) \<le> 20 \<and> between 0 16 (iv_steps_used s) \<and> between 0 40 (iv_tool_calls s)
     \<and> between 0 64 (iv_backend_reads s) \<and> list_all valid_evidence_item (iv_evidence s)
     \<and> list_all valid_hypothesis (iv_hypotheses s) \<and> list_all valid_step (iv_steps s)
     \<and> pred_option (\<lambda>r. validate_report r = Inr r) (iv_report s)"
  using validate_incident_iff [of "iv_incident s"] validate_report_iff
  by (auto simp: validate_state_def split: option.split)

lemma file_op_calm: "calm env t \<Longrightarrow> file_op env w = (Inr (), w\<lparr>lw_tick := Suc (lw_tick w)\<rparr>)"
  by (simp add: calm_def file_op_def lw_call_def)

abbreviation add_attempt :: "string \<Rightarrow> string \<Rightarrow> life_world \<Rightarrow> life_world" where
  "add_attempt d name w \<equiv>
     w\<lparr>lw_dirs := (lw_dirs w)(d := (lw_dirs w d)\<lparr>dr_attempts := dr_attempts (lw_dirs w d) @ [name]\<rparr>)\<rparr>"

lemma reserve_attempt_calm:
  assumes calm: "calm env (ib_deadline (iv_budget s))" and valid: "validate_state s = Inr s"
    and used: "iv_steps_used s = int (length (dr_attempts (lw_dirs w (home s))))"
      "iv_steps_used s < ib_max_steps (iv_budget s)"
    and fresh: "attempt_name (iv_steps_used s + 1) \<notin> set (dr_attempts (lw_dirs w (home s)))"
  shows "reserve_attempt env s name w =
           (Inr (s\<lparr>iv_steps_used := iv_steps_used s + 1\<rparr>),
            add_attempt (home s) (attempt_name (iv_steps_used s + 1)) w\<lparr>lw_tick := lw_tick w + 5\<rparr>)"
proof -
  have "updated (s\<lparr>iv_steps_used := iv_steps_used s + 1\<rparr>) = Inr (s\<lparr>iv_steps_used := iv_steps_used s + 1\<rparr>)"
    using valid used(2) unfolding updated_def validate_state_iff
    by (auto simp: between_def valid_life_budget_def)
  moreover have "\<not> ib_deadline (iv_budget s) \<le> le_now env n" for n using calm by (simp add: calm_def not_le)
  ultimately show ?thesis
    using used fresh
    by (simp add: reserve_attempt_def create_attempt_def bindP_def file_op_calm [OF calm] look_def lw_ask_def
        on_dir_def Let_def)
qed

lemma node_step_calm:
  assumes calm: "calm env (ib_deadline (iv_budget s))" and valid: "validate_state s = Inr s"
    and used: "iv_steps_used s = int (length (dr_attempts (lw_dirs w (home s))))"
      "iv_steps_used s < ib_max_steps (iv_budget s)"
    and fresh: "attempt_name (iv_steps_used s + 1) \<notin> set (dr_attempts (lw_dirs w (home s)))"
    and open_case: "iv_terminal s = None"
    and op: "op (s\<lparr>iv_steps_used := iv_steps_used s + 1\<rparr>)
               (add_attempt (home s) (attempt_name (iv_steps_used s + 1)) w\<lparr>lw_tick := lw_tick w + 6\<rparr>)
             = (Inr s2, w2)"
    and valid2: "validate_state s2 = Inr s2" and later: "lw_tick w \<le> lw_tick w2"
  shows "\<exists>r. node_step env name op (Dump s) w
               = (Inr (Dump (s2\<lparr>iv_steps := iv_steps s @ [r]\<rparr>)), w2\<lparr>lw_tick := lw_tick w2 + 2\<rparr>)
             \<and> valid_step r \<and> validate_state (s2\<lparr>iv_steps := iv_steps s @ [r]\<rparr>) = Inr (s2\<lparr>iv_steps := iv_steps s @ [r]\<rparr>)"
proof -
  let ?r = "\<lparr>sp_node = name, sp_observed = le_now env (lw_tick w2),
             sp_duration = le_perf env (Suc (lw_tick w2)) - le_perf env (lw_tick w)\<rparr>"
  have step: "valid_step ?r"
    using calm later by (auto simp: calm_def valid_step_def mono_def)
  have next_state: "validate_state (s2\<lparr>iv_steps := iv_steps s @ [?r]\<rparr>) = Inr (s2\<lparr>iv_steps := iv_steps s @ [?r]\<rparr>)"
    using valid valid2 step unfolding validate_state_iff by simp
  have "reserve_attempt env s name (w\<lparr>lw_tick := Suc (lw_tick w)\<rparr>) =
       (Inr (s\<lparr>iv_steps_used := iv_steps_used s + 1\<rparr>),
        add_attempt (home s) (attempt_name (iv_steps_used s + 1)) w\<lparr>lw_tick := lw_tick w + 6\<rparr>)"
    using reserve_attempt_calm [of env s "w\<lparr>lw_tick := Suc (lw_tick w)\<rparr>" name] assms by simp
  with op open_case valid step next_state
  have "node_step env name op (Dump s) w
          = (Inr (Dump (s2\<lparr>iv_steps := iv_steps s @ [?r]\<rparr>)), w2\<lparr>lw_tick := lw_tick w2 + 2\<rparr>)"
    by (simp add: node_step_def bindP_def unpack_def lw_ask_def Let_def updated_def pack_def)
  with step next_state show ?thesis by blast
qed

text \<open>What the collector of an undisturbed run returns: evidence of this incident with distinct identifiers,
  every item verified and of object payload, by a store that stays as it is.\<close>

definition good_collection :: "life_env \<Rightarrow> incident \<Rightarrow> evidence_store \<Rightarrow> collection \<Rightarrow> bool" where
  "good_collection env incident st c \<longleftrightarrow>
     (let d = incident_directory (in_id incident) in
      (\<forall>n. le_store env n d = st \<and> le_collect env n incident d = Inr c)
      \<and> co_incident c = in_id incident \<and> validate_collection c = Inr c \<and> distinct (map ev_id (co_evidence c))
      \<and> (\<forall>item \<in> set (co_evidence c). ev_incident item = in_id incident \<and> verify_evidence st item = Inr ()
           \<and> (\<exists>env payload. store_verify st item = Inr env \<and> get_field env ''payload'' = Some (JObj payload))))"

lemma verify_item_good:
  assumes "\<forall>n. le_store env n d = st" "verify_evidence st item = Inr ()"
  shows "verify_collected_item env d item w = (Inr (), w\<lparr>lw_tick := Suc (lw_tick w)\<rparr>)"
  using assms by (simp add: verify_collected_item_def tryP_def lw_call_def)

lemma verify_good:
  assumes "\<forall>n. le_store env n d = st" "\<forall>item \<in> set items. ev_incident item = i \<and> verify_evidence st item = Inr ()"
  shows "verify_collected env d i items w = (Inr (), w\<lparr>lw_tick := lw_tick w + length items\<rparr>)"
    and "verify_again env d items w = (Inr (), w\<lparr>lw_tick := lw_tick w + length items\<rparr>)"
  using assms by (induction items arbitrary: w) (simp_all add: bindP_def verify_item_good)

lemma verified_signals_total:
  assumes "\<forall>item \<in> set items. \<exists>env payload. store_verify st item = Inr env
             \<and> get_field env ''payload'' = Some (JObj payload)"
  shows "\<exists>signals. verified_signals st latest items = Inr signals"
  using assms
proof (induction items)
  case (Cons item items)
  then obtain signals env payload where "verified_signals st latest items = Inr signals"
      "store_verify st item = Inr env" "get_field env ''payload'' = Some (JObj payload)" by auto
  then show ?case unfolding verified_signals_Cons by blast
qed simp

lemma good_ranks:
  assumes "good_collection env incident st c"
  shows "\<exists>hs. rank_evidence fromiso (co_evidence c) st = Inr hs"
proof -
  have good: "distinct (map ev_id (co_evidence c))"
      "\<forall>item \<in> set (co_evidence c). ev_incident item = in_id incident \<and> is_identifier (ev_id item)"
    using assms by (auto simp: good_collection_def Let_def validate_collection_def valid_evidence_item_def list_all_iff)
  then have "set (map ev_incident (co_evidence c)) \<subseteq> {in_id incident}" by auto
  then have one: "card (set (map ev_incident (co_evidence c))) \<le> 1"
    by (metis card_mono finite.emptyI finite.insertI is_singletonI is_singleton_altdef)
  from assms have "\<exists>signals. verified_signals st (latest_collected (co_evidence c)) (co_evidence c) = Inr signals"
    by (intro verified_signals_total) (auto simp: good_collection_def Let_def)
  with one good(1) obtain signals where "baseline_verified st (co_evidence c) = Inr signals"
    by (auto simp: baseline_verified_Inr)
  then show ?thesis by (rule rank_evidence_total) (use good(2) in blast)
qed

lemma collect_op_good:
  assumes calm: "calm env t" and good: "good_collection env (iv_incident s) st c" and valid: "validate_state s = Inr s"
    and reads: "20 \<le> iv_tool_calls s" "required_reads s \<le> iv_backend_reads s"
    and fresh: "lw_dirs w (home s) = \<lparr>dr_attempts = names, dr_dispatched = False, dr_retained = None\<rparr>"
  shows "\<exists>n. collect_op env s w =
     (Inr (s\<lparr>iv_phase := EVIDENCE_COLLECTED, iv_evidence := co_evidence c, iv_failures := co_failures c\<rparr>),
      w\<lparr>lw_tick := lw_tick w + n, lw_calls := lw_calls w @ [(home s, s)],
        lw_dirs := (lw_dirs w)(home s := \<lparr>dr_attempts = names, dr_dispatched = True, dr_retained = Some (Dump c)\<rparr>)\<rparr>)"
proof -
  let ?s = "s\<lparr>iv_phase := EVIDENCE_COLLECTED, iv_evidence := co_evidence c, iv_failures := co_failures c\<rparr>"
  have g: "\<forall>n. le_store env n (home s) = st" "\<forall>n. le_collect env n (iv_incident s) (home s) = Inr c"
      "co_incident c = in_id (iv_incident s)" "validate_collection c = Inr c"
      "\<forall>item \<in> set (co_evidence c). ev_incident item = in_id (iv_incident s) \<and> verify_evidence st item = Inr ()"
    using good by (auto simp: good_collection_def Let_def)
  have "updated ?s = Inr ?s"
    using valid g(4) unfolding updated_def validate_state_iff by (auto simp: validate_collection_def)
  then have "collected env s c w' = (Inr ?s, w'\<lparr>lw_tick := lw_tick w' + length (co_evidence c)\<rparr>)" for w'
    using g(3) verify_good(1) [OF g(1,5)] by (simp add: collected_def bindP_def)
  then have "collect_op env s w =
     (Inr ?s, w\<lparr>lw_tick := lw_tick w + (6 + length (co_evidence c)), lw_calls := lw_calls w @ [(home s, s)],
        lw_dirs := (lw_dirs w)(home s := \<lparr>dr_attempts = names, dr_dispatched = True, dr_retained = Some (Dump c)\<rparr>)\<rparr>)"
    using reads fresh g
    by (simp add: collect_op_def tryP_def guarded_collect_def dispatch_collection_def first_collection_def
        retain_collection_def call_collector_def bindP_def file_op_calm [OF calm] look_def on_dir_def lw_call_def)
  then show ?thesis by blast
qed

lemma rank_op_good:
  assumes "good_collection env (iv_incident s) st c" "iv_evidence s = co_evidence c" "le_reasoner env = None"
    and valid: "validate_state s = Inr s"
  shows "\<exists>n hs. rank_evidence (le_fromiso env) (co_evidence c) st = Inr hs
     \<and> rank_op env s w = (Inr (s\<lparr>iv_phase := RANKED, iv_hypotheses := hs,
          iv_terminal := Some (if hs \<noteq> [] then ESCALATED else EVIDENCE_INSUFFICIENT)\<rparr>), w\<lparr>lw_tick := lw_tick w + n\<rparr>)"
proof -
  obtain hs where hs: "rank_evidence (le_fromiso env) (co_evidence c) st = Inr hs" using good_ranks [OF assms(1)] by blast
  have "list_all valid_hypothesis hs" using rank_evidence_supports(1) [OF hs] by (auto simp: list_all_iff)
  then have r: "ranked s hs = Inr (s\<lparr>iv_phase := RANKED, iv_hypotheses := hs,
          iv_terminal := Some (if hs \<noteq> [] then ESCALATED else EVIDENCE_INSUFFICIENT)\<rparr>)"
    using valid unfolding ranked_def updated_def validate_state_iff by simp
  have g: "\<forall>n. le_store env n (home s) = st"
    "\<forall>item \<in> set (co_evidence c). ev_incident item = in_id (iv_incident s) \<and> verify_evidence st item = Inr ()"
    using assms(1) by (auto simp: good_collection_def Let_def)
  have "rank_op env s w = (Inr (s\<lparr>iv_phase := RANKED, iv_hypotheses := hs,
          iv_terminal := Some (if hs \<noteq> [] then ESCALATED else EVIDENCE_INSUFFICIENT)\<rparr>),
          w\<lparr>lw_tick := lw_tick w + (length (co_evidence c) + 1)\<rparr>)"
    using assms(2,3) hs r g(1) verify_good(2) [OF g] by (simp add: rank_op_def tryP_def bindP_def lw_ask_def)
  with hs show ?thesis by blast
qed

text \<open>A state between two nodes of an undisturbed run, and the files that go with it.\<close>

definition at_stage ::
  "life_env \<Rightarrow> investigation \<Rightarrow> int \<Rightarrow> phase \<Rightarrow> bool \<Rightarrow> collection row_text option \<Rightarrow> life_world \<Rightarrow> bool" where
  "at_stage env s n ph sent kept w \<longleftrightarrow>
     validate_state s = Inr s \<and> iv_terminal s = None \<and> iv_report s = None \<and> iv_stop_reason s = None
     \<and> iv_receipts s = [] \<and> iv_hypotheses s = [] \<and> iv_phase s = ph \<and> iv_steps_used s = n
     \<and> in_read_scope s \<and> calm env (ib_deadline (iv_budget s)) \<and> 4 \<le> ib_max_steps (iv_budget s)
     \<and> lw_dirs w (home s) = \<lparr>dr_attempts = map attempt_name [1..n], dr_dispatched = sent, dr_retained = kept\<rparr>"

lemma attempt_names: "attempt_name 1 = ''attempt-01.json''" "attempt_name 2 = ''attempt-02.json''"
    "attempt_name 3 = ''attempt-03.json''" "attempt_name 4 = ''attempt-04.json''"
  by code_simp+

lemma attempt_fresh:
  assumes "0 \<le> n" "n \<le> 3"
  shows "attempt_name (n + 1) \<notin> set (map attempt_name [1..n])" "map attempt_name [1..n + 1] = map attempt_name [1..n] @ [attempt_name (n + 1)]"
    "length [1..n] = nat n"
proof -
  have small: "[1..0] = []" "[1..1] = [1 :: int]" "[1..2] = [1, 2 :: int]" "[1..3] = [1, 2, 3 :: int]"
    by code_simp+
  have "n = 0 \<or> n = 1 \<or> n = 2 \<or> n = 3" using assms by auto
  then show "attempt_name (n + 1) \<notin> set (map attempt_name [1..n])"
    by (elim disjE) (simp_all only: small attempt_names, simp_all add: attempt_names)
  show "map attempt_name [1..n + 1] = map attempt_name [1..n] @ [attempt_name (n + 1)]"
    using assms by (simp add: upto_rec2)
qed simp

lemma stage_step:
  assumes at: "at_stage env s n ph sent kept w" and n: "0 \<le> n" "n \<le> 3"
    and op: "op (s\<lparr>iv_steps_used := n + 1\<rparr>)
               (add_attempt (home s) (attempt_name (n + 1)) w\<lparr>lw_tick := lw_tick w + 6\<rparr>) = (Inr s2, w2)"
    and next_state: "validate_state s2 = Inr s2" "lw_tick w \<le> lw_tick w2"
  obtains r where "node_step env name op (Dump s) w
               = (Inr (Dump (s2\<lparr>iv_steps := iv_steps s @ [r]\<rparr>)), w2\<lparr>lw_tick := lw_tick w2 + 2\<rparr>)"
    "valid_step r" "validate_state (s2\<lparr>iv_steps := iv_steps s @ [r]\<rparr>) = Inr (s2\<lparr>iv_steps := iv_steps s @ [r]\<rparr>)"
proof -
  have s: "calm env (ib_deadline (iv_budget s))" "validate_state s = Inr s" "iv_terminal s = None"
      "iv_steps_used s = n" "dr_attempts (lw_dirs w (home s)) = map attempt_name [1..n]" "n < ib_max_steps (iv_budget s)"
    using at n by (simp_all add: at_stage_def)
  have "\<exists>r. node_step env name op (Dump s) w
               = (Inr (Dump (s2\<lparr>iv_steps := iv_steps s @ [r]\<rparr>)), w2\<lparr>lw_tick := lw_tick w2 + 2\<rparr>)
             \<and> valid_step r \<and> validate_state (s2\<lparr>iv_steps := iv_steps s @ [r]\<rparr>) = Inr (s2\<lparr>iv_steps := iv_steps s @ [r]\<rparr>)"
  proof (rule node_step_calm [OF s(1,2) _ _ _ s(3) _ next_state])
    show "iv_steps_used s = int (length (dr_attempts (lw_dirs w (home s))))" using s n by simp
    show "iv_steps_used s < ib_max_steps (iv_budget s)" using s by simp
    show "attempt_name (iv_steps_used s + 1) \<notin> set (dr_attempts (lw_dirs w (home s)))"
      unfolding s(4,5) by (rule attempt_fresh(1) [OF n])
    show "op (s\<lparr>iv_steps_used := iv_steps_used s + 1\<rparr>)
       (add_attempt (home s) (attempt_name (iv_steps_used s + 1)) w\<lparr>lw_tick := lw_tick w + 6\<rparr>) = (Inr s2, w2)"
      unfolding s(4) by (rule op)
  qed
  then show ?thesis using that by blast
qed

lemma stage_next:
  assumes at: "at_stage env s n ph sent kept w" and n: "0 \<le> n" "n \<le> 3"
    and "validate_state s' = Inr s'" "iv_terminal s' = None" "iv_report s' = None" "iv_stop_reason s' = None"
      "iv_receipts s' = []" "iv_hypotheses s' = []" "iv_phase s' = ph'" "iv_steps_used s' = n + 1" "same_case s s'"
      "lw_dirs w' (home s) = \<lparr>dr_attempts = dr_attempts (lw_dirs w (home s)) @ [attempt_name (n + 1)],
                              dr_dispatched = sent', dr_retained = kept'\<rparr>"
  shows "at_stage env s' (n + 1) ph' sent' kept' w'"
  using assms attempt_fresh(2) [OF n] same_case_facts [of s s'] by (simp add: at_stage_def)

lemma stage_triage:
  assumes at: "at_stage env s 0 RECEIVED False None w"
  shows "\<exists>s' w'. run_node env Triage (Dump s) w = (Inr (Dump s'), w') \<and> same_case s s' \<and> same_reads s s'
     \<and> at_stage env s' 1 TRIAGED False None w' \<and> lw_calls w' = lw_calls w"
proof -
  let ?w = "add_attempt (home s) (attempt_name (0 + 1)) w\<lparr>lw_tick := lw_tick w + 6\<rparr>"
  let ?s = "s\<lparr>iv_steps_used := 0 + 1, iv_phase := TRIAGED, iv_terminal := None\<rparr>"
  have valid: "validate_state ?s = Inr ?s"
    using at unfolding at_stage_def validate_state_iff by (simp add: between_def)
  then have op: "liftR (triage_op (s\<lparr>iv_steps_used := 0 + 1\<rparr>)) ?w = (Inr ?s, ?w)"
    using at by (simp add: triage_op_def updated_def at_stage_def in_read_scope_def)
  obtain r where r: "node_step env ''triage'' (\<lambda>s. liftR (triage_op s)) (Dump s) w
      = (Inr (Dump (?s\<lparr>iv_steps := iv_steps s @ [r]\<rparr>)), ?w\<lparr>lw_tick := lw_tick ?w + 2\<rparr>)"
      "validate_state (?s\<lparr>iv_steps := iv_steps s @ [r]\<rparr>) = Inr (?s\<lparr>iv_steps := iv_steps s @ [r]\<rparr>)"
    by (rule stage_step [OF at, of "\<lambda>s. liftR (triage_op s)", OF _ _ op valid]) simp_all
  have "at_stage env (?s\<lparr>iv_steps := iv_steps s @ [r]\<rparr>) (0 + 1) TRIAGED False None (?w\<lparr>lw_tick := lw_tick ?w + 2\<rparr>)"
    by (rule stage_next [OF at]) (use at r(2) in \<open>simp_all add: at_stage_def same_case_def\<close>)
  then show ?thesis using r(1)
    by (intro exI [of _ "?s\<lparr>iv_steps := iv_steps s @ [r]\<rparr>"] exI [of _ "?w\<lparr>lw_tick := lw_tick ?w + 2\<rparr>"])
       (simp add: same_case_def same_reads_def)
qed


lemma stage_reserve:
  assumes at: "at_stage env s 1 TRIAGED False None w" and reads: "iv_tool_calls s = 0" "iv_backend_reads s = 0"
    "20 \<le> ib_max_tool_calls (iv_budget s)" "required_reads s \<le> ib_max_backend_reads (iv_budget s)"
  shows "\<exists>s' w'. run_node env Reserve (Dump s) w = (Inr (Dump s'), w') \<and> same_case s s'
     \<and> iv_tool_calls s' = 20 \<and> iv_backend_reads s' = required_reads s
     \<and> at_stage env s' 2 READS_RESERVED False None w' \<and> lw_calls w' = lw_calls w"
proof -
  let ?w = "add_attempt (home s) (attempt_name (1 + 1)) w\<lparr>lw_tick := lw_tick w + 6\<rparr>"
  let ?s = "s\<lparr>iv_steps_used := 1 + 1, iv_phase := READS_RESERVED, iv_tool_calls := 20, iv_backend_reads := required_reads s\<rparr>"
  have valid: "validate_state ?s = Inr ?s"
    using at reads(4) unfolding at_stage_def validate_state_iff
    by (auto simp: between_def required_reads_def)
  then have op: "liftR (reserve_op (s\<lparr>iv_steps_used := 1 + 1\<rparr>)) ?w = (Inr ?s, ?w)"
    using at reads by (simp add: reserve_op_def updated_def at_stage_def required_reads_def Let_def)
  obtain r where r: "node_step env ''reserve'' (\<lambda>s. liftR (reserve_op s)) (Dump s) w
      = (Inr (Dump (?s\<lparr>iv_steps := iv_steps s @ [r]\<rparr>)), ?w\<lparr>lw_tick := lw_tick ?w + 2\<rparr>)"
      "validate_state (?s\<lparr>iv_steps := iv_steps s @ [r]\<rparr>) = Inr (?s\<lparr>iv_steps := iv_steps s @ [r]\<rparr>)"
    by (rule stage_step [OF at, of "\<lambda>s. liftR (reserve_op s)", OF _ _ op valid]) simp_all
  have "at_stage env (?s\<lparr>iv_steps := iv_steps s @ [r]\<rparr>) (1 + 1) READS_RESERVED False None (?w\<lparr>lw_tick := lw_tick ?w + 2\<rparr>)"
    by (rule stage_next [OF at]) (use at r(2) in \<open>simp_all add: at_stage_def same_case_def\<close>)
  then show ?thesis using r(1)
    by (intro exI [of _ "?s\<lparr>iv_steps := iv_steps s @ [r]\<rparr>"] exI [of _ "?w\<lparr>lw_tick := lw_tick ?w + 2\<rparr>"])
       (simp add: same_case_def)
qed

lemma stage_collect:
  assumes at: "at_stage env s 2 READS_RESERVED False None w"
    and reads: "20 \<le> iv_tool_calls s" "required_reads s \<le> iv_backend_reads s"
    and good: "good_collection env (iv_incident s) st c"
  shows "\<exists>s' w' t. run_node env Collect (Dump s) w = (Inr (Dump s'), w') \<and> same_case s s' \<and> iv_evidence s' = co_evidence c
     \<and> at_stage env s' 3 EVIDENCE_COLLECTED True (Some (Dump c)) w'
     \<and> lw_calls w' = lw_calls w @ [(home s, t)] \<and> same_case s t"
proof -
  let ?w = "add_attempt (home s) (attempt_name (2 + 1)) w\<lparr>lw_tick := lw_tick w + 6\<rparr>"
  let ?u = "s\<lparr>iv_steps_used := 2 + 1\<rparr>"
  let ?s = "?u\<lparr>iv_phase := EVIDENCE_COLLECTED, iv_evidence := co_evidence c, iv_failures := co_failures c\<rparr>"
  have calm: "calm env (ib_deadline (iv_budget s))" using at by (simp add: at_stage_def)
  have u: "validate_state ?u = Inr ?u"
    using at unfolding at_stage_def validate_state_iff by (simp add: between_def)
  have c: "list_all valid_evidence_item (co_evidence c)"
    using good by (simp add: good_collection_def Let_def validate_collection_def)
  have valid: "validate_state ?s = Inr ?s"
    using u c unfolding validate_state_iff by simp
  let ?d = "\<lparr>dr_attempts = dr_attempts (lw_dirs w (home s)) @ [attempt_name (2 + 1)], dr_dispatched = True, dr_retained = Some (Dump c)\<rparr>"
  obtain n where op: "collect_op env ?u ?w =
     (Inr ?s, ?w\<lparr>lw_tick := lw_tick ?w + n, lw_calls := lw_calls ?w @ [(home s, ?u)], lw_dirs := (lw_dirs ?w)(home s := ?d)\<rparr>)"
    using collect_op_good [OF calm _ u, of st c ?w "dr_attempts (lw_dirs w (home s)) @ [attempt_name (2 + 1)]"]
      good reads at by (auto simp: at_stage_def required_reads_def)
  let ?w2 = "?w\<lparr>lw_tick := lw_tick ?w + n, lw_calls := lw_calls ?w @ [(home s, ?u)], lw_dirs := (lw_dirs ?w)(home s := ?d)\<rparr>"
  obtain r where r: "node_step env ''collect'' (collect_op env) (Dump s) w
      = (Inr (Dump (?s\<lparr>iv_steps := iv_steps s @ [r]\<rparr>)), ?w2\<lparr>lw_tick := lw_tick ?w2 + 2\<rparr>)"
      "validate_state (?s\<lparr>iv_steps := iv_steps s @ [r]\<rparr>) = Inr (?s\<lparr>iv_steps := iv_steps s @ [r]\<rparr>)"
    by (rule stage_step [OF at, of "collect_op env", OF _ _ op valid]) simp_all
  have "at_stage env (?s\<lparr>iv_steps := iv_steps s @ [r]\<rparr>) (2 + 1) EVIDENCE_COLLECTED True (Some (Dump c)) (?w2\<lparr>lw_tick := lw_tick ?w2 + 2\<rparr>)"
    by (rule stage_next [OF at]) (use at r(2) in \<open>simp_all add: at_stage_def same_case_def\<close>)
  then show ?thesis using r(1)
    by (intro exI [of _ "?s\<lparr>iv_steps := iv_steps s @ [r]\<rparr>"] exI [of _ "?w2\<lparr>lw_tick := lw_tick ?w2 + 2\<rparr>"] exI [of _ ?u])
       (simp add: same_case_def)
qed


lemma stage_rank:
  assumes at: "at_stage env s 3 EVIDENCE_COLLECTED True kept w" and "iv_evidence s = co_evidence c"
    and good: "good_collection env (iv_incident s) st c" and "le_reasoner env = None"
  shows "\<exists>s' w' hs. run_node env Rank (Dump s) w = (Inr (Dump s'), w') \<and> same_case s s'
     \<and> rank_evidence (le_fromiso env) (co_evidence c) st = Inr hs \<and> validate_state s' = Inr s'
     \<and> iv_evidence s' = co_evidence c \<and> iv_hypotheses s' = hs \<and> iv_stop_reason s' = None \<and> iv_receipts s' = []
     \<and> iv_terminal s' = Some (if hs \<noteq> [] then ESCALATED else EVIDENCE_INSUFFICIENT) \<and> lw_calls w' = lw_calls w"
proof -
  let ?w = "add_attempt (home s) (attempt_name (3 + 1)) w\<lparr>lw_tick := lw_tick w + 6\<rparr>"
  let ?u = "s\<lparr>iv_steps_used := 3 + 1\<rparr>"
  have u: "validate_state ?u = Inr ?u"
    using at unfolding at_stage_def validate_state_iff by (simp add: between_def)
  obtain n hs where hs: "rank_evidence (le_fromiso env) (co_evidence c) st = Inr hs"
    and op: "rank_op env ?u ?w = (Inr (?u\<lparr>iv_phase := RANKED, iv_hypotheses := hs,
          iv_terminal := Some (if hs \<noteq> [] then ESCALATED else EVIDENCE_INSUFFICIENT)\<rparr>), ?w\<lparr>lw_tick := lw_tick ?w + n\<rparr>)"
    using rank_op_good [of env ?u st c ?w] assms u by auto
  let ?s = "?u\<lparr>iv_phase := RANKED, iv_hypotheses := hs,
          iv_terminal := Some (if hs \<noteq> [] then ESCALATED else EVIDENCE_INSUFFICIENT)\<rparr>"
  let ?w2 = "?w\<lparr>lw_tick := lw_tick ?w + n\<rparr>"
  have valid: "validate_state ?s = Inr ?s"
    using u rank_evidence_supports(1) [OF hs] unfolding validate_state_iff by (simp add: list_all_iff)
  obtain r where r: "node_step env ''rank'' (rank_op env) (Dump s) w
      = (Inr (Dump (?s\<lparr>iv_steps := iv_steps s @ [r]\<rparr>)), ?w2\<lparr>lw_tick := lw_tick ?w2 + 2\<rparr>)"
      "validate_state (?s\<lparr>iv_steps := iv_steps s @ [r]\<rparr>) = Inr (?s\<lparr>iv_steps := iv_steps s @ [r]\<rparr>)"
    by (rule stage_step [OF at, of "rank_op env", OF _ _ op valid]) simp_all
  then show ?thesis using hs at assms(2)
    by (intro exI [of _ "?s\<lparr>iv_steps := iv_steps s @ [r]\<rparr>"] exI [of _ "?w2\<lparr>lw_tick := lw_tick ?w2 + 2\<rparr>"] exI [of _ hs])
       (simp add: same_case_def at_stage_def)
qed

lemma good_report:
  assumes valid: "validate_state s = Inr s" and good: "good_collection env (iv_incident s) st c"
    and hs: "rank_evidence fromiso (co_evidence c) st = Inr (iv_hypotheses s)"
    and "iv_evidence s = co_evidence c" "iv_stop_reason s = None" "iv_receipts s = []"
  shows "validate_report (report_of s trace_id) = Inr (report_of s trace_id)"
proof -
  have g: "distinct (map ev_id (co_evidence c))" "\<forall>item \<in> set (co_evidence c). ev_incident item = in_id (iv_incident s)"
    using good by (auto simp: good_collection_def Let_def)
  have "set (hy_supports h) \<subseteq> ev_id ` set (co_evidence c)" if "h \<in> set (iv_hypotheses s)" for h
    using rank_evidence_supports(5) [OF hs that] by (fastforce simp: sound_signal_def)
  then have "grounded (report_of s trace_id)"
    using g rank_evidence_causes [OF hs] rank_evidence_supports(4) [OF hs] assms(4)
    by (auto simp: grounded_def report_of_def)
  moreover have "0 \<le> sum_list (map sp_duration (iv_steps s))"
    using valid unfolding validate_state_iff
    by (intro sum_list_nonneg) (auto simp: list_all_iff valid_step_def)
  ultimately show ?thesis
    using valid assms(5,6) unfolding validate_state_iff validate_report_iff validate_incident_iff
    by (simp add: valid_report_fields_def report_of_def)
qed

lemma finish_good:
  assumes "validate_state s = Inr s" and "\<And>t. validate_report (report_of s t) = Inr (report_of s t)"
  shows "\<exists>t. node_finish env (Dump s) w = (Inr (Dump (s\<lparr>iv_phase := FINISHED, iv_report := Some (report_of s t)\<rparr>)),
            w\<lparr>lw_tick := Suc (lw_tick w)\<rparr>)"
proof -
  let ?t = "le_trace_id env (lw_tick w)"
  let ?s = "s\<lparr>iv_phase := FINISHED, iv_report := Some (report_of s ?t)\<rparr>"
  have "validate_state ?s = Inr ?s" using assms unfolding validate_state_iff by simp
  with assms show ?thesis
    by (intro exI [of _ ?t]) (simp add: node_finish_def bindP_def unpack_def lw_ask_def updated_def pack_def)
qed

lemma saved_commit:
  assumes "run_node env node v (checkpoint i v (Some node) w) = (Inr v', w')" "graph_next node v' = Inr next"
    and "(graph_commit env i ^^ n) (checkpoint i v' next w') z"
  shows "(graph_commit env i ^^ Suc n) (checkpoint i v (Some node) w) z"
proof (rule relpowp_Suc_I2 [OF _ assms(3)])
  show "graph_commit env i (checkpoint i v (Some node) w) (checkpoint i v' next w')"
    by (rule graph_commit.intros [of _ _ "\<lparr>th_state = v, th_next = Some node\<rparr>"])
      (use assms(1,2) in \<open>simp_all add: checkpoint_def\<close>)
qed

lemma route_stage:
  assumes "at_stage env s n ph sent kept w"
  shows "ph = TRIAGED \<Longrightarrow> route (Dump s) = Inr Reserve" "ph = READS_RESERVED \<Longrightarrow> route (Dump s) = Inr Collect"
    "ph = EVIDENCE_COLLECTED \<Longrightarrow> route (Dump s) = Inr Rank"
  using assms by (simp_all add: route_def unpack_def at_stage_def)

lemma at_stage_checkpoint [simp]:
  "at_stage env s n ph sent kept (checkpoint i v next w) = at_stage env s n ph sent kept w"
  by (simp add: at_stage_def)

text \<open>What an undisturbed run leaves: a finished state with a grounded report of the collected evidence.\<close>

definition completed :: "investigation \<Rightarrow> collection \<Rightarrow> investigation \<Rightarrow> bool" where
  "completed s c s' \<longleftrightarrow>
     same_case s s' \<and> validate_state s' = Inr s' \<and> iv_phase s' = FINISHED
     \<and> (\<exists>r. iv_report s' = Some r \<and> grounded r \<and> rp_incident r = in_id (iv_incident s) \<and> rp_evidence r = co_evidence c
           \<and> rp_terminal r = (if rp_causes r \<noteq> [] then ESCALATED else EVIDENCE_INSUFFICIENT))"

lemma calm_tail:
  assumes at: "at_stage env s 3 EVIDENCE_COLLECTED True kept w" and ev: "iv_evidence s = co_evidence c"
    and good: "good_collection env (iv_incident s) st c" and base: "le_reasoner env = None"
  shows "\<exists>s' w'. (graph_commit env i ^^ 2) (checkpoint i (Dump s) (Some Rank) w) w'
     \<and> completed s c s' \<and> lw_calls w' = lw_calls w \<and> lw_threads w' i = Some \<lparr>th_state = Dump s', th_next = None\<rparr>"
proof -
  let ?w = "checkpoint i (Dump s) (Some Rank) w"
  obtain s1 w1 hs where s1: "run_node env Rank (Dump s) ?w = (Inr (Dump s1), w1)" "same_case s s1"
      "rank_evidence (le_fromiso env) (co_evidence c) st = Inr hs" "validate_state s1 = Inr s1"
      "iv_evidence s1 = co_evidence c" "iv_hypotheses s1 = hs" "iv_stop_reason s1 = None" "iv_receipts s1 = []"
      "iv_terminal s1 = Some (if hs \<noteq> [] then ESCALATED else EVIDENCE_INSUFFICIENT)" "lw_calls w1 = lw_calls ?w"
    using stage_rank [of env s kept ?w c st] assms by auto
  let ?w1 = "checkpoint i (Dump s1) (Some Final) w1"
  have "good_collection env (iv_incident s1) st c" using good s1(2) by (simp add: same_case_def)
  then have rep: "validate_report (report_of s1 u) = Inr (report_of s1 u)" for u
    by (rule good_report [OF s1(4)]) (use s1 in simp_all)
  obtain u where fin: "run_node env Final (Dump s1) ?w1
      = (Inr (Dump (s1\<lparr>iv_phase := FINISHED, iv_report := Some (report_of s1 u)\<rparr>)), ?w1\<lparr>lw_tick := Suc (lw_tick ?w1)\<rparr>)"
    using finish_good [OF s1(4) rep] by auto
  let ?s = "s1\<lparr>iv_phase := FINISHED, iv_report := Some (report_of s1 u)\<rparr>"
  let ?w2 = "checkpoint i (Dump ?s) None (?w1\<lparr>lw_tick := Suc (lw_tick ?w1)\<rparr>)"
  have "(graph_commit env i ^^ Suc 0) ?w1 ?w2"
    by (rule saved_commit [OF fin]) simp_all
  then have run: "(graph_commit env i ^^ 2) ?w ?w2"
    unfolding numeral_2_eq_2 by (rule saved_commit [OF s1(1), rotated]) simp
  have "validate_state ?s = Inr ?s" using s1(4) rep [of u] unfolding validate_state_iff by simp
  then have "completed s c ?s"
    using s1(2,5,6,9) rep [of u] by (auto simp: completed_def same_case_def validate_report_iff report_of_def)
  moreover have "lw_calls ?w2 = lw_calls w" "lw_threads ?w2 i = Some \<lparr>th_state = Dump ?s, th_next = None\<rparr>"
    using s1(10) by (simp_all add: checkpoint_def)
  ultimately show ?thesis using run by blast
qed

lemma calm_run:
  assumes at: "at_stage env s 0 RECEIVED False None w"
    and reads: "iv_tool_calls s = 0" "iv_backend_reads s = 0"
      "20 \<le> ib_max_tool_calls (iv_budget s)" "required_reads s \<le> ib_max_backend_reads (iv_budget s)"
    and good: "good_collection env (iv_incident s) st c" and base: "le_reasoner env = None"
  shows "\<exists>s' w' t. (graph_commit env i ^^ 5) (checkpoint i (Dump s) (Some Triage) w) w'
     \<and> completed s c s' \<and> lw_calls w' = lw_calls w @ [(home s, t)] \<and> same_case s t
     \<and> lw_threads w' i = Some \<lparr>th_state = Dump s', th_next = None\<rparr>"
proof -
  let ?w0 = "checkpoint i (Dump s) (Some Triage) w"
  obtain s1 w1 where s1: "run_node env Triage (Dump s) ?w0 = (Inr (Dump s1), w1)" "same_case s s1" "same_reads s s1"
      "at_stage env s1 1 TRIAGED False None w1" "lw_calls w1 = lw_calls ?w0"
    using stage_triage [of env s ?w0] at by auto
  let ?w1 = "checkpoint i (Dump s1) (Some Reserve) w1"
  obtain s2 w2 where s2: "run_node env Reserve (Dump s1) ?w1 = (Inr (Dump s2), w2)" "same_case s1 s2"
      "iv_tool_calls s2 = 20" "iv_backend_reads s2 = required_reads s1"
      "at_stage env s2 2 READS_RESERVED False None w2" "lw_calls w2 = lw_calls ?w1"
    using stage_reserve [of env s1 ?w1] s1 reads by (auto simp: same_reads_def same_case_def required_reads_def)
  let ?w2 = "checkpoint i (Dump s2) (Some Collect) w2"
  have g2: "good_collection env (iv_incident s2) st c" using good s1(2) s2(2) by (simp add: same_case_def)
  obtain s3 w3 t where s3: "run_node env Collect (Dump s2) ?w2 = (Inr (Dump s3), w3)" "same_case s2 s3"
      "iv_evidence s3 = co_evidence c" "at_stage env s3 3 EVIDENCE_COLLECTED True (Some (Dump c)) w3"
      "lw_calls w3 = lw_calls ?w2 @ [(home s2, t)]" "same_case s2 t"
    using stage_collect [of env s2 ?w2 st c] s2 g2 same_case_facts(4) [OF s2(2)] by auto
  let ?w3 = "checkpoint i (Dump s3) (Some Rank) w3"
  have g3: "good_collection env (iv_incident s3) st c" using g2 s3(2) by (simp add: same_case_def)
  obtain s' w' where s': "(graph_commit env i ^^ 2) ?w3 w'"
      "completed s3 c s'" "lw_calls w' = lw_calls w3" "lw_threads w' i = Some \<lparr>th_state = Dump s', th_next = None\<rparr>"
    using calm_tail [OF s3(4,3) g3 base, of i] by auto
  have "graph_next Triage (Dump s1) = Inr (Some Reserve)" "graph_next Reserve (Dump s2) = Inr (Some Collect)"
      "graph_next Collect (Dump s3) = Inr (Some Rank)"
    using route_stage(1) [OF s1(4)] route_stage(2) [OF s2(5)] route_stage(3) [OF s3(4)] by simp_all
  then have "(graph_commit env i ^^ Suc (Suc (Suc 2))) ?w0 w'"
    by (rule saved_commit [OF s1(1) _ saved_commit [OF s2(1) _ saved_commit [OF s3(1) _ s'(1)]]])
  moreover have "Suc (Suc (Suc 2)) = (5 :: nat)" by simp
  ultimately have run: "(graph_commit env i ^^ 5) ?w0 w'" by (simp only:)
  have same: "same_case s s3" "same_case s t" "home s2 = home s"
    using s1(2) s2(2) s3(2,6) same_case_trans same_case_facts(1) by metis+
  then have "completed s c s'" using s'(2) by (auto simp: completed_def same_case_def)
  with run same s1(5) s2(6) s3(5) s'(3,4) show ?thesis by auto
qed


lemma initial_valid:
  assumes "validate_incident incident = Inr incident" "valid_life_budget b" "wk_mode k \<in> {Local_kind, Fixture_replay}"
    "is_identifier (wk_ranking_profile k)"
  shows "validate_state (initial_state k incident b now) = Inr (initial_state k incident b now)"
  using assms unfolding validate_state_iff by (simp add: initial_state_def between_def)

lemma calm_start:
  assumes valid: "validate_incident incident = Inr incident" "valid_life_budget b"
      "wk_mode k \<in> {Local_kind, Fixture_replay}" "is_identifier (wk_ranking_profile k)"
    and scope: "ic_namespace (in_request incident) = ''payops-sandbox''" "ic_service (in_request incident) \<in> set READ_SERVICES"
    and budget: "4 \<le> ib_max_steps b" "20 \<le> ib_max_tool_calls b" "34 \<le> ib_max_backend_reads b"
    and calm: "calm (wk_env k) (ib_deadline b)" and base: "le_reasoner (wk_env k) = None"
    and law: "runs_undisturbed (wk_env k) engine"
    and good: "good_collection (wk_env k) incident st c"
    and fresh: "lw_threads w (in_id incident) = None"
      "lw_dirs w (incident_directory (in_id incident)) = \<lparr>dr_attempts = [], dr_dispatched = False, dr_retained = None\<rparr>"
  shows "\<exists>s w' t. worker_start k engine incident (Some b) w = (Inr s, w')
     \<and> completed (initial_state k incident b (le_now (wk_env k) (lw_tick w))) c s
     \<and> lw_threads w' (in_id incident) = Some \<lparr>th_state = Dump s, th_next = None\<rparr>
     \<and> lw_calls w' = lw_calls w @ [(incident_directory (in_id incident), t)] \<and> iv_incident t = incident"
proof -
  let ?i = "in_id incident" and ?s = "initial_state k incident b (le_now (wk_env k) (lw_tick w))"
  let ?w = "w\<lparr>lw_tick := Suc (Suc (lw_tick w))\<rparr>"
  have s: "validate_state ?s = Inr ?s" by (rule initial_valid [OF valid])
  have at: "at_stage (wk_env k) ?s 0 RECEIVED False None ?w"
    using s scope budget(1) calm fresh(2) by (simp add: at_stage_def initial_state_def in_read_scope_def)
  have "\<exists>s' w' t. (graph_commit (wk_env k) ?i ^^ 5) (checkpoint ?i (Dump ?s) (Some Triage) ?w) w'
     \<and> completed ?s c s' \<and> lw_calls w' = lw_calls ?w @ [(home ?s, t)] \<and> same_case ?s t
     \<and> lw_threads w' ?i = Some \<lparr>th_state = Dump s', th_next = None\<rparr>"
    by (rule calm_run [OF at]) (use budget good base in \<open>auto simp: initial_state_def required_reads_def\<close>)
  then obtain s' w' t where steps: "(graph_commit (wk_env k) ?i ^^ 5) (checkpoint ?i (Dump ?s) (Some Triage) ?w) w'"
    and done': "completed ?s c s'" "same_case ?s t" "lw_threads w' ?i = Some \<lparr>th_state = Dump s', th_next = None\<rparr>"
      "lw_calls w' = lw_calls w @ [(incident_directory ?i, t)]"
    by (auto simp: initial_state_def)
  have "lw_threads ?w ?i = None" "5 < recursion_limit" using fresh(1) by (simp_all add: recursion_limit_def)
  then have run: "engine ?i (Some (Dump ?s)) ?w = (Inr (Dump s'), w')"
    using law steps done'(3) unfolding runs_undisturbed_def by fastforce
  have "validate_state s' = Inr s'" using done'(1) by (simp add: completed_def)
  then have "worker_start k engine incident (Some b) w = (Inr s', w')"
    using run s fresh(1) calm
    by (simp add: worker_start_def worker_invoke_def engine_result_def bindP_def lw_ask_def look_def pack_def calm_def
        unpack_def)
  with done' show ?thesis by (auto simp: same_case_def initial_state_def)
qed


text \<open>Duplicate evidence identifiers pass the collection node and never the report.\<close>

lemma finish_needs_distinct:
  assumes "\<not> distinct (map ev_id (iv_evidence s))"
  shows "\<exists>e w'. node_finish env (Dump s) w = (Inl e, w')"
proof (cases "validate_state s")
  case (Inl e)
  then show ?thesis by (simp add: node_finish_def bindP_def unpack_def)
next
  case (Inr s')
  have "\<not> grounded (report_of s t)" for t using assms by (simp add: grounded_def report_of_def)
  then obtain e where "validate_report (report_of s (le_trace_id env (lw_tick w))) = Inl e"
    using validate_report_iff by (metis obj_sumE)
  with Inr validate_state_same [OF Inr] show ?thesis
    by (simp add: node_finish_def bindP_def unpack_def lw_ask_def)
qed

section \<open>Properties\<close>

definition sample_life_incident :: incident where
  "sample_life_incident =
     \<lparr>in_id = ''inc-1'',
      in_request = \<lparr>ic_title = ''payments'', ic_namespace = ''payops-sandbox'', ic_service = ''payments-api'',
                     ic_severity = Critical\<rparr>,
      in_created = 0, in_report = None\<rparr>"

definition sample_life_store :: evidence_store where
  "sample_life_store =
     \<lparr>st_files = st_files sample_baseline_store, st_decode = st_decode sample_baseline_store,
      st_window = (\<lambda>_. Inl invalid), st_trace_log = (\<lambda>_. Inl invalid), st_trace_span = (\<lambda>_. Inl invalid),
      st_lineage = (\<lambda>_. Inl invalid)\<rparr>"

definition sample_collection :: collection where
  "sample_collection = \<lparr>co_incident = ''inc-1'', co_evidence = [sample_deployment_item], co_failures = []\<rparr>"

definition sample_life_env :: life_env where
  "sample_life_env =
     \<lparr>le_now = (\<lambda>_. 5), le_perf = (\<lambda>n. of_nat n), le_trace_id = (\<lambda>_. ''trace''), le_lock = (\<lambda>_. True),
      le_fault = (\<lambda>_. None), le_store = (\<lambda>_ _. sample_life_store), le_collect = (\<lambda>_ _ _. Inr sample_collection),
      le_type_name = (\<lambda>_. ''ValueError''), le_fromiso = (\<lambda>_. None), le_reasoner = None\<rparr>"


definition sample_worker :: worker where
  "sample_worker =
     \<lparr>wk_env = sample_life_env, wk_mode = Local_kind, wk_profile = Instant_v1,
      wk_ranking_profile = ''deterministic-v1'', wk_method = Deterministic\<rparr>"

definition sample_life_budget :: investigation_budget where
  "sample_life_budget = default_life_budget 5"

lemma sample_item_verified:
  "store_verify sample_life_store sample_deployment_item =
     Inr [(''evidence'', evidence_json sample_deployment_item), (''payload'', JObj sample_degraded)]"
  "verify_evidence sample_life_store sample_deployment_item = Inr ()"
proof -
  show v: "store_verify sample_life_store sample_deployment_item =
     Inr [(''evidence'', evidence_json sample_deployment_item), (''payload'', JObj sample_degraded)]"
    using sample_deployment_verifies by (simp add: store_verify_iff sample_life_store_def)
  then show "verify_evidence sample_life_store sample_deployment_item = Inr ()"
    by (simp add: verify_evidence_Inr source_chain_def) (simp add: sample_deployment_item_def)
qed

lemma sample_item_valid: "valid_evidence_item sample_deployment_item"
proof -
  have "is_identifier ''inc-1''" "is_identifier ''payments-api''" "is_identifier ''ev-1''"
      "is_summary ''deployment''" "is_summary ''state''" by code_simp+
  moreover have "is_summary (ev_uri sample_deployment_item)"
    by (simp only: sample_deployment_item_def evidence_item.simps) (rule digest_uri_summary, simp)
  ultimately show ?thesis by (simp add: valid_evidence_item_def) (simp add: sample_deployment_item_def)
qed

lemma sample_good: "good_collection sample_life_env sample_life_incident sample_life_store sample_collection"
  using sample_item_verified sample_item_valid
  by (simp add: good_collection_def sample_life_env_def sample_collection_def sample_life_incident_def
      validate_collection_def) (simp add: sample_deployment_item_def)

lemma sample_life_facts:
  "validate_incident sample_life_incident = Inr sample_life_incident" "valid_life_budget sample_life_budget"
  "wk_mode sample_worker \<in> {Local_kind, Fixture_replay}" "is_identifier (wk_ranking_profile sample_worker)"
  "ic_namespace (in_request sample_life_incident) = ''payops-sandbox''"
  "ic_service (in_request sample_life_incident) \<in> set READ_SERVICES"
  "4 \<le> ib_max_steps sample_life_budget" "20 \<le> ib_max_tool_calls sample_life_budget"
  "34 \<le> ib_max_backend_reads sample_life_budget" "calm (wk_env sample_worker) (ib_deadline sample_life_budget)"
  "le_reasoner (wk_env sample_worker) = None"
  "runs_undisturbed (wk_env sample_worker) (reference_engine (wk_env sample_worker) False)"
  "good_collection (wk_env sample_worker) sample_life_incident sample_life_store sample_collection"
proof -
  have "is_identifier ''inc-1''" "is_identifier ''payops-sandbox''" "is_identifier ''payments-api''" "is_stripped 200 ''payments''"
    by code_simp+
  then show "validate_incident sample_life_incident = Inr sample_life_incident"
    by (simp add: validate_incident_iff sample_life_incident_def valid_incident_create_def)
  have "is_identifier ''deterministic-v1''" by code_simp
  then show "is_identifier (wk_ranking_profile sample_worker)" by (simp add: sample_worker_def)
  show "calm (wk_env sample_worker) (ib_deadline sample_life_budget)"
    by (auto simp: calm_def sample_worker_def sample_life_env_def sample_life_budget_def default_life_budget_def
        one_second_def mono_def)
  show "runs_undisturbed (wk_env sample_worker) (reference_engine (wk_env sample_worker) False)"
    by (rule reference_runs)
  show "good_collection (wk_env sample_worker) sample_life_incident sample_life_store sample_collection"
    using sample_good by (simp add: sample_worker_def)
qed (simp_all add: sample_worker_def sample_life_env_def sample_life_budget_def default_life_budget_def
      valid_life_budget_def between_def sample_life_incident_def READ_SERVICES_def)

text \<open>C6: An investigation that nothing disturbs ends with a report, in every graph engine that runs an
  undisturbed graph as documented (the engine is a parameter; \<open>runs_undisturbed\<close> is all that is asked of
  it, and no breakpoint is set). A worker with the deterministic ranker starts a valid incident in scope,
  with no earlier files or thread, four steps and the reads of a collection in its budget, a deadline
  that stays ahead, file operations that succeed, and a collector whose evidence is of this incident,
  distinct and verified. Then the start returns the finished state, its checkpoint has no further node,
  the collector was called once for this incident, and the report is grounded, holds exactly the
  collected evidence and escalates if and only if it names a cause.\<close>

theorem investigation_completes:
  assumes "validate_incident incident = Inr incident" "valid_life_budget b"
      "wk_mode k \<in> {Local_kind, Fixture_replay}" "is_identifier (wk_ranking_profile k)"
      "ic_namespace (in_request incident) = ''payops-sandbox''" "ic_service (in_request incident) \<in> set READ_SERVICES"
      "4 \<le> ib_max_steps b" "20 \<le> ib_max_tool_calls b" "34 \<le> ib_max_backend_reads b"
      "calm (wk_env k) (ib_deadline b)" "le_reasoner (wk_env k) = None" "runs_undisturbed (wk_env k) engine"
      "good_collection (wk_env k) incident st c" "lw_threads w (in_id incident) = None"
      "lw_dirs w (incident_directory (in_id incident)) = \<lparr>dr_attempts = [], dr_dispatched = False, dr_retained = None\<rparr>"
  shows "\<exists>s w' t r. worker_start k engine incident (Some b) w = (Inr s, w')
     \<and> iv_phase s = FINISHED \<and> iv_incident s = incident
     \<and> lw_threads w' (in_id incident) = Some \<lparr>th_state = pack s, th_next = None\<rparr>
     \<and> lw_calls w' = lw_calls w @ [(incident_directory (in_id incident), t)] \<and> iv_incident t = incident
     \<and> iv_report s = Some r \<and> grounded r \<and> rp_incident r = in_id incident \<and> rp_evidence r = co_evidence c
     \<and> rp_terminal r = (if rp_causes r \<noteq> [] then ESCALATED else EVIDENCE_INSUFFICIENT)"
  using calm_start [OF assms] by (fastforce simp: completed_def same_case_def initial_state_def pack_def)

theorem investigation_completes_witness:
  "\<exists>s w' r. worker_start sample_worker (reference_engine (wk_env sample_worker) False) sample_life_incident
      (Some sample_life_budget) (empty_life 0) = (Inr s, w')
     \<and> iv_report s = Some r \<and> rp_evidence r = [sample_deployment_item]"
proof -
  have "lw_threads (empty_life 0) (in_id sample_life_incident) = None"
    "lw_dirs (empty_life 0) (incident_directory (in_id sample_life_incident))
       = \<lparr>dr_attempts = [], dr_dispatched = False, dr_retained = None\<rparr>" by (simp_all add: empty_life_def)
  from investigation_completes [OF sample_life_facts this] show ?thesis by (auto simp: sample_collection_def)
qed

text \<open>C5: Evidence is collected at most once per incident, across crashes, repeated deliveries, resumed
  runs and concurrent workers. In every world that any sequence of starts and resumptions can reach, by
  workers whose engine follows the declared graph and where any file operation may fail or kill the
  process, at most one collector call was made for the directory of an incident. Every call was made for an
  incident of the sandbox namespace and a known service, after twenty tool calls and the backend reads
  of its profile had been reserved within the budget.\<close>

theorem collection_dispatched_once:
  assumes "service_step\<^sup>*\<^sup>* (empty_life n) w"
  shows "length (filter (\<lambda>c. fst c = incident_directory i) (lw_calls w)) \<le> 1
    \<and> (\<forall>(d, s) \<in> set (lw_calls w).
         d = incident_directory (in_id (iv_incident s))
         \<and> ic_namespace (in_request (iv_incident s)) = ''payops-sandbox''
         \<and> ic_service (in_request (iv_incident s)) \<in> set READ_SERVICES
         \<and> 20 \<le> iv_tool_calls s \<and> iv_tool_calls s \<le> ib_max_tool_calls (iv_budget s)
         \<and> required_reads s \<le> iv_backend_reads s \<and> iv_backend_reads s \<le> ib_max_backend_reads (iv_budget s))"
proof -
  have "calls_ok w" using life_ok_service [OF assms life_ok_empty] by (simp add: life_ok_def)
  then have "length (filter (\<lambda>c. fst c = incident_directory i) (lw_calls w))
      \<le> (if dr_dispatched (lw_dirs w (incident_directory i)) then 1 else 0)"
    and calls: "\<forall>c \<in> set (lw_calls w). fst c = home (snd c) \<and> call_ok (snd c)"
    unfolding calls_ok_def by blast+
  then have "length (filter (\<lambda>c. fst c = incident_directory i) (lw_calls w)) \<le> 1" by (auto split: if_splits)
  with calls show ?thesis by (auto simp: call_ok_def in_read_scope_def)
qed

lemma sample_life_run:
  "\<exists>s w' t. worker_start sample_worker (reference_engine (wk_env sample_worker) False) sample_life_incident
      (Some sample_life_budget) (empty_life 0) = (Inr s, w')
     \<and> lw_threads w' ''inc-1'' = Some \<lparr>th_state = Dump s, th_next = None\<rparr>
     \<and> lw_calls w' = [(incident_directory ''inc-1'', t)] \<and> service_step\<^sup>*\<^sup>* (empty_life 0) w'"
proof -
  have "lw_threads (empty_life 0) (in_id sample_life_incident) = None"
    "lw_dirs (empty_life 0) (incident_directory (in_id sample_life_incident))
       = \<lparr>dr_attempts = [], dr_dispatched = False, dr_retained = None\<rparr>" by (simp_all add: empty_life_def)
  from calm_start [OF sample_life_facts this] show ?thesis
    using service_step.start [OF reference_follows] by (fastforce simp: sample_life_incident_def empty_life_def)
qed

theorem collection_dispatched_once_witness:
  "\<exists>w t. service_step\<^sup>*\<^sup>* (empty_life 0) w \<and> lw_calls w = [(incident_directory ''inc-1'', t)]
     \<and> 20 \<le> iv_tool_calls t \<and> iv_tool_calls t \<le> ib_max_tool_calls (iv_budget t)"
proof -
  obtain w t where "service_step\<^sup>*\<^sup>* (empty_life 0) w" "lw_calls w = [(incident_directory ''inc-1'', t)]"
    using sample_life_run by blast
  with collection_dispatched_once [OF this(1), of "''inc-1''"] show ?thesis by auto
qed

lemma graph_step_others:
  assumes "graph_step env i input w w'" "life_ok w" "j \<noteq> i"
  shows "lw_threads w' j = lw_threads w j"
  using assms(1)
proof (cases rule: graph_step.cases)
  case (commit th node v w1 "next")
  obtain s where s: "th_state th = Dump s" "node_ready node s"
    using life_okD [OF assms(2) commit(2)] commit(3) by (auto simp: thread_ok_def)
  have "lw_threads w1 = lw_threads w"
    using keepsD [OF frame_run_node [OF s(2)]] commit(4) s(1) by (auto simp: life_frame_def)
  with commit(1) assms(3) show ?thesis by simp
next
  case (lost th node r)
  obtain s where s: "th_state th = Dump s" "node_ready node s"
    using life_okD [OF assms(2) lost(1)] lost(2) by (auto simp: thread_ok_def)
  show ?thesis using keepsD [OF frame_run_node [OF s(2)]] lost(3) s(1) by (auto simp: life_frame_def)
qed (use assms(3) in simp)

lemma engine_result_others:
  assumes "follows_graph env engine" "life_ok w" "input_ok i input" "j \<noteq> i"
  shows "lw_threads (snd (engine_result engine i input w)) j = lw_threads w j"
proof -
  obtain r w' where e: "engine i input w = (r, w')" by force
  then have "(graph_step env i input)\<^sup>*\<^sup>* w w'"
    using assms(1) unfolding follows_graph_def by (metis snd_conv)
  then have "life_ok w' \<and> lw_threads w' j = lw_threads w j"
    using assms(2)
  proof (induction rule: rtranclp_induct)
    case (step y z)
    then show ?case using life_ok_step [of env i input y z] graph_step_others [of env i input y z] assms(3,4) by auto
  qed simp
  with e show ?thesis by (simp add: engine_result_def bindP_def split: sum.split)
qed

lemma worker_invoke_others:
  assumes "follows_graph (wk_env k) engine" "life_ok w" "\<And>s. initial = Some s \<Longrightarrow> input_ok i (Some (Dump s))" "j \<noteq> i"
  shows "lw_threads (snd (worker_invoke k engine i initial w)) j = lw_threads w j"
  using assms engine_result_others [OF assms(1), of "w\<lparr>lw_tick := n\<rparr>" i for n]
  by (auto simp: worker_invoke_def bindP_def lw_ask_def look_def pack_def input_ok_def check_def
      split: option.split sum.split)

lemma worker_start_others:
  assumes "follows_graph (wk_env k) engine" "life_ok w" "j \<noteq> in_id incident"
  shows "lw_threads (snd (worker_start k engine incident (Some b) w)) j = lw_threads w j"
proof (cases "validate_state (initial_state k incident b (le_now (wk_env k) (lw_tick w)))")
  case (Inr s)
  then show ?thesis
    using worker_invoke_others [OF assms(1), of "w\<lparr>lw_tick := Suc (lw_tick w)\<rparr>" "Some s" "in_id incident" j]
      initial_ok [OF Inr] assms by (simp add: worker_start_def bindP_def lw_ask_def)
qed (simp add: worker_start_def bindP_def lw_ask_def)

lemma own_directoryI: "(\<And>j. j \<noteq> i \<Longrightarrow> lw_threads w j = None) \<Longrightarrow> own_directory w i"
  unfolding own_directory_def by (intro allI impI) (rule ccontr, simp)

text \<open>C36: Attempts are bounded by the budget of the investigation even when the process dies between a
  node and its checkpoint. In every reachable world the saved state of an incident is valid and belongs
  to it, and if no other identifier in use has the same digest, its directory holds at most as many
  attempt files as its step budget allows, never more than sixteen.\<close>

theorem attempts_within_budget:
  assumes "service_step\<^sup>*\<^sup>* (empty_life n) w" and "lw_threads w i = Some th" and "own_directory w i"
  shows "\<exists>s. unpack (th_state th) = Inr s \<and> in_id (iv_incident s) = i
     \<and> int (length (dr_attempts (lw_dirs w (incident_directory i)))) \<le> ib_max_steps (iv_budget s)
     \<and> ib_max_steps (iv_budget s) \<le> 16"
proof -
  have ok: "life_ok w" by (rule life_ok_service [OF assms(1) life_ok_empty])
  then obtain s where s: "th_state th = Dump s" "validate_state s = Inr s" "in_id (iv_incident s) = i"
    using life_okD [OF ok assms(2)] by (auto simp: thread_ok_def)
  have "int (length (dr_attempts (lw_dirs w (incident_directory i)))) \<le> ib_max_steps (iv_budget s)"
    using ok assms(2,3) s(1) unfolding life_ok_def attempts_ok_def by blast
  with s validate_state_bounds [OF s(2)] show ?thesis
    by (auto simp: unpack_def valid_life_budget_def between_def)
qed

theorem attempts_within_budget_witness:
  "\<exists>w (s :: investigation). service_step\<^sup>*\<^sup>* (empty_life 0) w \<and> own_directory w ''inc-1''
     \<and> int (length (dr_attempts (lw_dirs w (incident_directory ''inc-1'')))) \<le> ib_max_steps (iv_budget s)"
proof -
  let ?e = "reference_engine (wk_env sample_worker) False"
  obtain s w t where run: "worker_start sample_worker ?e sample_life_incident (Some sample_life_budget) (empty_life 0) = (Inr s, w)"
    and th: "lw_threads w ''inc-1'' = Some \<lparr>th_state = Dump s, th_next = None\<rparr>"
    and reach: "service_step\<^sup>*\<^sup>* (empty_life 0) w"
    using sample_life_run by blast
  have "lw_threads w j = None" if "j \<noteq> ''inc-1''" for j
    using worker_start_others [OF reference_follows life_ok_empty, of j sample_life_incident sample_worker False
        sample_life_budget 0] run that
    by (simp add: empty_life_def sample_life_incident_def)
  then have "own_directory w ''inc-1''" by (rule own_directoryI)
  with attempts_within_budget [OF reach th] reach show ?thesis by blast
qed


lemma worker_start_shape:
  assumes "worker_start k engine incident budget w = (r, w')"
  shows "\<exists>b now m. bindP (liftR (validate_state (initial_state k incident b now)))
           (\<lambda>initial. worker_invoke k engine (in_id incident) (Some initial)) (w\<lparr>lw_tick := m\<rparr>) = (r, w')"
  using assms
  by (cases budget) (auto simp: worker_start_def bindP_def [of "lw_ask _"] bindP_def [of "returnP _"]
      bindP_def [of "bindP _ _"] lw_ask_def)

text \<open>A repeated delivery changes nothing. If the thread of an incident exists, starting the incident
  again, by any worker, with any engine and any budget, neither runs a node nor touches a file, a
  checkpoint or a budget; it returns the saved state or raises.\<close>

theorem redelivery_changes_nothing:
  assumes "lw_threads w (in_id incident) = Some th" and "worker_start k engine incident budget w = (r, w')"
  shows "w' = w\<lparr>lw_tick := lw_tick w'\<rparr> \<and> (\<forall>s. r = Inr s \<longrightarrow> th_state th = Dump s \<and> iv_incident s = incident)"
proof -
  have same: "w' = w\<lparr>lw_tick := lw_tick w'\<rparr> \<and> (\<forall>s. r = Inr s \<longrightarrow> th_state th = Dump s \<and> iv_incident s = iv_incident t)"
    if "worker_invoke k engine (in_id incident) (Some t) (w\<lparr>lw_tick := m\<rparr>) = (r, w')" for m t
  proof -
    let ?w = "w\<lparr>lw_tick := Suc m\<rparr>"
    have "worker_invoke k engine (in_id incident) (Some t) (w\<lparr>lw_tick := m\<rparr>) =
       (if \<not> le_lock (wk_env k) m then (Inl (TimeoutError ''lock''), ?w)
        else (bindR (unpack (th_state th)) (\<lambda>existing. bindR (same_profile k existing) (\<lambda>_.
                bindR (check (iv_incident existing = iv_incident t)
                         (ValueError ''thread already belongs to a different incident'')) (\<lambda>_. Inr existing))), ?w))"
      using assms(1)
      by (simp add: worker_invoke_def bindP_def lw_ask_def look_def bindR_def check_def split: sum.split)
    with that show ?thesis by (auto simp: unpack_Dump split: if_splits)
  qed
  obtain b now m where run: "bindP (liftR (validate_state (initial_state k incident b now)))
      (\<lambda>initial. worker_invoke k engine (in_id incident) (Some initial)) (w\<lparr>lw_tick := m\<rparr>) = (r, w')"
    using worker_start_shape [OF assms(2)] by (elim exE)
  show ?thesis
  proof (cases "validate_state (initial_state k incident b now)")
    case (Inr t)
    from validate_state_same [OF this] have t: "iv_incident t = incident" by (simp add: initial_state_def)
    have "worker_invoke k engine (in_id incident) (Some t) (w\<lparr>lw_tick := m\<rparr>) = (r, w')"
      using run Inr by (simp add: bindP_def)
    from same [OF this, unfolded t] show ?thesis .
  qed (use run in \<open>auto simp: bindP_def\<close>)
qed

theorem redelivery_changes_nothing_witness:
  "\<exists>s w w' r. lw_threads w ''inc-1'' = Some \<lparr>th_state = Dump s, th_next = None\<rparr>
     \<and> worker_start sample_worker (reference_engine sample_life_env True) sample_life_incident None w = (r, w')
     \<and> w' = w\<lparr>lw_tick := lw_tick w'\<rparr>"
proof -
  obtain s and w :: life_world where th: "lw_threads w ''inc-1'' = Some \<lparr>th_state = Dump s, th_next = None\<rparr>"
    using sample_life_run by blast
  obtain r w' where r: "worker_start sample_worker (reference_engine sample_life_env True) sample_life_incident None w = (r, w')"
    by force
  have "lw_threads w (in_id sample_life_incident) = Some \<lparr>th_state = Dump s, th_next = None\<rparr>"
    using th by (simp add: sample_life_incident_def)
  from redelivery_changes_nothing [OF this r] th r show ?thesis by blast
qed

text \<open>C37: A collection with duplicate evidence identifiers is accepted and then can never be reported. The
  collection node checks the incident and the artifact of every item but not that identifiers are
  distinct, so it checkpoints such evidence; the report contract rejects it, so on every state with
  that evidence the final node raises, whatever terminal outcome was reached, and every resumption
  raises again. \<^verbatim>\<open>nodes.py\<close> says that final reporting always runs.\<close>

theorem duplicate_evidence_blocks_report:
  assumes "validate_state s = Inr s" and "validate_collection c = Inr c" and "co_incident c = in_id (iv_incident s)"
    and "\<forall>n. le_store env n (incident_directory (in_id (iv_incident s))) = st"
    and "\<forall>item \<in> set (co_evidence c). ev_incident item = in_id (iv_incident s) \<and> verify_evidence st item = Inr ()"
    and "\<not> distinct (map ev_id (co_evidence c))"
  shows "(\<exists>s' w'. collected env s c w = (Inr s', w') \<and> iv_evidence s' = co_evidence c \<and> iv_phase s' = EVIDENCE_COLLECTED)
    \<and> (\<forall>s' u. iv_evidence s' = co_evidence c \<longrightarrow> (\<exists>e u'. node_finish env (pack s') u = (Inl e, u')))"
proof -
  let ?s = "s\<lparr>iv_phase := EVIDENCE_COLLECTED, iv_evidence := co_evidence c, iv_failures := co_failures c\<rparr>"
  have "updated ?s = Inr ?s"
    using assms(1,2) unfolding updated_def validate_state_iff by (auto simp: validate_collection_def)
  then have "collected env s c w = (Inr ?s, w\<lparr>lw_tick := lw_tick w + length (co_evidence c)\<rparr>)"
    using assms(3) verify_good(1) [OF assms(4,5)] by (simp add: collected_def bindP_def)
  moreover have "\<exists>e u'. node_finish env (pack s') u = (Inl e, u')" if "iv_evidence s' = co_evidence c" for s' u
    using finish_needs_distinct [of s' env u] assms(6) that by (simp add: pack_def)
  ultimately show ?thesis by fastforce
qed

theorem duplicate_evidence_blocks_report_witness:
  "\<exists>s. unpack (pack s) = Inr s \<and> iv_evidence s = [sample_deployment_item, sample_deployment_item]
     \<and> (\<exists>e u'. node_finish sample_life_env (pack s) (empty_life 0) = (Inl e, u'))"
proof -
  let ?s = "initial_state sample_worker sample_life_incident sample_life_budget 5"
  let ?c = "sample_collection\<lparr>co_evidence := [sample_deployment_item, sample_deployment_item]\<rparr>"
  have s: "validate_state ?s = Inr ?s" by (rule initial_valid [OF sample_life_facts(1-4)])
  have c: "validate_collection ?c = Inr ?c" using sample_item_valid by (simp add: validate_collection_def)
  have id: "co_incident ?c = in_id (iv_incident ?s)" "\<forall>n. le_store sample_life_env n (home ?s) = sample_life_store"
    by (simp_all add: sample_collection_def initial_state_def sample_life_incident_def sample_life_env_def)
  have items: "\<forall>item \<in> set (co_evidence ?c). ev_incident item = in_id (iv_incident ?s)
      \<and> verify_evidence sample_life_store item = Inr ()"
    using sample_item_verified by (simp add: initial_state_def) (simp add: sample_life_incident_def sample_deployment_item_def)
  have "\<not> distinct (map ev_id (co_evidence ?c))" by simp
  from duplicate_evidence_blocks_report [OF s c id items this, of "empty_life 0"]
  obtain s' w' where s': "collected sample_life_env ?s ?c (empty_life 0) = (Inr s', w')" "iv_evidence s' = co_evidence ?c"
    and fin: "\<exists>e u'. node_finish sample_life_env (pack s') (empty_life 0) = (Inl e, u')" by blast
  have "validate_state s' = Inr s'" using collected_Inr [OF s'(1)] by blast
  with s' fin show ?thesis by (auto simp: unpack_def pack_def intro!: exI [of _ s'])
qed

end
