(* ===== verification/Diagnostics.thy ===== *)
theory Diagnostics
  imports Baseline
begin

text \<open>
  The diagnostic predicates on decoded evidence: \<^verbatim>\<open>diagnostics.py\<close>, \<^verbatim>\<open>diagnostic_slices.py\<close>,
  \<^verbatim>\<open>diagnostic_http.py\<close> and \<^verbatim>\<open>diagnostic_support.py\<close> of \<^verbatim>\<open>src/payops/evidence/\<close>.

  A decoded value is walked once into the objects it holds; every predicate looks at these rows. Sets of
  causes are sets of strings. Measurements are the exact numbers of the JSON text instead of doubles
  (a decimal literal beyond their range, which Python reads as infinity, keeps its exact value).
  Converting digits to an integer can raise, because \<^verbatim>\<open>str.isdigit\<close> accepts superscripts and \<^verbatim>\<open>int\<close>
  accepts neither them nor more than 4300 digits, and \<^verbatim>\<open>float\<close> of a huge integer raises, so the
  predicates are fallible.

  Main facts: the index cites for a cause exactly the observations whose rows satisfy its predicate, with
  the memory-limit symptom dropped when a specific memory mechanism is present
  (\<open>support_index_exact\<close>), and it names causes of a closed vocabulary only (\<open>causes_vocabulary\<close>).
\<close>

section \<open>Walking a value\<close>

fun objects :: "json \<Rightarrow> json_object list" where
  "objects (JObj kvs) =
     (if get_field kvs ''archived'' = Some (JBool True) then []
      else kvs # concat (map (\<lambda>(k, v). objects v) kvs))"
| "objects (JArr xs) = concat (map objects xs)"
| "objects _ = []"

text \<open>\<^verbatim>\<open>float\<close> of an integer outside the range of a double raises.\<close>

definition number :: "json option \<Rightarrow> exn + rat option" where
  "number v =
     (case v of
        Some (JInt i) \<Rightarrow> if float_overflow \<le> abs i then Inl (OtherError ''OverflowError'') else Inr (Some (of_int i))
      | Some (JFloat s) \<Rightarrow> Inr (Some (float_value s))
      | _ \<Rightarrow> Inr None)"

text \<open>\<^verbatim>\<open>v == n\<close> for an integer literal: also true of a float or a boolean of that value.\<close>

definition equals_int :: "int \<Rightarrow> json option \<Rightarrow> bool" where
  "equals_int n v \<longleftrightarrow> (case v of Some x \<Rightarrow> py_eq x (JInt n) | None \<Rightarrow> False)"

definition is_text :: "string \<Rightarrow> json option \<Rightarrow> bool" where
  "is_text s v \<longleftrightarrow> v = Some (JStr s)"

fun contains :: "string \<Rightarrow> string \<Rightarrow> bool" where
  "contains p [] \<longleftrightarrow> p = []"
| "contains p (c # cs) \<longleftrightarrow> is_prefix p (c # cs) \<or> contains p cs"

section \<open>Direct mechanisms\<close>

definition duration :: "iso_reader \<Rightarrow> json_object \<Rightarrow> int option" where
  "duration fromiso row =
     (case (get_field row ''startedAt'', get_field row ''finishedAt'') of
        (Some (JStr started), Some (JStr finished)) \<Rightarrow>
          (case (fromiso started, fromiso finished) of
             (Some (t1, aware1), Some (t2, aware2)) \<Rightarrow> if aware1 \<and> aware2 then Some (t2 - t1) else None
           | _ \<Rightarrow> None)
      | _ \<Rightarrow> None)"

definition direct :: "iso_reader \<Rightarrow> json_object \<Rightarrow> string \<Rightarrow> string set" where
  "direct fromiso row resource =
     (if is_text ''postgres'' (get_field row ''dependency'') \<and> is_text ''53300'' (get_field row ''sqlstate'')
      then {''DATABASE_CONNECTION_EXHAUSTION''} else {})
     \<union> (if is_text ''redis'' (get_field row ''dependency'') \<and> is_text ''unavailable'' (get_field row ''outcome'')
        then {''CACHE_UNAVAILABLE''} else {})
     \<union> (if is_text ''Deployment'' (get_field row ''kind'') \<and> int_field (\<lambda>n. n = 0) (get_field row ''replicas'')
           \<and> (case get_field row ''resource'' of
                None \<Rightarrow> resource = ''processor-adapter'' | Some v \<Rightarrow> v = JStr ''processor-adapter'')
        then {''PROCESSOR_UNAVAILABLE''} else {})
     \<union> (if is_text ''ScalingLimited'' (get_field row ''type'') \<and> is_text ''True'' (get_field row ''status'')
           \<and> is_text ''TooManyReplicas'' (get_field row ''reason'')
        then {''AUTOSCALING_MAX_REPLICAS''} else {})
     \<union> (if equals_int 1 (get_field row ''exitCode'')
           \<and> (case duration fromiso row of None \<Rightarrow> False | Some d \<Rightarrow> 0 \<le> d \<and> d \<le> 5 * one_second)
        then {''STARTUP_FAILURE''} else {})"

definition row_running_unready :: "json_object \<Rightarrow> bool" where
  "row_running_unready row \<longleftrightarrow>
     get_field row ''ready'' = Some (JBool False) \<and> equals_int 0 (get_field row ''restartCount'')
     \<and> (case get_field row ''state'' of Some (JObj state) \<Rightarrow> ''running'' \<in> set (keys state) | _ \<Rightarrow> False)"

definition event_row :: "bool \<Rightarrow> bool \<Rightarrow> bool \<Rightarrow> json_object \<Rightarrow> string set" where
  "event_row pending running pressure row =
     (case get_field row ''message'' of
        Some (JStr message) \<Rightarrow>
          (let reason = get_field row ''reason'' in
           (if pending \<and> is_text ''FailedScheduling'' reason \<and> contains ''Insufficient cpu'' message
            then {''INSUFFICIENT_CPU_REQUEST_CAPACITY''} else {})
           \<union> (if pending \<and> is_text ''FailedScheduling'' reason \<and> contains ''Insufficient memory'' message
              then {''INSUFFICIENT_MEMORY_REQUEST_CAPACITY''} else {})
           \<union> (if running \<and> is_text ''Unhealthy'' reason \<and> is_prefix ''Readiness probe failed:'' message
              then {''READINESS_PROBE_FAILURE''} else {})
           \<union> (if pressure \<and> is_text ''Evicted'' reason \<and> contains ''memory'' message
              then {''NODE_PRESSURE_EVICTION''} else {}))
      | _ \<Rightarrow> {})"

definition events :: "json_object list \<Rightarrow> string set" where
  "events rows =
     (let pending = list_ex (\<lambda>row. is_text ''Pending'' (get_field row ''phase'')) rows;
          running = list_ex row_running_unready rows;
          pressure = list_ex (\<lambda>row. is_text ''MemoryPressure'' (get_field row ''type'')
                                    \<and> is_text ''True'' (get_field row ''status'')) rows
      in \<Union> (set (map (event_row pending running pressure) rows)))"

definition rising :: "rat option list \<Rightarrow> bool" where
  "rising values \<longleftrightarrow>
     (let numbers = map the values
      in length values \<ge> 3 \<and> list_all (\<lambda>v. v \<noteq> None) values \<and> sorted numbers \<and> last numbers > hd numbers)"

definition growth :: "json_object list \<Rightarrow> string \<Rightarrow> exn + bool" where
  "growth rows field =
     bindR (mapR (\<lambda>row. number (get_field row field)) (filter (\<lambda>row. field \<in> set (keys row)) rows)) (\<lambda>values.
     Inr (rising values))"

definition memory :: "json_object list \<Rightarrow> exn + string set" where
  "memory rows =
     bindR (growth rows ''retained_bytes'') (\<lambda>retained.
     bindR (growth rows ''active'') (\<lambda>active.
     bindR (if active then growth rows ''cgroup_current_bytes'' else Inr False) (\<lambda>pressure.
     Inr ((if retained then {''MEMORY_LEAK''} else {})
          \<union> (if pressure then {''CONCURRENCY_MEMORY_PRESSURE''} else {})
          \<union> (if list_ex (\<lambda>row. is_text ''OOMKilled'' (get_field row ''reason'')) rows
             then {''MEMORY_LIMIT_BELOW_WORKING_SET''} else {})))))"

section \<open>Processor throttling\<close>

text \<open>\<^verbatim>\<open>str.split()\<close>, \<^verbatim>\<open>str.isdigit()\<close> and \<^verbatim>\<open>int\<close> on code points below 256.\<close>

fun words_from :: "string \<Rightarrow> string \<Rightarrow> string list" where
  "words_from word [] = (if word = [] then [] else [rev word])"
| "words_from word (c # cs) =
     (if py_space c then (if word = [] then words_from [] cs else rev word # words_from [] cs)
      else words_from (c # word) cs)"

definition split_words :: "string \<Rightarrow> string list" where
  "split_words s = words_from [] s"

definition is_digit_text :: "string \<Rightarrow> bool" where
  "is_digit_text s \<longleftrightarrow>
     s \<noteq> [] \<and> list_all (\<lambda>c. is_digit c \<or> (of_char c :: nat) \<in> {178, 179, 185}) s"

definition py_int :: "string \<Rightarrow> exn + int" where
  "py_int s =
     bindR (check (list_all is_digit s \<and> length s \<le> 4300) (ValueError ''invalid literal for int()'')) (\<lambda>_.
     Inr (int (digits_value 0 s)))"

definition cpu_counter :: "json option \<Rightarrow> exn + int option" where
  "cpu_counter v =
     (case v of
        Some (JStr value) \<Rightarrow>
          (let pairs = map split_words (splitlines value);
               matches = map (\<lambda>p. p ! 1) (filter (\<lambda>p. length p = 2 \<and> p ! 0 = ''throttled_usec'') pairs)
           in if length matches = 1 \<and> is_digit_text (matches ! 0)
              then bindR (py_int (matches ! 0)) (\<lambda>n. Inr (Some n)) else Inr None)
      | _ \<Rightarrow> Inr None)"

text \<open>\<^verbatim>\<open>all\<close> and \<^verbatim>\<open>any\<close> stop at the first item that decides.\<close>

fun all_parts :: "string list \<Rightarrow> exn + bool" where
  "all_parts [] = Inr True"
| "all_parts (p # ps) =
     (if \<not> is_digit_text p then Inr False
      else bindR (py_int p) (\<lambda>n. if n > 0 then all_parts ps else Inr False))"

definition throttled :: "json_object \<Rightarrow> exn + bool" where
  "throttled row =
     (case (get_field row ''before'', get_field row ''after'') of
        (Some (JObj before), Some (JObj after)) \<Rightarrow>
          (case get_field before ''cpu_max'' of
             Some (JStr quota) \<Rightarrow>
               if \<not> is_text quota (get_field after ''cpu_max'') then Inr False
               else
                 (let parts = split_words quota in
                  if length parts \<noteq> 2 then Inr False
                  else bindR (all_parts parts) (\<lambda>ok.
                    if \<not> ok then Inr False
                    else bindR (cpu_counter (get_field before ''cpu_stat'')) (\<lambda>first.
                         bindR (cpu_counter (get_field after ''cpu_stat'')) (\<lambda>last.
                         Inr (case (first, last) of (Some a, Some b) \<Rightarrow> b > a | _ \<Rightarrow> False)))))
           | _ \<Rightarrow> Inr False)
      | _ \<Rightarrow> Inr False)"

fun any_throttled :: "json_object list \<Rightarrow> exn + bool" where
  "any_throttled [] = Inr False"
| "any_throttled (row # rows) = bindR (throttled row) (\<lambda>t. if t then Inr True else any_throttled rows)"

definition supported_causes :: "iso_reader \<Rightarrow> json \<Rightarrow> string \<Rightarrow> exn + string set" where
  "supported_causes fromiso value resource =
     (let rows = objects value;
          found = \<Union> (set (map (\<lambda>row. direct fromiso row resource) rows)) \<union> events rows
      in bindR (memory rows) (\<lambda>m.
         bindR (any_throttled rows) (\<lambda>t. Inr (found \<union> m \<union> (if t then {''CPU_THROTTLING''} else {})))))"

section \<open>Slices of payment traffic\<close>

fun labels_from :: "(string \<times> string) list \<Rightarrow> json list \<Rightarrow> (string \<times> string) list option" where
  "labels_from acc [] = Some acc"
| "labels_from acc (JArr [JStr k, JStr v] # pairs) =
     (if k \<in> set (map fst acc) then None else labels_from (acc @ [(k, v)]) pairs)"
| "labels_from acc _ = None"

definition labels_of :: "json_object \<Rightarrow> (string \<times> string) list" where
  "labels_of row =
     (case get_field row ''labels'' of
        Some (JArr raw) \<Rightarrow> (case labels_from [] raw of Some ls \<Rightarrow> ls | None \<Rightarrow> [])
      | _ \<Rightarrow> [])"

fun pairs_of :: "'a list \<Rightarrow> ('a \<times> 'a) list" where
  "pairs_of [] = []"
| "pairs_of (x # xs) = map (\<lambda>y. (x, y)) xs @ pairs_of xs"

definition positive :: "json option \<Rightarrow> exn + bool" where
  "positive v = bindR (number v) (\<lambda>n. Inr (case n of Some r \<Rightarrow> r > 0 | None \<Rightarrow> False))"

fun counted :: "json_object list \<Rightarrow> exn + json_object list" where
  "counted [] = Inr []"
| "counted (row # rows) =
     bindR (if is_text ''payment_requests_total'' (get_field row ''metric'') then positive (get_field row ''value'')
            else Inr False) (\<lambda>keep.
     bindR (counted rows) (\<lambda>counts. Inr (if keep then row # counts else counts)))"

definition declined_pair :: "json_object \<times> json_object \<Rightarrow> string set" where
  "declined_pair p =
     (let a = labels_of (fst p); b = labels_of (snd p);
          changed = filter (\<lambda>k. k \<noteq> ''status'' \<and> map_of a k \<noteq> map_of b k) (map fst a) in
      if set (map fst a) \<noteq> {''processor'', ''region'', ''payment_method'', ''status''}
         \<or> set (map fst a) \<noteq> set (map fst b) then {}
      else if {map_of a ''status'', map_of b ''status''} \<noteq> {Some ''accepted'', Some ''declined''} then {}
      else (if set changed = {''processor''} then {''PROCESSOR_SPECIFIC_DECLINES''} else {})
           \<union> (if set changed = {''payment_method''} then {''METHOD_SPECIFIC_DECLINES''} else {}))"

definition declines :: "json_object list \<Rightarrow> exn + string set" where
  "declines rows = bindR (counted rows) (\<lambda>counts. Inr (\<Union> (set (map declined_pair (pairs_of counts)))))"

type_synonym latency_table = "((string \<times> string) \<times> (string \<times> rat) list) list"

fun put :: "('k \<times> 'v) list \<Rightarrow> 'k \<Rightarrow> 'v \<Rightarrow> ('k \<times> 'v) list" where
  "put [] k v = [(k, v)]"
| "put ((k', v') # kvs) k v = (if k' = k then (k, v) # kvs else (k', v') # put kvs k v)"

definition latency_row :: "json_object \<Rightarrow> latency_table \<Rightarrow> exn + latency_table" where
  "latency_row row values =
     bindR (number (get_field row ''value'')) (\<lambda>value. Inr
     (let label = labels_of row;
          suffix = (if is_text COUNT (get_field row ''metric'') then Some ''count''
                    else if is_text LATENCY_SUM (get_field row ''metric'') then Some ''sum'' else None) in
      case (suffix, map_of label ''processor'', map_of label ''region'', value) of
        (Some m, Some p, Some r, Some v) \<Rightarrow>
          if set (map fst label) \<noteq> {''processor'', ''region''} \<or> v \<le> 0 then values
          else put values (p, r) (put (case map_of values (p, r) of Some old \<Rightarrow> old | None \<Rightarrow> []) m v)
      | _ \<Rightarrow> values))"

fun latency_rows :: "json_object list \<Rightarrow> latency_table \<Rightarrow> exn + latency_table" where
  "latency_rows [] values = Inr values"
| "latency_rows (row # rows) values = bindR (latency_row row values) (latency_rows rows)"

definition mean_of :: "(string \<times> rat) list \<Rightarrow> rat option" where
  "mean_of value =
     (case (map_of value ''sum'', map_of value ''count'') of
        (Some t, Some n) \<Rightarrow> if n \<ge> 5 then Some (t / n) else None
      | _ \<Rightarrow> None)"

definition region_latency :: "json_object list \<Rightarrow> exn + bool" where
  "region_latency rows =
     bindR (latency_rows rows []) (\<lambda>values. Inr
     (let means = List.map_filter (\<lambda>(key, value). map_option (\<lambda>m. (key, m)) (mean_of value)) values
      in list_ex (\<lambda>((a, m), (b, n)). fst a = fst b \<and> snd a \<noteq> snd b \<and> max m n \<ge> 2 * min m n) (pairs_of means)))"

text \<open>\<^verbatim>\<open>sandbox\\.call\\.(processor|risk|ledger|webhook): (\\d+) us; status \\w+; bounded sample\<close>\<close>

definition span_call :: "string \<Rightarrow> (string \<times> string) option" where
  "span_call s =
     (if \<not> is_prefix ''sandbox.call.'' s then None
      else
        (let rest = drop 13 s; name = takeWhile (\<lambda>c. c \<noteq> CHR '':'') rest;
             after = dropWhile (\<lambda>c. c \<noteq> CHR '':'') rest; digits = takeWhile is_digit (drop 2 after);
             tail = dropWhile is_digit (drop 2 after); status = drop 12 tail
         in if name \<in> set [''processor'', ''risk'', ''ledger'', ''webhook''] \<and> is_prefix '': '' after \<and> digits \<noteq> []
               \<and> is_prefix '' us; status '' tail \<and> takeWhile is_word_char status \<noteq> []
               \<and> dropWhile is_word_char status = ''; bounded sample''
            then Some (name, digits) else None))"

definition span_texts :: "json_object list \<Rightarrow> string list" where
  "span_texts rows =
     concat (map (\<lambda>row. case get_field row ''spans'' of
                          Some (JArr spans) \<Rightarrow> concat (map (\<lambda>s. case s of JStr t \<Rightarrow> [t] | _ \<Rightarrow> []) spans)
                        | _ \<Rightarrow> []) rows)"

definition call_durations :: "json_object list \<Rightarrow> exn + (string \<times> int) list" where
  "call_durations rows =
     mapR (\<lambda>(name, digits). bindR (py_int digits) (\<lambda>n. Inr (name, n))) (List.map_filter span_call (span_texts rows))"

definition processor_latency :: "json_object list \<Rightarrow> exn + bool" where
  "processor_latency rows =
     bindR (call_durations rows) (\<lambda>durations.
     let processor = map snd (filter (\<lambda>d. fst d = ''processor'') durations);
         peers = map snd (filter (\<lambda>d. fst d \<noteq> ''processor'') durations) in
     Inr (length processor \<ge> 2 \<and> length peers \<ge> 2 \<and> Min (set processor) > 3 * Max (set peers)))"

definition slice_causes :: "json \<Rightarrow> exn + string set" where
  "slice_causes value =
     (let rows = objects value in
      bindR (declines rows) (\<lambda>found.
      bindR (region_latency rows) (\<lambda>region.
      bindR (processor_latency rows) (\<lambda>slow.
      Inr (found \<union> (if region then {''REGION_SPECIFIC_LATENCY''} else {})
           \<union> (if slow then {''PROCESSOR_LATENCY''} else {}))))))"

section \<open>HTTP outcomes\<close>

definition full_text :: "json option \<Rightarrow> bool" where
  "full_text v \<longleftrightarrow> (case v of Some (JStr s) \<Rightarrow> s \<noteq> [] | _ \<Rightarrow> False)"

definition matched_control :: "json_object \<Rightarrow> json_object \<Rightarrow> bool" where
  "matched_control rejected accepted \<longleftrightarrow>
     equals_int 200 (get_field accepted ''http_status'')
     \<and> list_all (\<lambda>row. list_all (\<lambda>k. full_text (get_field row k)) [''processor'', ''region'', ''payment_method''])
         [rejected, accepted]
     \<and> get_field rejected ''processor'' \<noteq> get_field accepted ''processor''
     \<and> get_field rejected ''region'' = get_field accepted ''region''
     \<and> get_field rejected ''payment_method'' = get_field accepted ''payment_method''"

text \<open>The loop over the rejected attempts reads the latency of every one of them.\<close>

fun rate_limited :: "json_object list \<Rightarrow> json_object list \<Rightarrow> exn + bool" where
  "rate_limited rows [] = Inr False"
| "rate_limited rows (rejected # rest) =
     bindR (if equals_int 429 (get_field rejected ''http_status'') then positive (get_field rejected ''latency_seconds'')
            else Inr False) (\<lambda>slow.
     bindR (rate_limited rows rest) (\<lambda>others.
     Inr (slow \<and> list_ex (matched_control rejected) rows \<or> others)))"

definition envelope_causes :: "json_object \<Rightarrow> exn + string set" where
  "envelope_causes envelope =
     (case get_field envelope ''attempts'' of
        Some (JArr attempts) \<Rightarrow>
          (let rows = objects_in (Some (JArr attempts));
               conflict = is_text ''webhook'' (get_field envelope ''role'')
                 \<and> list_ex (\<lambda>row. equals_int 409 (get_field row ''http_status'')
                                  \<and> get_field row ''idempotency_conflict'' = Some (JBool True)) rows in
           bindR (if is_text ''payments'' (get_field envelope ''role'') then rate_limited rows rows else Inr False) (\<lambda>limited.
           Inr ((if conflict then {''WEBHOOK_IDEMPOTENCY_CONFLICT''} else {})
                \<union> (if limited then {''PROCESSOR_LATENCY_RATE_LIMIT''} else {}))))
      | _ \<Rightarrow> Inr {})"

definition http_causes :: "json \<Rightarrow> exn + string set" where
  "http_causes value = bindR (mapR envelope_causes (objects value)) (\<lambda>found. Inr (\<Union> (set found)))"

section \<open>Support index\<close>

type_synonym observation = "string \<times> string \<times> json"
type_synonym support = "(string \<times> string list) list"

definition observed_causes :: "iso_reader \<Rightarrow> observation \<Rightarrow> exn + string set" where
  "observed_causes fromiso ob =
     (case ob of (identifier, resource, value) \<Rightarrow>
        bindR (supported_causes fromiso value resource) (\<lambda>a.
        bindR (slice_causes value) (\<lambda>b.
        bindR (http_causes value) (\<lambda>c. Inr (a \<union> b \<union> c)))))"

definition add_support :: "string \<Rightarrow> string \<Rightarrow> support \<Rightarrow> support" where
  "add_support identifier cause index =
     put index cause ((case map_of index cause of Some ids \<Rightarrow> ids | None \<Rightarrow> []) @ [identifier])"

fun collect_support :: "iso_reader \<Rightarrow> support \<Rightarrow> observation list \<Rightarrow> exn + support" where
  "collect_support fromiso index [] = Inr index"
| "collect_support fromiso index (ob # obs) =
     bindR (observed_causes fromiso ob) (\<lambda>causes.
     collect_support fromiso (fold (add_support (fst ob)) (sorted_list_of_set causes) index) obs)"

definition support_index :: "iso_reader \<Rightarrow> observation list \<Rightarrow> exn + support" where
  "support_index fromiso observations =
     bindR (collect_support fromiso [] observations) (\<lambda>result.
     let specific = list_ex (\<lambda>(cause, ids). cause \<in> {''MEMORY_LEAK'', ''CONCURRENCY_MEMORY_PRESSURE''}) result;
         kept = filter (\<lambda>(cause, ids). \<not> (specific \<and> cause = ''MEMORY_LIMIT_BELOW_WORKING_SET'')) result
     in Inr (map (\<lambda>(cause, ids). (cause, first_occurrences ids)) (sort_key fst kept)))"

section \<open>The index is exact\<close>

lemma map_of_put: "map_of (put kvs k v) = (map_of kvs)(k \<mapsto> v)"
  by (induction kvs) (auto simp: fun_eq_iff)

lemma put_keys: "set (map fst (put kvs k v)) = insert k (set (map fst kvs))"
proof (induction kvs)
  case (Cons p kvs)
  then show ?case by (cases p) auto
qed simp

lemma put_distinct: "distinct (map fst kvs) \<Longrightarrow> distinct (map fst (put kvs k v))"
proof (induction kvs)
  case (Cons p kvs)
  then show ?case using put_keys [of kvs k v] by (cases p) auto
qed simp

definition ids_of :: "support \<Rightarrow> string \<Rightarrow> string list" where
  "ids_of index cause = (case map_of index cause of Some ids \<Rightarrow> ids | None \<Rightarrow> [])"

text \<open>An index under construction: every cause once, and with at least one identifier.\<close>

definition index_ok :: "support \<Rightarrow> bool" where
  "index_ok index \<longleftrightarrow> distinct (map fst index) \<and> (\<forall>(cause, ids) \<in> set index. ids \<noteq> [])"

lemma index_ok_ids: "index_ok index \<Longrightarrow> cause \<in> set (map fst index) \<longleftrightarrow> ids_of index cause \<noteq> []"
proof (cases "map_of index cause")
  case None
  then show ?thesis using map_of_eq_None_iff [of index cause] by (simp add: ids_of_def)
next
  case (Some ids)
  moreover assume "index_ok index"
  ultimately show ?thesis using map_of_SomeD [OF Some] by (force simp: ids_of_def index_ok_def)
qed

lemma add_support_ok:
  assumes "index_ok index"
  shows "index_ok (add_support i c index)"
    and "ids_of (add_support i c index) c' = ids_of index c' @ (if c' = c then [i] else [])"
proof -
  have *: "(a, b) \<in> set (put index c v) \<Longrightarrow> (a, b) \<in> set index \<or> b = v" for a b v
    by (induction index) (auto split: if_splits)
  show "index_ok (add_support i c index)"
    using assms * by (fastforce simp: index_ok_def add_support_def put_distinct)
  show "ids_of (add_support i c index) c' = ids_of index c' @ (if c' = c then [i] else [])"
    by (simp add: ids_of_def add_support_def map_of_put)
qed

lemma fold_support_ok:
  assumes "index_ok index" "distinct cs"
  shows "index_ok (fold (add_support i) cs index)
    \<and> ids_of (fold (add_support i) cs index) c = ids_of index c @ (if c \<in> set cs then [i] else [])"
  using assms
proof (induction cs arbitrary: index)
  case (Cons d cs)
  then show ?case
    using add_support_ok [OF Cons.prems(1), of i d] Cons.IH [of "add_support i d index"] by auto
qed simp

definition CAUSES :: "string list" where
  "CAUSES =
     [''AUTOSCALING_MAX_REPLICAS'', ''CACHE_UNAVAILABLE'', ''CONCURRENCY_MEMORY_PRESSURE'', ''CPU_THROTTLING'',
      ''DATABASE_CONNECTION_EXHAUSTION'', ''INSUFFICIENT_CPU_REQUEST_CAPACITY'',
      ''INSUFFICIENT_MEMORY_REQUEST_CAPACITY'', ''MEMORY_LEAK'', ''MEMORY_LIMIT_BELOW_WORKING_SET'',
      ''METHOD_SPECIFIC_DECLINES'', ''NODE_PRESSURE_EVICTION'', ''PROCESSOR_LATENCY'',
      ''PROCESSOR_LATENCY_RATE_LIMIT'', ''PROCESSOR_SPECIFIC_DECLINES'', ''PROCESSOR_UNAVAILABLE'',
      ''READINESS_PROBE_FAILURE'', ''REGION_SPECIFIC_LATENCY'', ''STARTUP_FAILURE'',
      ''WEBHOOK_IDEMPOTENCY_CONFLICT'']"

lemma if_known: "x \<in> A \<Longrightarrow> (if b then {x} else {}) \<subseteq> A"
  by simp

lemma row_causes_known:
  "direct fromiso row resource \<subseteq> set CAUSES" "event_row a b c row \<subseteq> set CAUSES" "declined_pair p \<subseteq> set CAUSES"
  by (auto simp: direct_def event_row_def declined_pair_def Let_def CAUSES_def split: option.splits json.splits)

lemma memory_known:
  assumes "memory rows = Inr m"
  shows "m \<subseteq> set CAUSES"
proof -
  from assms obtain a b where "m = (if a then {''MEMORY_LEAK''} else {})
      \<union> (if b then {''CONCURRENCY_MEMORY_PRESSURE''} else {})
      \<union> (if list_ex (\<lambda>row. is_text ''OOMKilled'' (get_field row ''reason'')) rows
         then {''MEMORY_LIMIT_BELOW_WORKING_SET''} else {})"
    by (auto simp only: memory_def bindR_Inr_iff sum.inject)
  then show ?thesis by (simp only:) (intro Un_least if_known, simp_all add: CAUSES_def)
qed

lemma envelope_known:
  assumes "envelope_causes row = Inr m"
  shows "m \<subseteq> set CAUSES"
proof (cases "\<exists>attempts. get_field row ''attempts'' = Some (JArr attempts)")
  case True
  with assms obtain a b where "m = (if a then {''WEBHOOK_IDEMPOTENCY_CONFLICT''} else {})
      \<union> (if b then {''PROCESSOR_LATENCY_RATE_LIMIT''} else {})"
    by (auto simp only: envelope_causes_def bindR_Inr_iff sum.inject Let_def option.case json.case)
  then show ?thesis by (simp only:) (intro Un_least if_known, simp_all add: CAUSES_def)
next
  case False
  with assms show ?thesis by (simp add: envelope_causes_def split: option.splits json.splits)
qed

lemma supported_known:
  assumes "supported_causes fromiso v r = Inr causes"
  shows "causes \<subseteq> set CAUSES"
proof -
  have parts: "\<Union> (set (map (\<lambda>row. direct fromiso row r) (objects v))) \<subseteq> set CAUSES" "events (objects v) \<subseteq> set CAUSES"
    using row_causes_known(1,2) by (fastforce simp: events_def Let_def)+
  have "''CPU_THROTTLING'' \<in> set CAUSES" by (simp add: CAUSES_def)
  note if_known [OF this]
  with parts have "memory (objects v) = Inr m \<Longrightarrow> \<Union> (set (map (\<lambda>row. direct fromiso row r) (objects v)))
      \<union> events (objects v) \<union> m \<union> (if t then {''CPU_THROTTLING''} else {}) \<subseteq> set CAUSES" for m t
    using memory_known by (intro Un_least) simp_all
  then show ?thesis using assms by (auto simp only: supported_causes_def Let_def bindR_Inr_iff sum.inject)
qed

lemma slice_known:
  assumes "slice_causes v = Inr causes"
  shows "causes \<subseteq> set CAUSES"
proof -
  have "declines (objects v) = Inr found \<Longrightarrow> found \<subseteq> set CAUSES" for found
    using row_causes_known(3) by (fastforce simp: declines_def)
  moreover have "''REGION_SPECIFIC_LATENCY'' \<in> set CAUSES" "''PROCESSOR_LATENCY'' \<in> set CAUSES" by (simp_all add: CAUSES_def)
  ultimately have "declines (objects v) = Inr found \<Longrightarrow> found \<union> (if a then {''REGION_SPECIFIC_LATENCY''} else {})
      \<union> (if b then {''PROCESSOR_LATENCY''} else {}) \<subseteq> set CAUSES" for found a b by (intro Un_least if_known)
  then show ?thesis using assms by (auto simp only: slice_causes_def Let_def bindR_Inr_iff sum.inject)
qed

lemma http_known:
  assumes "http_causes v = Inr causes"
  shows "causes \<subseteq> set CAUSES"
proof -
  obtain found where found: "mapR envelope_causes (objects v) = Inr found" "causes = \<Union> (set found)"
    using assms by (auto simp: http_causes_def)
  have "m \<subseteq> set CAUSES" if "m \<in> set found" for m
  proof -
    from that obtain n where n: "n < length found" "m = found ! n" by (auto simp: in_set_conv_nth)
    then have "envelope_causes (objects v ! n) = Inr m"
      using found(1) by (simp add: mapR_Inr_iff list_all2_conv_all_nth)
    then show ?thesis by (rule envelope_known)
  qed
  then show ?thesis unfolding found(2) by blast
qed

lemma causes_vocabulary:
  assumes "observed_causes fromiso ob = Inr causes"
  shows "causes \<subseteq> set CAUSES"
proof -
  obtain i r v where ob: "ob = (i, r, v)" by (cases ob)
  from assms obtain a b c where parts: "supported_causes fromiso v r = Inr a" "slice_causes v = Inr b"
      "http_causes v = Inr c" "causes = a \<union> b \<union> c" by (auto simp: observed_causes_def ob)
  show ?thesis unfolding parts(4) 
    by (intro Un_least supported_known [OF parts(1)] slice_known [OF parts(2)] http_known [OF parts(3)])
qed

lemma causes_finite: "observed_causes fromiso ob = Inr causes \<Longrightarrow> finite causes"
  by (rule finite_subset [OF causes_vocabulary finite_set])

text \<open>The identifiers of the observations that support a cause, in the order of the input.\<close>

definition supporters :: "iso_reader \<Rightarrow> string \<Rightarrow> observation list \<Rightarrow> string list" where
  "supporters fromiso c obs =
     map fst (filter (\<lambda>ob. case observed_causes fromiso ob of Inr causes \<Rightarrow> c \<in> causes | Inl _ \<Rightarrow> False) obs)"

lemma collect_support_Inr:
  assumes "collect_support fromiso index obs = Inr index'" "index_ok index"
  shows "index_ok index' \<and> (\<forall>c. ids_of index' c = ids_of index c @ supporters fromiso c obs)
         \<and> (\<forall>ob \<in> set obs. \<exists>causes. observed_causes fromiso ob = Inr causes)"
  using assms
proof (induction obs arbitrary: index)
  case (Cons ob obs)
  then obtain causes where causes: "observed_causes fromiso ob = Inr causes"
    and rest: "collect_support fromiso (fold (add_support (fst ob)) (sorted_list_of_set causes) index) obs = Inr index'"
    by auto
  have fin: "finite causes" by (rule causes_finite [OF causes])
  have fold: "index_ok (fold (add_support (fst ob)) (sorted_list_of_set causes) index)"
    "ids_of (fold (add_support (fst ob)) (sorted_list_of_set causes) index) c
       = ids_of index c @ (if c \<in> causes then [fst ob] else [])" for c
    using fold_support_ok [OF Cons.prems(2), of "sorted_list_of_set causes" "fst ob" c] fin by auto
  from Cons.IH [OF rest fold(1)] causes fold(2) show ?case by (auto simp: supporters_def)
qed (simp add: supporters_def)

lemma ids_of_supporters: "collect_support fromiso [] obs = Inr index \<Longrightarrow>
    index_ok index \<and> (\<forall>c. ids_of index c = supporters fromiso c obs)"
  using collect_support_Inr [of fromiso "[]" obs index] by (simp add: index_ok_def ids_of_def)

lemma index_entry:
  assumes "index_ok index"
  shows "(c, ids) \<in> set index \<longleftrightarrow> ids = ids_of index c \<and> ids_of index c \<noteq> []"
proof
  assume entry: "(c, ids) \<in> set index"
  then have "map_of index c = Some ids" using assms by (simp add: index_ok_def)
  with entry assms show "ids = ids_of index c \<and> ids_of index c \<noteq> []" by (auto simp: ids_of_def index_ok_def)
next
  assume "ids = ids_of index c \<and> ids_of index c \<noteq> []"
  then show "(c, ids) \<in> set index" by (auto simp: ids_of_def dest: map_of_SomeD split: option.splits)
qed

text \<open>The memory limit is only a symptom when one of the specific mechanisms is in the index.\<close>

definition suppressed :: "iso_reader \<Rightarrow> observation list \<Rightarrow> string \<Rightarrow> bool" where
  "suppressed fromiso obs c \<longleftrightarrow>
     c = ''MEMORY_LIMIT_BELOW_WORKING_SET''
     \<and> (supporters fromiso ''MEMORY_LEAK'' obs \<noteq> [] \<or> supporters fromiso ''CONCURRENCY_MEMORY_PRESSURE'' obs \<noteq> [])"

lemma support_index_entries:
  assumes "support_index fromiso obs = Inr index"
  shows "(c, ids) \<in> set index \<longleftrightarrow>
           supporters fromiso c obs \<noteq> [] \<and> \<not> suppressed fromiso obs c \<and> ids = first_occurrences (supporters fromiso c obs)"
    and "sorted (map fst index)" and "distinct (map fst index)"
proof -
  obtain raw where raw: "collect_support fromiso [] obs = Inr raw"
    using assms by (auto simp: support_index_def)
  note ok = ids_of_supporters [OF raw]
  let ?specific = "list_ex (\<lambda>(cause, ids). cause \<in> {''MEMORY_LEAK'', ''CONCURRENCY_MEMORY_PRESSURE''}) raw"
  let ?kept = "filter (\<lambda>(cause, ids). \<not> (?specific \<and> cause = ''MEMORY_LIMIT_BELOW_WORKING_SET'')) raw"
  have index: "index = map (\<lambda>(cause, ids). (cause, first_occurrences ids)) (sort_key fst ?kept)"
    using assms raw by (simp add: support_index_def Let_def)
  have entry: "(c, ids) \<in> set raw \<longleftrightarrow> ids = supporters fromiso c obs \<and> ids \<noteq> []" for c ids
    using index_entry [of raw c ids] ok by auto
  have specific: "?specific \<longleftrightarrow> supporters fromiso ''MEMORY_LEAK'' obs \<noteq> []
      \<or> supporters fromiso ''CONCURRENCY_MEMORY_PRESSURE'' obs \<noteq> []"
    by (auto simp: list_ex_iff entry)
  show "(c, ids) \<in> set index \<longleftrightarrow>
           supporters fromiso c obs \<noteq> [] \<and> \<not> suppressed fromiso obs c \<and> ids = first_occurrences (supporters fromiso c obs)"
    unfolding index suppressed_def specific [symmetric] by (force simp: entry)
  have keys: "map fst index = map fst (sort_key fst ?kept)" unfolding index by (induction "sort_key fst ?kept") auto
  show "sorted (map fst index)" unfolding keys by simp
  show "distinct (map fst index)" unfolding keys
    using ok by (auto simp: index_ok_def distinct_map intro: inj_on_subset)
qed

section \<open>Properties\<close>

definition sample_observations :: "observation list" where
  "sample_observations =
     [(''ev-1'', ''payments-api'', JObj [(''dependency'', JStr ''redis''), (''outcome'', JStr ''unavailable'')]),
      (''ev-2'', ''payments-api'', JArr [JObj [(''archived'', JBool True), (''dependency'', JStr ''redis''),
                                             (''outcome'', JStr ''unavailable'')]])]"

lemma sample_causes:
  "observed_causes (\<lambda>_. None) (''ev-1'', ''payments-api'',
      JObj [(''dependency'', JStr ''redis''), (''outcome'', JStr ''unavailable'')]) = Inr {''CACHE_UNAVAILABLE''}"
  "observed_causes (\<lambda>_. None) (''ev-2'', ''payments-api'', JArr [JObj [(''archived'', JBool True),
      (''dependency'', JStr ''redis''), (''outcome'', JStr ''unavailable'')]]) = Inr {}"
  by (simp_all add: observed_causes_def supported_causes_def slice_causes_def http_causes_def direct_def events_def
      event_row_def memory_def declines_def envelope_causes_def is_text_def equals_int_def growth_def rising_def throttled_def
      number_def positive_def
      processor_latency_def call_durations_def span_texts_def region_latency_def latency_row_def labels_of_def
      duration_def int_field_def keys_def Let_def List.map_filter_def row_running_unready_def)

lemma sample_support: "support_index (\<lambda>_. None) sample_observations = Inr [(''CACHE_UNAVAILABLE'', [''ev-1''])]"
  by (simp add: support_index_def sample_observations_def sample_causes add_support_def first_occurrences_def)

text \<open>C40: The support index neither invents nor loses support. A cause is listed, once and in order, exactly
  when some observation's verified facts satisfy the predicate of that cause, with the exception that the
  memory-limit symptom disappears when a leak or concurrency pressure is listed. The identifiers
  of a cause are exactly those of the observations that satisfy it, each once, in the order of the
  observations. Every listed cause is one of the nineteen mechanisms.\<close>

theorem support_index_exact:
  assumes "support_index fromiso obs = Inr index"
  shows "((c, ids) \<in> set index \<longleftrightarrow>
           supporters fromiso c obs \<noteq> [] \<and> \<not> suppressed fromiso obs c
           \<and> ids = first_occurrences (supporters fromiso c obs))
    \<and> sorted (map fst index) \<and> distinct (map fst index) \<and> set (map fst index) \<subseteq> set CAUSES
    \<and> (i \<in> set (supporters fromiso c obs) \<longleftrightarrow>
         (\<exists>resource value causes. (i, resource, value) \<in> set obs
            \<and> observed_causes fromiso (i, resource, value) = Inr causes \<and> c \<in> causes))"
proof -
  have supports: "(case observed_causes fromiso ob of Inr causes \<Rightarrow> c \<in> causes | Inl _ \<Rightarrow> False) \<longleftrightarrow>
      (\<exists>causes. observed_causes fromiso ob = Inr causes \<and> c \<in> causes)" for ob c
    by (cases "observed_causes fromiso ob") simp_all
  have member: "i \<in> set (supporters fromiso c obs) \<longleftrightarrow>
      (\<exists>resource value causes. (i, resource, value) \<in> set obs
         \<and> observed_causes fromiso (i, resource, value) = Inr causes \<and> c \<in> causes)" for i c
    unfolding supporters_def supports by (auto simp: image_iff)
  have "c \<in> set CAUSES" if "c \<in> set (map fst index)" for c
  proof -
    from that obtain ids where "(c, ids) \<in> set index" by auto
    then obtain i where "i \<in> set (supporters fromiso c obs)"
      using support_index_entries(1) [OF assms] by (cases "supporters fromiso c obs") auto
    with member [of i c] causes_vocabulary show ?thesis by blast
  qed
  with support_index_entries [OF assms] member show ?thesis by blast
qed

theorem support_index_exact_witness:
  "support_index (\<lambda>_. None) sample_observations = Inr [(''CACHE_UNAVAILABLE'', [''ev-1''])]
   \<and> supporters (\<lambda>_. None) ''CACHE_UNAVAILABLE'' sample_observations \<noteq> []"
  using support_index_exact [OF sample_support, of "''CACHE_UNAVAILABLE''" "[''ev-1'']"] sample_support by auto

definition archived_attempt :: json where
  "archived_attempt =
     JObj [(''archived'', JBool True), (''http_status'', JInt 409), (''idempotency_conflict'', JBool True)]"

definition archived_counter :: "string \<Rightarrow> json" where
  "archived_counter usec =
     JObj [(''archived'', JBool True), (''cpu_max'', JStr ''100 200''), (''cpu_stat'', JStr (''throttled_usec '' @ usec))]"

lemma archived_counters_throttle:
  "throttled [(''before'', archived_counter ''1''), (''after'', archived_counter ''2'')] = Inr True"
  by code_simp

text \<open>An archived record is skipped when a value is walked, but not when its parent is read: an archived
  attempt inside a live envelope, and archived counters inside a live sample, still establish a cause,
  although the same records alone establish nothing. \<^verbatim>\<open>diagnostics.py\<close> says that archived
  records and their children are excluded.\<close>

theorem archived_children_still_count:
  "objects archived_attempt = [] \<and> objects (archived_counter usec) = []
   \<and> http_causes (JObj [(''role'', JStr ''webhook''), (''attempts'', JArr [archived_attempt])])
       = Inr {''WEBHOOK_IDEMPOTENCY_CONFLICT''}
   \<and> throttled [(''before'', archived_counter ''1''), (''after'', archived_counter ''2'')] = Inr True"
  by (simp add: archived_counters_throttle)
     (simp add: http_causes_def envelope_causes_def is_text_def objects_in_def equals_int_def archived_attempt_def
      archived_counter_def)

text \<open>A counter of superscript digits passes \<^verbatim>\<open>isdigit\<close> and makes \<^verbatim>\<open>int\<close> raise, so one such observation stops
  the whole index.\<close>

lemma superscript_digit_raises:
  "cpu_counter (Some (JStr (''throttled_usec '' @ [CHR 0xB2]))) = Inl (ValueError ''invalid literal for int()'')"
  by code_simp

end
