(* ===== verification/Context.thy ===== *)
theory Context
  imports Verification Diagnostics Baseline "HOL-Library.Multiset" "HOL-Library.Sublist"
begin

text \<open>
  The bounded model context: \<^verbatim>\<open>context.py\<close> and \<^verbatim>\<open>log_context.py\<close> of \<^verbatim>\<open>src/payops/evidence/\<close>.

  The environment holds the artifact store, the JSON reader of log lines, pydantic's dump of a payment
  window (without its inputs) and of a span (without its source), and the size of a context's JSON text. Everything else is computed: the facts of each source, the
  two orders, and the greedy selection under the character limit.

  Main facts: ordering is a permutation (\<open>ordered_perm\<close>), and a context holds distinct verified items of
  the incident with their own facts, within its size and item limits, and counts exactly what it leaves
  out (\<open>build_context_sound\<close>).
\<close>

section \<open>Contexts\<close>

record context_entry =
  ce_evidence :: evidence_item
  ce_facts :: "json_object option"
  ce_omitted :: bool

record reasoning_context =
  rx_entries :: "context_entry list"
  rx_omitted :: int

definition validate_context :: "reasoning_context \<Rightarrow> exn + reasoning_context" where
  "validate_context c =
     bindR (check (length (rx_entries c) \<le> 64 \<and> 0 \<le> rx_omitted c \<and> rx_omitted c \<le> 256) (ValueError ''field constraint''))
       (\<lambda>_. Inr c)"

definition context_ids :: "reasoning_context \<Rightarrow> string set" where
  "context_ids c = set (map (\<lambda>e. ev_id (ce_evidence e)) (rx_entries c))"

record context_env =
  cx_store :: evidence_store
  cx_window_json :: "payment_window \<Rightarrow> json_object"
  cx_span_json :: "trace_span \<Rightarrow> json_object"
  cx_loads :: "string \<Rightarrow> exn + json"
  cx_fromiso :: iso_reader
  cx_size :: "reasoning_context \<Rightarrow> nat"

fun PRIORITY :: "source \<Rightarrow> nat" where
  "PRIORITY PAYMENT = 0"
| "PRIORITY DEPLOYMENT = 1"
| "PRIORITY KUBERNETES = 2"
| "PRIORITY PROMETHEUS = 3"
| "PRIORITY TRACE = 4"
| "PRIORITY LOG = 5"
| "PRIORITY RUNBOOK = 6"
| "PRIORITY MEMORY = 7"

section \<open>Structured logs\<close>

definition log_record :: "context_env \<Rightarrow> string \<Rightarrow> exn + json" where
  "log_record env candidate =
     bindR (cx_loads env candidate) (\<lambda>v.
     bindR (check (unique_fields v) (ValueError ''duplicate structured log field'')) (\<lambda>_.
     case v of JObj kvs \<Rightarrow> Inr v | _ \<Rightarrow> Inl (ValueError ''expected object'')))"

definition is_unparsed :: "exn \<Rightarrow> bool" where
  "is_unparsed e \<longleftrightarrow> is_ValueError e \<or> e = RuntimeError ''RecursionError''"

fun log_lines_of :: "context_env \<Rightarrow> string list \<Rightarrow> exn + json list \<times> json list" where
  "log_lines_of env [] = Inr ([], [])"
| "log_lines_of env (line # lines) =
     (let (stamp, separated, content) = partition_blank line; raw = is_prefix ''{'' line in
      case log_record env (if raw then line else content) of
        Inl e \<Rightarrow>
          if is_unparsed e
          then bindR (log_lines_of env lines) (\<lambda>(records, unparsed). Inr (records, JStr line # unparsed))
          else Inl e
      | Inr parsed \<Rightarrow>
          bindR (log_lines_of env lines) (\<lambda>(records, unparsed).
          Inr (JObj [(''record'', parsed), (''log_timestamp'', if raw then JNull else JStr stamp)] # records, unparsed)))"

definition log_context :: "context_env \<Rightarrow> json_object \<Rightarrow> exn + json_object" where
  "log_context env payload =
     (case get_field payload ''lines'' of
        Some (JStr lines) \<Rightarrow>
          bindR (log_lines_of env (splitlines lines)) (\<lambda>(records, unparsed).
          Inr (set_field (set_field (set_field (filter (\<lambda>(k, v). k \<noteq> ''lines'') payload)
                 ''records'' (JArr records)) ''unparsed_lines'' (JArr unparsed))
                 ''projection'' (JStr ''structured_log_lines_v1'')))
      | _ \<Rightarrow> Inr payload)"

section \<open>Facts\<close>

definition payload_of :: "json_object \<Rightarrow> exn + json_object" where
  "payload_of env = (case get_field env ''payload'' of Some (JObj p) \<Rightarrow> Inr p | _ \<Rightarrow> Inl (ValueError ''expected object''))"

definition facts_of :: "context_env \<Rightarrow> bool \<Rightarrow> evidence_item \<Rightarrow> exn + json_object" where
  "facts_of env structured_logs item =
     (let st = cx_store env in
      if ev_source item = PAYMENT then
        bindR (verify_payment_window st item) (\<lambda>window.
        Inr (set_field (cx_window_json env window) ''input_evidence_ids''
               (JArr [JStr (ev_id (fst (pw_inputs window))), JStr (ev_id (snd (pw_inputs window)))])))
      else if ev_source item = TRACE then
        bindR (verify_trace_span st item) (\<lambda>span.
        Inr (set_field (cx_span_json env span) ''source_evidence_id'' (JStr (ev_id (tp_source span)))))
      else if ev_source item \<in> {RUNBOOK, MEMORY} then
        bindR (verify_retrieval_evidence st item) (\<lambda>lineage.
        Inr [(''retrieval_only'', JBool True), (''source_evidence_id'', JStr (ev_id (li_source lineage))),
             (''original_summary'', JStr (ev_summary (li_source lineage))),
             (''retrieved_at'', JStr (isoformat (li_retrieved lineage)))])
      else
        bindR (store_verify st item) (\<lambda>envelope.
        bindR (payload_of envelope) (\<lambda>payload.
        if ev_source item = LOG \<and> structured_logs then log_context env payload else Inr payload)))"

section \<open>Order\<close>

definition is_retrieved :: "evidence_item \<Rightarrow> bool" where
  "is_retrieved item \<longleftrightarrow> ev_source item \<in> {MEMORY, RUNBOOK}"

definition recency_key ::
  "string set \<Rightarrow> string set \<Rightarrow> evidence_item \<Rightarrow> bool \<times> bool \<times> bool \<times> int \<times> nat \<times> string" where
  "recency_key preferred signaled item =
     (ev_id item \<notin> signaled, ev_id item \<notin> preferred, is_retrieved item, - ev_observed item,
      PRIORITY (ev_source item), ev_id item)"

type_synonym depth_counts = "(source \<times> string) \<Rightarrow> nat"

fun with_depth :: "depth_counts \<Rightarrow> nat \<Rightarrow> evidence_item list \<Rightarrow> ((nat \<times> nat) \<times> evidence_item) list" where
  "with_depth counts index [] = []"
| "with_depth counts index (item # items) =
     (let group = (ev_source item, ev_resource item); depth = counts group in
      ((depth, index), item) # with_depth (counts(group := depth + 1)) (index + 1) items)"

definition ordered ::
  "evidence_item list \<Rightarrow> bool \<Rightarrow> string set \<Rightarrow> string set \<Rightarrow> evidence_item list" where
  "ordered evidence recent preferred signaled =
     (if \<not> recent then sort_key (\<lambda>item. PRIORITY (ev_source item)) evidence
      else map snd (sort_key fst (with_depth (\<lambda>_. 0) 0 (sort_key (recency_key preferred signaled) evidence))))"

section \<open>Selection\<close>

definition extend_context :: "context_env \<Rightarrow> nat \<Rightarrow> reasoning_context \<Rightarrow> context_entry \<Rightarrow> exn + reasoning_context" where
  "extend_context env limit bundle entry =
     (let extended = (\<lambda>e. validate_context (bundle\<lparr>rx_entries := rx_entries bundle @ [e], rx_omitted := rx_omitted bundle - 1\<rparr>)) in
      bindR (extended entry) (\<lambda>full.
      if cx_size env full \<le> limit then Inr full
      else bindR (extended (entry\<lparr>ce_facts := None, ce_omitted := True\<rparr>)) (\<lambda>bare.
           Inr (if cx_size env bare \<le> limit then bare else bundle))))"

fun select_entries ::
  "context_env \<Rightarrow> nat \<Rightarrow> nat \<Rightarrow> (string \<times> json_object) list \<Rightarrow> reasoning_context \<Rightarrow> evidence_item list
     \<Rightarrow> exn + reasoning_context" where
  "select_entries env max_characters max_items facts result [] = Inr result"
| "select_entries env max_characters max_items facts result (item # items) =
     (if length (rx_entries result) \<ge> max_items then Inr result
      else bindR (of_option (KeyError (ev_id item)) (map_of facts (ev_id item))) (\<lambda>f.
           bindR (extend_context env max_characters result
                    \<lparr>ce_evidence = item, ce_facts = Some f, ce_omitted = False\<rparr>) (\<lambda>result'.
           select_entries env max_characters max_items facts result' items)))"

definition verify_context :: "context_env \<Rightarrow> string \<Rightarrow> evidence_item \<Rightarrow> exn + unit" where
  "verify_context env incident_id item =
     bindR (check (\<not> (ev_incident item \<noteq> incident_id)) (EvidenceIntegrityError ''context incident mismatch'')) (\<lambda>_.
     verify_evidence (cx_store env) item)"

definition signaled_ids ::
  "context_env \<Rightarrow> (string \<times> json_object) list \<Rightarrow> evidence_item list \<Rightarrow> exn + string set" where
  "signaled_ids env facts evidence =
     bindR (mapR (\<lambda>item. bindR (of_option (KeyError (ev_id item)) (map_of facts (ev_id item))) (\<lambda>f.
                         Inr (ev_id item, ev_resource item, JObj f)))
              (filter (\<lambda>item. \<not> is_retrieved item) evidence)) (\<lambda>observations.
     bindR (support_index (cx_fromiso env) observations) (\<lambda>signals.
     Inr (set (concat (map snd signals)))))"

definition build_context ::
  "context_env \<Rightarrow> evidence_item list \<Rightarrow> string \<Rightarrow> nat \<Rightarrow> nat \<Rightarrow> bool \<Rightarrow> string set \<Rightarrow> exn + reasoning_context" where
  "build_context env evidence incident_id max_characters max_items recent_first preferred_ids =
     bindR (check (128 \<le> max_characters \<and> max_characters \<le> 24000 \<and> max_items \<le> 64 \<and> length evidence \<le> 256)
              (ValueError ''context budget outside bounds'')) (\<lambda>_.
     bindR (check (no_duplicates (map ev_id evidence)) (EvidenceIntegrityError ''duplicate context evidence'')) (\<lambda>_.
     bindR (each (verify_context env incident_id) evidence) (\<lambda>_.
     bindR (validate_context \<lparr>rx_entries = [], rx_omitted = int (length evidence)\<rparr>) (\<lambda>initial.
     bindR (mapR (\<lambda>item. bindR (facts_of env recent_first item) (\<lambda>f. Inr (ev_id item, f))) evidence) (\<lambda>facts.
     bindR (if recent_first then signaled_ids env facts evidence else Inr {}) (\<lambda>signaled.
     select_entries env max_characters max_items facts initial
       (ordered evidence recent_first preferred_ids signaled)))))))"

section \<open>Facts\<close>

lemma with_depth_snd: "map snd (with_depth counts index items) = items"
  by (induction items arbitrary: counts index) (simp_all add: Let_def)

text \<open>Ordering neither drops nor repeats an item.\<close>

lemma ordered_perm: "mset (ordered evidence recent preferred signaled) = mset evidence"
proof -
  have "mset (map snd (sort_key fst (with_depth c n items))) = mset items" for c n items
    by (metis mset_map mset_sort with_depth_snd)
  then show ?thesis by (simp add: ordered_def)
qed

lemma ordered_set: "set (ordered evidence recent preferred signaled) = set evidence"
  using ordered_perm mset_eq_setD by blast

lemma ordered_distinct:
  "distinct (map ev_id evidence) \<Longrightarrow> distinct (map ev_id (ordered evidence recent preferred signaled))"
  using mset_eq_imp_distinct_iff [of "map ev_id (ordered evidence recent preferred signaled)" "map ev_id evidence"]
  by (simp add: ordered_perm)

definition entry_ok :: "(string \<times> json_object) list \<Rightarrow> context_entry \<Rightarrow> bool" where
  "entry_ok facts e \<longleftrightarrow>
     (if ce_omitted e then ce_facts e = None
      else \<exists>f. map_of facts (ev_id (ce_evidence e)) = Some f \<and> ce_facts e = Some f)"

text \<open>The invariant of the selection: entries come from what was tried, in order, and the count of what is
  left out goes down with every entry.\<close>

definition selecting ::
  "context_env \<Rightarrow> nat \<Rightarrow> nat \<Rightarrow> (string \<times> json_object) list \<Rightarrow> evidence_item list \<Rightarrow> int \<Rightarrow> reasoning_context \<Rightarrow> bool" where
  "selecting env limit max_items facts tried n_items c \<longleftrightarrow>
     subseq (map ce_evidence (rx_entries c)) tried \<and> length (rx_entries c) \<le> max_items
     \<and> rx_omitted c = n_items - int (length (rx_entries c)) \<and> list_all (entry_ok facts) (rx_entries c)
     \<and> (rx_entries c = [] \<or> cx_size env c \<le> limit)"

lemma extend_context_Inr:
  assumes "extend_context env limit c entry = Inr c'"
  shows "c' = c \<or> (\<exists>e. c' = c\<lparr>rx_entries := rx_entries c @ [e], rx_omitted := rx_omitted c - 1\<rparr> \<and> cx_size env c' \<le> limit
           \<and> (e = entry \<or> e = entry\<lparr>ce_facts := None, ce_omitted := True\<rparr>))"
  using assms by (auto simp: extend_context_def validate_context_def Let_def split: if_splits)

lemma selecting_step:
  assumes "selecting env limit max_items facts tried n_items c" "length (rx_entries c) < max_items"
    and "map_of facts (ev_id item) = Some f"
    and "extend_context env limit c \<lparr>ce_evidence = item, ce_facts = Some f, ce_omitted = False\<rparr> = Inr c'"
  shows "selecting env limit max_items facts (tried @ [item]) n_items c'"
proof -
  have sub: "subseq xs (tried @ [item])" if "subseq xs tried" for xs
    using list_emb_append_mono [OF that, of "[]" "[item]"] by simp
  from extend_context_Inr [OF assms(4)] show ?thesis
  proof (elim disjE exE conjE)
    assume "c' = c"
    with assms(1) sub show ?thesis by (auto simp: selecting_def)
  next
    fix e
    assume c': "c' = c\<lparr>rx_entries := rx_entries c @ [e], rx_omitted := rx_omitted c - 1\<rparr>" "cx_size env c' \<le> limit"
      and e: "e = \<lparr>ce_evidence = item, ce_facts = Some f, ce_omitted = False\<rparr>"
    with assms show ?thesis by (auto simp: selecting_def entry_ok_def)
  next
    fix e
    assume c': "c' = c\<lparr>rx_entries := rx_entries c @ [e], rx_omitted := rx_omitted c - 1\<rparr>" "cx_size env c' \<le> limit"
      and e: "e = \<lparr>ce_evidence = item, ce_facts = Some f, ce_omitted = False\<rparr>\<lparr>ce_facts := None, ce_omitted := True\<rparr>"
    with assms show ?thesis by (auto simp: selecting_def entry_ok_def)
  qed
qed

lemma select_entries_Inr:
  assumes "select_entries env limit max_items facts c items = Inr c'" "selecting env limit max_items facts tried n_items c"
  shows "\<exists>tried'. selecting env limit max_items facts tried' n_items c' \<and> subseq tried' (tried @ items)"
  using assms
proof (induction items arbitrary: c tried)
  case Nil
  then show ?case by auto
next
  case (Cons item items)
  show ?case
  proof (cases "length (rx_entries c) \<ge> max_items")
    case True
    with Cons.prems have "c' = c" by simp
    moreover have "subseq tried (tried @ item # items)"
      using list_emb_append_mono [of "(=)" tried tried "[]" "item # items"] by simp
    ultimately show ?thesis using Cons.prems(2) by blast
  next
    case False
    with Cons.prems(1) obtain f c1 where f: "map_of facts (ev_id item) = Some f"
      and c1: "extend_context env limit c \<lparr>ce_evidence = item, ce_facts = Some f, ce_omitted = False\<rparr> = Inr c1"
      and rest: "select_entries env limit max_items facts c1 items = Inr c'" by auto
    have "selecting env limit max_items facts (tried @ [item]) n_items c1"
      by (rule selecting_step [OF Cons.prems(2) _ f c1]) (use False in simp)
    from Cons.IH [OF rest this] show ?thesis by simp
  qed
qed
lemma facts_of_each:
  assumes "mapR (\<lambda>item. bindR (facts_of env recent item) (\<lambda>f. Inr (ev_id item, f))) evidence = Inr facts"
    and "distinct (map ev_id evidence)" "item \<in> set evidence" "map_of facts (ev_id item) = Some f"
  shows "facts_of env recent item = Inr f"
  using assms
proof (induction evidence arbitrary: facts)
  case (Cons x xs)
  then have "x = item" if "ev_id x = ev_id item" using that by (auto simp: image_iff)
  with Cons show ?case by (cases "ev_id x = ev_id item") auto
qed simp

lemma selecting_initial:
  "selecting env limit max_items facts [] n \<lparr>rx_entries = [], rx_omitted = n\<rparr>"
  by (simp add: selecting_def)

lemma build_context_Inr:
  assumes "build_context env evidence i max_chars max_items recent preferred = Inr c"
  obtains facts signaled where "distinct (map ev_id evidence)"
    "\<forall>item \<in> set evidence. ev_incident item = i \<and> verify_evidence (cx_store env) item = Inr ()"
    "mapR (\<lambda>item. bindR (facts_of env recent item) (\<lambda>f. Inr (ev_id item, f))) evidence = Inr facts"
    "select_entries env max_chars max_items facts \<lparr>rx_entries = [], rx_omitted = int (length evidence)\<rparr>
       (ordered evidence recent preferred signaled) = Inr c"
  using assms by (auto simp: build_context_def verify_context_def validate_context_def)

text \<open>C39: A model context says exactly what it holds and what it leaves out. When a context is built, every
  evidence item handed in, those left out included, belongs to the incident and verifies against the
  store. The entries are distinct items of that evidence, at most the item limit. An entry either carries the
  facts derived from its own artifact or is marked as having none. The omitted count is the number of items
  without an entry. A context with any entry is within the character limit.\<close>

theorem build_context_sound:
  assumes "build_context env evidence i max_chars max_items recent preferred = Inr c"
  shows "(\<forall>item \<in> set evidence. ev_incident item = i \<and> verify_evidence (cx_store env) item = Inr ())
    \<and> distinct (map (\<lambda>e. ev_id (ce_evidence e)) (rx_entries c))
    \<and> ce_evidence ` set (rx_entries c) \<subseteq> set evidence
    \<and> (\<forall>e \<in> set (rx_entries c). if ce_omitted e then ce_facts e = None
           else \<exists>f. ce_facts e = Some f \<and> facts_of env recent (ce_evidence e) = Inr f)
    \<and> length (rx_entries c) \<le> max_items
    \<and> rx_omitted c = int (card (set evidence - ce_evidence ` set (rx_entries c)))
    \<and> (rx_entries c = [] \<or> cx_size env c \<le> max_chars)"
proof (intro conjI)
  from assms obtain facts signaled where d: "distinct (map ev_id evidence)"
    and v: "\<forall>item \<in> set evidence. ev_incident item = i \<and> verify_evidence (cx_store env) item = Inr ()"
    and m: "mapR (\<lambda>item. bindR (facts_of env recent item) (\<lambda>f. Inr (ev_id item, f))) evidence = Inr facts"
    and s: "select_entries env max_chars max_items facts \<lparr>rx_entries = [], rx_omitted = int (length evidence)\<rparr>
       (ordered evidence recent preferred signaled) = Inr c"
    by (rule build_context_Inr)
  from select_entries_Inr [OF s selecting_initial] obtain tried
    where sel: "selecting env max_chars max_items facts tried (int (length evidence)) c"
      and tried: "subseq tried (ordered evidence recent preferred signaled)" by auto
  have sub: "subseq (map ce_evidence (rx_entries c)) (ordered evidence recent preferred signaled)"
    using sel tried by (auto simp: selecting_def intro: subseq_order.trans)
  have "distinct (map ev_id (map ce_evidence (rx_entries c)))"
    using subseq_map [OF sub, of ev_id] ordered_distinct [OF d] by (metis distinct_nthsI subseq_conv_nths)
  then show ids: "distinct (map (\<lambda>e. ev_id (ce_evidence e)) (rx_entries c))" by (simp add: comp_def)
  show within: "ce_evidence ` set (rx_entries c) \<subseteq> set evidence"
    using list_emb_set [OF sub] by (auto simp: ordered_set)
  show "\<forall>e \<in> set (rx_entries c). if ce_omitted e then ce_facts e = None
           else \<exists>f. ce_facts e = Some f \<and> facts_of env recent (ce_evidence e) = Inr f"
    using sel within facts_of_each [OF m d] by (fastforce simp: selecting_def entry_ok_def list_all_iff)
  have "card (ce_evidence ` set (rx_entries c)) = length (rx_entries c)"
    using ids by (metis (no_types, lifting) comp_apply distinct_card distinct_map length_map list.set_map map_map list.map_cong0)
  moreover have "card (set evidence) = length evidence" using d by (simp add: distinct_map distinct_card)
  moreover have "length (rx_entries c) \<le> length evidence"
    using calculation within by (metis card_mono finite_set)
  ultimately show "rx_omitted c = int (card (set evidence - ce_evidence ` set (rx_entries c)))"
    using sel within by (simp add: selecting_def card_Diff_subset of_nat_diff)
qed (use assms in \<open>auto elim!: build_context_Inr dest!: select_entries_Inr [OF _ selecting_initial] simp: selecting_def\<close>)

text \<open>One verified deployment observation, in a context that has room for its metadata and not its payload.\<close>

definition sample_context_env :: context_env where
  "sample_context_env =
     \<lparr>cx_store = \<lparr>st_files = st_files sample_baseline_store, st_decode = st_decode sample_baseline_store,
                  st_window = (\<lambda>_. Inl (ValueError ''none'')), st_trace_log = (\<lambda>_. Inl (ValueError ''none'')),
                  st_trace_span = (\<lambda>_. Inl (ValueError ''none'')), st_lineage = (\<lambda>_. Inl (ValueError ''none''))\<rparr>,
      cx_window_json = (\<lambda>_. []), cx_span_json = (\<lambda>_. []), cx_loads = (\<lambda>_. Inl (ValueError ''none'')), cx_fromiso = (\<lambda>_. None),
      cx_size = (\<lambda>c. sum_list (map (\<lambda>e. if ce_omitted e then 100 else 200) (rx_entries c)))\<rparr>"

lemma sample_context_verified:
  "store_verify (cx_store sample_context_env) sample_deployment_item =
     Inr [(''evidence'', evidence_json sample_deployment_item), (''payload'', JObj sample_degraded)]"
  "verify_evidence (cx_store sample_context_env) sample_deployment_item = Inr ()"
proof -
  show v: "store_verify (cx_store sample_context_env) sample_deployment_item =
     Inr [(''evidence'', evidence_json sample_deployment_item), (''payload'', JObj sample_degraded)]"
    using sample_deployment_verifies by (simp add: store_verify_iff sample_context_env_def)
  then show "verify_evidence (cx_store sample_context_env) sample_deployment_item = Inr ()"
    by (simp add: verify_evidence_Inr source_chain_def) (simp add: sample_deployment_item_def)
qed

lemma sample_context_facts:
  "facts_of sample_context_env recent sample_deployment_item = Inr sample_degraded"
proof -
  have "ev_source sample_deployment_item = DEPLOYMENT" by (simp add: sample_deployment_item_def)
  then show ?thesis by (simp add: facts_of_def sample_context_verified payload_of_def)
qed

lemma sample_context_built:
  "build_context sample_context_env [sample_deployment_item] ''inc-1'' 128 4 False {} =
     Inr \<lparr>rx_entries = [\<lparr>ce_evidence = sample_deployment_item, ce_facts = None, ce_omitted = True\<rparr>], rx_omitted = 0\<rparr>"
proof -
  have "ev_incident sample_deployment_item = ''inc-1''" by (simp add: sample_deployment_item_def)
  moreover have "cx_size sample_context_env c = sum_list (map (\<lambda>e. if ce_omitted e then 100 else 200) (rx_entries c))" for c
    by (simp add: sample_context_env_def)
  ultimately show ?thesis
    by (simp add: build_context_def verify_context_def sample_context_verified validate_context_def
        sample_context_facts ordered_def extend_context_def)
qed

theorem build_context_sound_witness:
  "\<exists>c e. build_context sample_context_env [sample_deployment_item] ''inc-1'' 128 4 False {} = Inr c
     \<and> rx_entries c = [e] \<and> ce_omitted e \<and> ce_facts e = None \<and> rx_omitted c = 0 \<and> cx_size sample_context_env c \<le> 128"
  using build_context_sound [OF sample_context_built] sample_context_built by simp

text \<open>The projection of a log keeps every line, as a record or as text.\<close>

lemma log_lines_kept:
  "log_lines_of env lines = Inr (records, unparsed) \<Longrightarrow> length records + length unparsed = length lines"
  by (induction lines arbitrary: records unparsed)
     (auto simp: Let_def split: sum.splits prod.splits if_splits)

end
