(* ===== verification/Receipts.thy ===== *)
theory Receipts
  imports Lifecycle ModelRuntime Registry Context
begin

text \<open>
  The world of a reasoning loop and its durable records: \<^verbatim>\<open>src/payops/orchestrator/loop_records.py\<close>.

  The world is the SQL ledger, the artifact files and the model runtime, with a clock of ticks: every
  call out of the process takes one tick, at which it may fail, and before a call to the artifact store other
  parties may have changed any file. \<open>lo_calls\<close> is a record, kept only for the theorems, of the provider
  calls and the batches of reader calls. Pydantic's dump and validation of a receipt are a \<open>codec\<close>
  of the environment.

  Main facts: the calls of a history are covered by distinct charges of the ledger (\<open>advances\<close>), which
  all operations keep; a restored value comes from bytes with the digest asked for (\<open>restore_Inr\<close>).
\<close>

section \<open>Records\<close>

record prepared_turn =
  pt_run :: string
  pt_operation :: string
  pt_binding :: string
  pt_context :: reasoning_context
  pt_prompt :: model_prompt

record model_receipt =
  mr_run :: string
  mr_operation :: string
  mr_prompt :: string
  mr_observation :: model_observation

record read_receipt =
  rr_run :: string
  rr_operation :: string
  rr_results :: "read_result list"

definition validate_turn :: "prepared_turn \<Rightarrow> exn + prepared_turn" where
  "validate_turn t =
     bindR (check (is_identifier (pt_run t) \<and> is_identifier (pt_operation t) \<and> is_digest (pt_binding t)
                   \<and> list_all (\<lambda>e. valid_evidence_item (ce_evidence e)) (rx_entries (pt_context t))) invalid) (\<lambda>_.
     bindR (validate_context (pt_context t)) (\<lambda>_.
     bindR (validate_prompt (pt_prompt t)) (\<lambda>_. Inr t)))"

definition validate_model_receipt :: "model_receipt \<Rightarrow> exn + model_receipt" where
  "validate_model_receipt m =
     bindR (check (is_identifier (mr_run m) \<and> is_identifier (mr_operation m) \<and> is_digest (mr_prompt m)) invalid) (\<lambda>_.
     bindR (validate_observation (mr_observation m)) (\<lambda>_. Inr m))"

definition valid_read_result :: "read_result \<Rightarrow> bool" where
  "valid_read_result r \<longleftrightarrow>
     valid_read_request (re_request r) \<and> length (re_evidence r) \<le> 64 \<and> list_all valid_evidence_item (re_evidence r)"

definition validate_read_receipt :: "read_receipt \<Rightarrow> exn + read_receipt" where
  "validate_read_receipt r =
     bindR (check (is_identifier (rr_run r) \<and> is_identifier (rr_operation r) \<and> 1 \<le> length (rr_results r)
                   \<and> length (rr_results r) \<le> 2 \<and> list_all valid_read_result (rr_results r)) invalid) (\<lambda>_.
     Inr r)"

section \<open>Environment and world\<close>

record 'a codec =
  cd_dump :: "'a \<Rightarrow> json_object"
  cd_load :: "string \<Rightarrow> exn + 'a"

type_synonym files = "string \<Rightarrow> string option"

record loop_env =
  lv_context :: context_env
  lv_model :: model_env
  lv_reads :: "nat \<Rightarrow> read_env"
  lv_fault :: "nat \<Rightarrow> exn option"
  lv_outside :: "nat \<Rightarrow> files \<Rightarrow> files"
  lv_lock :: "nat \<Rightarrow> bool"
  lv_turn :: "prepared_turn codec"
  lv_model_receipt :: "model_receipt codec"
  lv_read_receipt :: "read_receipt codec"
  lv_loads :: "string \<Rightarrow> exn + json"
  lv_decision_json :: "reasoning_decision \<Rightarrow> string"
  lv_schema :: string
  lv_catalog :: json
  lv_incident_json :: "incident \<Rightarrow> json"
  lv_context_json :: "reasoning_context \<Rightarrow> json"
  lv_settings_json :: "model_settings \<Rightarrow> json"

text \<open>A provider call has no requests; a batch of reader calls has at least one.\<close>

record loop_call =
  lc_run :: string
  lc_operation :: string
  lc_reads :: "read_request list"

record loop_world =
  lo_tick :: nat
  lo_db :: budget_db
  lo_files :: files
  lo_runtime :: model_state
  lo_calls :: "loop_call list"

text \<open>The fields of \<^verbatim>\<open>LoopSession\<close> that change; a completed read is kept as its request, whose JSON
  text the code keeps.\<close>

record loop_session = loop_world +
  ls_evidence :: "evidence_item list"
  ls_receipts :: "string list"
  ls_feedback :: "(string \<times> string) list list"
  ls_exhausted :: bool
  ls_completed :: "read_request set"
  ls_preferred :: "string set"

section \<open>Calls out of the process\<close>

definition after_tick :: "loop_env \<Rightarrow> ('r loop_world_scheme, 'a) prog \<Rightarrow> ('r loop_world_scheme, 'a) prog" where
  "after_tick env m s =
     (let s' = s\<lparr>lo_tick := Suc (lo_tick s)\<rparr> in
      case lv_fault env (lo_tick s) of Some e \<Rightarrow> (Inl e, s') | None \<Rightarrow> m s')"

definition on_db :: "loop_env \<Rightarrow> (budget_db, 'a) prog \<Rightarrow> ('r loop_world_scheme, 'a) prog" where
  "on_db env m = after_tick env (\<lambda>s. let (x, db) = m (lo_db s) in (x, s\<lparr>lo_db := db\<rparr>))"

definition on_store ::
  "loop_env \<Rightarrow> (evidence_store \<Rightarrow> exn + 'a \<times> evidence_store) \<Rightarrow> ('r loop_world_scheme, 'a) prog" where
  "on_store env f = after_tick env (\<lambda>s.
     let files = lv_outside env (lo_tick s) (lo_files s) in
     case f ((cx_store (lv_context env))\<lparr>st_files := files\<rparr>) of
       Inl e \<Rightarrow> (Inl e, s\<lparr>lo_files := files\<rparr>)
     | Inr (x, st) \<Rightarrow> (Inr x, s\<lparr>lo_files := st_files st\<rparr>))"

definition on_runtime :: "loop_env \<Rightarrow> (model_state, 'a) prog \<Rightarrow> ('r loop_world_scheme, 'a) prog" where
  "on_runtime env m = after_tick env (\<lambda>s. let (x, r) = m (lo_runtime s) in (x, s\<lparr>lo_runtime := r\<rparr>))"

text \<open>Verification and the building of a context only read the store.\<close>

definition reading :: "(evidence_store \<Rightarrow> exn + 'a) \<Rightarrow> evidence_store \<Rightarrow> exn + 'a \<times> evidence_store" where
  "reading f st = bindR (f st) (\<lambda>x. Inr (x, st))"

section \<open>Durable records\<close>

definition retain :: "loop_env \<Rightarrow> json_object \<Rightarrow> ('r loop_world_scheme, string) prog" where
  "retain env payload =
     on_store env (\<lambda>st. bindR (store_write st payload) (\<lambda>((uri, digest), st'). Inr (digest, st')))"

definition restored :: "'a codec \<Rightarrow> ('a \<Rightarrow> exn + 'a) \<Rightarrow> string \<Rightarrow> evidence_store \<Rightarrow> exn + 'a" where
  "restored codec validate digest st =
     (case bindR (store_read st digest) (\<lambda>content. bindR (cd_load codec content) validate) of
        Inl e \<Rightarrow> Inl (if is_OSError e \<or> is_ValueError e
                      then EvidenceIntegrityError ''reasoning artifact unavailable or invalid'' else e)
      | Inr v \<Rightarrow> Inr v)"

definition restore ::
  "loop_env \<Rightarrow> 'a codec \<Rightarrow> ('a \<Rightarrow> exn + 'a) \<Rightarrow> string \<Rightarrow> ('r loop_world_scheme, 'a) prog" where
  "restore env codec validate digest = on_store env (reading (restored codec validate digest))"

definition get_budget :: "loop_env \<Rightarrow> string \<Rightarrow> ('r loop_world_scheme, budget_record) prog" where
  "get_budget env run = on_db env (\<lambda>db. (budget_get db run, db))"

definition find_completion :: "loop_env \<Rightarrow> string \<Rightarrow> string \<Rightarrow> ('r loop_world_scheme, string option) prog" where
  "find_completion env run operation =
     bindP (get_budget env run) (\<lambda>r.
     returnP (map_option co_artifact (find (\<lambda>c. co_operation c = operation) (br_completions r))))"

definition publish_receipt :: "loop_env \<Rightarrow> json_object \<Rightarrow> string \<Rightarrow> string \<Rightarrow> ('r loop_world_scheme, string) prog" where
  "publish_receipt env payload run operation =
     bindP (retain env payload) (\<lambda>digest.
     bindP (get_budget env run) (\<lambda>r.
     bindP (on_db env (budget_complete r operation digest)) (\<lambda>_.
     returnP digest)))"

section \<open>Calls and their charges\<close>

definition call_key :: "loop_call \<Rightarrow> string \<times> string" where
  "call_key c = (lc_run c, lc_operation c)"

definition is_charged :: "budget_db \<Rightarrow> string \<times> string \<Rightarrow> bool" where
  "is_charged db k \<longleftrightarrow> (\<exists>r. db (fst k) = Some (Dump r) \<and> snd k \<in> charge_operation ` set (br_charges r))"

fun covers :: "charge \<Rightarrow> loop_call \<Rightarrow> bool" where
  "covers (Model_charge m) c \<longleftrightarrow> lc_reads c = []"
| "covers (Read_charge q) c \<longleftrightarrow> lc_reads c \<noteq> [] \<and> subseq (lc_reads c) (rc_requests q)"

definition covered :: "budget_db \<Rightarrow> loop_call \<Rightarrow> bool" where
  "covered db c \<longleftrightarrow>
     (\<exists>r ch. db (lc_run c) = Some (Dump r) \<and> ch \<in> set (br_charges r) \<and> charge_operation ch = lc_operation c \<and> covers ch c)"

lemma covered_charged: "covered db c \<Longrightarrow> is_charged db (call_key c)"
  unfolding covered_def is_charged_def call_key_def by (auto simp: image_iff) metis

lemma charged_mono: "budget_step\<^sup>*\<^sup>* db db' \<Longrightarrow> is_charged db k \<Longrightarrow> is_charged db' k"
  by (fastforce simp: is_charged_def grows_def dest: budget_steps_grow)

lemma covered_mono: "budget_step\<^sup>*\<^sup>* db db' \<Longrightarrow> covered db c \<Longrightarrow> covered db' c"
  by (fastforce simp: covered_def grows_def dest: budget_steps_grow)

text \<open>The ledger only takes its own steps, and every new call is for an operation that was not charged before
  and is covered by a charge afterwards, no two for the same operation.\<close>

definition advanced :: "budget_db \<times> loop_call list \<Rightarrow> budget_db \<times> loop_call list \<Rightarrow> bool" where
  "advanced p q \<longleftrightarrow>
     budget_step\<^sup>*\<^sup>* (fst p) (fst q)
     \<and> (\<exists>new. snd q = snd p @ new \<and> distinct (map call_key new)
          \<and> (\<forall>c \<in> set new. \<not> is_charged (fst p) (call_key c) \<and> covered (fst q) c))"

definition account :: "'r loop_world_scheme \<Rightarrow> budget_db \<times> loop_call list" where
  "account w = (lo_db w, lo_calls w)"

definition advances :: "'r loop_world_scheme \<Rightarrow> 'r loop_world_scheme \<Rightarrow> bool" where
  "advances w w' \<longleftrightarrow> advanced (account w) (account w')"

lemma advanced_quiet: "budget_step\<^sup>*\<^sup>* db db' \<Longrightarrow> advanced (db, cs) (db', cs)"
  by (simp add: advanced_def)

lemma advanced_trans:
  assumes "advanced p q" "advanced q r"
  shows "advanced p r"
proof -
  from assms obtain new new' where
      q: "budget_step\<^sup>*\<^sup>* (fst p) (fst q)" "snd q = snd p @ new" "distinct (map call_key new)"
         "\<forall>c \<in> set new. \<not> is_charged (fst p) (call_key c) \<and> covered (fst q) c"
    and r: "budget_step\<^sup>*\<^sup>* (fst q) (fst r)" "snd r = snd q @ new'" "distinct (map call_key new')"
         "\<forall>c \<in> set new'. \<not> is_charged (fst q) (call_key c) \<and> covered (fst r) c"
    by (auto simp: advanced_def)
  have "c \<in> set new \<Longrightarrow> c' \<in> set new' \<Longrightarrow> call_key c \<noteq> call_key c'" for c c'
    using q(4) r(4) covered_charged by metis
  then have "call_key ` set new \<inter> call_key ` set new' = {}" by fastforce
  then have "distinct (map call_key (new @ new'))" using q(3) r(3) by simp
  moreover have "\<not> is_charged (fst p) (call_key c) \<and> covered (fst r) c" if "c \<in> set (new @ new')" for c
    using that q(4) r(4) charged_mono [OF q(1), of "call_key c"] covered_mono [OF r(1), of c] by auto
  moreover have "budget_step\<^sup>*\<^sup>* (fst p) (fst r)" using q(1) r(1) by simp
  ultimately show ?thesis unfolding advanced_def using q(2) r(2)
    by (intro conjI exI [of _ "new @ new'"]) simp_all
qed

interpretation adv: frame advances
  by unfold_locales (auto simp: advances_def account_def intro: advanced_quiet advanced_trans)

lemma adv_after_tick [intro!]:
  assumes "keeps advances m"
  shows "keeps advances (after_tick env m)"
proof -
  have "advances s (snd (m (s\<lparr>lo_tick := t\<rparr>)))" for s t
    using assms [unfolded keeps_def, rule_format, of "s\<lparr>lo_tick := t\<rparr>"] by (simp add: advances_def account_def)
  then show ?thesis
    by (auto simp: keeps_def after_tick_def Let_def advances_def account_def advanced_quiet split: option.split)
qed

lemma adv_on_db:
  assumes "\<And>db x db'. m db = (x, db') \<Longrightarrow> budget_step\<^sup>*\<^sup>* db db'"
  shows "keeps advances (on_db env m)"
  unfolding on_db_def
  by (rule adv_after_tick) (auto simp: keeps_def advances_def account_def split: prod.split intro!: advanced_quiet assms)

lemma adv_on_store [intro!]: "keeps advances (on_store env f)"
  unfolding on_store_def
  by (rule adv_after_tick) (auto simp: keeps_def advances_def account_def Let_def advanced_quiet split: sum.split prod.split)

lemma adv_on_runtime [intro!]: "keeps advances (on_runtime env m)"
  unfolding on_runtime_def
  by (rule adv_after_tick) (auto simp: keeps_def advances_def account_def advanced_quiet split: prod.split)

lemma adv_get_budget [intro!]: "keeps advances (get_budget env run)"
  unfolding get_budget_def by (rule adv_on_db) simp

lemma adv_complete [intro!]: "keeps advances (on_db env (budget_complete r i a))"
  by (rule adv_on_db) (blast intro: budget_step.completed)

lemma adv_retain [intro!]: "keeps advances (retain env v)"
  by (auto simp: retain_def)

lemma adv_restore [intro!]: "keeps advances (restore env codec validate digest)"
  by (auto simp: restore_def)

lemma adv_publish [intro!]: "keeps advances (publish_receipt env v run operation)"
  by (auto simp: publish_receipt_def)

lemma adv_find_completion [intro!]: "keeps advances (find_completion env run operation)"
  by (auto simp: find_completion_def)

text \<open>A call right after its new reservation.\<close>

lemma advances_reserved:
  assumes "budget_reserve r c (lo_db w) = (Inr NEW, lo_db w')" "br_run r = lc_run call" "charge_operation c = lc_operation call"
    and "covers c call" "lo_calls w' = lo_calls w @ [call]"
  shows "advances w w'"
proof -
  from budget_reserve_cases [OF assms(1)]
  have r: "lo_db w (br_run r) = Some (Dump r)" "charge_operation c \<notin> charge_operation ` set (br_charges r)"
    by (auto simp: appended_def)
  have "budget_step\<^sup>*\<^sup>* (lo_db w) (lo_db w')" using assms(1) budget_step.reserved by blast
  moreover have "covered (lo_db w') call"
    using reserve_NEW [OF assms(1)] assms(2-4) by (auto simp: covered_def)
  moreover have "\<not> is_charged (lo_db w) (call_key call)"
    using r assms(2,3) by (auto simp: is_charged_def call_key_def)
  ultimately show ?thesis using assms(5) by (auto simp: advances_def advanced_def account_def)
qed
lemma sum_list_covered:
  fixes f :: "'a \<Rightarrow> nat" and g :: "'b \<Rightarrow> nat"
  assumes "distinct (map k xs)" "\<forall>x \<in> set xs. \<exists>y \<in> set ys. k' y = k x \<and> f x \<le> g y"
  shows "sum_list (map f xs) \<le> sum_list (map g ys)"
  using assms
proof (induction xs arbitrary: ys)
  case (Cons x xs)
  from Cons.prems(2) obtain y where y: "y \<in> set ys" "k' y = k x" "f x \<le> g y" by auto
  have "\<exists>y' \<in> set (remove1 y ys). k' y' = k x' \<and> f x' \<le> g y'" if "x' \<in> set xs" for x'
  proof -
    from Cons.prems(2) that obtain y' where y': "y' \<in> set ys" "k' y' = k x'" "f x' \<le> g y'" by auto
    have "k x' \<noteq> k x" using Cons.prems(1) that by (auto simp: image_iff)
    with y(2) y'(2) have "y' \<noteq> y" by auto
    with y' show ?thesis by auto
  qed
  with Cons have "sum_list (map f xs) \<le> sum_list (map g (remove1 y ys))" by simp
  moreover have "sum_list (map g ys) = g y + sum_list (map g (remove1 y ys))"
    using y(1) by (rule sum_list_map_remove1)
  ultimately show ?case using y(3) by simp
qed simp

lemma charges_split:
  "Model_charge m \<in> set cs \<longleftrightarrow> m \<in> set (model_charges cs)" "Read_charge q \<in> set cs \<longleftrightarrow> q \<in> set (read_charges cs)"
  by (induction cs rule: model_charges.induct) (auto split: charge.splits)

text \<open>What a run has been charged for bounds its calls.\<close>

lemma covered_calls_bounded:
  assumes "distinct (map call_key cs)" "\<forall>c \<in> set cs. covered db c" "db run = Some (Dump r)"
  defines "mine \<equiv> filter (\<lambda>c. lc_run c = run) cs"
  shows "length (filter (\<lambda>c. lc_reads c = []) mine) \<le> length (model_charges (br_charges r))"
    and "sum_list (map (\<lambda>c. length (lc_reads c)) mine) \<le> sum_list (map (\<lambda>q. length (rc_requests q)) (read_charges (br_charges r)))"
proof -
  let ?p = "filter (\<lambda>c. lc_reads c = []) mine" and ?q = "filter (\<lambda>c. lc_reads c \<noteq> []) mine"
  have ch: "\<exists>ch \<in> set (br_charges r). charge_operation ch = lc_operation c \<and> covers ch c" if "c \<in> set mine" for c
    using that assms by (fastforce simp: covered_def)
  have ops: "distinct (map lc_operation (filter P mine))" for P
  proof -
    have "distinct (map call_key (filter P mine))" using assms(1) by (simp add: mine_def distinct_map_filter)
    moreover have "call_key c = (run, lc_operation c)" if "c \<in> set (filter P mine)" for c
      using that by (auto simp: mine_def call_key_def)
    ultimately show ?thesis by (auto simp: distinct_map inj_on_def)
  qed
  have "\<forall>c \<in> set ?p. \<exists>m \<in> set (model_charges (br_charges r)). mc_operation m = lc_operation c \<and> (1::nat) \<le> 1"
  proof
    fix c assume c: "c \<in> set ?p"
    then obtain ch where "ch \<in> set (br_charges r)" "charge_operation ch = lc_operation c" "covers ch c"
      using ch [of c] by auto
    with c show "\<exists>m \<in> set (model_charges (br_charges r)). mc_operation m = lc_operation c \<and> (1::nat) \<le> 1"
      by (cases ch) (auto simp: charges_split)
  qed
  from sum_list_covered [OF ops this] show "length ?p \<le> length (model_charges (br_charges r))"
    by (simp add: sum_list_triv)
  have "\<forall>c \<in> set ?q. \<exists>q \<in> set (read_charges (br_charges r)).
      rc_operation q = lc_operation c \<and> length (lc_reads c) \<le> length (rc_requests q)"
  proof
    fix c assume c: "c \<in> set ?q"
    then obtain ch where "ch \<in> set (br_charges r)" "charge_operation ch = lc_operation c" "covers ch c"
      using ch [of c] by auto
    with c show "\<exists>q \<in> set (read_charges (br_charges r)).
      rc_operation q = lc_operation c \<and> length (lc_reads c) \<le> length (rc_requests q)"
      by (cases ch) (auto simp: charges_split dest: list_emb_length)
  qed
  from sum_list_covered [OF ops this]
  have "sum_list (map (\<lambda>c. length (lc_reads c)) ?q)
      \<le> sum_list (map (\<lambda>q. length (rc_requests q)) (read_charges (br_charges r)))" .
  moreover have "sum_list (map (\<lambda>c. length (lc_reads c)) mine) = sum_list (map (\<lambda>c. length (lc_reads c)) ?q)"
    by (rule sum_list_map_filter [symmetric]) simp
  ultimately show "sum_list (map (\<lambda>c. length (lc_reads c)) mine)
      \<le> sum_list (map (\<lambda>q. length (rc_requests q)) (read_charges (br_charges r)))" by simp
qed

end
