(* ===== verification/Traces.thy ===== *)
theory Traces
  imports Spans
begin

text \<open>
  Identity-pinned trace reads: \<^verbatim>\<open>src/payops/tools/traces.py\<close>.

  Every answer from outside (a \<^verbatim>\<open>kubectl\<close> command, the monotonic clock, the wall clock, a random identifier) is a field of
  \<open>trace_env\<close> and takes the number of the call. The budget object, the dispatched commands and the artifact store are the state \<open>trace_world\<close>,
  which survives an exception. The subprocess itself (\<^verbatim>\<open>bounded_read\<close>) is the field \<open>te_invoke\<close>.

  Main facts: the graph is rejected exactly when the parent relation has a cycle (\<open>walks_acyclic\<close>), a
  collection dispatches at most eight commands per service (\<open>spends_collect\<close>), and a captured log
  belongs to a pod whose identity was the same before and after the read (\<open>pod_log_pinned\<close>).
\<close>

section \<open>Span graphs\<close>

type_synonym node_key = "string \<times> string"

definition node_key :: "source_span \<Rightarrow> node_key" where
  "node_key s = (ss_trace s, ss_id s)"

type_synonym span_nodes = "(node_key \<times> source_span) list"

fun graph_nodes :: "source_span list \<Rightarrow> span_nodes \<Rightarrow> exn + span_nodes" where
  "graph_nodes [] nodes = Inr nodes"
| "graph_nodes (s # ss) nodes =
     (case map_of nodes (node_key s) of
        None \<Rightarrow> graph_nodes ss (nodes @ [(node_key s, s)])
      | Some t \<Rightarrow> bindR (check (t = s) (EvidenceIntegrityError ''conflicting duplicate trace span'')) (\<lambda>_. graph_nodes ss nodes))"

function walk_parents :: "span_nodes \<Rightarrow> node_key list \<Rightarrow> source_span \<Rightarrow> exn + unit" where
  "walk_parents nodes seen current =
     (case ss_parent current of
        None \<Rightarrow> Inr ()
      | Some p \<Rightarrow>
          if (ss_trace current, p) \<in> set seen then Inl (EvidenceIntegrityError ''trace parent cycle'')
          else (case map_of nodes (ss_trace current, p) of
                  None \<Rightarrow> Inr ()
                | Some parent \<Rightarrow> walk_parents nodes ((ss_trace current, p) # seen) parent))"
  by pat_completeness auto
termination
proof (relation "measure (\<lambda>(nodes, seen, _). card (fst ` set nodes - set seen))", goal_cases)
  case (2 nodes seen current p parent)
  then have "(ss_trace current, p) \<in> fst ` set nodes" by (force dest: map_of_SomeD)
  with 2 have "fst ` set nodes - set ((ss_trace current, p) # seen) \<subset> fst ` set nodes - set seen" by auto
  then have "card (fst ` set nodes - set ((ss_trace current, p) # seen)) < card (fst ` set nodes - set seen)"
    by (intro psubset_card_mono) auto
  then show ?case by simp
qed simp

declare walk_parents.simps [simp del]

record graph_summary =
  gs_spans :: nat
  gs_traces :: nat
  gs_resolved :: nat
  gs_unresolved :: int
  gs_null :: nat
  gs_duplicates :: nat

definition validate_graph :: "graph_summary \<Rightarrow> exn + graph_summary" where
  "validate_graph g =
     bindR (check (gs_spans g \<le> MAX_SPANS \<and> gs_traces g \<le> 32 \<and> 0 \<le> gs_unresolved g) (ValueError ''field constraint''))
       (\<lambda>_. Inr g)"

definition is_resolved :: "span_nodes \<Rightarrow> source_span \<Rightarrow> bool" where
  "is_resolved nodes s \<longleftrightarrow> (case ss_parent s of None \<Rightarrow> False | Some p \<Rightarrow> map_of nodes (ss_trace s, p) \<noteq> None)"

definition summarize_graph :: "source_span list \<Rightarrow> exn + graph_summary" where
  "summarize_graph spans =
     bindR (check (length spans \<le> MAX_SPANS) (ValueError ''aggregate span budget exceeded'')) (\<lambda>_.
     bindR (graph_nodes spans []) (\<lambda>nodes.
     bindR (each (\<lambda>(key, span). walk_parents nodes [key] span) nodes) (\<lambda>_.
     let resolved = length (filter (\<lambda>(k, s). is_resolved nodes s) nodes);
         roots = length (filter (\<lambda>(k, s). ss_parent s = None) nodes) in
     validate_graph \<lparr>gs_spans = length nodes, gs_traces = card (set (map (fst \<circ> fst) nodes)), gs_resolved = resolved,
       gs_unresolved = int (length nodes) - int resolved - int roots, gs_null = roots,
       gs_duplicates = length spans - length nodes\<rparr>)))"

text \<open>The parent relation on the observed spans.\<close>

definition parent_edges :: "span_nodes \<Rightarrow> (node_key \<times> node_key) set" where
  "parent_edges nodes =
     {(key, (ss_trace s, p)) | key s p. (key, s) \<in> set nodes \<and> ss_parent s = Some p \<and> (ss_trace s, p) \<in> fst ` set nodes}"

definition well_keyed :: "span_nodes \<Rightarrow> bool" where
  "well_keyed nodes \<longleftrightarrow> distinct (map fst nodes) \<and> (\<forall>(k, s) \<in> set nodes. k = node_key s)"

lemma graph_nodes_Inr:
  "graph_nodes spans nodes = Inr out \<Longrightarrow> well_keyed nodes \<Longrightarrow>
     well_keyed out \<and> snd ` set out = snd ` set nodes \<union> set spans"
proof (induction spans arbitrary: nodes)
  case (Cons s spans)
  show ?case
  proof (cases "map_of nodes (node_key s)")
    case None
    then have "node_key s \<notin> set (map fst nodes)" by (simp add: map_of_eq_None_iff)
    with Cons.prems None have "well_keyed (nodes @ [(node_key s, s)])" by (auto simp: well_keyed_def)
    with Cons.IH [OF _ this] Cons.prems None show ?thesis by auto
  next
    case (Some t)
    then have "s \<in> snd ` set nodes" if "t = s" using that by (force dest: map_of_SomeD)
    with Cons.IH [of nodes] Cons.prems Some show ?thesis by auto
  qed
qed simp

lemma edge_unique:
  assumes "well_keyed nodes" "(k, s) \<in> set nodes" "(k, k') \<in> parent_edges nodes"
  shows "\<exists>p. ss_parent s = Some p \<and> k' = (ss_trace s, p) \<and> k' \<in> fst ` set nodes"
proof -
  from assms(3) obtain s' p where "(k, s') \<in> set nodes" "ss_parent s' = Some p" "k' = (ss_trace s', p)" "k' \<in> fst ` set nodes"
    by (auto simp: parent_edges_def)
  moreover have "s' = s"
    using assms(1,2) calculation(1) by (auto simp: well_keyed_def dest: eq_key_imp_eq_value)
  ultimately show ?thesis by auto
qed

lemma walk_on_cycle:
  "well_keyed nodes \<Longrightarrow> (node_key current, current) \<in> set nodes
     \<Longrightarrow> (node_key current, node_key current) \<in> (parent_edges nodes)\<^sup>+
     \<Longrightarrow> walk_parents nodes seen current = Inl (EvidenceIntegrityError ''trace parent cycle'')"
proof (induction nodes seen current rule: walk_parents.induct)
  case (1 nodes seen current)
  from 1(4) obtain next1 where e: "(node_key current, next1) \<in> parent_edges nodes"
    and home: "next1 = node_key current \<or> (next1, node_key current) \<in> (parent_edges nodes)\<^sup>+"
    by (meson tranclD rtranclD)
  from edge_unique [OF 1(2,3) e] obtain p where p: "ss_parent current = Some p" "next1 = (ss_trace current, p)"
      "next1 \<in> fst ` set nodes" by blast
  then obtain parent where parent: "map_of nodes next1 = Some parent"
    by (metis map_of_eq_None_iff not_None_eq set_map)
  then have key: "node_key parent = next1" "(node_key parent, parent) \<in> set nodes"
    using 1(2) by (auto simp: well_keyed_def dest: map_of_SomeD)
  show ?case
  proof (cases "next1 \<in> set seen")
    case True
    then show ?thesis using p by (simp add: walk_parents.simps [of nodes seen])
  next
    case False
    have "(next1, next1) \<in> (parent_edges nodes)\<^sup>+"
      using home e by (auto intro: trancl_into_trancl)
    then have "walk_parents nodes ((ss_trace current, p) # seen) parent = Inl (EvidenceIntegrityError ''trace parent cycle'')"
      using 1(1) [OF p(1) _ _ 1(2)] False parent p(2) key by simp
    then show ?thesis using False parent p by (simp add: walk_parents.simps [of nodes seen current])
  qed
qed

lemma walk_off_cycle:
  "well_keyed nodes \<Longrightarrow> acyclic (parent_edges nodes) \<Longrightarrow> (node_key current, current) \<in> set nodes
     \<Longrightarrow> (\<And>k. k \<in> set seen \<Longrightarrow> (k, node_key current) \<in> (parent_edges nodes)\<^sup>* \<and> k \<in> fst ` set nodes)
     \<Longrightarrow> walk_parents nodes seen current = Inr ()"
proof (induction nodes seen current rule: walk_parents.induct)
  case (1 nodes seen current)
  show ?case
  proof (cases "ss_parent current")
    case None
    then show ?thesis by (simp add: walk_parents.simps)
  next
    case (Some p)
    let ?next = "(ss_trace current, p)"
    have edge: "(node_key current, ?next) \<in> parent_edges nodes" if "?next \<in> fst ` set nodes"
      unfolding parent_edges_def
      by (rule CollectI, intro exI [of _ "node_key current"] exI [of _ current] exI [of _ p]) (use 1(4) Some that in simp)
    have fresh: "?next \<notin> set seen"
    proof
      assume "?next \<in> set seen"
      with 1(5) edge have "(?next, node_key current) \<in> (parent_edges nodes)\<^sup>*" "(node_key current, ?next) \<in> parent_edges nodes"
        by auto
      then have "(?next, ?next) \<in> (parent_edges nodes)\<^sup>+" by (rule rtrancl_into_trancl1)
      with 1(3) show False by (simp add: acyclic_def)
    qed
    show ?thesis
    proof (cases "map_of nodes ?next")
      case None
      with Some fresh show ?thesis by (simp add: walk_parents.simps [of nodes seen current])
    next
      case parent: (Some parent)
      then have inn: "?next \<in> fst ` set nodes" by (force dest: map_of_SomeD)
      from parent have key: "node_key parent = ?next" "(node_key parent, parent) \<in> set nodes"
        using 1(2) by (auto simp: well_keyed_def dest: map_of_SomeD)
      have "walk_parents nodes (?next # seen) parent = Inr ()"
      proof (rule 1(1) [OF Some fresh parent 1(2,3) key(2)])
        fix k
        assume "k \<in> set (?next # seen)"
        then show "(k, node_key parent) \<in> (parent_edges nodes)\<^sup>* \<and> k \<in> fst ` set nodes"
          using 1(5) [of k] edge [OF inn] inn key(1) by (auto intro: rtrancl_into_rtrancl)
      qed
      with Some fresh parent show ?thesis by (simp add: walk_parents.simps [of nodes seen current])
    qed
  qed
qed

lemma walks_acyclic:
  assumes "well_keyed nodes"
  shows "each (\<lambda>(key, span). walk_parents nodes [key] span) nodes = Inr () \<longleftrightarrow> acyclic (parent_edges nodes)"
proof
  assume ok: "each (\<lambda>(key, span). walk_parents nodes [key] span) nodes = Inr ()"
  show "acyclic (parent_edges nodes)"
    unfolding acyclic_def
  proof (intro allI notI)
    fix k
    assume cyc: "(k, k) \<in> (parent_edges nodes)\<^sup>+"
    then obtain k' where "(k, k') \<in> parent_edges nodes" by (meson tranclD)
    then obtain s where s: "(k, s) \<in> set nodes" by (auto simp: parent_edges_def)
    with assms have "k = node_key s" by (auto simp: well_keyed_def)
    with walk_on_cycle [OF assms, of s "[k]"] s cyc ok show False by force
  qed
next
  assume a: "acyclic (parent_edges nodes)"
  have "walk_parents nodes [k] s = Inr ()" if "(k, s) \<in> set nodes" for k s
  proof -
    have "k = node_key s" using assms that by (auto simp: well_keyed_def)
    with that show ?thesis by (intro walk_off_cycle [OF assms a]) force+
  qed
  then show "each (\<lambda>(key, span). walk_parents nodes [key] span) nodes = Inr ()" by auto
qed
section \<open>Kubernetes objects\<close>

definition kube_object :: "json option \<Rightarrow> exn + json_object" where
  "kube_object v = (case v of Some (JObj kvs) \<Rightarrow> Inr kvs | _ \<Rightarrow> Inl (ValueError ''Kubernetes object required''))"

definition kube_items :: "json option \<Rightarrow> nat \<Rightarrow> exn + json_object list" where
  "kube_items v most =
     (case v of
        Some (JArr xs) \<Rightarrow>
          bindR (check (length xs \<le> most) (ValueError ''Kubernetes list exceeds trace reader scope'')) (\<lambda>_.
          mapR (\<lambda>x. kube_object (Some x)) xs)
      | _ \<Rightarrow> Inl (ValueError ''Kubernetes list exceeds trace reader scope''))"

definition kube_text :: "json option \<Rightarrow> exn + string" where
  "kube_text v =
     (case v of
        Some (JStr s) \<Rightarrow> bindR (check (s \<noteq> [] \<and> length s \<le> 128) (ValueError ''Kubernetes identity string required'')) (\<lambda>_. Inr s)
      | _ \<Rightarrow> Inl (ValueError ''Kubernetes identity string required''))"

definition owned_metadata :: "json_object \<Rightarrow> trace_scope \<Rightarrow> string option \<Rightarrow> exn + json_object" where
  "owned_metadata raw scope name =
     bindR (kube_object (get_field raw ''metadata'')) (\<lambda>metadata.
     bindR (kube_object (get_field metadata ''labels'')) (\<lambda>labels.
     bindR (check (get_field metadata ''namespace'' = Some (JStr NAMESPACE)
                   \<and> get_field labels ''app.kubernetes.io/name'' = Some (JStr (sc_service scope))
                   \<and> (case name of None \<Rightarrow> True | Some n \<Rightarrow> get_field metadata ''name'' = Some (JStr n)))
              (ValueError ''trace resource crosses namespace or service ownership'')) (\<lambda>_.
     Inr metadata)))"

definition controller_owner :: "json_object \<Rightarrow> string \<Rightarrow> exn + json_object" where
  "controller_owner metadata kind =
     bindR (kube_items (get_field metadata ''ownerReferences'') 8) (\<lambda>references.
     case filter (\<lambda>r. get_field r ''controller'' = Some (JBool True)) references of
       [r] \<Rightarrow> bindR (check (get_field r ''kind'' = Some (JStr kind) \<and> get_field r ''apiVersion'' = Some (JStr ''apps/v1''))
                        (ValueError ''trace resource controller ownership is invalid'')) (\<lambda>_. Inr r)
     | _ \<Rightarrow> Inl (ValueError ''trace resource controller ownership is invalid''))"

definition kube_int :: "json option \<Rightarrow> exn + int" where
  "kube_int v = (case v of Some (JInt i) \<Rightarrow> Inr i | _ \<Rightarrow> Inl (ValueError ''field constraint''))"

definition container_identity :: "json_object \<Rightarrow> trace_scope \<Rightarrow> string \<Rightarrow> string \<Rightarrow> exn + pod_identity" where
  "container_identity raw scope deployment_uid replica_uid =
     bindR (owned_metadata raw scope None) (\<lambda>metadata.
     bindR (controller_owner metadata ''ReplicaSet'') (\<lambda>ref.
     bindR (check (get_field ref ''uid'' = Some (JStr replica_uid)) (ValueError ''trace pod controller changed'')) (\<lambda>_.
     bindR (kube_object (get_field raw ''status'')) (\<lambda>status.
     bindR (kube_items (get_field status ''containerStatuses'') 8) (\<lambda>statuses.
     case filter (\<lambda>e. get_field e ''name'' = Some (JStr ''sandbox'')) statuses of
       [selected] \<Rightarrow>
         bindR (text_field (get_field metadata ''name'')) (\<lambda>name.
         bindR (text_field (get_field metadata ''uid'')) (\<lambda>uid.
         bindR (text_field (get_field selected ''containerID'')) (\<lambda>container_id.
         bindR (kube_int (get_field selected ''restartCount'')) (\<lambda>restarts.
         validate_identity \<lparr>pi_name = name, pi_uid = uid, pi_deployment = deployment_uid, pi_replica_set = replica_uid,
                            pi_container_id = container_id, pi_restarts = restarts\<rparr>))))
     | _ \<Rightarrow> Inl (ValueError ''exact sandbox container status required''))))))"

section \<open>The reader and its budget\<close>

definition MAX_COMMANDS_PER_SERVICE :: nat where "MAX_COMMANDS_PER_SERVICE = 8"
definition MAX_COMMANDS :: nat where "MAX_COMMANDS = 40"
definition MAX_SECONDS :: rat where "MAX_SECONDS = 30"
definition MAX_METADATA_BYTES :: nat where "MAX_METADATA_BYTES = 1048576"
definition MAX_SOURCE_BYTES :: nat where "MAX_SOURCE_BYTES = 10 * MAX_LOG_BYTES"

record trace_env =
  te_prefix :: "string list"
  te_invoke :: "nat \<Rightarrow> string list \<Rightarrow> nat \<Rightarrow> rat \<Rightarrow> exn + string"
  te_clock :: "nat \<Rightarrow> rat"
  te_now :: "nat \<Rightarrow> instant"
  te_new_id :: "nat \<Rightarrow> string"
  te_loads :: "string \<Rightarrow> exn + json_object"
  te_spans :: span_env
  te_log_dump :: "trace_log \<Rightarrow> json_object"
  te_span_dump :: "trace_span \<Rightarrow> json_object"

text \<open>One pipe of the subprocess: the chunks it delivers, or the error of a read, against a limit. The result is what is
  kept and whether the limit (or an error) was hit. Starting, polling and killing the process stay behind \<open>te_invoke\<close>.\<close>

fun drain_pipe :: "(exn + string) list \<Rightarrow> string \<Rightarrow> nat \<Rightarrow> exn + string \<times> bool" where
  "drain_pipe [] held limit = Inr (held, False)"
| "drain_pipe (Inl e # chunks) held limit = (if is_OSError e then Inr (held, True) else Inl e)"
| "drain_pipe (Inr chunk # chunks) held limit =
     (if chunk = [] then Inr (held, False)
      else if limit < length held + length chunk then Inr (held, True)
      else drain_pipe chunks (held @ chunk) limit)"

lemma drain_pipe_bounded:
  "drain_pipe chunks held limit = Inr (kept, exceeded) \<Longrightarrow> length held \<le> limit \<Longrightarrow> length kept \<le> limit"
  by (induction chunks held limit rule: drain_pipe.induct) (auto split: if_splits)

lemma drain_pipe_complete:
  "drain_pipe chunks held limit = Inr (kept, False) \<Longrightarrow>
     \<exists>read rest. chunks = map Inr read @ rest \<and> kept = held @ concat read \<and> (case rest of [] \<Rightarrow> True | chunk # _ \<Rightarrow> chunk = Inr [])"
proof (induction chunks held limit rule: drain_pipe.induct)
  case (3 chunk chunks held limit)
  show ?case
  proof (cases "chunk = []")
    case True
    with 3(2) show ?thesis by (intro exI [of _ "[]"] exI [of _ "Inr chunk # chunks"]) simp
  next
    case False
    with 3 obtain read rest where "chunks = map Inr read @ rest" "kept = (held @ chunk) @ concat read"
        "case rest of [] \<Rightarrow> True | c # _ \<Rightarrow> c = Inr []" by (auto split: if_splits)
    then show ?thesis by (intro exI [of _ "chunk # read"] exI [of _ rest]) simp
  qed
qed (auto split: if_splits)

text \<open>What the reader is bound to: the command line up to the request timeout.\<close>

definition read_prefix :: "string option \<Rightarrow> bool \<Rightarrow> string \<Rightarrow> exn + string list" where
  "read_prefix kubectl is_file kubeconfig =
     (case kubectl of
        Some executable \<Rightarrow>
          if is_file
          then Inr [executable, ''--kubeconfig'', kubeconfig, ''--context'', ''kind-payops-dev'', ''--namespace'', NAMESPACE,
                    ''--request-timeout=8s'']
          else Inl (ValueError ''kubectl and explicit kubeconfig required'')
      | None \<Rightarrow> Inl (ValueError ''kubectl and explicit kubeconfig required''))"

text \<open>\<open>tw_calls\<close> records every dispatched argument vector.\<close>

record trace_world =
  tw_tick :: nat
  tw_deadline :: rat
  tw_commands :: nat
  tw_metadata :: nat
  tw_source :: nat
  tw_calls :: "string list list"
  tw_store :: span_store

definition ask_env :: "(nat \<Rightarrow> 'a) \<Rightarrow> (trace_world, 'a) prog" where
  "ask_env f w = (Inr (f (tw_tick w)), w\<lparr>tw_tick := Suc (tw_tick w)\<rparr>)"

definition remaining :: "trace_env \<Rightarrow> (trace_world, rat) prog" where
  "remaining env =
     bindP (ask_env (te_clock env)) (\<lambda>now w.
       (bindR (check (0 < tw_deadline w - now) (ValueError ''trace collection deadline exceeded'')) (\<lambda>_.
        Inr (min 12 (tw_deadline w - now))), w))"

definition start_command :: "(trace_world, unit) prog" where
  "start_command w =
     (if MAX_COMMANDS \<le> tw_commands w then (Inl (ValueError ''trace command budget exceeded''), w)
      else (Inr (), w\<lparr>tw_commands := tw_commands w + 1\<rparr>))"

definition invoke :: "trace_env \<Rightarrow> string list \<Rightarrow> nat \<Rightarrow> rat \<Rightarrow> (trace_world, string) prog" where
  "invoke env argv most timeout w =
     (te_invoke env (tw_tick w) argv most timeout, w\<lparr>tw_tick := Suc (tw_tick w), tw_calls := tw_calls w @ [argv]\<rparr>)"

definition account_bytes :: "bool \<Rightarrow> nat \<Rightarrow> (trace_world, unit) prog" where
  "account_bytes logs n w =
     (let w' = (if logs then w\<lparr>tw_source := tw_source w + n\<rparr> else w\<lparr>tw_metadata := tw_metadata w + n\<rparr>) in
      (check (tw_source w' \<le> MAX_SOURCE_BYTES \<and> tw_metadata w' \<le> MAX_METADATA_BYTES) (ValueError ''aggregate trace bytes exceeded''), w'))"

definition read_command :: "trace_env \<Rightarrow> string list \<Rightarrow> bool \<Rightarrow> (trace_world, string) prog" where
  "read_command env args logs =
     (let most = (if logs then MAX_LOG_BYTES else 262144) in
      bindP (remaining env) (\<lambda>timeout.
      bindP start_command (\<lambda>_.
      bindP (invoke env (te_prefix env @ args) most timeout) (\<lambda>raw.
      bindP (remaining env) (\<lambda>_.
      bindP (checkP (length raw \<le> most) (ValueError ''trace response exceeds byte budget'')) (\<lambda>_.
      bindP (account_bytes logs (length raw)) (\<lambda>_.
      returnP raw)))))))"

definition get_object :: "trace_env \<Rightarrow> string list \<Rightarrow> (trace_world, json_object) prog" where
  "get_object env args =
     bindP (read_command env (''get'' # args @ [''-o'', ''json'']) False) (\<lambda>raw. liftR (te_loads env raw))"

text \<open>\<^verbatim>\<open>str.isalnum\<close> on code points below 256.\<close>

definition is_letter_digit :: "char \<Rightarrow> bool" where
  "is_letter_digit c \<longleftrightarrow>
     is_word_char c \<and> (of_char c :: nat) \<noteq> 95
     \<or> (of_char c :: nat) \<in> {178, 179, 185, 188, 189, 190}"

definition log_arguments :: "trace_scope \<Rightarrow> string \<Rightarrow> string list" where
  "log_arguments scope pod_name =
     [''logs'', pod_name, ''--container=sandbox'', ''--tail=2000'', ''--since-time='' @ isoformat (sc_start scope),
      ''--timestamps=true'', ''--limit-bytes='' @ nat_str MAX_LOG_BYTES]"

definition checked_replica :: "trace_env \<Rightarrow> trace_scope \<Rightarrow> string \<Rightarrow> string \<Rightarrow> string \<Rightarrow> (trace_world, unit) prog" where
  "checked_replica env scope deployment_uid replica_uid replica_name =
     bindP (checkP (is_prefix (sc_service scope @ ''-'') replica_name \<and> list_all (\<lambda>c. is_letter_digit c \<or> c = CHR ''-'') replica_name)
              (ValueError ''ReplicaSet name outside service scope'')) (\<lambda>_.
     bindP (get_object env [''replicaset'', replica_name]) (\<lambda>replica.
     bindP (liftR (owned_metadata replica scope (Some replica_name))) (\<lambda>metadata.
     bindP (liftR (controller_owner metadata ''Deployment'')) (\<lambda>ref.
     checkP (get_field metadata ''uid'' = Some (JStr replica_uid) \<and> get_field ref ''uid'' = Some (JStr deployment_uid)
             \<and> get_field ref ''name'' = Some (JStr (sc_service scope)))
       (ValueError ''ReplicaSet does not belong to selected deployment'')))))"

definition pinned_read ::
  "trace_env \<Rightarrow> trace_scope \<Rightarrow> string \<Rightarrow> string \<Rightarrow> pod_identity \<Rightarrow> (trace_world, trace_log) prog" where
  "pinned_read env scope deployment_uid replica_uid identity =
     bindP (ask_env (te_now env)) (\<lambda>started.
     bindP (read_command env (log_arguments scope (pi_name identity)) True) (\<lambda>raw.
     bindP (get_object env [''pod'', pi_name identity]) (\<lambda>after.
     bindP (liftR (container_identity after scope deployment_uid replica_uid)) (\<lambda>again.
     bindP (checkP (again = identity) (ValueError ''pod or current container changed during trace read'')) (\<lambda>_.
     bindP (ask_env (te_now env)) (\<lambda>ended.
     bindP (liftR (parse_console_log (te_spans env) raw scope)) (\<lambda>parsed.
     liftR (consistent_log \<lparr>tl_scope = scope, tl_identity = identity, tl_start = started, tl_end = ended, tl_parsed = parsed\<rparr>))))))))"

definition pod_log :: "trace_env \<Rightarrow> trace_scope \<Rightarrow> string \<Rightarrow> json_object \<Rightarrow> (trace_world, trace_log) prog" where
  "pod_log env scope deployment_uid pod =
     bindP (liftR (owned_metadata pod scope None)) (\<lambda>metadata.
     bindP (liftR (controller_owner metadata ''ReplicaSet'')) (\<lambda>controller.
     bindP (liftR (kube_text (get_field controller ''uid''))) (\<lambda>replica_uid.
     bindP (liftR (container_identity pod scope deployment_uid replica_uid)) (\<lambda>identity.
     bindP (liftR (kube_text (get_field controller ''name''))) (\<lambda>replica_name.
     bindP (checked_replica env scope deployment_uid replica_uid replica_name) (\<lambda>_.
     pinned_read env scope deployment_uid replica_uid identity))))))"

definition service_logs :: "trace_env \<Rightarrow> trace_scope \<Rightarrow> (trace_world, trace_log list) prog" where
  "service_logs env scope =
     bindP (get_object env [''deployment'', sc_service scope]) (\<lambda>deployment.
     bindP (liftR (owned_metadata deployment scope (Some (sc_service scope)))) (\<lambda>metadata.
     bindP (liftR (kube_text (get_field metadata ''uid''))) (\<lambda>deployment_uid.
     bindP (get_object env [''pods'', ''-l'', ''app.kubernetes.io/name='' @ sc_service scope]) (\<lambda>pods.
     bindP (liftR (kube_items (get_field pods ''items'') 2)) (\<lambda>items.
     map_prog (pod_log env scope deployment_uid) items)))))"

section \<open>Collection\<close>

record trace_collection =
  tc_sources :: "evidence_item list"
  tc_spans :: "evidence_item list"
  tc_graph :: graph_summary
  tc_commands :: nat
  tc_reserved :: nat
  tc_without_pods :: "string list"
  tc_partial :: nat
  tc_malformed :: nat
  tc_excluded :: nat
  tc_capped :: nat

definition validate_trace_collection :: "trace_collection \<Rightarrow> exn + trace_collection" where
  "validate_trace_collection c =
     bindR (check (length (tc_sources c) \<le> 10 \<and> length (tc_spans c) \<le> MAX_SPANS \<and> tc_commands c \<le> MAX_COMMANDS
                   \<and> tc_reserved c \<le> MAX_COMMANDS \<and> length (tc_without_pods c) \<le> 5 \<and> tc_capped c \<le> 10)
              (ValueError ''field constraint'')) (\<lambda>_. Inr c)"

text \<open>An operation on the store, with the identifier and the clock it asks for; the order of the two does not matter.\<close>

definition on_trace_store :: "(span_store \<Rightarrow> exn + 'a \<times> span_store) \<Rightarrow> (trace_world, 'a) prog" where
  "on_trace_store f w = (case f (tw_store w) of Inl e \<Rightarrow> (Inl e, w) | Inr (x, st) \<Rightarrow> (Inr x, w\<lparr>tw_store := st\<rparr>))"

definition publish ::
  "trace_env \<Rightarrow> (string \<Rightarrow> instant \<Rightarrow> span_store \<Rightarrow> exn + evidence_item \<times> span_store) \<Rightarrow> (trace_world, evidence_item) prog"
where
  "publish env f =
     bindP (remaining env) (\<lambda>_. bindP (ask_env (te_new_id env)) (\<lambda>new_id. bindP (ask_env (te_now env)) (\<lambda>now.
     on_trace_store (f new_id now))))"

definition publish_capture :: "trace_env \<Rightarrow> trace_log \<Rightarrow> (trace_world, evidence_item \<times> evidence_item list) prog" where
  "publish_capture env l =
     bindP (publish env (\<lambda>new_id now. publish_trace_log (te_log_dump env) new_id now l)) (\<lambda>src.
     bindP (map_prog (\<lambda>ordinal. publish env (\<lambda>new_id now. derive_trace_span (te_span_dump env) new_id now src (int ordinal)))
              [0..<length (pl_spans (tl_parsed l))]) (\<lambda>spans.
     returnP (src, spans)))"

definition open_budget :: "trace_env \<Rightarrow> (trace_world, unit) prog" where
  "open_budget env =
     bindP (ask_env (te_clock env)) (\<lambda>now w.
       (Inr (), w\<lparr>tw_deadline := now + MAX_SECONDS, tw_commands := 0, tw_metadata := 0, tw_source := 0\<rparr>))"

definition summed :: "(parsed_log \<Rightarrow> nat) \<Rightarrow> trace_log list \<Rightarrow> nat" where
  "summed f captures = sum_list (map (\<lambda>l. f (tl_parsed l)) captures)"

definition collect_opened :: "trace_env \<Rightarrow> trace_scope list \<Rightarrow> (trace_world, trace_collection) prog" where
  "collect_opened env scopes =
     bindP (map_prog (service_logs env) scopes) (\<lambda>groups.
     let captures = concat groups in
     bindP (liftR (summarize_graph (map cs_span (concat (map (\<lambda>l. pl_spans (tl_parsed l)) captures))))) (\<lambda>graph.
     bindP (map_prog (publish_capture env) captures) (\<lambda>published.
     bindP (remaining env) (\<lambda>_ w.
     (validate_trace_collection
        \<lparr>tc_sources = map fst published, tc_spans = concat (map snd published), tc_graph = graph,
         tc_commands = tw_commands w, tc_reserved = length scopes * MAX_COMMANDS_PER_SERVICE,
         tc_without_pods = filter (\<lambda>service. service \<notin> set (map (sc_service \<circ> tl_scope) captures)) (map sc_service scopes),
         tc_partial = summed pl_partial captures, tc_malformed = summed pl_malformed captures,
         tc_excluded = summed pl_excluded captures,
         tc_capped = length (filter (\<lambda>l. pl_limit (tl_parsed l)) captures)\<rparr>, w)))))"

definition collect_traces :: "trace_env \<Rightarrow> trace_scope list \<Rightarrow> (trace_world, trace_collection) prog" where
  "collect_traces env scopes =
     bindP (checkP (1 \<le> length scopes \<and> length scopes \<le> 5 \<and> no_duplicates (map sc_service scopes))
              (ValueError ''unique bounded trace service scopes required'')) (\<lambda>_.
     bindP (checkP (card (set (map (\<lambda>s. (sc_incident s, sc_start s, sc_end s)) scopes)) = 1)
              (ValueError ''trace collection crosses incident or time scope'')) (\<lambda>_.
     bindP (ask_env (te_now env)) (\<lambda>now.
     bindP (checkP (sc_end (hd scopes) \<le> now) (ValueError ''trace incident window ends in the future'')) (\<lambda>_.
     bindP (open_budget env) (\<lambda>_. collect_opened env scopes)))))"

section \<open>What a collection dispatches\<close>

text \<open>\<open>spends env n m\<close>: \<open>m\<close> starts at most \<open>n\<close> commands, counts each of them, and every one is a read.\<close>

definition reads_only :: "trace_env \<Rightarrow> string list \<Rightarrow> bool" where
  "reads_only env argv \<longleftrightarrow> (\<exists>verb args. argv = te_prefix env @ verb # args \<and> verb \<in> {''get'', ''logs''})"

definition spent :: "trace_env \<Rightarrow> nat \<Rightarrow> trace_world \<Rightarrow> trace_world \<Rightarrow> bool" where
  "spent env n w w' \<longleftrightarrow>
     (\<exists>calls. tw_calls w' = tw_calls w @ calls \<and> tw_commands w' = tw_commands w + length calls \<and> length calls \<le> n
        \<and> list_all (reads_only env) calls)"

definition spends :: "trace_env \<Rightarrow> nat \<Rightarrow> (trace_world, 'a) prog \<Rightarrow> bool" where
  "spends env n m \<longleftrightarrow> (\<forall>w. spent env n w (snd (m w)))"

named_theorems spending "how many commands a program starts"

lemma spent_refl: "tw_calls w' = tw_calls w \<Longrightarrow> tw_commands w' = tw_commands w \<Longrightarrow> spent env n w w'"
  by (simp add: spent_def)

lemma spends_bind [spending]:
  assumes "spends env n m" "\<And>x. spends env k (f x)"
  shows "spends env (n + k) (bindP m f)"
  unfolding spends_def
proof
  fix w
  from assms(1) have m: "spent env n w (snd (m w))" by (simp add: spends_def)
  show "spent env (n + k) w (snd (bindP m f w))"
  proof (cases "m w")
    case (Pair r w1)
    with m have m1: "spent env n w w1" by simp
    show ?thesis
    proof (cases r)
      case (Inl e)
      with m1 Pair show ?thesis by (fastforce simp: bindP_def spent_def)
    next
      case (Inr x)
      from assms(2) [of x] have "spent env k w1 (snd (f x w1))" by (simp add: spends_def)
      with m1 have "spent env (n + k) w (snd (f x w1))" by (fastforce simp: spent_def)
      with Inr Pair show ?thesis by (simp add: bindP_def)
    qed
  qed
qed

lemma spends_mono: "spends env n m \<Longrightarrow> n \<le> k \<Longrightarrow> spends env k m"
  unfolding spends_def spent_def by (meson order.trans)

lemma spends_quiet [spending]:
  "spends env 0 (liftR r)" "spends env 0 (checkP b e)" "spends env 0 (returnP x)" "spends env 0 (ask_env f)"
  "spends env 0 (remaining e1)" "spends env 0 (account_bytes logs n)" "spends env 0 (publish e1 p)"
  by (auto simp: spends_def spent_refl ask_env_def remaining_def bindP_def account_bytes_def publish_def on_trace_store_def Let_def
      split: sum.splits prod.splits)

lemma spends_zero: "spends env 0 m \<Longrightarrow> (\<And>x. spends env n (f x)) \<Longrightarrow> spends env n (bindP m f)"
  using spends_bind [of env 0 m n f] by simp

lemma spends_then_zero: "spends env n m \<Longrightarrow> (\<And>x. spends env 0 (f x)) \<Longrightarrow> spends env n (bindP m f)"
  using spends_bind [of env n m 0 f] by simp

lemma spends_command: "reads_only env argv \<Longrightarrow> spends env 1 (bindP start_command (\<lambda>_. invoke env argv most timeout))"
  by (simp add: spends_def bindP_def start_command_def invoke_def spent_def)

lemma bindP_assoc: "bindP (bindP m f) g = bindP m (\<lambda>x. bindP (f x) g)"
  by (rule ext) (simp add: bindP_def split: prod.splits sum.splits)

lemma spends_read:
  assumes "verb \<in> {''get'', ''logs''}"
  shows "spends env 1 (read_command env (verb # args) logs)"
proof -
  have argv: "reads_only env (te_prefix env @ verb # args)" using assms by (auto simp: reads_only_def)
  have start: "spends env 1 (bindP start_command (\<lambda>_. bindP (invoke env (te_prefix env @ verb # args) most timeout) rest))"
    if "\<And>x. spends env 0 (rest x)" for most timeout rest
    using spends_then_zero [OF spends_command [OF argv] that] by (simp add: bindP_assoc)
  show ?thesis
    unfolding read_command_def Let_def
    by (rule spends_zero [OF spends_quiet(5)], rule start) (rule spends_quiet spends_zero)+
qed

lemma spends_get: "spends env 1 (get_object env args)"
  unfolding get_object_def by (rule spends_then_zero [OF spends_read spends_quiet(1)]) simp

lemma spends_pinned: "spends env 2 (pinned_read env scope deployment_uid replica_uid identity)"
proof -
  have rest: "spends env 1 (bindP (get_object env [''pod'', pi_name identity]) f)" if "\<And>x. spends env 0 (f x)" for f :: "_ \<Rightarrow> (trace_world, trace_log) prog"
    by (rule spends_then_zero [OF spends_get that])
  have "spends env (1 + 1) (bindP (read_command env (log_arguments scope (pi_name identity)) True) f)"
    if "\<And>x. spends env 1 (f x)" for f :: "_ \<Rightarrow> (trace_world, trace_log) prog"
    by (rule spends_bind [OF _ that]) (unfold log_arguments_def, rule spends_read, simp)
  then show ?thesis
    unfolding pinned_read_def one_add_one
    by (rule spends_zero [OF spends_quiet(4)]) (rule rest, (rule spends_quiet spends_zero)+)
qed

lemma spends_replica: "spends env 1 (checked_replica env scope deployment_uid replica_uid replica_name)"
  unfolding checked_replica_def
  by (rule spends_zero [OF spends_quiet(2)], rule spends_then_zero [OF spends_get]) (rule spends_quiet spends_zero)+

lemma spends_pod: "spends env 3 (pod_log env scope deployment_uid pod)"
proof -
  have "spends env (1 + 2) (bindP (checked_replica env scope deployment_uid replica_uid name) (\<lambda>_. pinned_read env scope deployment_uid replica_uid identity))"
    for replica_uid name identity
    by (rule spends_bind [OF spends_replica spends_pinned])
  then show ?thesis
    unfolding pod_log_def by (intro spends_zero [OF spends_quiet(1)]) (simp add: numeral_eq_Suc)
qed

lemma spends_map:
  "(\<And>x. spends env n (f x)) \<Longrightarrow> spends env (length xs * n) (map_prog f xs)"
proof (induction xs)
  case (Cons x xs)
  have "spends env (length xs * n) (bindP (map_prog f xs) (\<lambda>ys. returnP (y # ys)))" for y
    by (rule spends_then_zero [OF Cons.IH [OF Cons.prems] spends_quiet(3)])
  from spends_bind [OF Cons.prems this] show ?case by simp
qed (simp add: spends_quiet)

text \<open>Two reads for the service and three for each of at most two pods.\<close>

lemma spends_service: "spends env MAX_COMMANDS_PER_SERVICE (service_logs env scope)"
proof -
  have pods: "spends env 6 (bindP (liftR (kube_items v 2)) (map_prog (pod_log env scope deployment_uid)))" for v deployment_uid
  proof (cases "kube_items v 2")
    case (Inl e)
    then show ?thesis by (simp add: spends_def bindP_def spent_refl)
  next
    case (Inr items)
    then have "length items \<le> 2"
      by (auto simp: kube_items_def split: option.splits json.splits dest: mapR_Inr_length)
    then have "spends env 6 (map_prog (pod_log env scope deployment_uid) items)"
      by (intro spends_mono [OF spends_map [OF spends_pod]]) simp
    with Inr show ?thesis by (simp add: spends_def bindP_def)
  qed
  have "spends env (1 + (1 + 6)) (service_logs env scope)"
    unfolding service_logs_def
    by (rule spends_bind [OF spends_get], (rule spends_zero [OF spends_quiet(1)])+, rule spends_bind [OF spends_get]) (rule pods)
  then show ?thesis by (simp add: MAX_COMMANDS_PER_SERVICE_def)
qed

lemma spends_publish: "spends env 0 (publish_capture env l)"
proof -
  have "spends env 0 (map_prog (\<lambda>ordinal. publish env (p ordinal)) xs)" for p and xs :: "nat list"
    using spends_map [of env 0 "\<lambda>ordinal. publish env (p ordinal)" xs] by (simp add: spends_quiet)
  then show ?thesis unfolding publish_capture_def by (intro spends_zero spends_quiet)
qed

lemma spends_collect: "spends env (length scopes * MAX_COMMANDS_PER_SERVICE) (collect_opened env scopes)"
proof -
  have captures: "spends env 0 (map_prog (publish_capture env) ls)" for ls
    using spends_map [of env 0 "publish_capture env" ls] by (simp add: spends_publish)
  have tail: "spends env 0 (bindP (remaining env) (\<lambda>_ w. (r w, w)))" for r :: "trace_world \<Rightarrow> exn + trace_collection"
    by (rule spends_zero [OF spends_quiet(5)]) (simp add: spends_def spent_refl)
  show ?thesis
    unfolding collect_opened_def Let_def
    by (rule spends_then_zero [OF spends_map [OF spends_service]])
       (intro spends_zero spends_quiet(1) captures tail)
qed

lemma collect_traces_opened:
  assumes "collect_traces env scopes w = (x, w')"
  obtains (stopped) e where "x = Inl e" "tw_calls w' = tw_calls w"
  | (opened) w1 where "length scopes \<le> 5" "tw_tick w1 = tw_tick w + 2" "tw_calls w1 = tw_calls w" "tw_commands w1 = 0"
      "collect_opened env scopes w1 = (x, w')"
proof -
  define w1 where "w1 = w\<lparr>tw_tick := tw_tick w + 2, tw_deadline := te_clock env (tw_tick w + 1) + MAX_SECONDS,
    tw_commands := 0, tw_metadata := 0, tw_source := 0\<rparr>"
  have "collect_traces env scopes w =
      (if 1 \<le> length scopes \<and> length scopes \<le> 5 \<and> distinct (map sc_service scopes)
       then if card (set (map (\<lambda>s. (sc_incident s, sc_start s, sc_end s)) scopes)) = 1
         then if sc_end (hd scopes) \<le> te_now env (tw_tick w) then collect_opened env scopes w1
           else (Inl (ValueError ''trace incident window ends in the future''), w\<lparr>tw_tick := Suc (tw_tick w)\<rparr>)
         else (Inl (ValueError ''trace collection crosses incident or time scope''), w)
       else (Inl (ValueError ''unique bounded trace service scopes required''), w))"
    by (simp add: collect_traces_def bindP_def ask_env_def open_budget_def check_def w1_def)
  moreover have "tw_tick w1 = tw_tick w + 2" "tw_calls w1 = tw_calls w" "tw_commands w1 = 0" by (simp_all add: w1_def)
  ultimately show thesis using assms
    by (auto split: if_splits intro: stopped opened [of w1])
qed

section \<open>What a collection keeps\<close>

text \<open>The counter of calls to the environment never goes back, so that the number of a call says when
  in a collection it was made.\<close>

definition later :: "trace_world \<Rightarrow> trace_world \<Rightarrow> bool" where
  "later w w' \<longleftrightarrow> tw_tick w \<le> tw_tick w'"

interpretation later: frame later
  by unfold_locales (auto simp: later_def)

context frame
begin

lemma frame_map_answers:
  "map_prog f xs s = (Inr ys, s') \<Longrightarrow> (\<And>x. keeps R (f x))
     \<Longrightarrow> list_all2 (\<lambda>x y. \<exists>t t'. f x t = (Inr y, t') \<and> R s t \<and> R t' s') xs ys"
proof (induction xs arbitrary: ys s)
  case (Cons x xs)
  then obtain y zs t where yt: "f x s = (Inr y, t)" "map_prog f xs t = (Inr zs, s')" "ys = y # zs"
    by (auto simp: bindP_Inr_iff)
  have "R s t" by (rule keepsD [OF Cons.prems(2) yt(1)])
  have "R t s'" by (rule keepsD [OF frame_map_prog yt(2)]) (rule Cons.prems(2))
  from Cons.IH [OF yt(2) Cons.prems(2)] \<open>R s t\<close> have
    "list_all2 (\<lambda>x y. \<exists>t t'. f x t = (Inr y, t') \<and> R s t \<and> R t' s') xs zs"
    by (auto elim!: list_all2_mono intro: comp)
  with yt \<open>R t s'\<close> same show ?case by auto
qed simp

end

lemma later_calls [intro!]:
  "keeps later (ask_env f)" "keeps later start_command" "keeps later (invoke env argv most timeout)"
  "keeps later (account_bytes logs n)" "keeps later (on_trace_store g)"
  by (auto simp: keeps_def later_def ask_env_def start_command_def invoke_def account_bytes_def on_trace_store_def Let_def
      split: sum.split)

lemma later_remaining [intro!]: "keeps later (remaining env)"
  by (auto simp: keeps_def later_def remaining_def bindP_def ask_env_def)

lemma later_read [intro!]: "keeps later (read_command env args logs)" "keeps later (get_object env args)"
  unfolding read_command_def get_object_def Let_def by auto

lemma later_pod [intro!]: "keeps later (pod_log env scope deployment_uid pod)"
  unfolding pod_log_def checked_replica_def pinned_read_def by auto

lemma later_service [intro!]: "keeps later (service_logs env scope)"
  unfolding service_logs_def by auto

lemma later_publish [intro!]: "keeps later (publish_capture env l)"
  unfolding publish_capture_def publish_def by auto

text \<open>The answer of one command: call \<open>n\<close> of the runner, with these arguments behind the fixed prefix.\<close>

definition answered :: "trace_env \<Rightarrow> nat \<Rightarrow> string list \<Rightarrow> bool \<Rightarrow> string \<Rightarrow> bool" where
  "answered env n args logs raw \<longleftrightarrow>
     (\<exists>timeout. te_invoke env n (te_prefix env @ args) (if logs then MAX_LOG_BYTES else 262144) timeout = Inr raw)"

definition got_object :: "trace_env \<Rightarrow> nat \<Rightarrow> string list \<Rightarrow> json_object \<Rightarrow> bool" where
  "got_object env n args v \<longleftrightarrow>
     (\<exists>raw. answered env n (''get'' # args @ [''-o'', ''json'']) False raw \<and> te_loads env raw = Inr v)"

lemma read_command_Inr:
  assumes "read_command env args logs w = (Inr raw, w')"
  shows "answered env (tw_tick w + 1) args logs raw" "tw_tick w' = tw_tick w + 3"
  using assms
  by (auto simp: read_command_def answered_def Let_def bindP_Inr_iff remaining_def ask_env_def start_command_def invoke_def
      account_bytes_def split: if_splits)

lemma get_object_Inr:
  assumes "get_object env args w = (Inr v, w')"
  shows "got_object env (tw_tick w + 1) args v" "tw_tick w' = tw_tick w + 3"
proof -
  from assms obtain raw where "read_command env (''get'' # args @ [''-o'', ''json'']) False w = (Inr raw, w')"
      "te_loads env raw = Inr v"
    by (auto simp: get_object_def bindP_Inr_iff)
  with read_command_Inr [OF this(1)] show "got_object env (tw_tick w + 1) args v" "tw_tick w' = tw_tick w + 3"
    unfolding got_object_def by blast+
qed

text \<open>A captured log, by the calls \<open>lo\<close> to \<open>hi\<close> of one collection. Call \<open>m\<close> answered the deployment of the
  selected service and call \<open>m + 3\<close> the list of its pods; the pod is an item of that list. Call \<open>k\<close> answered the
  replica set that controls it, which belongs to that deployment; call \<open>k + 4\<close> the log of the named pod, between the two
  clock readings that are kept; and call \<open>k + 7\<close> the pod again, by its name. The pod before and after the log has the
  one identity that is kept.\<close>

definition pinned_log :: "trace_env \<Rightarrow> nat \<Rightarrow> nat \<Rightarrow> trace_scope \<Rightarrow> trace_log \<Rightarrow> bool" where
  "pinned_log env lo hi scope l \<longleftrightarrow>
     tl_scope l = scope \<and> consistent_log l = Inr l
     \<and> (\<exists>m k deployment dmeta deployment_uid pods items pod replica_uid replica rmeta ref name raw after.
          lo \<le> m \<and> m + 6 \<le> k \<and> k + 9 < hi
          \<and> got_object env m [''deployment'', sc_service scope] deployment
          \<and> owned_metadata deployment scope (Some (sc_service scope)) = Inr dmeta
          \<and> get_field dmeta ''uid'' = Some (JStr deployment_uid)
          \<and> got_object env (m + 3) [''pods'', ''-l'', ''app.kubernetes.io/name='' @ sc_service scope] pods
          \<and> kube_items (get_field pods ''items'') 2 = Inr items \<and> pod \<in> set items
          \<and> container_identity pod scope deployment_uid replica_uid = Inr (tl_identity l)
          \<and> got_object env k [''replicaset'', name] replica
          \<and> owned_metadata replica scope (Some name) = Inr rmeta \<and> get_field rmeta ''uid'' = Some (JStr replica_uid)
          \<and> controller_owner rmeta ''Deployment'' = Inr ref \<and> get_field ref ''uid'' = Some (JStr deployment_uid)
          \<and> get_field ref ''name'' = Some (JStr (sc_service scope))
          \<and> tl_start l = te_now env (k + 2)
          \<and> answered env (k + 4) (log_arguments scope (pi_name (tl_identity l))) True raw
          \<and> parse_console_log (te_spans env) raw scope = Inr (tl_parsed l)
          \<and> got_object env (k + 7) [''pod'', pi_name (tl_identity l)] after
          \<and> container_identity after scope deployment_uid replica_uid = Inr (tl_identity l)
          \<and> tl_end l = te_now env (k + 9))"

lemma consistent_log_same: "consistent_log l = Inr l' \<Longrightarrow> l' = l"
  by (auto simp: consistent_log_def)

lemma ask_env_Inr: "ask_env f w = (Inr x, w') \<longleftrightarrow> x = f (tw_tick w) \<and> w' = w\<lparr>tw_tick := Suc (tw_tick w)\<rparr>"
  by (auto simp: ask_env_def)

lemma pinned_read_Inr:
  assumes "pinned_read env scope deployment_uid replica_uid identity w = (Inr l, w')"
  obtains raw after where "tl_start l = te_now env (tw_tick w)"
    "answered env (tw_tick w + 2) (log_arguments scope (pi_name identity)) True raw"
    "parse_console_log (te_spans env) raw scope = Inr (tl_parsed l)"
    "got_object env (tw_tick w + 5) [''pod'', pi_name identity] after"
    "container_identity after scope deployment_uid replica_uid = Inr identity"
    "tl_end l = te_now env (tw_tick w + 7)" "tl_scope l = scope" "tl_identity l = identity" "consistent_log l = Inr l"
    "tw_tick w' = tw_tick w + 8"
proof -
  from assms obtain raw after parsed w1 w2 where
      r: "read_command env (log_arguments scope (pi_name identity)) True (w\<lparr>tw_tick := Suc (tw_tick w)\<rparr>) = (Inr raw, w1)"
    and o: "get_object env [''pod'', pi_name identity] w1 = (Inr after, w2)"
    and a: "container_identity after scope deployment_uid replica_uid = Inr identity"
    and p: "parse_console_log (te_spans env) raw scope = Inr parsed"
    and l: "consistent_log \<lparr>tl_scope = scope, tl_identity = identity, tl_start = te_now env (tw_tick w),
              tl_end = te_now env (tw_tick w2), tl_parsed = parsed\<rparr> = Inr l"
    and w': "tw_tick w' = Suc (tw_tick w2)"
    unfolding pinned_read_def bindP_Inr_iff by (auto simp: ask_env_Inr)
  note ticks = read_command_Inr [OF r] get_object_Inr [OF o]
  then have "tw_tick w1 = tw_tick w + 4" "tw_tick w2 = tw_tick w + 7" by simp_all
  with ticks a p w' consistent_log_same [OF l] l show thesis
    by (intro that [of raw after]) (simp_all add: numeral_eq_Suc)
qed

lemma pod_log_pinned:
  assumes run: "pod_log env scope deployment_uid pod w = (Inr l, w')"
    and service: "got_object env m [''deployment'', sc_service scope] deployment"
      "owned_metadata deployment scope (Some (sc_service scope)) = Inr dmeta"
      "get_field dmeta ''uid'' = Some (JStr deployment_uid)"
      "got_object env (m + 3) [''pods'', ''-l'', ''app.kubernetes.io/name='' @ sc_service scope] pods"
      "kube_items (get_field pods ''items'') 2 = Inr items" "pod \<in> set items"
    and time: "lo \<le> m" "m + 5 \<le> tw_tick w" "tw_tick w' \<le> hi"
  shows "pinned_log env lo hi scope l"
proof -
  from run obtain replica_uid identity name w1 where
      i: "container_identity pod scope deployment_uid replica_uid = Inr identity"
    and r: "checked_replica env scope deployment_uid replica_uid name w = (Inr (), w1)"
    and p: "pinned_read env scope deployment_uid replica_uid identity w1 = (Inr l, w')"
    unfolding pod_log_def bindP_Inr_iff by auto
  from r obtain replica rmeta ref where o: "get_object env [''replicaset'', name] w = (Inr replica, w1)"
    and rep: "owned_metadata replica scope (Some name) = Inr rmeta"
      "controller_owner rmeta ''Deployment'' = Inr ref" "get_field rmeta ''uid'' = Some (JStr replica_uid)"
      "get_field ref ''uid'' = Some (JStr deployment_uid)" "get_field ref ''name'' = Some (JStr (sc_service scope))"
    unfolding checked_replica_def bindP_Inr_iff by auto
  note ticks = get_object_Inr [OF o]
  from p show ?thesis
  proof (rule pinned_read_Inr)
    fix raw after
    assume q: "tl_start l = te_now env (tw_tick w1)"
      "answered env (tw_tick w1 + 2) (log_arguments scope (pi_name identity)) True raw"
      "parse_console_log (te_spans env) raw scope = Inr (tl_parsed l)"
      "got_object env (tw_tick w1 + 5) [''pod'', pi_name identity] after"
      "container_identity after scope deployment_uid replica_uid = Inr identity"
      "tl_end l = te_now env (tw_tick w1 + 7)" "tl_scope l = scope" "tl_identity l = identity" "consistent_log l = Inr l"
      "tw_tick w' = tw_tick w1 + 8"
    define k where "k = tw_tick w + 1"
    have k: "got_object env k [''replicaset'', name] replica" "tw_tick w1 = k + 2" "m + 6 \<le> k" "k + 9 < hi"
      using ticks q(10) time by (simp_all add: k_def)
    have at_k: "tw_tick w1 = k + 2" "tw_tick w1 + 2 = k + 4" "tw_tick w1 + 5 = k + 7" "tw_tick w1 + 7 = k + 9"
      using k(2) by simp_all
    note calls = q(1) [unfolded at_k(1)] q(3,5) q(2,4,6) [unfolded at_k(2-4)]
    show ?thesis
      unfolding pinned_log_def q(7-9)
      by (intro conjI refl q(9), rule exI [of _ m], rule exI [of _ k], rule exI [of _ deployment], rule exI [of _ dmeta],
          rule exI [of _ deployment_uid], rule exI [of _ pods], rule exI [of _ items], rule exI [of _ pod],
          rule exI [of _ replica_uid], rule exI [of _ replica], rule exI [of _ rmeta], rule exI [of _ ref],
          rule exI [of _ name], rule exI [of _ raw], rule exI [of _ after],
          intro conjI time(1) k service i rep calls)
  qed
qed

lemma service_logs_pinned:
  assumes "service_logs env scope w = (Inr ls, w')" "l \<in> set ls" "lo \<le> tw_tick w" "tw_tick w' \<le> hi"
  shows "pinned_log env lo hi scope l"
proof -
  from assms(1) obtain deployment dmeta deployment_uid pods items w1 w2 where
      d: "get_object env [''deployment'', sc_service scope] w = (Inr deployment, w1)"
        "owned_metadata deployment scope (Some (sc_service scope)) = Inr dmeta"
        "kube_text (get_field dmeta ''uid'') = Inr deployment_uid"
    and p: "get_object env [''pods'', ''-l'', ''app.kubernetes.io/name='' @ sc_service scope] w1 = (Inr pods, w2)"
        "kube_items (get_field pods ''items'') 2 = Inr items"
    and m: "map_prog (pod_log env scope deployment_uid) items w2 = (Inr ls, w')"
    unfolding service_logs_def bindP_Inr_iff by auto
  note ticks = get_object_Inr [OF d(1)] get_object_Inr [OF p(1)]
  from later.frame_map_answers [OF m later_pod] assms(2) obtain pod t t' where
      pod: "pod \<in> set items" "pod_log env scope deployment_uid pod t = (Inr l, t')" "later w2 t" "later t' w'"
    by (fastforce simp: list_all2_conv_all_nth in_set_conv_nth)
  have uid: "get_field dmeta ''uid'' = Some (JStr deployment_uid)"
    using d(3) by (auto simp: kube_text_def split: option.splits json.splits)
  have got: "got_object env (tw_tick w + 1 + 3) [''pods'', ''-l'', ''app.kubernetes.io/name='' @ sc_service scope] pods"
    using ticks by (simp add: numeral_eq_Suc)
  show ?thesis
    by (rule pod_log_pinned [OF pod(2) ticks(1) d(2) uid got p(2) pod(1)])
       (use ticks(2,4) pod(3,4) assms(3,4) in \<open>simp_all add: later_def\<close>)
qed

lemma on_trace_store_Inr: "on_trace_store f w = (Inr x, w') \<Longrightarrow> \<exists>st st'. f st = Inr (x, st')"
  by (auto simp: on_trace_store_def split: sum.splits)

lemma published_Inr:
  "publish env f w = (Inr item, w') \<Longrightarrow> \<exists>new_id now st st'. f new_id now st = Inr (item, st')"
  by (auto simp: publish_def bindP_Inr_iff dest!: on_trace_store_Inr)

definition source_of :: "trace_log \<Rightarrow> evidence_item \<Rightarrow> bool" where
  "source_of l e \<longleftrightarrow>
     ev_source e = LOG \<and> ev_resource e = sc_service (tl_scope l) \<and> ev_incident e = sc_incident (tl_scope l)
     \<and> ev_observed e = tl_end l"

lemma publish_trace_log_source:
  assumes "publish_trace_log dump new_id now l st = Inr (e, st')"
  shows "source_of l e"
proof -
  from assms obtain o1 where m: "make_observation LOG (sc_service (tl_scope l)) (tl_end l) LOG_QUERY (log_summary l) (dump l) = Inr o1"
    and n: "normalize new_id now o1 (sc_incident (tl_scope l)) (tl_start l) (tl_end l) st = Inr (e, st')"
    by (auto simp: publish_trace_log_def)
  from m have o1: "obv_source o1 = LOG" "obv_resource o1 = sc_service (tl_scope l)" "obv_observed o1 = tl_end l"
    by (auto simp: make_observation_def)
  from normalize_item [OF n] o1 show ?thesis by (simp add: source_of_def)
qed

lemma derive_trace_span_item:
  assumes "derive_trace_span dump new_id now src ordinal st = Inr (e, st')"
  shows "\<exists>d. derive_span st src ordinal = Inr d \<and> ev_source e = TRACE \<and> ev_incident e = sc_incident (tp_scope d)
    \<and> ev_resource e = sc_service (tp_scope d) \<and> ev_observed e = ss_end (cs_span (tp_record d))"
proof -
  from assms obtain d o1 where d: "derive_span st src ordinal = Inr d"
    and m: "make_observation TRACE (sc_service (tp_scope d)) (ss_end (cs_span (tp_record d))) TRACE_QUERY (span_summary d) (dump d) = Inr o1"
    and n: "normalize new_id now o1 (sc_incident (tp_scope d)) (sc_start (tp_scope d)) (sc_end (tp_scope d)) st = Inr (e, st')"
    by (auto simp: derive_trace_span_def)
  from m have o1: "obv_source o1 = TRACE" "obv_resource o1 = sc_service (tp_scope d)" "obv_observed o1 = ss_end (cs_span (tp_record d))"
    by (auto simp: make_observation_def)
  from normalize_item [OF n] o1 d show ?thesis by auto
qed

lemma publish_capture_Inr:
  assumes "publish_capture env l w = (Inr (src, spans), w')"
  shows "source_of l src" and "length spans = length (pl_spans (tl_parsed l))"
    and "\<And>e. e \<in> set spans \<Longrightarrow> ev_source e = TRACE \<and> ev_incident e = ev_incident src \<and> ev_resource e = ev_resource src"
proof -
  from assms obtain w1 where s: "publish env (\<lambda>new_id now. publish_trace_log (te_log_dump env) new_id now l) w = (Inr src, w1)"
    and m: "map_prog (\<lambda>ordinal. publish env (\<lambda>new_id now. derive_trace_span (te_span_dump env) new_id now src (int ordinal)))
              [0..<length (pl_spans (tl_parsed l))] w1 = (Inr spans, w')"
    by (auto simp: publish_capture_def bindP_Inr_iff)
  from published_Inr [OF s] show "source_of l src" by (auto dest: publish_trace_log_source)
  from map_prog_Inr [OF m] show "length spans = length (pl_spans (tl_parsed l))"
    by (auto dest: list_all2_lengthD)
  fix e
  assume "e \<in> set spans"
  with map_prog_Inr [OF m] obtain ordinal t t' where
    "publish env (\<lambda>new_id now. derive_trace_span (te_span_dump env) new_id now src (int ordinal)) t = (Inr e, t')"
    by (auto simp: list_all2_conv_all_nth in_set_conv_nth)
  from published_Inr [OF this] obtain new_id now and st st' :: span_store where
    "derive_trace_span (te_span_dump env) new_id now src (int ordinal) st = Inr (e, st')" by blast
  from derive_trace_span_item [OF this] show "ev_source e = TRACE \<and> ev_incident e = ev_incident src \<and> ev_resource e = ev_resource src"
    by (auto simp: derive_span_iff verify_trace_log_iff)
qed

section \<open>Properties\<close>

text \<open>C13: The graph check rejects exactly the cyclic graphs. Once duplicates have been merged without conflict, the walk along
  the parents from every span, with its set of visited keys, succeeds for all of them if and only if the parent
  relation on the observed spans is acyclic, however long the cycle is and wherever the walk enters it.\<close>

theorem graph_check_is_acyclicity:
  assumes "graph_nodes spans [] = Inr nodes"
  shows "each (\<lambda>(key, span). walk_parents nodes [key] span) nodes = Inr () \<longleftrightarrow> acyclic (parent_edges nodes)"
  using graph_nodes_Inr [OF assms] by (intro walks_acyclic) (simp add: well_keyed_def)

text \<open>C15: A trace collection stays within its command reservation and only reads. Whatever the cluster answers, and
  whether or not it succeeds, a collection dispatches at most eight commands per service and never more
  than forty, each of them a \<^verbatim>\<open>get\<close> or \<^verbatim>\<open>logs\<close> behind the fixed prefix; and the number it reports is the number it dispatched.\<close>

theorem trace_collection_is_bounded:
  assumes "collect_traces env scopes w = (x, w')"
  shows "\<exists>calls. tw_calls w' = tw_calls w @ calls \<and> list_all (reads_only env) calls
    \<and> length calls \<le> 8 * length scopes \<and> length calls \<le> 40
    \<and> (\<forall>c. x = Inr c \<longrightarrow> tc_commands c = length calls \<and> tc_commands c \<le> tc_reserved c)"
  using assms
proof (cases rule: collect_traces_opened)
  case (stopped e)
  then show ?thesis by auto
next
  case (opened w1)
  have "spent env (length scopes * MAX_COMMANDS_PER_SERVICE) w1 w'"
    using spends_collect [of env scopes] opened(5) by (metis spends_def snd_conv)
  then obtain calls where calls: "tw_calls w' = tw_calls w @ calls" "tw_commands w' = length calls"
      "length calls \<le> 8 * length scopes" "list_all (reads_only env) calls"
    using opened(3,4) by (auto simp: spent_def MAX_COMMANDS_PER_SERVICE_def)
  have "tc_commands c = tw_commands w' \<and> tc_reserved c = 8 * length scopes" if "x = Inr c" for c
    using opened(5) that
    by (auto simp: collect_opened_def bindP_Inr_iff Let_def validate_trace_collection_def MAX_COMMANDS_PER_SERVICE_def)
  with calls opened(1) show ?thesis by auto
qed

text \<open>C14: What a trace collection returns was read by this collection from the pods it names. Every source is
  the record of a log for which the cluster answered, in this order: the deployment of a selected service; the list of
  its pods, with this pod in it; the replica set that controls the pod, owned by that deployment; the log of the pod of
  that name; and the pod of that name again, with the same name, identifier, owners, container and restart count as the
  listed one. The kept interval is the one between the clock readings on both sides of the log. The spans are one item
  per accepted span of those logs, and the span graph is acyclic.\<close>

theorem trace_collection_is_pinned:
  assumes "collect_traces env scopes w = (Inr c, w')"
  shows "\<exists>captures nodes. (\<forall>l \<in> set captures. \<exists>scope \<in> set scopes. pinned_log env (tw_tick w) (tw_tick w') scope l)
    \<and> list_all2 source_of captures (tc_sources c)
    \<and> length (tc_spans c) = summed (\<lambda>p. length (pl_spans p)) captures
    \<and> (\<forall>e \<in> set (tc_spans c). ev_source e = TRACE \<and> (\<exists>src \<in> set (tc_sources c). ev_incident e = ev_incident src \<and> ev_resource e = ev_resource src))
    \<and> graph_nodes (map cs_span (concat (map (\<lambda>l. pl_spans (tl_parsed l)) captures))) [] = Inr nodes
    \<and> acyclic (parent_edges nodes)"
  using assms
proof (cases rule: collect_traces_opened)
  case (opened w1)
  then obtain groups w2 graph published w3 where g: "map_prog (service_logs env) scopes w1 = (Inr groups, w2)"
    and s: "summarize_graph (map cs_span (concat (map (\<lambda>l. pl_spans (tl_parsed l)) (concat groups)))) = Inr graph"
    and m: "map_prog (publish_capture env) (concat groups) w2 = (Inr published, w3)"
    and end1: "tw_tick w3 \<le> tw_tick w'"
    and c: "tc_sources c = map fst published" "tc_spans c = concat (map snd published)"
    by (auto simp: collect_opened_def bindP_Inr_iff Let_def validate_trace_collection_def
        dest: keepsD [OF later_remaining] simp: later_def)
  have end2: "tw_tick w2 \<le> tw_tick w'"
    using keepsD [OF later.frame_map_prog [OF later_publish] m] end1 by (simp add: later_def)
  have pinned: "\<exists>scope \<in> set scopes. pinned_log env (tw_tick w) (tw_tick w') scope l" if "l \<in> set (concat groups)" for l
  proof -
    from that obtain ls where "ls \<in> set groups" "l \<in> set ls" by auto
    then obtain i where i: "i < length groups" "l \<in> set (groups ! i)" by (metis in_set_conv_nth)
    with later.frame_map_answers [OF g later_service] obtain t t' where
        t: "service_logs env (scopes ! i) t = (Inr (groups ! i), t')" "i < length scopes" "later w1 t" "later t' w2"
      by (auto simp: list_all2_conv_all_nth)
    have "pinned_log env (tw_tick w) (tw_tick w') (scopes ! i) l"
      by (rule service_logs_pinned [OF t(1) i(2)]) (use t(3,4) opened(2) end2 in \<open>simp_all add: later_def\<close>)
    with t(2) show ?thesis using nth_mem by blast
  qed
  have all: "list_all2 (\<lambda>l p. \<exists>t t'. publish_capture env l t = (Inr p, t')) (concat groups) published"
    by (rule map_prog_Inr [OF m])
  have sources: "list_all2 source_of (concat groups) (map fst published)"
    unfolding list_all2_map2 using all by (rule list_all2_mono) (auto dest: publish_capture_Inr(1))
  have "list_all2 (\<lambda>l p. length (snd p) = length (pl_spans (tl_parsed l))) (concat groups) published"
    using all by (rule list_all2_mono) (auto dest: publish_capture_Inr(2))
  then have "length (concat (map snd published)) = summed (\<lambda>p. length (pl_spans p)) (concat groups)"
    unfolding summed_def length_concat by (induction rule: list_all2_induct) simp_all
  moreover have "ev_source e = TRACE \<and> (\<exists>src \<in> set (map fst published). ev_incident e = ev_incident src \<and> ev_resource e = ev_resource src)"
    if e: "e \<in> set (concat (map snd published))" for e
  proof -
    from e obtain p where p: "p \<in> set published" "e \<in> set (snd p)" by auto
    with all obtain l t t' where "publish_capture env l t = (Inr (fst p, snd p), t')"
      by (auto simp: list_all2_conv_all_nth in_set_conv_nth)
    from publish_capture_Inr(3) [OF this p(2)] p(1) show ?thesis by auto
  qed
  moreover from s obtain nodes where n: "graph_nodes (map cs_span (concat (map (\<lambda>l. pl_spans (tl_parsed l)) (concat groups)))) [] = Inr nodes"
    and w: "each (\<lambda>(key, span). walk_parents nodes [key] span) nodes = Inr ()"
    by (auto simp: summarize_graph_def Let_def)
  moreover have "acyclic (parent_edges nodes)"
    using w walks_acyclic [of nodes] graph_nodes_Inr [OF n] by (simp add: well_keyed_def)
  ultimately show ?thesis using pinned sources c by metis
qed simp

section \<open>Samples\<close>

definition sample_span :: "string \<Rightarrow> string option \<Rightarrow> source_span" where
  "sample_span i parent =
     \<lparr>ss_name = ''sandbox.risk'', ss_trace = ''t'', ss_id = i, ss_parent = parent, ss_kind = Server, ss_start = 1, ss_end = 2,
      ss_status = Status_ok, ss_service = ''payops-sandbox-risk''\<rparr>"

definition sample_cycle :: "source_span list" where
  "sample_cycle = [sample_span ''a'' (Some ''b''), sample_span ''b'' (Some ''c''), sample_span ''c'' (Some ''b'')]"

theorem graph_check_is_acyclicity_witness:
  "\<exists>nodes. graph_nodes sample_cycle [] = Inr nodes
     \<and> each (\<lambda>(key, span). walk_parents nodes [key] span) nodes = Inl (EvidenceIntegrityError ''trace parent cycle'')
     \<and> \<not> acyclic (parent_edges nodes)"
proof -
  let ?nodes = "[((''t'', ''a''), sample_span ''a'' (Some ''b'')), ((''t'', ''b''), sample_span ''b'' (Some ''c'')),
                 ((''t'', ''c''), sample_span ''c'' (Some ''b''))]"
  have n: "graph_nodes sample_cycle [] = Inr ?nodes"
    by (simp add: sample_cycle_def node_key_def) (simp add: sample_span_def)
  have e: "each (\<lambda>(key, span). walk_parents ?nodes [key] span) ?nodes = Inl (EvidenceIntegrityError ''trace parent cycle'')"
    by (simp add: walk_parents.simps sample_span_def)
  have "\<not> acyclic (parent_edges ?nodes)"
    using graph_check_is_acyclicity [OF n] unfolding e by simp
  with n e show ?thesis by blast
qed

text \<open>A cluster with one pod and an empty log: the five reads of a collection over one service.\<close>

definition sample_scope :: trace_scope where
  "sample_scope = \<lparr>sc_incident = ''inc-1'', sc_service = ''risk-sim'', sc_start = 0, sc_end = 60000000\<rparr>"

definition sample_metadata :: "string \<Rightarrow> string \<Rightarrow> json_object \<Rightarrow> json" where
  "sample_metadata name uid rest =
     JObj ([(''namespace'', JStr ''payops-sandbox''), (''labels'', JObj [(''app.kubernetes.io/name'', JStr ''risk-sim'')]),
            (''name'', JStr name), (''uid'', JStr uid)] @ rest)"

definition sample_owner :: "string \<Rightarrow> string \<Rightarrow> string \<Rightarrow> json_object" where
  "sample_owner kind name uid =
     [(''ownerReferences'', JArr [JObj [(''controller'', JBool True), (''kind'', JStr kind), (''apiVersion'', JStr ''apps/v1''),
                                        (''name'', JStr name), (''uid'', JStr uid)]])]"

definition sample_pod :: json_object where
  "sample_pod =
     [(''metadata'', sample_metadata ''risk-sim-1-x'' ''p1'' (sample_owner ''ReplicaSet'' ''risk-sim-1'' ''r1'')),
      (''status'', JObj [(''containerStatuses'', JArr [JObj [(''name'', JStr ''sandbox''), (''containerID'', JStr ''c1''), (''restartCount'', JInt 0)]])])]"

definition sample_reply :: "string \<Rightarrow> exn + json_object" where
  "sample_reply text =
     (if text = ''deployment'' then Inr [(''metadata'', sample_metadata ''risk-sim'' ''d1'' [])]
      else if text = ''pods'' then Inr [(''items'', JArr [JObj sample_pod])]
      else if text = ''replicaset''
        then Inr [(''metadata'', sample_metadata ''risk-sim-1'' ''r1'' (sample_owner ''Deployment'' ''risk-sim'' ''d1''))]
      else if text = ''pod'' then Inr sample_pod else Inl (ValueError ''none''))"

definition sample_trace_env :: "bool \<Rightarrow> trace_env" where
  "sample_trace_env up =
     \<lparr>te_prefix = [''kubectl''],
      te_invoke = (\<lambda>n argv most timeout. if \<not> up then Inl (OSError ''down'') else if argv ! 1 = ''logs'' then Inr [] else Inr (argv ! 2)),
      te_clock = (\<lambda>n. 0), te_now = (\<lambda>n. 61000000), te_new_id = (\<lambda>n. ''e1''), te_loads = sample_reply,
      te_spans = \<lparr>sn_decode = Inr, sn_loads = (\<lambda>_. Inl (ValueError ''none'')), sn_datetime = (\<lambda>_. None)\<rparr>,
      te_log_dump = (\<lambda>_. []), te_span_dump = (\<lambda>_. [])\<rparr>"

definition sample_trace_world :: trace_world where
  "sample_trace_world =
     \<lparr>tw_tick = 0, tw_deadline = 0, tw_commands = 0, tw_metadata = 0, tw_source = 0, tw_calls = [],
      tw_store = \<lparr>st_files = Map.empty, st_decode = (\<lambda>_. Inl (ValueError ''none'')), st_window = (\<lambda>_. Inl (ValueError ''none'')),
                  st_trace_log = (\<lambda>_. Inl (ValueError ''none'')), st_trace_span = (\<lambda>_. Inl (ValueError ''none''))\<rparr>\<rparr>"

theorem trace_collection_is_bounded_witness:
  "\<exists>x w'. collect_traces (sample_trace_env False) [sample_scope] sample_trace_world = (x, w')
     \<and> tw_calls w' = [[''kubectl'', ''get'', ''deployment'', ''risk-sim'', ''-o'', ''json'']] \<and> length (tw_calls w') \<le> 8"
proof -
  obtain x w' where run: "collect_traces (sample_trace_env False) [sample_scope] sample_trace_world = (x, w')"
    by fastforce
  then have "tw_calls w' = [[''kubectl'', ''get'', ''deployment'', ''risk-sim'', ''-o'', ''json'']]"
    by (simp add: collect_traces_def bindP_def ask_env_def open_budget_def collect_opened_def service_logs_def get_object_def
        read_command_def remaining_def start_command_def invoke_def sample_trace_env_def sample_trace_world_def sample_scope_def
        MAX_COMMANDS_def MAX_SECONDS_def)
       (auto simp: Let_def)
  moreover have "length (tw_calls w') \<le> 8"
    using trace_collection_is_bounded [OF run] by (auto simp: sample_trace_world_def)
  ultimately show ?thesis using run by blast
qed

definition sample_log :: trace_log where
  "sample_log =
     \<lparr>tl_scope = sample_scope,
      tl_identity = \<lparr>pi_name = ''risk-sim-1-x'', pi_uid = ''p1'', pi_deployment = ''d1'', pi_replica_set = ''r1'',
                     pi_container_id = ''c1'', pi_restarts = 0\<rparr>,
      tl_start = 61000000, tl_end = 61000000,
      tl_parsed = \<lparr>pl_spans = [], pl_bytes = 0, pl_lines = 0, pl_partial = 0, pl_malformed = 0, pl_excluded = 0, pl_limit = False\<rparr>\<rparr>"

lemma sample_objects:
  "owned_metadata sample_pod sample_scope None = kube_object (get_field sample_pod ''metadata'')"
  "kube_object (get_field sample_pod ''metadata'') = Inr (case sample_metadata ''risk-sim-1-x'' ''p1'' (sample_owner ''ReplicaSet'' ''risk-sim-1'' ''r1'') of JObj m \<Rightarrow> m)"
  "container_identity sample_pod sample_scope ''d1'' ''r1'' = Inr (tl_identity sample_log)"
  by (simp_all add: owned_metadata_def kube_object_def sample_pod_def sample_metadata_def sample_scope_def NAMESPACE_def
      container_identity_def controller_owner_def kube_items_def sample_owner_def text_field_def kube_int_def validate_identity_def
      sample_log_def is_pod_name_def is_lower_alnum_char_def is_digit_def is_identifier_def is_word_char_def)

lemma sample_object_read:
  assumes "tw_deadline w = 30" "tw_commands w < 40" "tw_metadata w \<le> 100" "tw_source w = 0" "length kind \<le> 16"
  shows "get_object (sample_trace_env True) (kind # args) w
    = (sample_reply kind, w\<lparr>tw_tick := tw_tick w + 3, tw_commands := tw_commands w + 1,
         tw_metadata := tw_metadata w + length kind, tw_calls := tw_calls w @ [''kubectl'' # ''get'' # kind # args @ [''-o'', ''json'']]\<rparr>)"
  using assms
  by (simp add: get_object_def read_command_def remaining_def bindP_def ask_env_def start_command_def invoke_def sample_trace_env_def
      MAX_COMMANDS_def account_bytes_def Let_def MAX_SOURCE_BYTES_def MAX_METADATA_BYTES_def)

lemma sample_empty_log:
  "parse_console_log (te_spans (sample_trace_env True)) [] sample_scope = Inr (tl_parsed sample_log)"
  by (simp add: parse_console_log_def physical_lines_def sample_trace_env_def MAX_LOG_BYTES_def MAX_LOG_LINES_def
      splitlines_def no_frame_def validate_parsed_def MAX_SPANS_def sample_log_def)

lemma sample_consistent: "consistent_log sample_log = Inr sample_log"
  by (simp add: consistent_log_def sample_log_def sample_scope_def)

lemma sample_log_read:
  assumes "tw_deadline w = 30" "tw_commands w < 40" "tw_metadata w \<le> 100" "tw_source w = 0"
  shows "read_command (sample_trace_env True) (log_arguments sample_scope name) True w
    = (Inr [], w\<lparr>tw_tick := tw_tick w + 3, tw_commands := tw_commands w + 1,
         tw_calls := tw_calls w @ [''kubectl'' # log_arguments sample_scope name]\<rparr>)"
  using assms
  by (simp add: read_command_def remaining_def bindP_def ask_env_def start_command_def invoke_def sample_trace_env_def log_arguments_def
      MAX_COMMANDS_def account_bytes_def Let_def MAX_SOURCE_BYTES_def MAX_METADATA_BYTES_def)

lemma sample_pod_log:
  assumes "tw_deadline w = 30" "tw_commands w < 30" "tw_metadata w \<le> 60" "tw_source w = 0"
  shows "\<exists>w'. pod_log (sample_trace_env True) sample_scope ''d1'' sample_pod w = (Inr sample_log, w')
    \<and> tw_deadline w' = 30 \<and> tw_commands w' = tw_commands w + 3 \<and> tw_store w' = tw_store w"
proof -
  let ?env = "sample_trace_env True"
  have owner: "controller_owner (case sample_metadata ''risk-sim-1-x'' ''p1'' (sample_owner ''ReplicaSet'' ''risk-sim-1'' ''r1'') of JObj m \<Rightarrow> m) ''ReplicaSet''
      = Inr [(''controller'', JBool True), (''kind'', JStr ''ReplicaSet''), (''apiVersion'', JStr ''apps/v1''),
             (''name'', JStr ''risk-sim-1''), (''uid'', JStr ''r1'')]"
    by (simp add: controller_owner_def kube_items_def kube_object_def sample_metadata_def sample_owner_def)
  have identity: "pi_name (tl_identity sample_log) = ''risk-sim-1-x''" by (simp add: sample_log_def)
  have replica: "\<exists>w1. checked_replica ?env sample_scope ''d1'' ''r1'' ''risk-sim-1'' w = (Inr (), w1)
      \<and> tw_deadline w1 = 30 \<and> tw_commands w1 = tw_commands w + 1 \<and> tw_metadata w1 \<le> 80 \<and> tw_source w1 = 0 \<and> tw_store w1 = tw_store w"
  proof -
    have "get_object ?env [''replicaset'', ''risk-sim-1''] w
      = (Inr [(''metadata'', sample_metadata ''risk-sim-1'' ''r1'' (sample_owner ''Deployment'' ''risk-sim'' ''d1''))],
         w\<lparr>tw_tick := tw_tick w + 3, tw_commands := tw_commands w + 1, tw_metadata := tw_metadata w + 10,
           tw_calls := tw_calls w @ [''kubectl'' # ''get'' # ''replicaset'' # [''risk-sim-1''] @ [''-o'', ''json'']]\<rparr>)"
      using assms by (simp add: sample_object_read) (simp add: sample_reply_def)
    moreover have "is_prefix (sc_service sample_scope @ ''-'') ''risk-sim-1'' \<and> list_all (\<lambda>c. is_letter_digit c \<or> c = CHR ''-'') ''risk-sim-1''"
      by (simp add: is_prefix_def sample_scope_def is_letter_digit_def is_word_char_def)
    moreover have "sc_service sample_scope = ''risk-sim''" by (simp add: sample_scope_def)
    ultimately show ?thesis using assms
      by (simp add: checked_replica_def bindP_def owned_metadata_def kube_object_def sample_metadata_def
          NAMESPACE_def controller_owner_def kube_items_def sample_owner_def)
  qed
  then obtain w1 where r: "checked_replica ?env sample_scope ''d1'' ''r1'' ''risk-sim-1'' w = (Inr (), w1)"
      "tw_deadline w1 = 30" "tw_commands w1 = tw_commands w + 1" "tw_metadata w1 \<le> 80" "tw_source w1 = 0" "tw_store w1 = tw_store w" by blast
  have now: "te_now ?env n = 61000000" for n by (simp add: sample_trace_env_def)
  have "\<exists>w'. pinned_read ?env sample_scope ''d1'' ''r1'' (tl_identity sample_log) w1 = (Inr sample_log, w')
      \<and> tw_deadline w' = 30 \<and> tw_commands w' = tw_commands w + 3 \<and> tw_store w' = tw_store w"
  proof -
    have "\<lparr>tl_scope = sample_scope, tl_identity = tl_identity sample_log, tl_start = 61000000, tl_end = 61000000,
        tl_parsed = tl_parsed sample_log\<rparr> = sample_log" by (simp add: sample_log_def)
    then show ?thesis
      using r(2-6) assms(2)
      by (simp add: pinned_read_def bindP_def ask_env_def sample_log_read sample_object_read identity sample_reply_def sample_objects(3)
          sample_empty_log now sample_consistent)
  qed
  then obtain w' where "pinned_read ?env sample_scope ''d1'' ''r1'' (tl_identity sample_log) w1 = (Inr sample_log, w')"
      "tw_deadline w' = 30" "tw_commands w' = tw_commands w + 3" "tw_store w' = tw_store w" by blast
  with r(1) show ?thesis
    by (simp add: pod_log_def bindP_def sample_objects owner kube_text_def)
qed
text \<open>The service of the sample, read through, has the one log, whose record is published into the empty store.\<close>

lemma sample_service:
  assumes "tw_deadline w = 30" "tw_commands w = 0" "tw_metadata w = 0" "tw_source w = 0"
  shows "\<exists>w'. service_logs (sample_trace_env True) sample_scope w = (Inr [sample_log], w')
    \<and> tw_deadline w' = 30 \<and> tw_commands w' = 5 \<and> tw_store w' = tw_store w"
proof -
  let ?env = "sample_trace_env True"
  define w1 where "w1 = w\<lparr>tw_tick := tw_tick w + 3, tw_commands := 1, tw_metadata := 10,
      tw_calls := tw_calls w @ [[''kubectl'', ''get'', ''deployment'', sc_service sample_scope, ''-o'', ''json'']]\<rparr>"
  define w2 where "w2 = w1\<lparr>tw_tick := tw_tick w1 + 3, tw_commands := 2, tw_metadata := 14,
      tw_calls := tw_calls w1 @ [[''kubectl'', ''get'', ''pods'', ''-l'', ''app.kubernetes.io/name='' @ sc_service sample_scope, ''-o'', ''json'']]\<rparr>"
  have first: "get_object ?env [''deployment'', sc_service sample_scope] w = (sample_reply ''deployment'', w1)"
    using assms by (simp add: sample_object_read w1_def)
  have w1: "tw_deadline w1 = 30" "tw_commands w1 = 1" "tw_metadata w1 = 10" "tw_source w1 = 0" "tw_store w1 = tw_store w"
    using assms by (simp_all add: w1_def)
  have second: "get_object ?env [''pods'', ''-l'', ''app.kubernetes.io/name='' @ sc_service sample_scope] w1 = (sample_reply ''pods'', w2)"
    using sample_object_read [of w1 "''pods''" "[''-l'', ''app.kubernetes.io/name='' @ sc_service sample_scope]"] w1 by (simp add: w2_def)
  have "tw_deadline w2 = 30" "tw_commands w2 = 2" "tw_metadata w2 = 14" "tw_source w2 = 0" "tw_store w2 = tw_store w"
    using w1 by (simp_all add: w2_def)
  then obtain w3 where l: "pod_log ?env sample_scope ''d1'' sample_pod w2 = (Inr sample_log, w3)"
      "tw_deadline w3 = 30" "tw_commands w3 = 5" "tw_store w3 = tw_store w"
    using sample_pod_log [of w2] by auto
  have meta: "owned_metadata [(''metadata'', sample_metadata ''risk-sim'' ''d1'' [])] sample_scope (Some (sc_service sample_scope))
      = Inr [(''namespace'', JStr ''payops-sandbox''), (''labels'', JObj [(''app.kubernetes.io/name'', JStr ''risk-sim'')]),
             (''name'', JStr ''risk-sim''), (''uid'', JStr ''d1'')]"
    by (simp add: owned_metadata_def kube_object_def sample_metadata_def sample_scope_def NAMESPACE_def)
  show ?thesis
    unfolding service_logs_def
    by (simp add: bindP_def first second [unfolded append.simps] meta l kube_text_def kube_items_def kube_object_def sample_reply_def)
qed

lemma log_query_plain: "strip LOG_QUERY = LOG_QUERY" "strip (redact_text LOG_QUERY) = LOG_QUERY" "is_summary LOG_QUERY"
    "length LOG_QUERY \<le> 1000"
  by code_simp+

lemma sample_log_plain:
  "log_summary sample_log = ''Bounded console span sample: 0 records''"
  "strip ''Bounded console span sample: 0 records'' = ''Bounded console span sample: 0 records''"
  "strip (redact_text ''Bounded console span sample: 0 records'') = ''Bounded console span sample: 0 records''"
  "is_summary ''Bounded console span sample: 0 records''"
  by (simp add: log_summary_def sample_log_def nat_str.simps) code_simp+

lemma sample_publish:
  "\<exists>src st. publish_trace_log (\<lambda>_. []) ''e1'' 61000000 sample_log (tw_store sample_trace_world) = Inr (src, st)"
proof -
  let ?o1 = "\<lparr>obv_source = LOG, obv_resource = ''risk-sim'', obv_observed = 61000000, obv_query = LOG_QUERY,
      obv_summary = ''Bounded console span sample: 0 records'', obv_payload = []\<rparr>"
  let ?e = "evidence_metadata ''e1'' 61000000 ?o1 ''inc-1''"
  have ids: "is_identifier ''risk-sim''" "is_identifier ''e1''" "is_identifier ''inc-1''" by code_simp+
  have o1: "make_observation LOG (sc_service (tl_scope sample_log)) (tl_end sample_log) LOG_QUERY (log_summary sample_log) [] = Inr ?o1"
    by (simp add: make_observation_def log_query_plain sample_log_plain ids) (simp add: sample_log_def sample_scope_def ids)
  have valid: "valid_evidence_item ?e"
    by (simp add: valid_evidence_item_def evidence_metadata_def log_query_plain sample_log_plain ids) code_simp
  have short: "length (artifact_bytes (evidence_envelope ?e (JObj []))) \<le> MAX_ARTIFACT_BYTES"
    by (rule envelope_short) (use log_query_plain(4) in \<open>simp_all add: evidence_metadata_def log_query_plain(2) sample_log_plain(3)\<close>)
  from normalize_fresh [OF refl _ _ _ valid short, of 61000000 61000000 "tw_store sample_trace_world"] o1
  show ?thesis
    by (simp add: publish_trace_log_def sample_trace_world_def) (simp add: sample_log_def sample_scope_def)
qed

theorem trace_collection_is_pinned_witness:
  "\<exists>c w'. collect_traces (sample_trace_env True) [sample_scope] sample_trace_world = (Inr c, w')
     \<and> (\<exists>l. pinned_log (sample_trace_env True) 0 (tw_tick w') sample_scope l \<and> list_all2 source_of [l] (tc_sources c) \<and> tc_spans c = [])"
proof -
  let ?env = "sample_trace_env True"
  define w1 where "w1 = sample_trace_world\<lparr>tw_tick := 2, tw_deadline := 30, tw_commands := 0, tw_metadata := 0, tw_source := 0\<rparr>"
  have "collect_traces ?env [sample_scope] sample_trace_world = collect_opened ?env [sample_scope] w1"
    by (simp add: collect_traces_def bindP_def ask_env_def open_budget_def w1_def check_def)
       (simp add: sample_trace_env_def sample_trace_world_def sample_scope_def MAX_SECONDS_def numeral_2_eq_2)
  moreover obtain w2 where s: "service_logs ?env sample_scope w1 = (Inr [sample_log], w2)" "tw_deadline w2 = 30"
      "tw_commands w2 = 5" "tw_store w2 = tw_store sample_trace_world"
    using sample_service [of w1] by (auto simp: w1_def)
  moreover obtain src st where p: "publish_trace_log (\<lambda>_. []) ''e1'' 61000000 sample_log (tw_store sample_trace_world) = Inr (src, st)"
    using sample_publish by blast
  have pub: "publish ?env (\<lambda>new_id now. publish_trace_log (te_log_dump ?env) new_id now sample_log) w2
      = (Inr src, w2\<lparr>tw_tick := tw_tick w2 + 3, tw_store := st\<rparr>)"
    using s(2,4) p by (simp add: publish_def remaining_def bindP_def ask_env_def on_trace_store_def)
       (simp add: sample_trace_env_def on_trace_store_def bindP_def ask_env_def)
  have cap: "publish_capture ?env sample_log w2 = (Inr (src, []), w2\<lparr>tw_tick := tw_tick w2 + 3, tw_store := st\<rparr>)"
    using pub by (simp add: publish_capture_def bindP_def sample_log_def)
  have spanless: "pl_spans (tl_parsed sample_log) = []" and clock: "\<And>n. te_clock ?env n = 0"
    by (simp_all add: sample_log_def sample_trace_env_def)
  obtain g where graph: "summarize_graph [] = Inr g" by (simp add: summarize_graph_def Let_def validate_graph_def)
  have "\<exists>c w'. collect_opened ?env [sample_scope] w1 = (Inr c, w') \<and> tc_sources c = [src] \<and> tc_spans c = []"
    using s(1-3) cap spanless clock
    by (simp add: collect_opened_def bindP_def Let_def remaining_def ask_env_def validate_trace_collection_def
        MAX_SPANS_def MAX_COMMANDS_def MAX_COMMANDS_PER_SERVICE_def summed_def graph)
  ultimately obtain c w' where run: "collect_traces ?env [sample_scope] sample_trace_world = (Inr c, w')"
      and c: "tc_sources c = [src]" "tc_spans c = []" by metis
  have "tw_tick sample_trace_world = 0" by (simp add: sample_trace_world_def)
  with trace_collection_is_pinned [OF run] c(1) obtain captures where
      "\<forall>l \<in> set captures. pinned_log ?env 0 (tw_tick w') sample_scope l" "list_all2 source_of captures [src]" by auto
  with run c show ?thesis by (auto simp: list_all2_Cons2)
qed

end
