(* ===== verification/ShaVectors.thy ===== *)
theory ShaVectors
  imports Sha256
begin

text \<open>
  Evaluation of the SHA-256 model in the kernel, by rewriting with numerals: the schedule and the rounds
  mask every sum to 32 bits, so the simplifier computes on bounded numerals.

  Main facts: the model gives the digest of \<^verbatim>\<open>abc\<close> that FIPS 180 prints (\<open>sha256_words_abc\<close>), and the digests of
  three one-letter files, which samples with several artifacts use, are distinct (\<open>sha256_letters\<close>).
\<close>

unbundle bit_operations_syntax

lemma rotr_shifts:
  assumes "n < 32"
  shows "word_rotr n (x :: w32) = drop_bit n x OR push_bit (32 - n) x"
proof (rule bit_word_eqI)
  fix i
  assume i: "i < LENGTH(32)"
  show "bit (word_rotr n x) i = bit (drop_bit n x OR push_bit (32 - n) x) i"
  proof (cases "i + n < 32")
    case True
    with i assms show ?thesis by (auto simp: bit_simps ac_simps)
  next
    case False
    with i assms have "(n + i) mod 32 = n + i - 32" by (simp add: mod_if)
    moreover have "\<not> bit x (n + i)" using False by (auto dest: bit_imp_le_length)
    ultimately show ?thesis using False i assms by (auto simp: bit_simps ac_simps)
  qed
qed

lemma low_word: "(x :: w32) AND 0xffffffff = x"
proof -
  have "(0xffffffff :: w32) = - 1" by simp
  then show ?thesis by (metis and.right_neutral)
qed

lemma schedule_eval:
  "expand_schedule (numeral k) ws = expand_schedule (pred_numeral k)
     (((small_sigma1 (ws ! 1) + ws ! 6 + small_sigma0 (ws ! 14) + ws ! 15) AND 0xffffffff) # ws)"
  "expand_schedule (Suc 0) ws =
     ((small_sigma1 (ws ! 1) + ws ! 6 + small_sigma0 (ws ! 14) + ws ! 15) AND 0xffffffff) # ws"
  by (simp_all add: numeral_eq_Suc low_word)

lemma round_eval:
  "foldl compress_round [a, b, c, d, e, f, g, h] ((k, w) # kws) =
     foldl compress_round
       [(h + big_sigma1 e + ((e AND f) XOR (NOT e AND g)) + k + w
          + (big_sigma0 a + ((a AND b) XOR (a AND c) XOR (b AND c)))) AND 0xffffffff, a, b, c,
        (d + (h + big_sigma1 e + ((e AND f) XOR (NOT e AND g)) + k + w)) AND 0xffffffff, e, f, g] kws"
  by (simp add: Let_def low_word)

lemmas sigma_eval = small_sigma0_def small_sigma1_def big_sigma0_def big_sigma1_def rotr_shifts

lemma replicate_eval: "replicate (numeral k) x = x # replicate (pred_numeral k) x"
  by (simp add: numeral_eq_Suc)

definition block_digest :: "w32 list \<Rightarrow> w32 list" where
  "block_digest ws = map2 (\<lambda>x y. (x + y) AND 0xffffffff) initial_words
     (foldl compress_round initial_words (zip round_constants (rev (expand_schedule 48 (rev ws)))))"

lemma sha256_one_block:
  "length (pad_message bs) = 64 \<Longrightarrow> sha256_words bs = block_digest (words_of (pad_message bs))"
  by (simp add: sha256_words_def Let_def compress_block_def block_digest_def low_word map2_map_map)

lemma pad_letter:
  "pad_message [c] = c # char_of (128 :: nat) # replicate 61 (char_of (0 :: nat)) @ [char_of (8 :: nat)]"
  by (simp add: pad_message_def Let_def replicate_eval upt_rec)

lemma words_letter:
  "words_of (pad_message [c]) =
     [push_bit 24 (byte_word c) OR 0x800000, 0, 0, 0, 0, 0, 0, 0, 0, 0, 0, 0, 0, 0, 0, 8]"
  unfolding pad_letter by (simp add: replicate_eval byte_word_def)

lemma sha256_letter:
  "sha256_words [c] = block_digest [push_bit 24 (byte_word c) OR 0x800000, 0, 0, 0, 0, 0, 0, 0, 0, 0, 0, 0, 0, 0, 0, 8]"
  by (simp add: sha256_one_block pad_letter words_letter [unfolded pad_letter])

lemma pad_abc:
  "pad_message ''abc'' = ''abc'' @ char_of (128 :: nat) # replicate 59 (char_of (0 :: nat)) @ [char_of (24 :: nat)]"
  by (simp add: pad_message_def Let_def replicate_eval upt_rec)

lemma words_abc: "words_of (pad_message ''abc'') = [0x61626380, 0, 0, 0, 0, 0, 0, 0, 0, 0, 0, 0, 0, 0, 0, 24]"
  unfolding pad_abc by (simp add: replicate_eval byte_word_def)

lemma sha256_words_abc:
  "sha256_words ''abc'' = [0xba7816bf, 0x8f01cfea, 0x414140de, 0x5dae2223, 0xb00361a3, 0x96177a9c, 0xb410ff61, 0xf20015ad]"
proof -
  have "sha256_words ''abc'' = block_digest [0x61626380, 0, 0, 0, 0, 0, 0, 0, 0, 0, 0, 0, 0, 0, 0, 24]"
    by (subst sha256_one_block) (simp_all only: words_abc, simp add: pad_abc)
  then show ?thesis
    by (simp add: block_digest_def schedule_eval sigma_eval)
       (simp add: round_constants_def initial_words_def round_eval sigma_eval del: foldl.simps(2))
qed

lemma sha256_words_a:
  "sha256_words ''a'' = [0xca978112, 0xca1bbdca, 0xfac231b3, 0x9a23dc4d, 0xa786eff8, 0x147c4e72, 0xb9807785, 0xafee48bb]"
proof -
  have "sha256_words ''a'' = block_digest [0x61800000, 0, 0, 0, 0, 0, 0, 0, 0, 0, 0, 0, 0, 0, 0, 8]"
    by (simp add: sha256_letter byte_word_def)
  then show ?thesis
    by (simp add: block_digest_def schedule_eval sigma_eval)
       (simp add: round_constants_def initial_words_def round_eval sigma_eval del: foldl.simps(2))
qed

lemma sha256_words_b:
  "sha256_words ''b'' = [0x3e23e816, 0x0039594a, 0x33894f65, 0x64e1b134, 0x8bbd7a00, 0x88d42c4a, 0xcb73eeae, 0xd59c009d]"
proof -
  have "sha256_words ''b'' = block_digest [0x62800000, 0, 0, 0, 0, 0, 0, 0, 0, 0, 0, 0, 0, 0, 0, 8]"
    by (simp add: sha256_letter byte_word_def)
  then show ?thesis
    by (simp add: block_digest_def schedule_eval sigma_eval)
       (simp add: round_constants_def initial_words_def round_eval sigma_eval del: foldl.simps(2))
qed

lemma hd_sha256_hex:
  "sha256_words bs = w # ws \<Longrightarrow> hd (sha256_hex bs) = hex_digit (unat w div 268435456 mod 16)"
  by (simp add: sha256_hex_def word_hex_def upt_rec)

lemma sha256_letters: "distinct [sha256_hex ''a'', sha256_hex ''b'', sha256_hex ''abc'']"
proof -
  have "hd (sha256_hex ''a'') = CHR ''c''" "hd (sha256_hex ''b'') = CHR ''3''" "hd (sha256_hex ''abc'') = CHR ''b''"
    by (simp_all add: hd_sha256_hex [OF sha256_words_a] hd_sha256_hex [OF sha256_words_b] hd_sha256_hex [OF sha256_words_abc]
        hex_digit_def char_of_def bit_0 odd_iff_mod_2_eq_one)
  then show ?thesis by auto
qed

text \<open>Of the three files two avoid any digest given.\<close>

lemma two_files_beside:
  obtains x y :: string where "x \<in> {''a'', ''b'', ''abc''}" "y \<in> {''a'', ''b'', ''abc''}"
    "sha256_hex x \<noteq> sha256_hex y" "sha256_hex x \<noteq> d" "sha256_hex y \<noteq> d"
proof -
  note ne = sha256_letters [simplified]
  consider "d \<noteq> sha256_hex ''a''" "d \<noteq> sha256_hex ''b''" | "d \<noteq> sha256_hex ''a''" "d \<noteq> sha256_hex ''abc''"
    | "d \<noteq> sha256_hex ''b''" "d \<noteq> sha256_hex ''abc''"
    using ne by metis
  then show thesis
    by cases (use ne that [of "''a''" "''b''"] that [of "''a''" "''abc''"] that [of "''b''" "''abc''"] in auto)
qed

end
