(* ===== verification/Provenance.thy ===== *)
theory Provenance
  imports Retrieval Baseline ShaVectors
begin

text \<open>
  Where verified evidence comes from. The properties here tie the publishing side of \<^verbatim>\<open>src/payops/evidence\<close> and
  \<^verbatim>\<open>src/payops/memory/data_clients.py\<close> to the verifying side: what \<^verbatim>\<open>derive_payment_window\<close> writes is what
  \<^verbatim>\<open>verify_payment_window\<close> accepts, a verified span restates one record of a verified log, and a retrieved item leads
  to an original artifact. The deterministic ranker is here for its witness, which ranks three retained
  artifacts. The models are in \<open>Window\<close>, \<open>Baseline\<close>, \<open>Spans\<close>, \<open>Retrieval\<close> and \<open>Normalize\<close>; the sample stores need
  computed digests.
\<close>

lemma normalize_envelope:
  assumes "normalize new_id now o1 incident_id start stop st = Inr (item, st')"
  shows "evidence_envelope (evidence_metadata new_id now o1 incident_id) payload = evidence_envelope item payload"
  using assms
proof (rule normalize_Inr)
  fix p
  assume i: "item = (evidence_metadata new_id now o1 incident_id)\<lparr>ev_uri := ev_uri item, ev_sha256 := ev_sha256 item\<rparr>"
  show ?thesis by (subst i) (simp add: evidence_envelope_def)
qed

section \<open>Sample stores\<close>

definition sample_evidence :: "string \<Rightarrow> source \<Rightarrow> instant \<Rightarrow> string \<Rightarrow> string \<Rightarrow> string \<Rightarrow> evidence_item" where
  "sample_evidence i src observed query summary content =
     \<lparr>ev_id = i, ev_incident = ''inc-1'', ev_source = src, ev_observed = observed, ev_collected = 60000000, ev_query = query,
      ev_resource = ''risk-sim'', ev_uri = ''sha256://'' @ sha256_hex content, ev_sha256 = sha256_hex content, ev_summary = summary\<rparr>"

definition sample_envelope :: "evidence_item \<Rightarrow> json \<Rightarrow> json_object" where
  "sample_envelope e payload = [(''evidence'', canonical (evidence_json e)), (''payload'', payload)]"

lemma sample_verify:
  assumes "st_files st (sha256_hex content) = Some content" "length content \<le> 10"
    and "st_decode st content = Inr (sample_envelope (sample_evidence i src observed query summary content) payload)"
  shows "store_verify st (sample_evidence i src observed query summary content)
    = Inr (sample_envelope (sample_evidence i src observed query summary content) payload)"
  using assms evidence_json_read by (simp add: store_verify_iff sample_envelope_def MAX_ARTIFACT_BYTES_def) (simp add: sample_evidence_def)

section \<open>Properties\<close>

lemma hex_id_prefix:
  assumes "is_hex_id n s"
  shows "s = ''0x'' @ drop 2 s"
  using assms append_take_drop_id [of 2 s] by (simp add: is_hex_id_def)

lemma span_ids_prefixed:
  assumes "good_span service s"
  shows "ss_trace s = ''0x'' @ drop 2 (ss_trace s)" "ss_id s = ''0x'' @ drop 2 (ss_id s)"
    "ss_parent s = map_option ((@) ''0x'') (map_option (drop 2) (ss_parent s))"
proof -
  from assms have hex: "is_hex_id 32 (ss_trace s)" "is_hex_id 16 (ss_id s)" "pred_option (is_hex_id 16) (ss_parent s)"
    by (auto simp: good_span_def validate_span_def)
  show "ss_trace s = ''0x'' @ drop 2 (ss_trace s)" by (rule hex_id_prefix [OF hex(1)])
  show "ss_id s = ''0x'' @ drop 2 (ss_id s)" by (rule hex_id_prefix [OF hex(2)])
  show "ss_parent s = map_option ((@) ''0x'') (map_option (drop 2) (ss_parent s))"
  proof (cases "ss_parent s")
    case (Some p)
    with hex(3) have "is_hex_id 16 p" by simp
    from arg_cong [OF hex_id_prefix [OF this], of Some] Some show ?thesis by simp
  qed simp
qed

text \<open>C10: A verified span is what one verified log says. Its direct source is a retained LOG item of the same incident
  and service whose artifact verifies; the record is the one at the stated position, consistent with the emitting
  service and inside the source's interval. The trace identifier, the span identifier and the parent identifier, or
  its absence, are those of that record, which writes each with the prefix \<open>0x\<close>, and the duration is the record's.
  The span ended before its lines were written, which is before the source was collected, which is before the
  item was collected.\<close>

theorem trace_lineage_is_recomputed:
  assumes "verify_trace_span st item = Inr d"
  shows "\<exists>l. verify_trace_log st (tp_source d) = Inr l \<and> tl_scope l = tp_scope d
    \<and> ev_source (tp_source d) = LOG \<and> ev_incident (tp_source d) = ev_incident item \<and> ev_resource (tp_source d) = ev_resource item
    \<and> 0 \<le> tp_ordinal d \<and> tp_ordinal d < int (length (pl_spans (tl_parsed l)))
    \<and> tp_record d = pl_spans (tl_parsed l) ! nat (tp_ordinal d)
    \<and> good_span (ev_resource item) (cs_span (tp_record d)) \<and> in_interval (tp_scope d) (cs_span (tp_record d))
    \<and> ss_trace (cs_span (tp_record d)) = ''0x'' @ tp_trace d \<and> ss_id (cs_span (tp_record d)) = ''0x'' @ tp_id d
    \<and> ss_parent (cs_span (tp_record d)) = map_option ((@) ''0x'') (tp_parent d)
    \<and> tp_duration d = ss_end (cs_span (tp_record d)) - ss_start (cs_span (tp_record d)) \<and> 0 \<le> tp_duration d
    \<and> ev_observed item = ss_end (cs_span (tp_record d)) \<and> ss_end (cs_span (tp_record d)) \<le> cs_start (tp_record d)
    \<and> cs_end (tp_record d) \<le> ev_collected (tp_source d) \<and> ev_collected (tp_source d) \<le> ev_collected item"
proof -
  from assms have d: "derive_span st (tp_source d) (tp_ordinal d) = Inr d"
    and item: "ev_incident item = sc_incident (tp_scope d)" "ev_resource item = sc_service (tp_scope d)"
      "ev_observed item = ss_end (cs_span (tp_record d))" "ev_collected (tp_source d) \<le> ev_collected item"
    by (auto simp: verify_trace_span_iff)
  from d obtain l where l: "verify_trace_log st (tp_source d) = Inr l" "0 \<le> tp_ordinal d"
      "tp_ordinal d < int (length (pl_spans (tl_parsed l)))" "tp_scope d = tl_scope l"
      "tp_record d = pl_spans (tl_parsed l) ! nat (tp_ordinal d)"
      "tp_duration d = ss_end (cs_span (tp_record d)) - ss_start (cs_span (tp_record d))"
      "tp_trace d = drop 2 (ss_trace (cs_span (tp_record d)))" "tp_id d = drop 2 (ss_id (cs_span (tp_record d)))"
      "tp_parent d = map_option (drop 2) (ss_parent (cs_span (tp_record d)))"
    by (auto simp: derive_span_iff)
  from l(1) have src: "ev_source (tp_source d) = LOG" "ev_incident (tp_source d) = sc_incident (tl_scope l)"
      "ev_resource (tp_source d) = sc_service (tl_scope l)" "ev_observed (tp_source d) = tl_end l"
      "ev_observed (tp_source d) \<le> ev_collected (tp_source d)"
    by (auto simp: verify_trace_log_iff)
  from l(1) obtain l' where "validate_trace_log l' = Inr l" by (auto simp: verify_trace_log_iff)
  then have v: "validate_trace_log l = Inr l" using validate_trace_log_Inr(1) by metis
  have "tp_record d \<in> set (pl_spans (tl_parsed l))" using l(2,3,5) by simp
  note rec = validate_trace_log_Inr(6) [OF v this]
  then have "good_span (sc_service (tl_scope l)) (cs_span (tp_record d))" by blast
  note ids = span_ids_prefixed [OF this, folded l(7-9)]
  from rec l(1-6) src item ids show ?thesis
    by (intro exI [of _ l]) (simp add: in_interval_def)
qed

text \<open>The log holds the span of the parser's sample.\<close>

definition sample_trace_log :: trace_log where
  "sample_trace_log =
     \<lparr>tl_scope = sample_console_scope,
      tl_identity = \<lparr>pi_name = ''risk-sim-1-x'', pi_uid = ''p1'', pi_deployment = ''d1'', pi_replica_set = ''r1'',
                     pi_container_id = ''c1'', pi_restarts = 0\<rparr>,
      tl_start = 60000000, tl_end = 60000000,
      tl_parsed = \<lparr>pl_spans = [sample_captured], pl_bytes = 69, pl_lines = 3, pl_partial = 1, pl_malformed = 0, pl_excluded = 0,
                   pl_limit = False\<rparr>\<rparr>"

definition sample_source :: evidence_item where
  "sample_source = sample_evidence ''log-1'' LOG 60000000 LOG_QUERY (log_summary sample_trace_log) ''a''"

definition sample_derived :: trace_span where
  "sample_derived =
     \<lparr>tp_scope = sample_console_scope, tp_source = sample_source, tp_ordinal = 0, tp_trace = drop 2 sample_trace_id,
      tp_id = drop 2 sample_span_id, tp_parent = None, tp_duration = 1, tp_record = sample_captured\<rparr>"

definition sample_trace_item :: evidence_item where
  "sample_trace_item = sample_evidence ''span-1'' TRACE 2 TRACE_QUERY (span_summary sample_derived) ''b''"

definition sample_span_store :: span_store where
  "sample_span_store =
     \<lparr>st_files = [sha256_hex ''a'' \<mapsto> ''a'', sha256_hex ''b'' \<mapsto> ''b''],
      st_decode = (\<lambda>c. Inr (if c = ''a'' then sample_envelope sample_source JNull else sample_envelope sample_trace_item JNull)),
      st_window = (\<lambda>_. Inl (ValueError ''none'')), st_trace_log = (\<lambda>_. Inr sample_trace_log),
      st_trace_span = (\<lambda>_. Inr sample_derived)\<rparr>"

lemma sample_spans_valid:
  "validate_scope sample_console_scope = Inr sample_console_scope" "validate_span (cs_span sample_captured) = Inr (cs_span sample_captured)"
  "check_service ''risk-sim'' (cs_span sample_captured) = Inr ()" "validate_captured sample_captured = Inr sample_captured"
  "in_interval sample_console_scope (cs_span sample_captured)"
proof -
  have "is_identifier ''inc-1''" by code_simp
  then show "validate_scope sample_console_scope = Inr sample_console_scope"
    by (simp add: validate_scope_def sample_console_scope_def ROLES_def)
qed (simp_all add: sample_captured_def sample_console_scope_def validate_span_def sample_ids check_service_def role_of_def
      ROLES_def expected_kinds_def validate_captured_def in_interval_def)

lemma sample_span_derived: "validate_trace_span sample_derived = Inr sample_derived"
  by (simp add: validate_trace_span_def sample_derived_def is_hex_def MAX_SPANS_def)
     (simp add: sample_trace_id_def sample_span_id_def list_all_iff is_lower_hex_def is_digit_def)

lemma sample_pod_identity: "validate_identity (tl_identity sample_trace_log) = Inr (tl_identity sample_trace_log)"
  by (simp add: validate_identity_def sample_trace_log_def is_pod_name_def is_lower_alnum_char_def is_digit_def is_identifier_def is_word_char_def)

lemma sample_log_valid: "validate_trace_log sample_trace_log = Inr sample_trace_log"
proof -
  have "sc_service sample_console_scope = ''risk-sim''" "sc_end sample_console_scope = 60000000" "cs_end sample_captured = 2000000"
    "ss_end (cs_span sample_captured) = 2" "cs_start sample_captured = 1000000"
    by (simp_all add: sample_console_scope_def sample_captured_def)
  then show ?thesis
    by (simp add: validate_trace_log_def sample_pod_identity consistent_log_def record_in_capture_def)
       (simp add: sample_trace_log_def sample_spans_valid validate_parsed_def MAX_SPANS_def MAX_LOG_BYTES_def MAX_LOG_LINES_def)
qed

lemma sample_span_files:
  "st_files sample_span_store (sha256_hex ''a'') = Some ''a''" "st_files sample_span_store (sha256_hex ''b'') = Some ''b''"
  using sha256_letters by (simp_all add: sample_span_store_def)

lemma sample_source_verified: "verify_trace_log sample_span_store sample_source = Inr sample_trace_log"
proof -
  have "store_verify sample_span_store sample_source = Inr (sample_envelope sample_source JNull)"
    unfolding sample_source_def
    by (rule sample_verify) (simp_all add: sample_span_files, simp add: sample_span_store_def sample_source_def)
  then show ?thesis
    by (simp add: verify_trace_log_iff payload_value_def)
       (simp add: sample_envelope_def sample_span_store_def sample_log_valid, simp add: sample_source_def sample_evidence_def,
        simp add: sample_trace_log_def sample_console_scope_def)
qed

theorem trace_lineage_is_recomputed_witness:
  "verify_trace_span sample_span_store sample_trace_item = Inr sample_derived
   \<and> ev_observed sample_trace_item = ss_end (cs_span (tp_record sample_derived)) \<and> 0 \<le> tp_duration sample_derived
   \<and> ss_id (cs_span (tp_record sample_derived)) = ''0x'' @ tp_id sample_derived
   \<and> ss_parent (cs_span (tp_record sample_derived)) = map_option ((@) ''0x'') (tp_parent sample_derived)"
proof -
  have ids: "is_identifier ''log-1''" "is_identifier ''inc-1''" "is_identifier ''risk-sim''" by code_simp+
  have "log_summary sample_trace_log = ''Bounded console span sample: 1 records''"
    by (simp add: log_summary_def sample_trace_log_def nat_str.simps) code_simp
  moreover have "is_summary LOG_QUERY" "is_summary ''Bounded console span sample: 1 records''" by code_simp+
  ultimately have valid: "validate_evidence sample_source = Inr sample_source"
    using ids digest_uri_summary [of "sha256_hex ''a''", simplified]
    by (simp add: validate_evidence_def valid_evidence_item_def sample_source_def sample_evidence_def)
  have stored: "store_verify sample_span_store sample_trace_item = Inr (sample_envelope sample_trace_item JNull)"
    unfolding sample_trace_item_def
    by (rule sample_verify) (simp_all add: sample_span_files, simp add: sample_span_store_def sample_trace_item_def)
  have rebuilt: "rebuild (st_trace_span sample_span_store) rebuild_trace_span (sample_envelope sample_trace_item JNull) = Inr sample_derived"
    by (simp add: rebuild_def sample_envelope_def payload_value_def sample_span_store_def rebuild_trace_span_def)
       (simp add: sample_derived_def sample_spans_valid valid sample_span_derived [unfolded sample_derived_def])
  have derived: "derive_span sample_span_store (tp_source sample_derived) (tp_ordinal sample_derived) = Inr sample_derived"
    by (simp add: derive_span_iff sample_span_derived)
       (simp add: sample_derived_def sample_source_verified, simp add: sample_trace_log_def sample_captured_def)
  have ok: "verify_trace_span sample_span_store sample_trace_item = Inr sample_derived"
    by (simp add: verify_trace_span_iff stored rebuilt derived)
       (simp add: sample_trace_item_def sample_evidence_def, simp add: sample_derived_def sample_console_scope_def sample_captured_def sample_source_def sample_evidence_def)
  with trace_lineage_is_recomputed [OF ok] show ?thesis by auto
qed

text \<open>C11: A published window verifies. The item that \<^verbatim>\<open>derive_payment_window\<close> returns passes
  \<^verbatim>\<open>verify_payment_window\<close> on the store that holds it and yields the window that was computed, if
  redaction leaves the dump of the window alone, the bytes written are read back and the dump is parsed back, and
  the clock is not behind the observation.\<close>

theorem published_window_verifies:
  assumes "derive_payment_window dump new_id now before after iv st = Inr (item, st')"
    and "compute_window st before after iv = Inr w" and "window_observed w after \<le> now"
    and "redact 0 (JObj (dump w)) = Inr (JObj (dump w))" and "st_window st' (canonical_object (dump w)) = Inr w"
    and "reads_back st (evidence_envelope item (JObj (dump w)))"
  shows "verify_payment_window st' item = Inr w"
proof -
  from assms(1,2) obtain o1 where
      o1: "make_observation PAYMENT (pw_service w) (window_observed w after) DERIVED_QUERY
              (''Payment counter window: '' @ status_text (pw_status w)) (dump w) = Inr o1"
    and n: "normalize new_id now o1 (mi_incident iv) (min (ev_observed before) (mi_start iv))
       (max (ev_collected after) (mi_end iv)) st = Inr (item, st')"
    by (auto simp: derive_payment_window_def)
  from o1 have f: "obv_payload o1 = dump w" "obv_source o1 = PAYMENT" "obv_resource o1 = pw_service w"
      "obv_observed o1 = window_observed w after" "obv_query o1 = strip DERIVED_QUERY"
    by (auto simp: make_observation_def)
  have verified: "store_verify st' item
      = Inr (canonical_object (evidence_envelope (evidence_metadata new_id now o1 (mi_incident iv)) (JObj (dump w))))"
    by (rule normalize_verifies [OF n]) (use assms(4,6) in \<open>simp_all add: f normalize_envelope [OF n] del: redact_eqs\<close>)
  have item: "ev_source item = PAYMENT" "ev_query item = DERIVED_QUERY" "ev_resource item = pw_service w"
      "ev_incident item = mi_incident iv" "ev_observed item = window_observed w after" "ev_collected item = now"
    using normalize_item [OF n] by (simp_all add: f derived_query_plain)
  have "compute_window st' before after iv = Inr w"
    by (rule compute_window_mono [OF assms(2)]) (use normalize_mono [OF n] in auto)
  with verified item assms(3,5) compute_window_inputs [OF assms(2)] show ?thesis
    by (simp add: verify_payment_window_iff envelope_fields as_object_def window_observed_def split: option.split)
qed

text \<open>Two snapshots without any series, of a store that already holds them.\<close>

definition sample_vector :: json where
  "sample_vector = JObj [(''status'', JStr ''success''), (''data'', JObj [(''resultType'', JStr ''vector''), (''result'', JArr [])])]"

definition sample_queries :: "string \<times> string" where
  "sample_queries = (case snapshot_queries ''risk-sim'' of Inr q \<Rightarrow> q | Inl _ \<Rightarrow> ([], []))"

definition sample_empty_snapshot :: json_object where
  "sample_empty_snapshot =
     [(''evaluated_at'', JInt 1), (''query'', JStr (fst sample_queries)), (''watermark_query'', JStr (snd sample_queries)),
      (''metrics'', sample_vector), (''watermark'', sample_vector)]"

definition sample_minute :: measurement_interval where
  "sample_minute = \<lparr>mi_incident = ''inc-1'', mi_start = 0, mi_end = 60000000\<rparr>"

definition sample_reading :: "string \<Rightarrow> string \<Rightarrow> evidence_item" where
  "sample_reading i content = sample_evidence i PROMETHEUS 1000000 (fst sample_queries) ''snapshot'' content"

definition sample_missing_window :: "string \<Rightarrow> string \<Rightarrow> payment_window" where
  "sample_missing_window x y =
     \<lparr>pw_service = ''risk-sim'', pw_interval = sample_minute, pw_inputs = (sample_reading ''b-1'' x, sample_reading ''a-1'' y),
      pw_status = Missing, pw_start = None, pw_end = None, pw_before_epoch = None, pw_after_epoch = None, pw_requests = [],
      pw_latency = [], pw_conflicts = []\<rparr>"

lemma sample_queries_built: "snapshot_queries ''risk-sim'' = Inr sample_queries"
  by (simp add: sample_queries_def snapshot_queries_def validate_service_def SERVICE_NAMES_def Let_def)

lemma sample_parsed:
  "parse_payload sample_empty_snapshot ''risk-sim''
    = Inr \<lparr>pa_evaluated = 1, pa_watermark = None, pa_epoch = None, pa_available = False, pa_values = []\<rparr>"
  by (simp add: parse_payload_def sample_queries_built case_prod_beta sample_empty_snapshot_def insert_commute finite_value_def float_overflow_def
      metric_values_def vector_rows_def as_object_def sample_vector_def scrape_watermark_def Let_def keys_def)

lemma sample_reading_parsed:
  "parse_snapshot (sample_reading i x) sample_empty_snapshot ''risk-sim''
    = Inr \<lparr>pa_evaluated = 1, pa_watermark = None, pa_epoch = None, pa_available = False, pa_values = []\<rparr>"
  by (simp add: parse_snapshot_def sample_parsed sample_queries_built case_prod_beta sample_reading_def sample_evidence_def timestamp_def Let_def)

lemma sample_computed:
  assumes "store_verify st (sample_reading ''b-1'' x) = Inr (sample_envelope (sample_reading ''b-1'' x) (JObj sample_empty_snapshot))"
    and "store_verify st (sample_reading ''a-1'' y) = Inr (sample_envelope (sample_reading ''a-1'' y) (JObj sample_empty_snapshot))"
  shows "compute_window st (sample_reading ''b-1'' x) (sample_reading ''a-1'' y) sample_minute = Inr (sample_missing_window x y)"
proof -
  have "ev_resource (sample_reading i c) = ''risk-sim''" "ev_id (sample_reading i c) = i" "ev_incident (sample_reading i c) = ''inc-1''"
      "ev_source (sample_reading i c) = PROMETHEUS" for i c
    by (simp_all add: sample_reading_def sample_evidence_def)
  moreover have "validate_service ''risk-sim'' = Inr ''risk-sim''" by (simp add: validate_service_def SERVICE_NAMES_def)
  moreover have "mi_incident sample_minute = ''inc-1''" by (simp add: sample_minute_def)
  ultimately show ?thesis
    by (simp add: compute_window_def assms sample_envelope_def as_object_def sample_reading_parsed window_delta_def coverage_def
        build_window_def points_def date_of_def sample_missing_window_def)
qed

definition sample_published :: observation where
  "sample_published =
     \<lparr>obv_source = PAYMENT, obv_resource = ''risk-sim'', obv_observed = 1000000, obv_query = DERIVED_QUERY,
      obv_summary = ''Payment counter window: missing'', obv_payload = []\<rparr>"

definition sample_metadata_item :: evidence_item where
  "sample_metadata_item = evidence_metadata ''w-1'' 60000000 sample_published ''inc-1''"

definition sample_window_store :: "string \<Rightarrow> string \<Rightarrow> window_store" where
  "sample_window_store x y =
     \<lparr>st_files = [sha256_hex x \<mapsto> x, sha256_hex y \<mapsto> y],
      st_decode = (\<lambda>c. Inr (if c = x then sample_envelope (sample_reading ''b-1'' x) (JObj sample_empty_snapshot)
        else if c = y then sample_envelope (sample_reading ''a-1'' y) (JObj sample_empty_snapshot)
        else canonical_object (evidence_envelope sample_metadata_item (JObj [])))),
      st_window = (\<lambda>_. Inr (sample_missing_window x y))\<rparr>"

lemma sample_published_plain:
  "make_observation PAYMENT ''risk-sim'' 1000000 DERIVED_QUERY ''Payment counter window: missing'' [] = Inr sample_published"
  "valid_evidence_item sample_metadata_item" "length (artifact_bytes (evidence_envelope sample_metadata_item (JObj []))) \<le> MAX_ARTIFACT_BYTES"
proof -
  have plain: "strip DERIVED_QUERY = DERIVED_QUERY" "strip (redact_text DERIVED_QUERY) = DERIVED_QUERY" "is_summary DERIVED_QUERY"
      "length DERIVED_QUERY = 17"
      "strip ''Payment counter window: missing'' = ''Payment counter window: missing''"
      "strip (redact_text ''Payment counter window: missing'') = ''Payment counter window: missing''"
      "is_summary ''Payment counter window: missing''" "is_identifier ''risk-sim''" "is_identifier ''w-1''" "is_identifier ''inc-1''"
      "is_summary ''pending://artifact''" "is_digest (replicate 64 (CHR ''0''))"
    by code_simp+
  show "make_observation PAYMENT ''risk-sim'' 1000000 DERIVED_QUERY ''Payment counter window: missing'' [] = Inr sample_published"
    by (simp add: make_observation_def plain sample_published_def)
  show "valid_evidence_item sample_metadata_item"
    by (simp only: valid_evidence_item_def sample_metadata_item_def evidence_metadata_def sample_published_def
        evidence_item.simps observation.simps plain simp_thms)
  show "length (artifact_bytes (evidence_envelope sample_metadata_item (JObj []))) \<le> MAX_ARTIFACT_BYTES"
    by (rule envelope_short) (use plain(4) in \<open>simp_all add: sample_metadata_item_def evidence_metadata_def sample_published_def plain\<close>)
qed

theorem published_window_verifies_witness:
  "\<exists>x y item st'. derive_payment_window (\<lambda>_. []) ''w-1'' 60000000 (sample_reading ''b-1'' x) (sample_reading ''a-1'' y) sample_minute
        (sample_window_store x y) = Inr (item, st')
     \<and> verify_payment_window st' item = Inr (sample_missing_window x y)"
proof -
  let ?b = "artifact_bytes (evidence_envelope sample_metadata_item (JObj []))"
  obtain x y :: string where xy: "x \<in> {''a'', ''b'', ''abc''}" "y \<in> {''a'', ''b'', ''abc''}"
      "sha256_hex x \<noteq> sha256_hex y" "sha256_hex x \<noteq> sha256_hex ?b" "sha256_hex y \<noteq> sha256_hex ?b"
    using two_files_beside [of "sha256_hex ?b"] by blast
  let ?st = "sample_window_store x y" and ?e = sample_metadata_item
  let ?item = "?e\<lparr>ev_uri := ''sha256://'' @ sha256_hex ?b, ev_sha256 := sha256_hex ?b\<rparr>"
  let ?st' = "?st\<lparr>st_files := (st_files ?st)(sha256_hex ?b \<mapsto> ?b)\<rparr>"
  have small: "length x \<le> 10" "length y \<le> 10" using xy(1,2) by auto
  have diff: "x \<noteq> y" "?b \<noteq> x" "?b \<noteq> y" using xy(3-5) by auto
  have "store_verify ?st (sample_reading ''b-1'' x) = Inr (sample_envelope (sample_reading ''b-1'' x) (JObj sample_empty_snapshot))"
    unfolding sample_reading_def
    by (rule sample_verify) (use small xy(3) in \<open>simp_all add: sample_window_store_def sample_reading_def\<close>)
  moreover have "store_verify ?st (sample_reading ''a-1'' y) = Inr (sample_envelope (sample_reading ''a-1'' y) (JObj sample_empty_snapshot))"
    unfolding sample_reading_def
    by (rule sample_verify) (use small diff(1) in \<open>simp_all add: sample_window_store_def sample_reading_def\<close>)
  ultimately have w: "compute_window ?st (sample_reading ''b-1'' x) (sample_reading ''a-1'' y) sample_minute = Inr (sample_missing_window x y)"
    by (rule sample_computed)
  have seen: "window_observed (sample_missing_window x y) (sample_reading ''a-1'' y) = 1000000" "pw_service (sample_missing_window x y) = ''risk-sim''"
      "pw_status (sample_missing_window x y) = Missing"
    by (simp_all add: window_observed_def sample_missing_window_def sample_reading_def sample_evidence_def)
  have times: "min (ev_observed (sample_reading ''b-1'' x)) (mi_start sample_minute) = 0"
      "max (ev_collected (sample_reading ''a-1'' y)) (mi_end sample_minute) = 60000000" "mi_incident sample_minute = ''inc-1''"
    by (simp_all add: sample_reading_def sample_evidence_def sample_minute_def)
  have fresh: "st_files ?st (sha256_hex ?b) = None" using xy(4,5) by (simp add: sample_window_store_def)
  have n: "normalize ''w-1'' 60000000 sample_published ''inc-1'' 0 60000000 ?st = Inr (?item, ?st')"
    by (rule normalize_fresh) (use sample_published_plain fresh in \<open>simp_all add: sample_metadata_item_def sample_published_def\<close>)
  have d: "derive_payment_window (\<lambda>_. []) ''w-1'' 60000000 (sample_reading ''b-1'' x) (sample_reading ''a-1'' y) sample_minute ?st = Inr (?item, ?st')"
    using n sample_published_plain(1) by (simp add: derive_payment_window_def w seen times)
  have "verify_payment_window ?st' ?item = Inr (sample_missing_window x y)"
  proof (rule published_window_verifies [OF d w])
    have "evidence_envelope ?item (JObj []) = evidence_envelope ?e (JObj [])" by (simp add: evidence_envelope_def evidence_json_def)
    then show "reads_back ?st (evidence_envelope ?item (JObj []))"
      using diff by (simp add: reads_back_def sample_window_store_def)
  qed (simp_all add: seen(1), simp add: sample_window_store_def)
  with d show ?thesis by blast
qed

text \<open>C9: A retrieved item leads to an original artifact. Following the citations from a verified item, at most eight
  steps reach an artifact that is not itself retrieved and whose payload names the namespace and service of the
  item's scope; no digest repeats among the retrieved items; and every step keeps the kind, service,
  summary and observation time and was collected no later than the item.\<close>

theorem retrieval_reaches_original:
  assumes "verify_retrieval_evidence st item = Inr l"
  shows "\<exists>chain. chain \<noteq> [] \<and> hd chain = li_source l \<and> length chain \<le> 8 \<and> distinct (map ev_sha256 (item # butlast chain))
    \<and> cites_chain st (scope_pair (li_scope l)) item chain \<and> is_original st (scope_pair (li_scope l)) (List.last chain)
    \<and> (\<forall>e \<in> set chain. ev_source e = ev_source item \<and> ev_resource e = ev_resource item \<and> ev_summary e = ev_summary item
         \<and> ev_observed e = ev_observed item \<and> ev_collected e \<le> ev_collected item)"
proof -
  from verify_link_chain [OF assms] obtain chain where
      c: "cites_chain st (scope_pair (li_scope l)) item (li_source l # chain)" "length chain < 8"
      "distinct (map ev_sha256 (butlast (item # li_source l # chain)))" by blast
  show ?thesis
    using c cites_chain_original [OF c(1)] cites_chain_agree [OF c(1)] by (intro exI [of _ "li_source l # chain"]) auto
qed

definition sample_retrieval_scope :: evidence_scope where
  "sample_retrieval_scope = \<lparr>es_incident = ''inc-1'', es_namespace = ''payops-sandbox'', es_service = ''risk-sim''\<rparr>"

definition sample_original :: evidence_item where
  "sample_original = sample_evidence ''run-1'' RUNBOOK 2 ''runbook'' ''restart'' ''b''"

definition sample_lineage :: retrieval_lineage where
  "sample_lineage =
     \<lparr>li_scope = sample_retrieval_scope, li_index = Runbook_index, li_source = sample_original, li_retrieved = 60000000\<rparr>"

definition sample_retrieved :: evidence_item where
  "sample_retrieved = sample_evidence ''run-2'' RUNBOOK 2 (retrieval_query Runbook_index) ''restart'' ''a''"

definition sample_retrieval_store :: evidence_store where
  "sample_retrieval_store =
     \<lparr>st_files = [sha256_hex ''a'' \<mapsto> ''a'', sha256_hex ''b'' \<mapsto> ''b''],
      st_decode = (\<lambda>c. Inr (if c = ''a'' then sample_envelope sample_retrieved JNull
        else sample_envelope sample_original (JObj [(''namespace'', JStr ''payops-sandbox''), (''service'', JStr ''risk-sim'')]))),
      st_window = (\<lambda>_. Inl (ValueError ''none'')), st_trace_log = (\<lambda>_. Inl (ValueError ''none'')),
      st_trace_span = (\<lambda>_. Inl (ValueError ''none'')), st_lineage = (\<lambda>_. Inr sample_lineage)\<rparr>"

lemma sample_retrieval_files:
  "store_verify sample_retrieval_store sample_retrieved = Inr (sample_envelope sample_retrieved JNull)"
  "store_verify sample_retrieval_store sample_original
     = Inr (sample_envelope sample_original (JObj [(''namespace'', JStr ''payops-sandbox''), (''service'', JStr ''risk-sim'')]))"
proof -
  have f: "st_files sample_retrieval_store (sha256_hex ''a'') = Some ''a''" "st_files sample_retrieval_store (sha256_hex ''b'') = Some ''b''"
    using sha256_letters by (simp_all add: sample_retrieval_store_def)
  show "store_verify sample_retrieval_store sample_retrieved = Inr (sample_envelope sample_retrieved JNull)"
    unfolding sample_retrieved_def
    by (rule sample_verify) (simp_all add: f, simp add: sample_retrieval_store_def sample_retrieved_def)
  show "store_verify sample_retrieval_store sample_original
     = Inr (sample_envelope sample_original (JObj [(''namespace'', JStr ''payops-sandbox''), (''service'', JStr ''risk-sim'')]))"
    unfolding sample_original_def
    by (rule sample_verify) (simp_all add: f, simp add: sample_retrieval_store_def sample_original_def)
qed

lemma sample_original_is_original: "is_original sample_retrieval_store (scope_pair sample_retrieval_scope) sample_original"
  by (simp add: is_original_def sample_retrieval_files)
     (simp add: sample_original_def sample_evidence_def sample_envelope_def scope_pair_def sample_retrieval_scope_def is_prefix_def RETRIEVAL_SCHEME_def)

theorem retrieval_reaches_original_witness:
  "verify_retrieval_evidence sample_retrieval_store sample_retrieved = Inr sample_lineage
   \<and> (\<exists>chain. hd chain = sample_original \<and> length chain \<le> 8
        \<and> is_original sample_retrieval_store (scope_pair sample_retrieval_scope) (List.last chain))"
proof -
  have "lineage_agrees sample_retrieved sample_lineage"
    by (simp add: lineage_agrees_def sample_lineage_def sample_original_def sample_retrieved_def sample_evidence_def sample_retrieval_scope_def)
  moreover have "source_scope sample_retrieval_store [ev_sha256 sample_retrieved] (li_source sample_lineage)
      = Inr (scope_pair (li_scope sample_lineage))"
    using sample_original_is_original by (simp add: source_scope_Inr sample_lineage_def)
  ultimately have ok: "verify_retrieval_evidence sample_retrieval_store sample_retrieved = Inr sample_lineage"
    by (simp add: verify_retrieval_evidence_def verify_link_Inr is_linked_def sample_retrieval_files)
       (simp add: sample_retrieval_store_def sample_retrieved_def sample_evidence_def)
  from retrieval_reaches_original [OF ok] ok show ?thesis by (auto simp: sample_lineage_def)
qed

text \<open>C17: What is put into the derived cache is what comes out, until it expires and for its own scope. A read at any later
  time, on a store that has only grown, returns the evidence inside its lifetime and nothing outside it; the
  same bytes read for another scope are an integrity error. The transport is assumed to return what was
  written, pydantic to read its own bytes back.\<close>

theorem cache_round_trip:
  fixes st st' :: "'r evidence_store_scheme"
  assumes "cache_put env st now scope evidence ttl w = Inr w'" and "extends st st'"
    and "entry = \<lparr>ca_scope = scope, ca_created = now, ca_expires = now + ttl * one_second, ca_evidence = evidence\<rparr>"
    and "cv_read env (cache_key reader) w' = Inr (cv_dump env entry)" and "cv_dump env entry \<noteq> []"
    and "cv_decode env (cv_dump env entry) = Inr entry"
  shows "cache_get env st' later reader w' =
    (if reader \<noteq> scope then Inl (EvidenceIntegrityError ''cache scope mismatch'')
     else Inr (if now \<le> later \<and> later < now + ttl * one_second then Some evidence else None))"
proof -
  from assms(1,3) have v: "validate_entry entry = Inr entry" "length (cv_dump env entry) \<le> MAX_CACHE_BYTES"
    and e: "verify_entry st entry scope = Inr ()"
    by (auto simp: cache_put_def validate_entry_def)
  have "cached_in_scope st' scope item" if "cached_in_scope st scope item" for item
    using that verify_retrieval_mono [OF assms(2)] extends_verify [OF assms(2)] by (fastforce simp: cached_in_scope_def)
  with e have "verify_entry st' entry scope = Inr ()" by (auto simp: verify_entry_Inr)
  moreover have "verify_entry st' entry reader = Inl (EvidenceIntegrityError ''cache scope mismatch'')" if "reader \<noteq> scope"
    using that assms(3) by (simp add: verify_entry_def check_def)
  ultimately show ?thesis
    using v assms(3-6) by (simp add: cache_get_def)
qed

definition sample_cache_env :: "(string \<Rightarrow> string) cache_env" where
  "sample_cache_env =
     \<lparr>cv_put = (\<lambda>k v ttl w. Inr (w(k := v))), cv_read = (\<lambda>k w. Inr (w k)), cv_dump = (\<lambda>_. ''entry''),
      cv_decode = (\<lambda>_. Inr \<lparr>ca_scope = sample_retrieval_scope, ca_created = 0, ca_expires = 0 + 60 * one_second, ca_evidence = [sample_original]\<rparr>)\<rparr>"

theorem cache_round_trip_witness:
  "\<exists>w. cache_put sample_cache_env sample_retrieval_store 0 sample_retrieval_scope [sample_original] 60 (\<lambda>_. []) = Inr w
     \<and> cache_get sample_cache_env sample_retrieval_store 59000000 sample_retrieval_scope w = Inr (Some [sample_original])
     \<and> cache_get sample_cache_env sample_retrieval_store 60000000 sample_retrieval_scope w = Inr None"
proof -
  let ?w = "(\<lambda>_. [])(cache_key sample_retrieval_scope := ''entry'')"
  have "cached_in_scope sample_retrieval_store sample_retrieval_scope sample_original"
    using sample_original_is_original
    by (auto simp: cached_in_scope_def is_original_def sample_original_def sample_evidence_def sample_retrieval_scope_def)
  then have p: "cache_put sample_cache_env sample_retrieval_store 0 sample_retrieval_scope [sample_original] 60 (\<lambda>_. []) = Inr ?w"
    by (simp add: cache_put_def validate_entry_def verify_entry_Inr one_second_def MAX_CACHE_BYTES_def sample_cache_env_def bindR_Inr_iff)
  have "extends sample_retrieval_store sample_retrieval_store" by (simp add: extends_def)
  note get = cache_round_trip [OF p this refl, of sample_retrieval_scope]
  show ?thesis
    using p get [of 59000000] get [of 60000000] by (simp add: sample_cache_env_def one_second_def)
qed

text \<open>A degraded deployment, an unready pod and the failed probe of that pod, in three artifacts.\<close>

definition sample_unready :: json_object where
  "sample_unready =
     [(''kind'', JStr ''Pod''), (''resource_uid'', JStr ''pod-1''),
      (''status'', JObj [(''containerStatuses'', JArr [JObj [(''state'', JObj [(''running'', JObj [])]), (''ready'', JBool False)]])])]"

definition sample_probe :: json_object where
  "sample_probe =
     [(''involvedObject'', JObj [(''uid'', JStr ''pod-1''), (''namespace'', JStr ''payops-sandbox'')]),
      (''reason'', JStr ''Unhealthy''), (''type'', JStr ''Warning''), (''lastTimestamp'', JStr ''t''),
      (''message'', JStr ''Readiness probe failed: HTTP probe failed with statuscode: 404'')]"

definition sample_observed :: "string \<Rightarrow> source \<Rightarrow> string \<Rightarrow> string \<Rightarrow> evidence_item" where
  "sample_observed i src resource content =
     \<lparr>ev_id = i, ev_incident = ''inc-1'', ev_source = src, ev_observed = 5, ev_collected = 7, ev_query = ''get'',
      ev_resource = resource, ev_uri = ''sha256://'' @ sha256_hex content, ev_sha256 = sha256_hex content, ev_summary = ''state''\<rparr>"

definition sample_outage :: "evidence_item list" where
  "sample_outage =
     [sample_observed ''ev-1'' DEPLOYMENT ''payments-api'' ''a'', sample_observed ''ev-2'' KUBERNETES ''payments-api-1-x'' ''b'',
      sample_observed ''ev-3'' KUBERNETES ''payments-api'' ''abc'']"

definition sample_outage_envelope :: "string \<Rightarrow> json_object" where
  "sample_outage_envelope c =
     (let (item, payload) = (if c = ''a'' then (sample_outage ! 0, sample_degraded)
                             else if c = ''b'' then (sample_outage ! 1, sample_unready) else (sample_outage ! 2, sample_probe))
      in [(''evidence'', canonical (evidence_json item)), (''payload'', JObj payload)])"

definition sample_outage_store :: artifact_store where
  "sample_outage_store =
     \<lparr>st_files = [sha256_hex ''a'' \<mapsto> ''a'', sha256_hex ''b'' \<mapsto> ''b'', sha256_hex ''abc'' \<mapsto> ''abc''],
      st_decode = (\<lambda>c. Inr (sample_outage_envelope c))\<rparr>"

definition sample_readiness :: hypothesis where
  "sample_readiness =
     \<lparr>hy_cause = ''READINESS_PROBE_FAILURE'', hy_confidence = 90 / 100, hy_supports = [''ev-1'', ''ev-2'', ''ev-3''],
      hy_refutes = [], hy_missing = []\<rparr>"

lemma sample_outage_rank:
  "rank_evidence (\<lambda>_. Some (5, True)) sample_outage sample_outage_store = Inr [sample_readiness]"
proof -
  let ?dep = "\<lparr>sg_item = sample_observed ''ev-1'' DEPLOYMENT ''payments-api'' ''a'', sg_payload = sample_degraded\<rparr>"
  let ?pod = "\<lparr>sg_item = sample_observed ''ev-2'' KUBERNETES ''payments-api-1-x'' ''b'', sg_payload = sample_unready\<rparr>"
  let ?probe = "\<lparr>sg_item = sample_observed ''ev-3'' KUBERNETES ''payments-api'' ''abc'', sg_payload = sample_probe\<rparr>"
  let ?iso = "\<lambda>_. Some (5, True)"
  have stored: "st_files sample_outage_store (sha256_hex c) = Some c" if "c \<in> {''a'', ''b'', ''abc''}" for c
    using that sha256_letters by (auto simp: sample_outage_store_def)
  have verify: "store_verify sample_outage_store (sample_observed i src resource c) = Inr (sample_outage_envelope c)"
    if "c \<in> {''a'', ''b'', ''abc''}" "get_field (sample_outage_envelope c) ''evidence'' = Some (canonical (evidence_json (sample_observed i src resource c)))"
    for i src resource c
    using stored [OF that(1)] that evidence_json_read [of "sample_observed i src resource c"]
    by (simp add: store_verify_iff) (auto simp: sample_observed_def sample_outage_store_def MAX_ARTIFACT_BYTES_def)
  have env: "get_field (sample_outage_envelope ''a'') ''evidence'' = Some (canonical (evidence_json (sg_item ?dep)))"
      "get_field (sample_outage_envelope ''b'') ''evidence'' = Some (canonical (evidence_json (sg_item ?pod)))"
      "get_field (sample_outage_envelope ''abc'') ''evidence'' = Some (canonical (evidence_json (sg_item ?probe)))"
      "get_field (sample_outage_envelope ''a'') ''payload'' = Some (JObj sample_degraded)"
      "get_field (sample_outage_envelope ''b'') ''payload'' = Some (JObj sample_unready)"
      "get_field (sample_outage_envelope ''abc'') ''payload'' = Some (JObj sample_probe)"
    by (simp_all add: sample_outage_envelope_def sample_outage_def)
  have latest: "latest_collected sample_outage = Some 7"
    by (simp add: latest_collected_def sample_outage_def sample_observed_def)
  have fresh: "is_fresh (Some 7) (sample_observed i src resource c)" for i src resource c
    by (simp add: is_fresh_def sample_observed_def MAX_AGE_SECONDS_def one_second_def)
  have "baseline_verified sample_outage_store sample_outage = Inr [?dep, ?pod, ?probe]"
    unfolding baseline_verified_Inr latest
    by (simp add: sample_outage_def verified_signals_Cons verify env [simplified] fresh)
       (simp add: sample_observed_def)
  moreover have "apply_rules (baseline_rules ?iso [?dep, ?pod, ?probe]) = Inr [sample_readiness]"
  proof -
    have f: "ev_source (sample_observed i src resource c) = src" "ev_resource (sample_observed i src resource c) = resource"
        "ev_id (sample_observed i src resource c) = i" "ev_observed (sample_observed i src resource c) = 5" for i src resource c
      by (simp_all add: sample_observed_def)
    have names: "payment_pod_name ''payments-api-1-x''" "\<not> payment_pod_name ''payments-api''" by code_simp+
    have ids: "is_identifier ''ev-1''" "is_identifier ''ev-2''" "is_identifier ''ev-3''"
        "is_identifier ''READINESS_PROBE_FAILURE''" by code_simp+
    have deg: "degraded ?dep" "\<not> degraded ?pod" "\<not> degraded ?probe"
      by (simp_all add: degraded_def f sample_degraded_def int_field_def object_or_nil_def)
    have crash: "\<not> crashed ?dep" "\<not> crashed ?pod" "\<not> crashed ?probe"
      by (simp_all add: crashed_def payment_pod_def container_statuses_def objects_in_def object_or_nil_def crashed_status_def
          int_field_def f names sample_unready_def Let_def)
    have unready: "\<not> running_unready ?dep" "running_unready ?pod" "\<not> running_unready ?probe"
      by (simp_all add: running_unready_def payment_pod_def container_statuses_def objects_in_def object_or_nil_def
          f names sample_unready_def keys_def)
    have uids: "observed_uids [?pod] = {''pod-1''}" by (simp add: observed_uids_def sample_unready_def)
    have probe: "\<not> readiness_event ?iso {''pod-1''} ?dep" "\<not> readiness_event ?iso {''pod-1''} ?pod"
        "readiness_event ?iso {''pod-1''} ?probe"
      by (simp_all add: readiness_event_def f sample_probe_def object_or_nil_def Let_def py_str_def timestamp_of_def
          one_second_def)
    have absent: "\<not> processor_absent ?dep" "\<not> processor_absent ?pod" "\<not> processor_absent ?probe"
      by (simp_all add: processor_absent_def f)
    have "rule_hypothesis ''READINESS_PROBE_FAILURE'' (90 / 100) [?dep, ?pod, ?probe] = Inr sample_readiness"
      by (simp add: rule_hypothesis_def Let_def first_occurrences_def f sample_readiness_def valid_hypothesis_def ids)
    then show ?thesis
      by (simp add: baseline_rules_def Let_def apply_rules.simps deg crash unready uids probe absent)
  qed
  ultimately show ?thesis by (simp add: rank_evidence_def)
qed

text \<open>C38: The deterministic ranker never invents support. It returns only if every item of the input, stale
  ones included, verifies against the store. Then the causes are distinct and known, each cites at
  least one item, no item twice and none against, and everything cited is an item of the input whose
  artifact verifies and whose observation is at most two minutes older than the newest collection. A
  startup failure is corroborated by a degraded deployment and a crashed pod, a configuration failure
  also by the schema error in a recent log line, a readiness failure by a running unready pod together with
  the failed probe of that very pod, whose observed identifier the event names, and a missing processor by the zero replica count, the empty pod query and a logged
  failure.\<close>

theorem baseline_is_corroborated:
  assumes "rank_evidence fromiso evidence st = Inr hs"
  shows "(\<forall>item \<in> set evidence. \<exists>env. store_verify st item = Inr env)
    \<and> distinct (map hy_cause hs)
    \<and> (\<forall>h \<in> set hs.
         hy_supports h \<noteq> [] \<and> distinct (hy_supports h) \<and> hy_refutes h = []
         \<and> (\<forall>i \<in> set (hy_supports h). \<exists>item \<in> set evidence. \<exists>env newest.
              ev_id item = i \<and> store_verify st item = Inr env \<and> latest_collected evidence = Some newest
              \<and> ev_observed item \<le> newest \<and> newest - ev_observed item \<le> 120 * one_second)
         \<and> hy_cause h \<in> {''STARTUP_FAILURE'', ''INVALID_CONFIGURATION'', ''READINESS_PROBE_FAILURE'',
                         ''PROCESSOR_UNAVAILABLE''}
         \<and> (hy_cause h = ''STARTUP_FAILURE'' \<longrightarrow> cites st evidence h degraded \<and> cites st evidence h crashed)
         \<and> (hy_cause h = ''INVALID_CONFIGURATION'' \<longrightarrow>
              cites st evidence h degraded \<and> cites st evidence h crashed
              \<and> cites st evidence h (invalid_configuration fromiso))
         \<and> (hy_cause h = ''READINESS_PROBE_FAILURE'' \<longrightarrow>
              cites st evidence h degraded \<and> cites_probe_of_pod fromiso st evidence h)
         \<and> (hy_cause h = ''PROCESSOR_UNAVAILABLE'' \<longrightarrow>
              cites st evidence h processor_absent \<and> cites st evidence h no_processor_pods
              \<and> cites st evidence h (\<lambda>s. list_ex access_failure (log_lines fromiso s))))"
proof (intro conjI ballI)
  fix h i
  assume h: "h \<in> set hs" and "i \<in> set (hy_supports h)"
  with rank_evidence_supports(5) [OF assms h] obtain s where
    s: "sound_signal st (latest_collected evidence) evidence s" "ev_id (sg_item s) = i" by blast
  then have "sg_item s \<in> set evidence" "is_fresh (latest_collected evidence) (sg_item s)"
    by (auto simp: sound_signal_def)
  with s latest_collected_ge [of "sg_item s" evidence]
  show "\<exists>item \<in> set evidence. \<exists>env newest.
              ev_id item = i \<and> store_verify st item = Inr env \<and> latest_collected evidence = Some newest
              \<and> ev_observed item \<le> newest \<and> newest - ev_observed item \<le> 120 * one_second"
    by (auto simp: sound_signal_def is_fresh_def MAX_AGE_SECONDS_def intro!: bexI [of _ "sg_item s"])
qed (auto simp del: insert_iff intro: rank_evidence_causes [OF assms] dest: rank_evidence_verifies [OF assms]
      rank_evidence_supports(2-4) [OF assms] rank_evidence_corroborates [OF assms])

theorem baseline_is_corroborated_witness:
  "rank_evidence (\<lambda>_. Some (5, True)) sample_outage sample_outage_store = Inr [sample_readiness]
   \<and> cites sample_outage_store sample_outage sample_readiness degraded
   \<and> cites_probe_of_pod (\<lambda>_. Some (5, True)) sample_outage_store sample_outage sample_readiness"
  using baseline_is_corroborated [OF sample_outage_rank] sample_outage_rank by (simp add: sample_readiness_def)

end
