(* ===== verification/Readers.thy ===== *)
theory Readers
  imports Verification
begin

text \<open>
  The local read clients: \<^verbatim>\<open>kubernetes.py\<close>, \<^verbatim>\<open>prometheus.py\<close> and \<^verbatim>\<open>payment.py\<close> of \<^verbatim>\<open>src/payops/tools\<close>.

  A client turns the answers of a backend into observations. The environment answers every command line and every HTTP
  query (\<open>kr_invoke\<close>, \<open>kr_http\<close>), tells the time and holds the JSON readers, the decoder of a
  Prometheus sample and the conversions of times; answers and times are indexed by the tick at which they are asked. The state counts the ticks
  and records what was dispatched.

  Main facts: what each client dispatches and how often (\<open>costs_collect\<close> and its companions), that every command is a read
  of the bound namespace, and that a projected container does not depend on the values of its environment
  (\<open>project_container_public\<close>).
\<close>

section \<open>Backends\<close>

definition MAX_READ_BYTES :: nat where "MAX_READ_BYTES = 262144"

datatype backend_call =
    Command "string list"
  | Query string

record read_world =
  rw_tick :: nat
  rw_calls :: "backend_call list"

record reader_env =
  kr_prefix :: "string list"
  kr_invoke :: "nat \<Rightarrow> string list \<Rightarrow> exn + string"
  kr_http :: "nat \<Rightarrow> string \<Rightarrow> rat option \<Rightarrow> exn + http_reply"
  kr_now :: "nat \<Rightarrow> instant"
  kr_loads :: "string \<Rightarrow> exn + json_object"
  kr_loads_unique :: "string \<Rightarrow> exn + json_object"
  kr_sample :: "json \<Rightarrow> exn + (string \<times> string) list \<times> string \<times> string"
  kr_datetime :: "string \<Rightarrow> instant option"
  kr_stamp :: "instant \<Rightarrow> string"

definition read_now :: "reader_env \<Rightarrow> ('r read_world_scheme, instant) prog" where
  "read_now env w = (Inr (kr_now env (rw_tick w)), w\<lparr>rw_tick := Suc (rw_tick w)\<rparr>)"

definition run_command :: "reader_env \<Rightarrow> string list \<Rightarrow> ('r read_world_scheme, string) prog" where
  "run_command env args w =
     (let argv = kr_prefix env @ args in
      (kr_invoke env (rw_tick w) argv, w\<lparr>rw_tick := Suc (rw_tick w), rw_calls := rw_calls w @ [Command argv]\<rparr>))"

definition run_query :: "reader_env \<Rightarrow> string \<Rightarrow> rat option \<Rightarrow> ('r read_world_scheme, http_reply) prog" where
  "run_query env query moment w =
     (kr_http env (rw_tick w) query moment, w\<lparr>rw_tick := Suc (rw_tick w), rw_calls := rw_calls w @ [Query query]\<rparr>)"

section \<open>Kubernetes objects\<close>

definition read_object :: "json \<Rightarrow> exn + json_object" where
  "read_object v = (case v of JObj kvs \<Rightarrow> Inr kvs | _ \<Rightarrow> Inl (ValueError ''expected Kubernetes object''))"

definition read_items :: "nat \<Rightarrow> json \<Rightarrow> exn + json_object list" where
  "read_items most v =
     (case v of
        JArr xs \<Rightarrow> bindR (check (length xs \<le> most) (ValueError ''invalid or oversized Kubernetes collection'')) (\<lambda>_. mapR read_object xs)
      | _ \<Rightarrow> Inl (ValueError ''invalid or oversized Kubernetes collection''))"

text \<open>\<^verbatim>\<open>obj.get(key, default)\<close> and \<^verbatim>\<open>obj.get(key)\<close>.\<close>

definition field_or :: "json_object \<Rightarrow> string \<Rightarrow> json \<Rightarrow> json" where
  "field_or obj k d = (case get_field obj k of None \<Rightarrow> d | Some v \<Rightarrow> v)"

definition object_or :: "json_object \<Rightarrow> string \<Rightarrow> exn + json_object" where
  "object_or obj k = read_object (field_or obj k (JObj []))"

definition items_or :: "nat \<Rightarrow> json_object \<Rightarrow> string \<Rightarrow> exn + json_object list" where
  "items_or most obj k = read_items most (field_or obj k (JArr []))"

definition selected_of :: "json_object \<Rightarrow> string list \<Rightarrow> json_object" where
  "selected_of obj names = List.map_filter (\<lambda>k. map_option (Pair k) (get_field obj k)) names"

definition selected :: "json \<Rightarrow> string list \<Rightarrow> exn + json_object" where
  "selected v names = bindR (read_object v) (\<lambda>obj. Inr (selected_of obj names))"

text \<open>\<^verbatim>\<open>json.dumps\<close> with its default separators.\<close>

primrec dumps_default :: "json \<Rightarrow> string" where
  "dumps_default JNull = ''null''"
| "dumps_default (JBool b) = (if b then ''true'' else ''false'')"
| "dumps_default (JInt i) = int_str i"
| "dumps_default (JFloat s) = (if s = ''nan'' then ''NaN'' else if s = ''inf'' then ''Infinity'' else if s = ''-inf'' then ''-Infinity'' else s)"
| "dumps_default (JStr s) = dump_string True s"
| "dumps_default (JArr xs) = ''['' @ join '', '' (map dumps_default xs) @ '']''"
| "dumps_default (JObj kvs) =
     ''{'' @ join '', '' (map (\<lambda>(k, t). dump_string True k @ '': '' @ t) (map (map_prod id dumps_default) kvs)) @ ''}''"

section \<open>Projections\<close>

definition project_container :: "json_object \<Rightarrow> exn + json" where
  "project_container container =
     (let projected = selected_of container [''name'', ''resources'', ''readinessProbe''];
          fingerprint = sha256_hex (utf8 (py_str (Some (field_or container ''image'' (JStr []))))) in
      bindR (items_or 64 container ''env'') (\<lambda>entries.
      Inr (JObj (set_field (set_field projected ''image_fingerprint'' (JStr fingerprint)) ''env_names''
                   (JArr (map (\<lambda>entry. field_or entry ''name'' JNull) entries))))))"

definition project_deployment :: "json_object \<Rightarrow> exn + json_object" where
  "project_deployment value =
     bindR (object_or value ''spec'') (\<lambda>spec.
     bindR (object_or spec ''template'') (\<lambda>template.
     bindR (object_or template ''spec'') (\<lambda>pod_spec.
     bindR (items_or 8 pod_spec ''containers'') (\<lambda>containers.
     bindR (mapR (project_container) containers) (\<lambda>projected.
     bindR (selected (field_or value ''status'' (JObj []))
              [''availableReplicas'', ''readyReplicas'', ''updatedReplicas'', ''conditions'']) (\<lambda>status.
     Inr [(''kind'', JStr ''Deployment''), (''replicas'', field_or spec ''replicas'' JNull), (''containers'', JArr projected),
          (''status'', JObj status)]))))))"

definition project_pod :: "json_object \<Rightarrow> exn + json_object" where
  "project_pod value =
     bindR (object_or value ''status'') (\<lambda>raw_status.
     bindR (items_or 8 raw_status ''containerStatuses'') (\<lambda>statuses.
     Inr [(''kind'', JStr ''Pod''),
          (''status'', JObj (set_field (selected_of raw_status [''phase'', ''reason'', ''message'', ''conditions'']) ''containerStatuses''
             (JArr (map (\<lambda>s. JObj (selected_of s [''name'', ''ready'', ''restartCount'', ''state'', ''lastState'', ''imageID''])) statuses))))]))"

section \<open>Kubernetes reads\<close>

definition kube_get :: "reader_env \<Rightarrow> string list \<Rightarrow> ('r read_world_scheme, json_object) prog" where
  "kube_get env args =
     bindP (run_command env (''get'' # args @ [''-o'', ''json''])) (\<lambda>raw.
     bindP (checkP (length (utf8 raw) \<le> MAX_READ_BYTES) (ValueError ''Kubernetes response exceeds byte budget'')) (\<lambda>_.
     liftR (kr_loads env raw)))"

definition status_observation ::
  "reader_env \<Rightarrow> json_object \<Rightarrow> json_object \<Rightarrow> source \<Rightarrow> ('r read_world_scheme, observation) prog" where
  "status_observation env raw payload src =
     bindP (liftR (object_or raw ''metadata'')) (\<lambda>metadata.
     bindP (checkP (get_field metadata ''namespace'' = Some (JStr NAMESPACE)) (ValueError ''Kubernetes response crosses namespace'')) (\<lambda>_.
     let name = py_str (Some (field_or metadata ''name'' (JStr []))) in
     bindP (checkP (is_pod_name name) (ValueError ''invalid resource name'')) (\<lambda>_.
     let projected = set_field (set_field payload ''resource_uid'' (field_or metadata ''uid'' JNull)) ''generation''
                       (field_or metadata ''generation'' JNull) in
     bindP (read_now env) (\<lambda>now.
     liftR (make_observation src name now ''kubernetes.status-snapshot'' (take 3500 (dumps_default (JObj projected))) projected)))))"

definition label_selector :: "string \<Rightarrow> string list" where
  "label_selector service = [''-l'', ''app.kubernetes.io/name='' @ service]"

definition pod_observation :: "reader_env \<Rightarrow> string \<Rightarrow> json_object \<Rightarrow> ('r read_world_scheme, observation) prog" where
  "pod_observation env service pod =
     bindP (liftR (object_or pod ''metadata'')) (\<lambda>metadata.
     bindP (liftR (object_or metadata ''labels'')) (\<lambda>labels.
     bindP (checkP (get_field labels ''app.kubernetes.io/name'' = Some (JStr service)) (ValueError ''pod response has wrong service ownership'')) (\<lambda>_.
     bindP (liftR (project_pod pod)) (\<lambda>payload.
     status_observation env pod payload KUBERNETES))))"

definition kube_collect :: "reader_env \<Rightarrow> string \<Rightarrow> ('r read_world_scheme, observation list) prog" where
  "kube_collect env service =
     bindP (checkP (service \<in> set READ_SERVICES) (ValueError ''service outside read allowlist'')) (\<lambda>_.
     bindP (kube_get env [''deployment'', service]) (\<lambda>deployment.
     bindP (liftR (object_or deployment ''metadata'')) (\<lambda>metadata.
     bindP (checkP (get_field metadata ''name'' = Some (JStr service)) (ValueError ''deployment response has wrong resource identity'')) (\<lambda>_.
     bindP (kube_get env (''pods'' # label_selector service)) (\<lambda>pods.
     bindP (read_now env) (\<lambda>observed.
     bindP (liftR (project_deployment deployment)) (\<lambda>payload.
     bindP (status_observation env deployment payload DEPLOYMENT) (\<lambda>first.
     bindP (liftR (items_or 32 pods ''items'')) (\<lambda>items.
     bindP (map_prog (pod_observation env service) items) (\<lambda>rest.
     bindP (liftR (make_observation KUBERNETES service observed ''pods.count'' (''Observed '' @ nat_str (length rest) @ '' pods'')
                     [(''pod_count'', JInt (int (length rest)))])) (\<lambda>total1.
     returnP (first # rest @ [total1]))))))))))))"

definition last_chars :: "nat \<Rightarrow> string \<Rightarrow> string" where
  "last_chars n s = drop (length s - n) s"

definition kube_logs :: "reader_env \<Rightarrow> string \<Rightarrow> ('r read_world_scheme, observation) prog" where
  "kube_logs env service =
     bindP (checkP (service \<in> set READ_SERVICES) (ValueError ''service outside read allowlist'')) (\<lambda>_.
     bindP (run_command env [''logs'', ''deployment/'' @ service, ''--container=sandbox'', ''--tail=100'', ''--since=5m'',
                             ''--timestamps=true'', ''--limit-bytes=32768'']) (\<lambda>raw.
     bindP (checkP (length (utf8 raw) \<le> 32768) (ValueError ''log response exceeds byte budget'')) (\<lambda>_.
     bindP (read_now env) (\<lambda>now.
     liftR (make_observation LOG service now ''logs.5m.100'' (if raw = [] then ''No current container log lines'' else last_chars 3500 raw)
              [(''lines'', JStr raw)])))))"

definition pod_uid :: "string \<Rightarrow> json_object \<Rightarrow> exn + string" where
  "pod_uid service pod =
     bindR (object_or pod ''metadata'') (\<lambda>metadata.
     bindR (object_or metadata ''labels'') (\<lambda>labels.
     case get_field metadata ''uid'' of
       Some (JStr uid) \<Rightarrow>
         bindR (check (get_field labels ''app.kubernetes.io/name'' = Some (JStr service)
                       \<and> get_field metadata ''namespace'' = Some (JStr NAMESPACE)) (ValueError ''event pod ownership is invalid''))
           (\<lambda>_. Inr uid)
     | _ \<Rightarrow> Inl (ValueError ''event pod ownership is invalid'')))"

definition event_fields :: "string list" where
  "event_fields =
     [''reason'', ''message'', ''count'', ''type'', ''firstTimestamp'', ''lastTimestamp'', ''eventTime'', ''series'', ''involvedObject'']"

text \<open>\<^verbatim>\<open>event.get("series") or {}\<close>; \<^verbatim>\<open>str(involved.get("uid"))\<close> of an absent field is the text \<^verbatim>\<open>None\<close>.\<close>

definition event_series :: "json_object \<Rightarrow> exn + json_object" where
  "event_series event = (let v = field_or event ''series'' JNull in read_object (if truthy v then v else JObj []))"

definition event_observation :: "reader_env \<Rightarrow> string \<Rightarrow> string list \<Rightarrow> json_object \<Rightarrow> exn + observation option" where
  "event_observation env service uids event =
     bindR (object_or event ''involvedObject'') (\<lambda>involved.
     if py_str (get_field involved ''uid'') \<notin> set uids then Inr None
     else
       bindR (check (get_field involved ''namespace'' = Some (JStr NAMESPACE)) (ValueError ''event response crosses namespace'')) (\<lambda>_.
       bindR (object_or event ''metadata'') (\<lambda>metadata.
       bindR (check (get_field metadata ''namespace'' = Some (JStr NAMESPACE)) (ValueError ''event metadata crosses namespace'')) (\<lambda>_.
       bindR (event_series event) (\<lambda>series.
       case first_truthy [get_field series ''lastObservedTime'', get_field event ''lastTimestamp'', get_field event ''eventTime''] of
         Some (JStr stamp) \<Rightarrow>
           bindR (of_option (ValueError ''Invalid isoformat string'') (kr_datetime env stamp)) (\<lambda>observed.
           bindR (make_observation KUBERNETES service observed ''events.current-pod-uid''
                    (take 3500 (py_str (Some (field_or event ''message'' (JStr ''event''))))) (selected_of event event_fields)) (\<lambda>o1.
           Inr (Some o1)))
       | _ \<Rightarrow> Inr None)))))"

definition kube_events :: "reader_env \<Rightarrow> string \<Rightarrow> ('r read_world_scheme, observation list) prog" where
  "kube_events env service =
     bindP (checkP (service \<in> set READ_SERVICES) (ValueError ''service outside read allowlist'')) (\<lambda>_.
     bindP (kube_get env (''pods'' # label_selector service)) (\<lambda>found.
     bindP (liftR (items_or 32 found ''items'')) (\<lambda>pods.
     bindP (liftR (mapR (pod_uid service) pods)) (\<lambda>uids.
     bindP (kube_get env [''events'', ''--field-selector'', ''involvedObject.kind=Pod'']) (\<lambda>raw.
     bindP (liftR (items_or 256 raw ''items'')) (\<lambda>events.
     bindP (liftR (mapR (event_observation env service uids) events)) (\<lambda>results.
     returnP (List.map_filter id results))))))))"

section \<open>Prometheus\<close>

definition in_quotes :: "string \<Rightarrow> string" where
  "in_quotes s = CHR 0x22 # s @ [CHR 0x22]"

definition payments_selector :: "string \<Rightarrow> string" where
  "payments_selector name = name @ ''{job='' @ in_quotes ''payops-sandbox'' @ '',service='' @ in_quotes ''payments-api'' @ ''}''"

definition QUERIES :: "(string \<times> string) list" where
  "QUERIES =
     [(''requests'', payments_selector ''payment_requests_total''),
      (''latency'', payments_selector ''payment_authorization_latency_seconds_bucket''),
      (''declines'', payments_selector ''payment_declines_total''),
      (''conflicts'', payments_selector ''payment_idempotency_conflicts_total''),
      (''targets'', ''up{job='' @ in_quotes ''payops-sandbox'' @ ''}'')]"

text \<open>\<^verbatim>\<open>math.isfinite\<close> of the decoded time and of \<^verbatim>\<open>float(text)\<close>, which raises on other texts.\<close>

definition finite_text :: "string \<Rightarrow> bool" where
  "finite_text s \<longleftrightarrow> s \<notin> {''inf'', ''-inf'', ''nan''}"

definition finite_sample :: "string \<Rightarrow> bool" where
  "finite_sample text \<longleftrightarrow> (case parse_float text of None \<Rightarrow> False | Some v \<Rightarrow> abs v < of_int float_overflow)"

definition validate_sample :: "reader_env \<Rightarrow> string \<Rightarrow> json \<Rightarrow> exn + unit" where
  "validate_sample env signal row =
     bindR (kr_sample env row) (\<lambda>(metric, stamp, text).
     let service = map_of metric ''service'' in
     bindR (check (\<not> (service \<notin> Some ` set READ_SERVICES \<or> signal \<noteq> ''targets'' \<and> service \<noteq> Some ''payments-api''))
              (ValueError ''Prometheus sample has unexpected service scope'')) (\<lambda>_.
     check (finite_text stamp \<and> finite_sample text) (ValueError ''Prometheus sample is nonfinite'')))"

text \<open>The type adapter decodes every sample before the loop checks the first.\<close>

definition validate_samples :: "reader_env \<Rightarrow> string \<Rightarrow> json list \<Rightarrow> exn + unit" where
  "validate_samples env signal rows =
     bindR (mapR (kr_sample env) rows) (\<lambda>_. each (validate_sample env signal) rows)"

text \<open>\<open>read_chunks\<close> checks the size after each chunk, without a clock.\<close>

fun read_chunks :: "nat \<Rightarrow> (exn + string \<times> rat) list \<Rightarrow> string \<Rightarrow> exn + string" where
  "read_chunks most [] content = Inr content"
| "read_chunks most (chunk # chunks) content =
     bindR chunk (\<lambda>(bytes, elapsed).
     bindR (check (length content + length bytes \<le> most) (ValueError ''Prometheus response exceeds byte budget'')) (\<lambda>_.
     read_chunks most chunks (content @ bytes)))"

definition raise_for_status :: "http_reply \<Rightarrow> exn + unit" where
  "raise_for_status reply = check (200 \<le> hr_status reply \<and> hr_status reply \<le> 299) (OtherError ''HTTPStatusError'')"

definition vector_result :: "json_object \<Rightarrow> exn + json list" where
  "vector_result payload =
     bindR (check (get_field payload ''status'' = Some (JStr ''success'')) (ValueError ''Prometheus query failed'')) (\<lambda>_.
     case get_field payload ''data'' of
       Some (JObj data) \<Rightarrow>
         bindR (check (get_field data ''resultType'' = Some (JStr ''vector'')) (ValueError ''invalid Prometheus instant-vector response'')) (\<lambda>_.
         case get_field data ''result'' of
           Some (JArr rows) \<Rightarrow>
             bindR (check (length rows \<le> 512) (ValueError ''invalid or oversized Prometheus series'')) (\<lambda>_. Inr rows)
         | _ \<Rightarrow> Inl (ValueError ''invalid or oversized Prometheus series''))
     | _ \<Rightarrow> Inl (ValueError ''invalid Prometheus instant-vector response''))"

definition prometheus_query :: "reader_env \<Rightarrow> string \<Rightarrow> ('r read_world_scheme, observation) prog" where
  "prometheus_query env signal =
     bindP (liftR (of_option (ValueError ''signal outside Prometheus allowlist'') (map_of QUERIES signal))) (\<lambda>query.
     bindP (run_query env query None) (\<lambda>reply.
     bindP (liftR (raise_for_status reply)) (\<lambda>_.
     bindP (liftR (read_chunks 131072 (hr_parts reply) [])) (\<lambda>content.
     bindP (liftR (kr_loads env content)) (\<lambda>payload.
     bindP (liftR (vector_result payload)) (\<lambda>rows.
     bindP (liftR (validate_samples env signal rows)) (\<lambda>_.
     bindP (read_now env) (\<lambda>now.
     liftR (make_observation PROMETHEUS (if signal = ''targets'' then ''sandbox-scrapes'' else ''payments-api'') now query
              (''Prometheus '' @ signal @ '': '' @ take 3300 (py_str (get_field payload ''data''))) payload)))))))))"

section \<open>Payment snapshots\<close>

fun read_timed :: "(exn + string \<times> rat) list \<Rightarrow> string \<Rightarrow> exn + string" where
  "read_timed [] content = Inr content"
| "read_timed (chunk # chunks) content =
     bindR chunk (\<lambda>(bytes, elapsed).
     bindR (check (elapsed \<le> 5) (ValueError ''payment response elapsed budget exceeded'')) (\<lambda>_.
     bindR (check (length content + length bytes \<le> 131072) (ValueError ''payment response exceeds byte budget'')) (\<lambda>_.
     read_timed chunks (content @ bytes))))"

definition snapshot_query :: "reader_env \<Rightarrow> string \<Rightarrow> instant \<Rightarrow> ('r read_world_scheme, json_object) prog" where
  "snapshot_query env query moment =
     bindP (run_query env query (Some (timestamp moment))) (\<lambda>reply.
     bindP (liftR (raise_for_status reply)) (\<lambda>_.
     bindP (checkP (case hr_encoding reply of None \<Rightarrow> True | Some e \<Rightarrow> map lower_ascii e = ''identity'')
              (ValueError ''compressed payment response denied'')) (\<lambda>_.
     bindP (liftR (read_timed (hr_parts reply) [])) (\<lambda>content.
     bindP (checkP (hr_elapsed reply \<le> 5) (ValueError ''payment response elapsed budget exceeded'')) (\<lambda>_.
     liftR (kr_loads_unique env content))))))"

definition payment_snapshot :: "reader_env \<Rightarrow> string \<Rightarrow> ('r read_world_scheme, observation) prog" where
  "payment_snapshot env service =
     bindP (liftR (snapshot_queries service)) (\<lambda>(query, watermark_query).
     bindP (read_now env) (\<lambda>moment.
     bindP (read_now env) (\<lambda>now.
     bindP (checkP (moment \<le> now) (ValueError ''snapshot requires a nonfuture aware time'')) (\<lambda>_.
     bindP (snapshot_query env query moment) (\<lambda>metrics.
     bindP (snapshot_query env watermark_query moment) (\<lambda>watermark.
     bindP (read_now env) (\<lambda>later.
     liftR (snapshot_observation later service
              [(''evaluated_at'', JFloat (kr_stamp env moment)), (''query'', JStr query), (''watermark_query'', JStr watermark_query),
               (''metrics'', JObj metrics), (''watermark'', JObj watermark)]))))))))"

section \<open>What a client dispatches\<close>

text \<open>\<open>costs env n m\<close>: \<open>m\<close> dispatches at most \<open>n\<close> backend calls, all of them reads.\<close>

definition reads_backend :: "reader_env \<Rightarrow> backend_call \<Rightarrow> bool" where
  "reads_backend env c \<longleftrightarrow>
     (case c of
        Command argv \<Rightarrow> \<exists>verb args. argv = kr_prefix env @ verb # args \<and> verb \<in> {''get'', ''logs''}
      | Query q \<Rightarrow> q \<in> snd ` set QUERIES \<or> (\<exists>service a b. snapshot_queries service = Inr (a, b) \<and> q \<in> {a, b}))"

definition costs :: "reader_env \<Rightarrow> nat \<Rightarrow> ('r read_world_scheme, 'a) prog \<Rightarrow> bool" where
  "costs env n m \<longleftrightarrow>
     (\<forall>w. \<exists>calls. rw_calls (snd (m w)) = rw_calls w @ calls \<and> length calls \<le> n \<and> list_all (reads_backend env) calls)"

named_theorems costing "how many backend calls a program dispatches"

lemma costs_quiet: "(\<And>w. rw_calls (snd (m w)) = rw_calls w) \<Longrightarrow> costs env n m"
  by (simp add: costs_def)

lemma costs_weaken: "costs env n m \<Longrightarrow> n \<le> k \<Longrightarrow> costs env k m"
  unfolding costs_def by (meson le_trans)

lemma costs_bind:
  assumes "costs env n m" "\<And>x. costs env k (f x)"
  shows "costs env (n + k) (bindP m f)"
  unfolding costs_def
proof
  fix w
  obtain r w1 where m: "m w = (r, w1)" by force
  with assms(1) obtain c1 where c1: "rw_calls w1 = rw_calls w @ c1" "length c1 \<le> n" "list_all (reads_backend env) c1"
    unfolding costs_def by (metis snd_conv)
  show "\<exists>calls. rw_calls (snd (bindP m f w)) = rw_calls w @ calls \<and> length calls \<le> n + k \<and> list_all (reads_backend env) calls"
  proof (cases r)
    case (Inl e)
    with m c1 show ?thesis by (auto simp: bindP_def)
  next
    case (Inr x)
    from assms(2) [of x] obtain c2 where "rw_calls (snd (f x w1)) = rw_calls w1 @ c2" "length c2 \<le> k" "list_all (reads_backend env) c2"
      unfolding costs_def by blast
    with m c1 Inr show ?thesis by (intro exI [of _ "c1 @ c2"]) (auto simp: bindP_def)
  qed
qed

lemma costs_quiet_bind: "costs env 0 m \<Longrightarrow> (\<And>x. costs env k (f x)) \<Longrightarrow> costs env k (bindP m f)"
  using costs_bind [of env 0 m k f] by simp

lemma costs_one_bind: "costs env (Suc 0) m \<Longrightarrow> (\<And>x. costs env k (f x)) \<Longrightarrow> costs env (Suc k) (bindP m f)"
  using costs_bind [of env "Suc 0" m k f] by simp

lemma costs_pure [costing]:
  "costs env n (liftR r)" "costs env n (checkP b e)" "costs env n (returnP x)" "costs env n (raiseP e)" "costs env n (read_now renv)"
  by (simp_all add: costs_quiet read_now_def)

lemma costs_pure_bind [costing]:
  assumes "\<And>x. costs env k (f x)"
  shows "costs env k (bindP (liftR r) f)"
  by (rule costs_quiet_bind [OF costs_pure(1) assms])

lemma costs_check_bind [costing]: "(\<And>x. costs env k (f x)) \<Longrightarrow> costs env k (bindP (checkP b e) f)"
  by (rule costs_quiet_bind [OF costs_pure(2)])

lemma costs_now_bind [costing]: "(\<And>x. costs env k (f x)) \<Longrightarrow> costs env k (bindP (read_now renv) f)"
  by (rule costs_quiet_bind [OF costs_pure(5)])

lemma costs_split [costing]: "(\<And>a b. costs env n (f a b)) \<Longrightarrow> costs env n (case p of (a, b) \<Rightarrow> f a b)"
  by (cases p) simp

lemma costs_let [costing]: "costs env n (f x) \<Longrightarrow> costs env n (Let x f)"
  by (simp add: Let_def)

lemma costs_map_prog:
  assumes "\<And>x. costs env k (f x)"
  shows "costs env (length xs * k) (map_prog f xs)"
proof (induction xs)
  case (Cons x xs)
  have "costs env (k + (length xs * k + 0)) (map_prog f (x # xs))"
    unfolding map_prog.simps by (intro costs_bind assms Cons.IH costing)
  then show ?case by simp
qed (simp add: costs_quiet)

lemma costs_command: "verb \<in> {''get'', ''logs''} \<Longrightarrow> costs env (Suc 0) (run_command env (verb # args))"
  by (auto simp: costs_def run_command_def Let_def reads_backend_def)

lemma costs_query:
  "q \<in> snd ` set QUERIES \<or> (\<exists>service a b. snapshot_queries service = Inr (a, b) \<and> q \<in> {a, b}) \<Longrightarrow> costs env (Suc 0) (run_query env q t)"
  by (auto simp: costs_def run_query_def reads_backend_def)

lemma costs_get: "costs env (Suc 0) (kube_get env args)"
  unfolding kube_get_def by (intro costs_one_bind costs_command costing) simp

lemma costs_get_bind [costing]: "(\<And>x. costs env k (f x)) \<Longrightarrow> costs env (Suc k) (bindP (kube_get env args) f)"
  by (rule costs_one_bind [OF costs_get])

lemma costs_status [costing]: "costs env n (status_observation env raw payload src)"
  unfolding status_observation_def by (intro costing)

lemma costs_pod [costing]: "costs env n (pod_observation env service pod)"
  unfolding pod_observation_def by (intro costing)

lemma costs_status_bind [costing]:
  "(\<And>x. costs env k (f x)) \<Longrightarrow> costs env k (bindP (status_observation env raw payload src) f)"
  by (rule costs_quiet_bind [OF costs_status])

lemma costs_pods [costing]: "(\<And>x. costs env k (f x)) \<Longrightarrow> costs env k (bindP (map_prog (pod_observation env service) items) f)"
  using costs_map_prog [of env 0 "pod_observation env service" items] by (intro costs_quiet_bind) (simp_all add: costs_pod)

lemma costs_collect: "costs env 2 (kube_collect env service)"
  unfolding kube_collect_def numeral_2_eq_2 by (intro costing)

lemma costs_logs: "costs env (Suc 0) (kube_logs env service)"
  unfolding kube_logs_def by (intro costs_one_bind costs_command costing) simp

lemma costs_events: "costs env 2 (kube_events env service)"
  unfolding kube_events_def numeral_2_eq_2 by (intro costing)

lemma costs_lift_bind: "(\<And>x. r = Inr x \<Longrightarrow> costs env k (f x)) \<Longrightarrow> costs env k (bindP (liftR r) f)"
  by (cases r) (auto simp: costs_def bindP_def)

lemma costs_prometheus: "costs env (Suc 0) (prometheus_query env signal)"
  unfolding prometheus_query_def
proof (rule costs_lift_bind)
  fix q assume "of_option (ValueError ''signal outside Prometheus allowlist'') (map_of QUERIES signal) = Inr q"
  then have "q \<in> snd ` set QUERIES" by (force simp: of_option_def split: option.splits dest: map_of_SomeD)
  then show "costs env (Suc 0) (bindP (run_query env q None) (\<lambda>reply. bindP (liftR (raise_for_status reply)) (\<lambda>_.
      bindP (liftR (read_chunks 131072 (hr_parts reply) [])) (\<lambda>content. bindP (liftR (kr_loads env content)) (\<lambda>payload.
      bindP (liftR (vector_result payload)) (\<lambda>rows. bindP (liftR (validate_samples env signal rows)) (\<lambda>_.
      bindP (read_now env) (\<lambda>now. liftR (make_observation PROMETHEUS
        (if signal = ''targets'' then ''sandbox-scrapes'' else ''payments-api'') now q
        (''Prometheus '' @ signal @ '': '' @ take 3300 (py_str (get_field payload ''data''))) payload)))))))))"
    by (intro costs_one_bind costs_query costing) blast
qed

lemma costs_snapshot_query:
  assumes "snapshot_queries service = Inr (a, b)" "q \<in> {a, b}"
  shows "costs env (Suc 0) (snapshot_query env q t)"
proof -
  have "costs env (Suc 0) (run_query env q (Some (timestamp t)))" using assms by (intro costs_query) blast
  then show ?thesis
    unfolding snapshot_query_def by (rule costs_one_bind) (intro costing)
qed

lemma costs_payment: "costs env 2 (payment_snapshot env service)"
  unfolding payment_snapshot_def numeral_2_eq_2
proof (rule costs_lift_bind)
  fix queries assume q: "snapshot_queries service = Inr queries"
  obtain a b where [simp]: "queries = (a, b)" by force
  have c: "costs env (Suc 0) (snapshot_query env a t)" "costs env (Suc 0) (snapshot_query env b t)" for t
    using q by (auto intro: costs_snapshot_query)
  show "costs env (Suc (Suc 0)) (case queries of (query, watermark_query) \<Rightarrow>
      bindP (read_now env) (\<lambda>moment. bindP (read_now env) (\<lambda>now.
      bindP (checkP (moment \<le> now) (ValueError ''snapshot requires a nonfuture aware time'')) (\<lambda>_.
      bindP (snapshot_query env query moment) (\<lambda>metrics. bindP (snapshot_query env watermark_query moment) (\<lambda>watermark.
      bindP (read_now env) (\<lambda>later. liftR (snapshot_observation later service
        [(''evaluated_at'', JFloat (kr_stamp env moment)), (''query'', JStr query), (''watermark_query'', JStr watermark_query),
         (''metrics'', JObj metrics), (''watermark'', JObj watermark)]))))))))"
    by simp (intro costing costs_one_bind c)
qed

section \<open>What a client changes\<close>

text \<open>A read moves the clock and the record of calls; it touches nothing else of a larger state.\<close>

definition only_reads :: "'r read_world_scheme \<Rightarrow> 'r read_world_scheme \<Rightarrow> bool" where
  "only_reads w w' \<longleftrightarrow> (\<exists>t calls. w' = w\<lparr>rw_tick := t, rw_calls := calls\<rparr>)"

interpretation reads: frame only_reads
proof
  show "only_reads w w" for w :: "'r read_world_scheme"
    unfolding only_reads_def by (rule exI [of _ "rw_tick w"], rule exI [of _ "rw_calls w"]) simp
  show "only_reads u w" if "only_reads u v" "only_reads v w" for u v w :: "'r read_world_scheme"
    using that unfolding only_reads_def by fastforce
qed

lemma only_reads_steps [intro!]:
  "keeps only_reads (read_now env)" "keeps only_reads (run_command env args)" "keeps only_reads (run_query env q t)"
proof -
  have tick: "only_reads w (w\<lparr>rw_tick := t\<rparr>)" for w :: "'r read_world_scheme" and t
    unfolding only_reads_def by (rule exI [of _ t], rule exI [of _ "rw_calls w"]) simp
  have both: "only_reads w (w\<lparr>rw_tick := t, rw_calls := cs\<rparr>)" for w :: "'r read_world_scheme" and t cs
    unfolding only_reads_def by blast
  show "keeps only_reads (read_now env)" "keeps only_reads (run_command env args)" "keeps only_reads (run_query env q t)"
    by (simp_all add: keeps_def read_now_def run_command_def run_query_def Let_def tick both)
qed

lemma only_reads_clients [intro!]:
  "keeps only_reads (kube_collect env service)" "keeps only_reads (kube_events env service)" "keeps only_reads (kube_logs env service)"
  "keeps only_reads (prometheus_query env signal)" "keeps only_reads (payment_snapshot env service)"
proof -
  have get: "keeps only_reads (kube_get env args)" for args
    unfolding kube_get_def by auto
  have status: "keeps only_reads (status_observation env raw payload src)" for raw payload src
    unfolding status_observation_def Let_def by auto
  have pod: "keeps only_reads (pod_observation env service pod)" for pod
    unfolding pod_observation_def by (intro reads.frame_bindP reads.frame_pure status)
  have snapshot: "keeps only_reads (snapshot_query env q t)" for q t
    unfolding snapshot_query_def by auto
  show "keeps only_reads (kube_collect env service)" "keeps only_reads (kube_events env service)"
    unfolding kube_collect_def kube_events_def
    by (intro reads.frame_bindP reads.frame_pure reads.frame_map_prog get status pod only_reads_steps)+
  show "keeps only_reads (kube_logs env service)" "keeps only_reads (prometheus_query env signal)"
    unfolding kube_logs_def prometheus_query_def by auto
  show "keeps only_reads (payment_snapshot env service)"
    unfolding payment_snapshot_def by (auto intro: snapshot)
qed

section \<open>What a client observes\<close>

text \<open>The sources of local observations; a log is read with the query of plain logs.\<close>

definition plain_source :: "source \<Rightarrow> string \<Rightarrow> bool" where
  "plain_source src query \<longleftrightarrow> src \<in> {KUBERNETES, DEPLOYMENT, PROMETHEUS} \<or> src = LOG \<and> query = ''logs.5m.100''"

abbreviation plain :: "observation \<Rightarrow> bool" where
  "plain o1 \<equiv> plain_source (obv_source o1) (obv_query o1)"

lemma plain_observation:
  "make_observation src resource observed query summary payload = Inr o1 \<Longrightarrow> src \<in> {KUBERNETES, DEPLOYMENT, PROMETHEUS} \<Longrightarrow> plain o1"
  by (auto simp: make_observation_def plain_source_def)

lemma status_plain:
  "status_observation env raw payload src w = (Inr o1, w') \<Longrightarrow> src \<in> {KUBERNETES, DEPLOYMENT, PROMETHEUS} \<Longrightarrow> plain o1"
  unfolding status_observation_def by (auto simp: bindP_Inr_iff Let_def dest: plain_observation)

lemma logs_query: "strip ''logs.5m.100'' = ''logs.5m.100''"
  by code_simp

lemma kube_logs_plain: "kube_logs env service w = (Inr o1, w') \<Longrightarrow> plain o1"
  unfolding kube_logs_def by (auto simp: bindP_Inr_iff make_observation_def plain_source_def logs_query)

lemma pods_plain:
  assumes "map_prog (pod_observation env service) items w = (Inr os, w')"
  shows "list_all plain os"
  using map_prog_Inr [OF assms]
  by (induction rule: list_all2_induct) (auto simp: pod_observation_def bindP_Inr_iff dest: status_plain)

lemma kube_collect_plain: "kube_collect env service w = (Inr os, w') \<Longrightarrow> list_all plain os"
  unfolding kube_collect_def by (auto simp: bindP_Inr_iff dest: status_plain plain_observation pods_plain)

lemma event_plain: "event_observation env service uids event = Inr (Some o1) \<Longrightarrow> plain o1"
  unfolding event_observation_def
  by (auto split: if_splits option.splits json.splits dest: plain_observation)

lemma kube_events_plain:
  assumes "kube_events env service w = (Inr os, w')"
  shows "list_all plain os"
proof -
  from assms obtain uids events results where r: "mapR (event_observation env service uids) events = Inr results"
      and os: "os = List.map_filter id results"
    unfolding kube_events_def by (auto simp: bindP_Inr_iff)
  have "list_all plain (List.map_filter id results)"
    using r unfolding mapR_Inr_iff
    by (induction rule: list_all2_induct) (auto simp: List.map_filter_simps split: option.split dest: event_plain)
  with os show ?thesis by simp
qed

lemma prometheus_plain: "prometheus_query env signal w = (Inr o1, w') \<Longrightarrow> plain o1"
  unfolding prometheus_query_def by (auto simp: bindP_Inr_iff dest: plain_observation)

lemma snapshot_plain: "payment_snapshot env service w = (Inr o1, w') \<Longrightarrow> plain o1"
  unfolding payment_snapshot_def snapshot_observation_def
  by (auto simp: bindP_Inr_iff dest: plain_observation split: prod.splits)

section \<open>What a projection hides\<close>

text \<open>Of the environment of a container only the names are read.\<close>

lemma get_selected_of: "get_field (selected_of obj names) k = (if k \<in> set names then get_field obj k else None)"
  by (induction names) (auto simp: selected_of_def List.map_filter_simps split: option.splits)

lemma selected_of_set_field: "k \<notin> set names \<Longrightarrow> selected_of (set_field obj k v) names = selected_of obj names"
  unfolding selected_of_def by (induction names) (auto simp: List.map_filter_simps split: option.splits)

lemma mapR_objects: "mapR read_object (map JObj es) = Inr es"
  by (induction es) (simp_all add: read_object_def)

lemma project_container_public:
  assumes "map (\<lambda>e. field_or e ''name'' JNull) es = map (\<lambda>e. field_or e ''name'' JNull) es'"
  shows "project_container (set_field c ''env'' (JArr (map JObj es))) = project_container (set_field c ''env'' (JArr (map JObj es')))"
proof -
  have "length es = length es'" using assms by (metis length_map)
  moreover have "items_or 64 (set_field c ''env'' (JArr (map JObj xs))) ''env''
      = bindR (check (length xs \<le> 64) (ValueError ''invalid or oversized Kubernetes collection'')) (\<lambda>_. Inr xs)" for xs
    by (simp add: items_or_def field_or_def read_items_def mapR_objects)
  moreover have "field_or (set_field c ''env'' v) ''image'' d = field_or c ''image'' d" for v d by (simp add: field_or_def)
  ultimately show ?thesis
    using assms by (simp add: project_container_def selected_of_set_field check_def)
qed

end
