(* ===== verification/Collection.thy ===== *)
theory Collection
  imports Readers Lifecycle
begin

text \<open>
  The two collectors: \<^verbatim>\<open>collect.py\<close> and \<^verbatim>\<open>window_collect.py\<close> of \<^verbatim>\<open>src/payops/tools\<close>.

  A collector runs a fixed plan of reads, normalises what they return into the artifact store of its directory and
  records every failure instead of raising it. The state adds to that of the readers the store, the evidence and
  failures of the current run, and the named files of the directory. A file operation may fail at any time
  (\<open>ce_fault\<close>); a failure outside the classes the code catches stands for the death of the process, which leaves
  the files as they are. Writing an artifact itself is \<open>normalize\<close> on the store, which cannot fail here.

  Main facts: a local collection dispatches at most 30 reads and the window collections of one directory,
  however often they are restarted, at most 34, all of them reads (\<open>collection_within_reservation\<close>); what a
  local collection returns is of the incident, recent and verified (\<open>local_collection_verifies\<close>).
\<close>

section \<open>State\<close>

record read_plan =
  wp_incident :: string
  wp_services :: "string \<times> string"
  wp_operations :: int
  wp_reads :: int

datatype kept_record =
    Plan_record read_plan
  | Start_record instant
  | Interval_record measurement_interval
  | Collection_record collection
  | Cut_record

record collect_world = read_world +
  cw_store :: evidence_store
  cw_evidence :: "evidence_item list"
  cw_failures :: "collection_failure list"
  cw_files :: "string \<Rightarrow> kept_record option"

record collect_env =
  ce_read :: reader_env
  ce_new_id :: "nat \<Rightarrow> string"
  ce_fault :: "nat \<Rightarrow> exn option"
  ce_type_name :: "exn \<Rightarrow> string"
  ce_window :: "payment_window \<Rightarrow> json_object"

definition disk :: "collect_env \<Rightarrow> (collect_world, unit) prog" where
  "disk env w =
     ((case ce_fault env (rw_tick w) of None \<Rightarrow> Inr () | Some e \<Rightarrow> Inl e), w\<lparr>rw_tick := Suc (rw_tick w)\<rparr>)"

definition fresh_id :: "collect_env \<Rightarrow> (collect_world, string) prog" where
  "fresh_id env w = (Inr (ce_new_id env (rw_tick w)), w\<lparr>rw_tick := Suc (rw_tick w)\<rparr>)"

definition clock :: "collect_env \<Rightarrow> (collect_world, instant) prog" where
  "clock env = read_now (ce_read env)"

definition put_record :: "string \<Rightarrow> kept_record \<Rightarrow> (collect_world, unit) prog" where
  "put_record name v w = (Inr (), w\<lparr>cw_files := (cw_files w)(name \<mapsto> v)\<rparr>)"

definition note_failure :: "string \<Rightarrow> string \<Rightarrow> string \<Rightarrow> (collect_world, unit) prog" where
  "note_failure tool resource name w =
     (Inr (), w\<lparr>cw_failures := cw_failures w @ [\<lparr>cf_tool = tool, cf_resource = resource, cf_error = name\<rparr>]\<rparr>)"

definition keep_evidence :: "evidence_item \<Rightarrow> (collect_world, unit) prog" where
  "keep_evidence item w = (Inr (), w\<lparr>cw_evidence := cw_evidence w @ [item]\<rparr>)"

text \<open>The exceptions a collector records: \<^verbatim>\<open>ValueError\<close>, \<^verbatim>\<open>OSError\<close>, and the classes derived from
  \<^verbatim>\<open>subprocess.SubprocessError\<close> and \<^verbatim>\<open>httpx.HTTPError\<close>.\<close>

definition transport_errors :: "string list" where
  "transport_errors =
     [''SubprocessError'', ''CalledProcessError'', ''TimeoutExpired'', ''HTTPError'', ''HTTPStatusError'', ''RequestError'',
      ''TransportError'', ''TimeoutException'', ''ConnectTimeout'', ''ReadTimeout'', ''WriteTimeout'', ''PoolTimeout'',
      ''NetworkError'', ''ConnectError'', ''ReadError'', ''WriteError'', ''CloseError'', ''ProtocolError'',
      ''LocalProtocolError'', ''RemoteProtocolError'', ''ProxyError'', ''UnsupportedProtocol'', ''DecodingError'',
      ''TooManyRedirects'']"

fun is_transport_error :: "exn \<Rightarrow> bool" where
  "is_transport_error (OtherError name) = (name \<in> set transport_errors)"
| "is_transport_error _ = False"

definition is_read_error :: "exn \<Rightarrow> bool" where
  "is_read_error e \<longleftrightarrow> is_ValueError e \<or> is_OSError e \<or> is_transport_error e"

section \<open>Stored observations\<close>

text \<open>\<^verbatim>\<open>normalize(observation, incident, start, utc_now() + timedelta(seconds=1), store)\<close>: the end of the
  window is read first, then the identifier is drawn and the item is stamped.\<close>

definition normalize_stored ::
  "collect_env \<Rightarrow> string \<Rightarrow> instant \<Rightarrow> observation \<Rightarrow> (collect_world, evidence_item) prog" where
  "normalize_stored env incident_id start o1 =
     bindP (clock env) (\<lambda>stop.
     bindP (fresh_id env) (\<lambda>new_id.
     bindP (clock env) (\<lambda>now w.
       case normalize new_id now o1 incident_id start (stop + one_second) (cw_store w) of
         Inl e \<Rightarrow> (Inl e, w)
       | Inr (item, st) \<Rightarrow> (Inr item, w\<lparr>cw_store := st\<rparr>))))"

definition verify_stored :: "evidence_item \<Rightarrow> (collect_world, unit) prog" where
  "verify_stored item = getP (\<lambda>w. liftR (discard (store_verify (cw_store w) item)))"

definition store_observation ::
  "collect_env \<Rightarrow> string \<Rightarrow> instant \<Rightarrow> observation \<Rightarrow> (collect_world, evidence_item) prog" where
  "store_observation env incident_id start o1 =
     bindP (normalize_stored env incident_id start o1) (\<lambda>item. bindP (verify_stored item) (\<lambda>_. returnP item))"

section \<open>The local collection\<close>

type_synonym read_call = "string \<times> string \<times> (collect_world, observation list) prog"

definition local_calls :: "reader_env \<Rightarrow> read_call list" where
  "local_calls renv =
     map (\<lambda>service. (''kubernetes'', service, kube_collect renv service)) (sort READ_SERVICES)
     @ map (\<lambda>service. (''events'', service, kube_events renv service)) (sort READ_SERVICES)
     @ map (\<lambda>service. (''logs'', service, bindP (kube_logs renv service) (\<lambda>o1. returnP [o1]))) (sort READ_SERVICES)
     @ map (\<lambda>signal. (''prometheus'', signal, bindP (prometheus_query renv signal) (\<lambda>o1. returnP [o1]))) (sort (map fst QUERIES))"

fun local_keep :: "collect_env \<Rightarrow> string \<Rightarrow> instant \<Rightarrow> string \<Rightarrow> string \<Rightarrow> observation list \<Rightarrow> (collect_world, unit) prog" where
  "local_keep env incident_id start tool resource [] = returnP ()"
| "local_keep env incident_id start tool resource (o1 # os) =
     bindP (if obv_observed o1 < start then note_failure tool resource ''OutsideQueryWindow''
            else bindP (store_observation env incident_id start o1) keep_evidence) (\<lambda>_.
     local_keep env incident_id start tool resource os)"

definition local_read :: "collect_env \<Rightarrow> string \<Rightarrow> instant \<Rightarrow> read_call \<Rightarrow> (collect_world, unit) prog" where
  "local_read env incident_id start c =
     (case c of (tool, resource, call) \<Rightarrow>
        bindP (attempt (bindP call (local_keep env incident_id start tool resource)) is_read_error) (\<lambda>r.
        case r of Inl e \<Rightarrow> note_failure tool resource (ce_type_name env e) | Inr _ \<Rightarrow> returnP ()))"

definition open_batch :: "collect_env \<Rightarrow> (collect_world, instant) prog" where
  "open_batch env =
     bindP (disk env) (\<lambda>_.
     bindP (clock env) (\<lambda>now w.
       (Inr (now - 300 * one_second), w\<lparr>cw_evidence := [], cw_failures := []\<rparr>)))"

definition batch_result :: "string \<Rightarrow> (collect_world, collection) prog" where
  "batch_result incident_id =
     getP (\<lambda>w. returnP \<lparr>co_incident = incident_id, co_evidence = cw_evidence w, co_failures = cw_failures w\<rparr>)"

definition chosen_incident :: "collect_env \<Rightarrow> string option \<Rightarrow> (collect_world, string) prog" where
  "chosen_incident env incident_id =
     (case incident_id of Some (c # cs) \<Rightarrow> returnP (c # cs) | _ \<Rightarrow> fresh_id env)"

definition collect_local :: "collect_env \<Rightarrow> string option \<Rightarrow> (collect_world, collection) prog" where
  "collect_local env incident_id =
     bindP (chosen_incident env incident_id) (\<lambda>identity.
     bindP (open_batch env) (\<lambda>start.
     bindP (map_prog (local_read env identity start) (local_calls (ce_read env))) (\<lambda>_.
     bindP (batch_result identity) (\<lambda>result.
     bindP (disk env) (\<lambda>_.
     bindP (disk env) (\<lambda>_.
     bindP (put_record ''collection.json'' Cut_record) (\<lambda>_.
     bindP (disk env) (\<lambda>_.
     bindP (put_record ''collection.json'' (Collection_record result)) (\<lambda>_.
     returnP result)))))))))"

section \<open>The window collection\<close>

definition window_plan :: "incident \<Rightarrow> exn + read_plan" where
  "window_plan incident =
     bindR (check (ic_namespace (in_request incident) = ''payops-sandbox'') (ValueError ''unsupported payment window scope'')) (\<lambda>_.
     let service = ic_service (in_request incident);
         plan = (\<lambda>pair. Inr \<lparr>wp_incident = in_id incident, wp_services = pair, wp_operations = 20, wp_reads = 34\<rparr>) in
     if service \<in> {''payments-api'', ''processor-adapter''} then plan (''payments-api'', ''processor-adapter'')
     else if service = ''webhook-sim'' then plan (''webhook-sim'', ''payments-api'')
     else Inl (ValueError ''unsupported payment window service''))"

text \<open>Exclusive creation, writing, and flushing to the disk.\<close>

definition retain_once :: "collect_env \<Rightarrow> string \<Rightarrow> kept_record \<Rightarrow> (collect_world, unit) prog" where
  "retain_once env name v =
     bindP (disk env) (\<lambda>_.
     bindP (getP (\<lambda>w. checkP (cw_files w name = None) (FileExistsError name))) (\<lambda>_.
     bindP (put_record name Cut_record) (\<lambda>_.
     bindP (disk env) (\<lambda>_.
     bindP (put_record name v) (\<lambda>_.
     disk env)))))"

definition window_keep ::
  "collect_env \<Rightarrow> string \<Rightarrow> instant \<Rightarrow> string \<Rightarrow> string \<Rightarrow> observation \<Rightarrow> (collect_world, evidence_item option) prog" where
  "window_keep env incident_id start tool resource o1 =
     bindP (attempt (store_observation env incident_id start o1) (\<lambda>e. is_ValueError e \<or> is_OSError e)) (\<lambda>r.
     case r of
       Inl e \<Rightarrow> bindP (note_failure tool resource (ce_type_name env e)) (\<lambda>_. returnP None)
     | Inr item \<Rightarrow> bindP (keep_evidence item) (\<lambda>_. returnP (Some item)))"

text \<open>An exception inside the loop ends it with the items found so far.\<close>

fun capture_all ::
  "collect_env \<Rightarrow> string \<Rightarrow> instant \<Rightarrow> string \<Rightarrow> string \<Rightarrow> evidence_item list \<Rightarrow> observation list
     \<Rightarrow> (collect_world, evidence_item list) prog" where
  "capture_all env incident_id start tool resource items [] = returnP items"
| "capture_all env incident_id start tool resource items (o1 # os) =
     bindP (attempt (window_keep env incident_id start tool resource o1) is_read_error) (\<lambda>r.
     case r of
       Inl e \<Rightarrow> bindP (note_failure tool resource (ce_type_name env e)) (\<lambda>_. returnP items)
     | Inr found \<Rightarrow> capture_all env incident_id start tool resource (items @ (case found of None \<Rightarrow> [] | Some i \<Rightarrow> [i])) os)"

definition capture :: "collect_env \<Rightarrow> string \<Rightarrow> instant \<Rightarrow> read_call \<Rightarrow> (collect_world, evidence_item list) prog" where
  "capture env incident_id start c =
     (case c of (tool, resource, call) \<Rightarrow>
        bindP (attempt call is_read_error) (\<lambda>r.
        case r of
          Inl e \<Rightarrow> bindP (note_failure tool resource (ce_type_name env e)) (\<lambda>_. returnP [])
        | Inr os \<Rightarrow> capture_all env incident_id start tool resource [] os))"

definition window_services :: "read_plan \<Rightarrow> string list" where
  "window_services plan = [fst (wp_services plan), snd (wp_services plan)]"

definition snapshots :: "collect_env \<Rightarrow> instant \<Rightarrow> read_plan \<Rightarrow> (collect_world, (string \<times> evidence_item) list) prog" where
  "snapshots env start plan =
     bindP (map_prog (\<lambda>service.
       bindP (capture env (wp_incident plan) start
                (''payment_snapshot'', service, bindP (payment_snapshot (ce_read env) service) (\<lambda>o1. returnP [o1]))) (\<lambda>items.
       returnP (map (Pair service) (take 1 items)))) (window_services plan)) (\<lambda>groups.
     returnP (concat groups))"

definition workload_calls :: "reader_env \<Rightarrow> read_call list" where
  "workload_calls renv =
     concat (map (\<lambda>service.
       [(''kubernetes'', service, kube_collect renv service), (''events'', service, kube_events renv service),
        (''logs'', service, bindP (kube_logs renv service) (\<lambda>o1. returnP [o1]))]) (sort READ_SERVICES))
     @ [(''prometheus'', ''targets'', bindP (prometheus_query renv ''targets'') (\<lambda>o1. returnP [o1]))]"

definition workload_reads :: "collect_env \<Rightarrow> instant \<Rightarrow> read_plan \<Rightarrow> (collect_world, unit) prog" where
  "workload_reads env start plan =
     bindP (map_prog (capture env (wp_incident plan) start) (workload_calls (ce_read env))) (\<lambda>_. returnP ())"

definition derive_stored ::
  "collect_env \<Rightarrow> evidence_item \<Rightarrow> evidence_item \<Rightarrow> measurement_interval \<Rightarrow> (collect_world, evidence_item) prog" where
  "derive_stored env before after interval =
     bindP (fresh_id env) (\<lambda>new_id.
     bindP (clock env) (\<lambda>now w.
       case derive_payment_window (ce_window env) new_id now before after interval (cw_store w) of
         Inl e \<Rightarrow> (Inl e, w)
       | Inr (item, st) \<Rightarrow> (Inr item, w\<lparr>cw_store := st\<rparr>)))"

definition derive_service ::
  "collect_env \<Rightarrow> (string \<times> evidence_item) list \<Rightarrow> (string \<times> evidence_item) list \<Rightarrow> measurement_interval \<Rightarrow> string
     \<Rightarrow> (collect_world, unit) prog" where
  "derive_service env before after interval service =
     bindP (attempt
       (bindP (liftR (of_option (KeyError service) (map_of before service))) (\<lambda>initial.
        bindP (liftR (of_option (KeyError service) (map_of after service))) (\<lambda>final.
        bindP (derive_stored env initial final interval) keep_evidence)))
       (\<lambda>e. is_KeyError e \<or> is_ValueError e \<or> is_OSError e)) (\<lambda>r.
     case r of Inl e \<Rightarrow> note_failure ''payment_window'' service (ce_type_name env e) | Inr _ \<Rightarrow> returnP ())"

definition second_snapshots ::
  "collect_env \<Rightarrow> instant \<Rightarrow> read_plan \<Rightarrow> (string \<times> evidence_item) list \<Rightarrow> measurement_interval \<Rightarrow> (collect_world, unit) prog" where
  "second_snapshots env start plan before interval =
     bindP (retain_once env ''window-interval.json'' (Interval_record interval)) (\<lambda>_.
     bindP (snapshots env start plan) (\<lambda>after.
     bindP (map_prog (derive_service env before after interval) (window_services plan)) (\<lambda>_.
     returnP ())))"

definition measured :: "collect_env \<Rightarrow> instant \<Rightarrow> incident \<Rightarrow> read_plan \<Rightarrow> (collect_world, unit) prog" where
  "measured env start incident plan =
     bindP (snapshots env start plan) (\<lambda>before.
     bindP (clock env) (\<lambda>opened.
     bindP (retain_once env ''window-start.txt'' (Start_record opened)) (\<lambda>_.
     bindP (workload_reads env start plan) (\<lambda>_.
     bindP (clock env) (\<lambda>closed.
     case validate_interval \<lparr>mi_incident = in_id incident, mi_start = opened, mi_end = closed\<rparr> of
       Inl _ \<Rightarrow> note_failure ''payment_window'' (ic_service (in_request incident)) ''MeasurementIntervalExceeded''
     | Inr interval \<Rightarrow> second_snapshots env start plan before interval)))))"

definition window_collect :: "collect_env \<Rightarrow> incident \<Rightarrow> (collect_world, collection) prog" where
  "window_collect env incident =
     bindP (liftR (window_plan incident)) (\<lambda>plan.
     bindP (disk env) (\<lambda>_.
     bindP (retain_once env ''window-plan.json'' (Plan_record plan)) (\<lambda>_.
     bindP (open_batch env) (\<lambda>start.
     bindP (measured env start incident plan) (\<lambda>_.
     bindP (batch_result (wp_incident plan)) (\<lambda>result.
     bindP (retain_once env ''collection.json'' (Collection_record result)) (\<lambda>_.
     returnP result)))))))"

section \<open>What a collection dispatches\<close>

text \<open>Everything but the reads themselves leaves the backends alone.\<close>

definition calm :: "collect_world \<Rightarrow> collect_world \<Rightarrow> bool" where
  "calm w w' \<longleftrightarrow> rw_calls w' = rw_calls w"

interpretation calm: frame calm
  by unfold_locales (simp_all add: calm_def)

lemma calm_pair [simp]: "keeps calm (Pair r)"
  by (simp add: keeps_def calm_def)

lemma calm_steps [intro!]:
  "keeps calm (disk env)" "keeps calm (fresh_id env)" "keeps calm (clock env)" "keeps calm (put_record name v)"
  "keeps calm (note_failure tool resource e)" "keeps calm (keep_evidence item)"
  by (simp_all add: keeps_def calm_def disk_def fresh_id_def clock_def read_now_def put_record_def note_failure_def keep_evidence_def)

lemma calm_store [intro!]:
  "keeps calm (store_observation env i t o1)" "keeps calm (derive_stored env before after interval)"
  unfolding store_observation_def normalize_stored_def verify_stored_def derive_stored_def
  by (intro calm.frame_bindP calm.frame_getP calm.frame_pure calm_steps calm.frame_bind_body;
      simp add: calm_def split: sum.split prod.split)+

lemma calm_local_keep [intro!]: "keeps calm (local_keep env i t tool resource os)"
  by (induction os) auto

lemma calm_window_keep [intro!]: "keeps calm (window_keep env i t tool resource o1)"
  unfolding window_keep_def by (auto split: sum.split)

lemma calm_capture_all [intro!]: "keeps calm (capture_all env i t tool resource items os)"
  by (induction os arbitrary: items) (auto split: sum.split option.split)

lemma calm_derive [intro!]: "keeps calm (derive_service env before after interval service)"
  unfolding derive_service_def by (auto split: sum.split)

lemma calm_rest [intro!]:
  "keeps calm (batch_result i)" "keeps calm (retain_once env name v)" "keeps calm (chosen_incident env incident_id)"
  unfolding batch_result_def retain_once_def chosen_incident_def by (auto split: option.split list.split)

lemma calm_open [intro!]: "keeps calm (open_batch env)"
  unfolding open_batch_def
  by (rule calm.frame_bindP [OF calm_steps(1)], rule calm.frame_bind_body [OF calm_steps(3)]) (simp add: calm_def)

lemma costs_keeps: "keeps calm m \<Longrightarrow> costs renv n m"
  by (simp add: keeps_def calm_def costs_quiet)

lemma costs_then_calm: "costs renv n m \<Longrightarrow> (\<And>x. keeps calm (f x)) \<Longrightarrow> costs renv n (bindP m f)"
  using costs_bind [of renv n m 0 f] by (simp add: costs_keeps)

lemma costs_after_calm: "keeps calm m \<Longrightarrow> (\<And>x. costs renv n (f x)) \<Longrightarrow> costs renv n (bindP m f)"
  by (rule costs_quiet_bind) (rule costs_keeps)

lemma costs_attempt: "costs renv n m \<Longrightarrow> costs renv n (attempt m p)"
  by (simp add: costs_def)

lemma costs_plan:
  assumes "\<And>x. x \<in> set xs \<Longrightarrow> costs renv (c x) (f x)"
  shows "costs renv (sum_list (map c xs)) (map_prog f xs)"
  using assms
proof (induction xs)
  case (Cons x xs)
  then have "costs renv (c x + (sum_list (map c xs) + 0)) (map_prog f (x # xs))"
    unfolding map_prog.simps by (intro costs_bind costing) simp_all
  then show ?case by simp
qed (simp add: costs_quiet)

definition call_cost :: "read_call \<Rightarrow> nat" where
  "call_cost c = (if fst c \<in> {''logs'', ''prometheus''} then 1 else 2)"

lemma costs_local_calls: "c \<in> set (local_calls renv) \<Longrightarrow> costs renv (call_cost c) (snd (snd c))"
  unfolding local_calls_def call_cost_def
  by (auto intro!: costs_then_calm costs_collect costs_events costs_logs costs_prometheus)

lemma costs_workload_calls: "c \<in> set (workload_calls renv) \<Longrightarrow> costs renv (call_cost c) (snd (snd c))"
  unfolding workload_calls_def call_cost_def
  by (auto intro!: costs_then_calm costs_collect costs_events costs_logs costs_prometheus)

lemma costs_local_read: "costs (ce_read env) n (snd (snd c)) \<Longrightarrow> costs (ce_read env) n (local_read env i t c)"
  unfolding local_read_def
  by (cases c) (auto intro!: costs_then_calm costs_attempt split: sum.split)

lemma costs_capture: "costs (ce_read env) n (snd (snd c)) \<Longrightarrow> costs (ce_read env) n (capture env i t c)"
  unfolding capture_def
  by (cases c) (auto intro!: costs_then_calm costs_attempt split: sum.split)

lemma local_plan_cost: "sum_list (map call_cost (local_calls renv)) = 30"
proof -
  have "map call_cost (local_calls renv)
      = map (\<lambda>_. 2) (sort READ_SERVICES) @ map (\<lambda>_. 2) (sort READ_SERVICES) @ map (\<lambda>_. 1) (sort READ_SERVICES) @ map (\<lambda>_. 1) (sort (map fst QUERIES))"
    by (simp add: local_calls_def call_cost_def)
  then show ?thesis by (simp add: map_replicate_const sum_list_replicate READ_SERVICES_def QUERIES_def)
qed

lemma workload_plan_cost: "sum_list (map call_cost (workload_calls renv)) = 26"
proof -
  have "sum_list (map call_cost (concat (map (\<lambda>service. [(''kubernetes'', service, kube_collect renv service), (''events'', service, kube_events renv service),
        (''logs'', service, bindP (kube_logs renv service) (\<lambda>o1. returnP [o1]))]) xs))) = 5 * length xs" for xs
    by (induction xs) (simp_all add: call_cost_def)
  then show ?thesis by (simp add: workload_calls_def call_cost_def READ_SERVICES_def)
qed

lemma costs_collect_local: "costs (ce_read env) 30 (collect_local env incident_id)"
proof -
  have reads: "costs (ce_read env) 30 (map_prog (local_read env i t) (local_calls (ce_read env)))" for i t
    using costs_plan [of "local_calls (ce_read env)" "ce_read env" call_cost "local_read env i t"]
    by (simp add: local_plan_cost costs_local_read costs_local_calls)
  show ?thesis
    unfolding collect_local_def
    by (rule costs_after_calm [OF calm_rest(3)], rule costs_after_calm [OF calm_open], rule costs_then_calm [OF reads]) auto
qed

lemma costs_snapshots: "costs (ce_read env) 4 (snapshots env start plan)"
proof -
  let ?f = "\<lambda>service. bindP (capture env (wp_incident plan) start
        (''payment_snapshot'', service, bindP (payment_snapshot (ce_read env) service) (\<lambda>o1. returnP [o1]))) (\<lambda>items.
       returnP (map (Pair service) (take 1 items)))"
  have "costs (ce_read env) 2 (?f service)" for service
    by (intro costs_then_calm costs_capture) (auto intro!: costs_then_calm costs_payment)
  then have "costs (ce_read env) (length (window_services plan) * 2) (map_prog ?f (window_services plan))"
    by (rule costs_map_prog)
  then show ?thesis
    unfolding snapshots_def by (intro costs_then_calm) (auto simp: window_services_def)
qed

lemma costs_second: "costs (ce_read env) 4 (second_snapshots env start plan before interval)"
  unfolding second_snapshots_def by (intro costs_after_calm costs_then_calm costs_snapshots) auto

lemma costs_measured: "costs (ce_read env) 34 (measured env start incident plan)"
proof -
  have w: "costs (ce_read env) 26 (workload_reads env start plan)"
    unfolding workload_reads_def
    using costs_plan [of "workload_calls (ce_read env)" "ce_read env" call_cost "capture env (wp_incident plan) start"]
    by (intro costs_then_calm) (auto simp: workload_plan_cost costs_capture costs_workload_calls)
  have "costs (ce_read env) (4 + (26 + 4)) (measured env start incident plan)"
    unfolding measured_def
    by (intro costs_bind [OF costs_snapshots] costs_after_calm costs_bind [OF w])
       (auto simp: costs_second split: sum.split intro!: costs_keeps)
  then show ?thesis by simp
qed

section \<open>What a collection leaves behind\<close>

text \<open>No step removes a file of the directory.\<close>

definition files_stay :: "collect_world \<Rightarrow> collect_world \<Rightarrow> bool" where
  "files_stay w w' \<longleftrightarrow> dom (cw_files w) \<subseteq> dom (cw_files w')"

interpretation stay: frame files_stay
  by unfold_locales (auto simp: files_stay_def)

lemma stay_pair [simp]: "keeps files_stay (Pair r)"
  by (simp add: keeps_def files_stay_def)

lemma stay_reads: "keeps only_reads m \<Longrightarrow> keeps files_stay m"
  by (erule keeps_weaken) (auto simp: only_reads_def files_stay_def)

lemma stay_clients [intro!]:
  "keeps files_stay (kube_collect renv service)" "keeps files_stay (kube_events renv service)" "keeps files_stay (kube_logs renv service)"
  "keeps files_stay (prometheus_query renv signal)" "keeps files_stay (payment_snapshot renv service)" "keeps files_stay (clock env)"
  unfolding clock_def by (intro stay_reads only_reads_clients only_reads_steps)+

lemma stay_steps [intro!]:
  "keeps files_stay (disk env)" "keeps files_stay (fresh_id env)" "keeps files_stay (put_record name v)"
  "keeps files_stay (note_failure tool resource e)" "keeps files_stay (keep_evidence item)"
  by (auto simp add: keeps_def files_stay_def disk_def fresh_id_def put_record_def note_failure_def keep_evidence_def)

lemma stay_store [intro!]:
  "keeps files_stay (store_observation env i t o1)" "keeps files_stay (derive_stored env before after interval)"
  unfolding store_observation_def normalize_stored_def verify_stored_def derive_stored_def
  by (intro stay.frame_bindP stay.frame_getP stay.frame_pure stay_steps stay_clients stay.frame_bind_body;
      simp add: files_stay_def split: sum.split prod.split)+

lemma stay_window_keep [intro!]: "keeps files_stay (window_keep env i t tool resource o1)"
  unfolding window_keep_def by (auto split: sum.split)

lemma stay_capture_all [intro!]: "keeps files_stay (capture_all env i t tool resource items os)"
  by (induction os arbitrary: items) (auto split: sum.split option.split)

lemma stay_capture: "keeps files_stay (snd (snd c)) \<Longrightarrow> keeps files_stay (capture env i t c)"
  unfolding capture_def by (cases c) (auto split: sum.split)

lemma stay_derive [intro!]: "keeps files_stay (derive_service env before after interval service)"
  unfolding derive_service_def by (auto split: sum.split)

lemma stay_rest [intro!]: "keeps files_stay (batch_result i)" "keeps files_stay (retain_once env name v)"
  unfolding batch_result_def retain_once_def by auto

lemma stay_open [intro!]: "keeps files_stay (open_batch env)"
  unfolding open_batch_def
  by (rule stay.frame_bindP [OF stay_steps(1)], rule stay.frame_bind_body [OF stay_clients(6)]) (simp add: files_stay_def)

lemma stay_snapshots [intro!]: "keeps files_stay (snapshots env t plan)"
  unfolding snapshots_def by (auto intro!: stay_capture)

lemma stay_workload [intro!]: "keeps files_stay (workload_reads env t plan)"
proof -
  have "keeps files_stay (snd (snd c))" if "c \<in> set (workload_calls (ce_read env))" for c
    using that unfolding workload_calls_def by auto
  then have m: "keeps files_stay (map_prog (capture env i t) cs)" if "set cs \<subseteq> set (workload_calls (ce_read env))" for cs i
    using that by (induction cs) (auto intro!: stay_capture)
  show ?thesis unfolding workload_reads_def by (intro stay.frame_bindP stay.frame_pure m order_refl)
qed

lemma stay_measured [intro!]: "keeps files_stay (measured env t incident plan)"
  unfolding measured_def second_snapshots_def by (auto split: sum.split)

section \<open>Restarts\<close>

lemma retain_once_Inr:
  assumes "retain_once env name v w = (Inr u, w')"
  shows "cw_files w name = None" and "cw_files w' name \<noteq> None"
  using assms by (auto simp: retain_once_def bindP_Inr_iff getP_def put_record_def disk_def split: option.splits)

text \<open>A run that dispatches anything found no plan in the directory and leaves one.\<close>

lemma window_run:
  assumes "window_collect env incident w = (r, w')"
  shows "rw_calls w' = rw_calls w \<or> cw_files w ''window-plan.json'' = None \<and> cw_files w' ''window-plan.json'' \<noteq> None"
    and "files_stay w w'" and "\<exists>calls. rw_calls w' = rw_calls w @ calls \<and> length calls \<le> 34 \<and> list_all (reads_backend (ce_read env)) calls"
proof -
  define rest where "rest = (\<lambda>plan. bindP (open_batch env) (\<lambda>start.
     bindP (measured env start incident plan) (\<lambda>_.
     bindP (batch_result (wp_incident plan)) (\<lambda>result.
     bindP (retain_once env ''collection.json'' (Collection_record result)) (\<lambda>_.
     returnP result)))))"
  have w: "window_collect env incident = bindP (liftR (window_plan incident)) (\<lambda>plan. bindP (disk env) (\<lambda>_.
     bindP (retain_once env ''window-plan.json'' (Plan_record plan)) (\<lambda>_. rest plan)))"
    unfolding window_collect_def rest_def ..
  have stay: "keeps files_stay (rest plan)" for plan
    unfolding rest_def by auto
  have costs: "costs (ce_read env) 34 (rest plan)" for plan
    unfolding rest_def by (rule costs_after_calm [OF calm_open], rule costs_then_calm [OF costs_measured]) auto
  have "keeps files_stay (window_collect env incident)"
    unfolding w by (auto intro: stay)
  with assms show "files_stay w w'" by (blast dest: keepsD)
  have "costs (ce_read env) 34 (window_collect env incident)"
    unfolding w by (intro costs_after_calm costs) auto
  with assms show "\<exists>calls. rw_calls w' = rw_calls w @ calls \<and> length calls \<le> 34 \<and> list_all (reads_backend (ce_read env)) calls"
    unfolding costs_def by (metis snd_conv)
  show "rw_calls w' = rw_calls w \<or> cw_files w ''window-plan.json'' = None \<and> cw_files w' ''window-plan.json'' \<noteq> None"
  proof (cases "window_plan incident")
    case (Inl e)
    with assms show ?thesis by (auto simp: w bindP_def)
  next
    case (Inr plan)
    obtain d w1 where d: "disk env w = (d, w1)" by force
    then have f: "cw_files w1 = cw_files w" "rw_calls w1 = rw_calls w" by (auto simp: disk_def)
    obtain q w2 where q: "retain_once env ''window-plan.json'' (Plan_record plan) w1 = (q, w2)" by force
    have c: "rw_calls w2 = rw_calls w1" using keepsD [OF calm_rest(2) q] by (simp add: calm_def)
    show ?thesis
    proof (cases "d = Inr () \<and> q = Inr ()")
      case True
      with assms Inr d q have r: "rest plan w2 = (r, w')" by (auto simp: w bindP_def)
      from True q have "cw_files w1 ''window-plan.json'' = None" "cw_files w2 ''window-plan.json'' \<noteq> None"
        using retain_once_Inr by blast+
      moreover have "files_stay w2 w'" by (rule keepsD [OF stay r])
      ultimately show ?thesis using f by (auto simp: files_stay_def)
    next
      case False
      with assms Inr d q f c have "rw_calls w' = rw_calls w"
        by (cases d; cases q) (auto simp: w bindP_def split: sum.splits)
      then show ?thesis ..
    qed
  qed
qed

definition restarts :: "(collect_env \<times> incident) list \<Rightarrow> collect_world \<Rightarrow> collect_world" where
  "restarts runs w = fold (\<lambda>(env, incident) w. snd (window_collect env incident w)) runs w"

lemma restarts_Cons: "restarts ((env, incident) # runs) w = restarts runs (snd (window_collect env incident w))"
  by (simp add: restarts_def)

lemma restarts_planned: "cw_files w ''window-plan.json'' \<noteq> None \<Longrightarrow> rw_calls (restarts runs w) = rw_calls w"
proof (induction runs arbitrary: w)
  case (Cons run runs)
  obtain env incident where run: "run = (env, incident)" by force
  obtain r w' where w': "window_collect env incident w = (r, w')" by force
  from window_run [OF w'] Cons.prems have "rw_calls w' = rw_calls w" "cw_files w' ''window-plan.json'' \<noteq> None"
    by (auto simp: files_stay_def)
  with Cons.IH [of w'] show ?case by (simp add: run restarts_Cons w')
qed (simp add: restarts_def)

lemma restarts_bounded: "length (rw_calls (restarts runs w)) \<le> length (rw_calls w) + 34"
proof (induction runs arbitrary: w)
  case (Cons run runs)
  obtain env incident where run: "run = (env, incident)" by force
  obtain r w' where w': "window_collect env incident w = (r, w')" by force
  note s = window_run [OF w']
  show ?case
  proof (cases "rw_calls w' = rw_calls w")
    case True
    with Cons.IH [of w'] show ?thesis by (simp add: run restarts_Cons w')
  next
    case False
    with s(1) have "cw_files w' ''window-plan.json'' \<noteq> None" by blast
    with s(3) show ?thesis by (auto simp: run restarts_Cons w' restarts_planned)
  qed
qed (simp add: restarts_def)

section \<open>What is collected\<close>

text \<open>An item of a collection: owned by the incident, in the window, of a source whose verification is that of its own
  artifact, and verified. Derived windows are let through when \<open>derived\<close> is set.\<close>

definition sound_item :: "bool \<Rightarrow> string \<Rightarrow> instant \<Rightarrow> evidence_store \<Rightarrow> evidence_item \<Rightarrow> bool" where
  "sound_item derived i t st item \<longleftrightarrow>
     ev_incident item = i \<and> valid_evidence_item item
     \<and> (derived \<and> ev_source item = PAYMENT
        \<or> t \<le> ev_observed item \<and> (ev_source item \<in> {KUBERNETES, DEPLOYMENT, PROMETHEUS} \<or> ev_source item = LOG \<and> ev_query item \<noteq> LOG_QUERY)
          \<and> (\<exists>envelope. store_verify st item = Inr envelope))"

definition store_grows :: "evidence_store \<Rightarrow> evidence_store \<Rightarrow> bool" where
  "store_grows st st' \<longleftrightarrow> st_files st \<subseteq>\<^sub>m st_files st' \<and> st_decode st' = st_decode st"

lemma sound_item_mono: "sound_item derived i t st item \<Longrightarrow> store_grows st st' \<Longrightarrow> sound_item derived i t st' item"
  unfolding sound_item_def store_grows_def by (blast intro: store_verify_mono)

definition gathers :: "bool \<Rightarrow> string \<Rightarrow> instant \<Rightarrow> collect_world \<Rightarrow> collect_world \<Rightarrow> bool" where
  "gathers derived i t w w' \<longleftrightarrow>
     store_grows (cw_store w) (cw_store w')
     \<and> (\<exists>new. cw_evidence w' = cw_evidence w @ new \<and> list_all (sound_item derived i t (cw_store w')) new)"

interpretation gathers: frame "gathers derived i t" for derived i t
proof
  show "gathers derived i t w w" for w by (simp add: gathers_def store_grows_def)
  show "gathers derived i t u w" if "gathers derived i t u v" "gathers derived i t v w" for u v w
  proof -
    from that obtain a b where a: "cw_evidence v = cw_evidence u @ a" "list_all (sound_item derived i t (cw_store v)) a"
      and b: "cw_evidence w = cw_evidence v @ b" "list_all (sound_item derived i t (cw_store w)) b"
      and g: "store_grows (cw_store u) (cw_store v)" "store_grows (cw_store v) (cw_store w)"
      unfolding gathers_def by blast
    from g have "store_grows (cw_store u) (cw_store w)" by (auto simp: store_grows_def intro: map_le_trans)
    moreover have "list_all (sound_item derived i t (cw_store w)) a"
      using a(2) g(2) by (auto simp: list_all_iff intro: sound_item_mono)
    ultimately show ?thesis using a(1) b unfolding gathers_def by (intro conjI exI [of _ "a @ b"]) auto
  qed
qed

lemma gathers_same: "cw_store w' = cw_store w \<Longrightarrow> cw_evidence w' = cw_evidence w \<Longrightarrow> gathers derived i t w w'"
  by (simp add: gathers_def store_grows_def)

lemma gathers_pair [simp]: "keeps (gathers derived i t) (Pair r)"
  by (simp add: keeps_def gathers_same)

lemma gathers_reads: "keeps only_reads m \<Longrightarrow> keeps (gathers derived i t) m"
  by (erule keeps_weaken) (auto simp: only_reads_def intro: gathers_same)

lemma gathers_clients [intro!]:
  "keeps (gathers derived i t) (kube_collect renv service)" "keeps (gathers derived i t) (kube_events renv service)"
  "keeps (gathers derived i t) (kube_logs renv service)" "keeps (gathers derived i t) (prometheus_query renv signal)"
  "keeps (gathers derived i t) (payment_snapshot renv service)" "keeps (gathers derived i t) (clock env)"
  unfolding clock_def by (intro gathers_reads only_reads_clients only_reads_steps)+

lemma gathers_steps [intro!]:
  "keeps (gathers derived i t) (disk env)" "keeps (gathers derived i t) (fresh_id env)" "keeps (gathers derived i t) (put_record name v)"
  "keeps (gathers derived i t) (note_failure tool resource e)"
  by (simp_all add: keeps_def disk_def fresh_id_def put_record_def note_failure_def gathers_same)

lemma gathers_rest [intro!]: "keeps (gathers derived i t) (batch_result j)" "keeps (gathers derived i t) (retain_once env name v)"
  unfolding batch_result_def retain_once_def by auto

lemma log_query_kept: "strip (redact_text ''logs.5m.100'') \<noteq> LOG_QUERY"
  by code_simp

lemma normalize_stored_Inr:
  assumes "normalize_stored env i t o1 w = (Inr item, w')"
  obtains new_id now stop st where "normalize new_id now o1 i t stop st = Inr (item, cw_store w')" "cw_store w = st" "cw_evidence w' = cw_evidence w"
  using assms
  by (auto simp: normalize_stored_def bindP_Inr_iff clock_def read_now_def fresh_id_def split: sum.splits prod.splits)

lemma normalize_grows: "normalize new_id now o1 i t stop st = Inr (item, st') \<Longrightarrow> store_grows st st'"
  unfolding store_grows_def using normalize_mono by blast

lemma gathers_normalize [intro!]: "keeps (gathers derived i t) (normalize_stored env j u o1)"
  unfolding normalize_stored_def
proof (rule gathers.frame_bindP [OF gathers_clients(6)], rule gathers.frame_bindP [OF gathers_steps(2)],
    rule gathers.frame_bind_body [OF gathers_clients(6)])
  fix stop new_id now w
  show "gathers derived i t w (snd (case normalize new_id now o1 j u (stop + one_second) (cw_store w) of
      Inl e \<Rightarrow> (Inl e, w) | Inr (item, st) \<Rightarrow> (Inr item, w\<lparr>cw_store := st\<rparr>)))"
    by (auto simp: gathers_def split: sum.split dest: normalize_grows) (simp add: store_grows_def)
qed

lemma gathers_store [intro!]: "keeps (gathers derived i t) (store_observation env j u o1)"
  unfolding store_observation_def verify_stored_def by auto

lemma stored_sound:
  assumes "store_observation env i t o1 w = (Inr item, w')" "plain o1"
  shows "sound_item derived i t (cw_store w') item"
proof -
  from assms(1) obtain w1 where n: "normalize_stored env i t o1 w = (Inr item, w1)" and "w' = w1" and v: "\<exists>p. store_verify (cw_store w1) item = Inr p"
    by (auto simp: store_observation_def verify_stored_def getP_def discard_def bindP_Inr_iff)
  from n obtain new_id now stop st where "normalize new_id now o1 i t stop st = Inr (item, cw_store w1)"
    by (rule normalize_stored_Inr)
  note item = normalize_item [OF this]
  have "ev_source item \<in> {KUBERNETES, DEPLOYMENT, PROMETHEUS} \<or> ev_source item = LOG \<and> ev_query item \<noteq> LOG_QUERY"
    using assms(2) log_query_kept unfolding item plain_source_def by auto
  with v \<open>w' = w1\<close> item show ?thesis by (auto simp: sound_item_def)
qed

lemma gathers_keep: "sound_item derived i t (cw_store w) item \<Longrightarrow> gathers derived i t w (snd (keep_evidence item w))"
  by (simp add: gathers_def keep_evidence_def store_grows_def)

lemma gathers_stored: "plain o1 \<Longrightarrow> keeps (gathers derived i t) (bindP (store_observation env i t o1) keep_evidence)"
  unfolding keeps_def
proof
  fix w assume "plain o1"
  obtain r w1 where s: "store_observation env i t o1 w = (r, w1)" by force
  have g: "gathers derived i t w w1" by (rule keepsD [OF gathers_store s])
  show "gathers derived i t w (snd (bindP (store_observation env i t o1) keep_evidence w))"
  proof (cases r)
    case (Inl e)
    with s g show ?thesis by (simp add: bindP_def)
  next
    case (Inr item)
    with s \<open>plain o1\<close> have "sound_item derived i t (cw_store w1) item" using stored_sound by blast
    from gathers.comp [OF g gathers_keep [OF this]] s Inr show ?thesis by (simp add: bindP_def)
  qed
qed

lemma gathers_local_keep: "list_all plain os \<Longrightarrow> keeps (gathers derived i t) (local_keep env i t tool resource os)"
  by (induction os) (auto intro!: gathers_stored)

lemma local_calls_plain: "c \<in> set (local_calls renv) \<Longrightarrow> snd (snd c) w = (Inr os, w') \<Longrightarrow> list_all plain os"
  unfolding local_calls_def
  by (auto simp: bindP_Inr_iff dest: kube_collect_plain kube_events_plain) (erule kube_logs_plain prometheus_plain)+

lemma gathers_local_calls: "c \<in> set (local_calls renv) \<Longrightarrow> keeps (gathers derived i t) (snd (snd c))"
  unfolding local_calls_def by auto

lemma gathers_local_read:
  assumes "c \<in> set (local_calls renv)"
  shows "keeps (gathers derived i t) (local_read env i t c)"
proof -
  obtain tool resource call where c: "c = (tool, resource, call)" by (cases c)
  with gathers_local_calls [OF assms] have "keeps (gathers derived i t) call" by simp
  then have "keeps (gathers derived i t) (bindP call (local_keep env i t tool resource))"
    using local_calls_plain [OF assms] c by (intro gathers.frame_bind_result) (auto intro: gathers_local_keep)
  then show ?thesis unfolding local_read_def c by (auto split: sum.split)
qed

lemma local_collection_sound:
  assumes "collect_local env incident_id w = (Inr c, w')"
  shows "\<exists>n. list_all (sound_item False (co_incident c) (kr_now (ce_read env) n - 300 * one_second) (cw_store w')) (co_evidence c)"
    and "cw_files w' ''collection.json'' = Some (Collection_record c)"
    and "\<forall>i. incident_id = Some i \<and> i \<noteq> [] \<longrightarrow> co_incident c = i"
proof -
  from assms obtain i w1 start w2 us w3 where i: "chosen_incident env incident_id w = (Inr i, w1)"
      and o: "open_batch env w1 = (Inr start, w2)"
      and m: "map_prog (local_read env i start) (local_calls (ce_read env)) w2 = (Inr us, w3)"
      and c: "c = \<lparr>co_incident = i, co_evidence = cw_evidence w3, co_failures = cw_failures w3\<rparr>"
      and w': "cw_store w' = cw_store w3" "cw_files w' ''collection.json'' = Some (Collection_record c)"
    by (auto simp: collect_local_def bindP_Inr_iff batch_result_def getP_def disk_def put_record_def split: option.splits)
  from o have start: "start = kr_now (ce_read env) (Suc (rw_tick w1)) - 300 * one_second" and e: "cw_evidence w2 = []"
    by (auto simp: open_batch_def bindP_Inr_iff disk_def clock_def read_now_def split: option.splits)
  have "keeps (gathers False i start) (map_prog (local_read env i start) cs)" if "set cs \<subseteq> set (local_calls (ce_read env))" for cs
    using that by (induction cs) (auto intro!: gathers_local_read)
  then have "gathers False i start w2 w3" using m by (blast intro: keepsD)
  with e c w' start show "\<exists>n. list_all (sound_item False (co_incident c) (kr_now (ce_read env) n - 300 * one_second) (cw_store w')) (co_evidence c)"
    by (auto simp: gathers_def)
  show "cw_files w' ''collection.json'' = Some (Collection_record c)" by (rule w')
  show "\<forall>i. incident_id = Some i \<and> i \<noteq> [] \<longrightarrow> co_incident c = i"
    using i c by (auto simp: chosen_incident_def split: option.splits list.splits)
qed

lemma sound_verified: "sound_item False i t st item \<Longrightarrow> verify_evidence st item = Inr ()"
  by (auto simp: sound_item_def verify_evidence_Inr source_chain_def)

lemma gathers_window_keep: "plain o1 \<Longrightarrow> keeps (gathers derived i t) (window_keep env i t tool resource o1)"
  unfolding keeps_def
proof
  fix w assume p: "plain o1"
  obtain r w1 where s: "store_observation env i t o1 w = (r, w1)" by force
  have g: "gathers derived i t w w1" by (rule keepsD [OF gathers_store s])
  show "gathers derived i t w (snd (window_keep env i t tool resource o1 w))"
  proof (cases r)
    case (Inl e)
    have "gathers derived i t w1 (snd (note_failure tool resource x w1))" for x
      using gathers_steps(4) unfolding keeps_def by blast
    with gathers.comp [OF g] s Inl show ?thesis
      by (simp add: window_keep_def bindP_def attempt_run g note_failure_def)
  next
    case (Inr item)
    with s p have "sound_item derived i t (cw_store w1) item" using stored_sound by blast
    from gathers.comp [OF g gathers_keep [OF this]] s Inr show ?thesis
      by (simp add: window_keep_def bindP_def attempt_run keep_evidence_def)
  qed
qed

lemma gathers_capture_all: "list_all plain os \<Longrightarrow> keeps (gathers derived i t) (capture_all env i t tool resource items os)"
  by (induction os arbitrary: items) (auto intro!: gathers_window_keep split: sum.split option.split)

definition plain_call :: "bool \<Rightarrow> string \<Rightarrow> instant \<Rightarrow> (collect_world, observation list) prog \<Rightarrow> bool" where
  "plain_call derived i t call \<longleftrightarrow>
     keeps (gathers derived i t) call \<and> (\<forall>w os w'. call w = (Inr os, w') \<longrightarrow> list_all plain os)"

lemma gathers_capture:
  assumes "plain_call derived i t (snd (snd c))"
  shows "keeps (gathers derived i t) (capture env i t c)"
proof -
  obtain tool resource call where c: "c = (tool, resource, call)" by (cases c)
  with assms have g: "keeps (gathers derived i t) call" and p: "\<And>w os w'. call w = (Inr os, w') \<Longrightarrow> list_all plain os"
    by (auto simp: plain_call_def)
  show ?thesis
    unfolding capture_def c prod.case
  proof (rule gathers.frame_bind_result [OF gathers.frame_attempt [OF g]])
    fix w r w' assume "attempt call is_read_error w = (Inr r, w')"
    then show "keeps (gathers derived i t) (case r of
        Inl e \<Rightarrow> bindP (note_failure tool resource (ce_type_name env e)) (\<lambda>_. returnP [])
      | Inr os \<Rightarrow> capture_all env i t tool resource [] os)"
      by (auto simp: attempt_run split: sum.splits prod.splits if_splits intro!: gathers_capture_all p)
  qed
qed

lemma plain_call_one:
  "keeps (gathers derived i t) m \<Longrightarrow> (\<And>w o1 w'. m w = (Inr o1, w') \<Longrightarrow> plain o1)
     \<Longrightarrow> plain_call derived i t (bindP m (\<lambda>o1. returnP [o1]))"
  unfolding plain_call_def by (auto simp: bindP_Inr_iff)

lemma workload_calls_plain: "c \<in> set (workload_calls renv) \<Longrightarrow> plain_call derived i t (snd (snd c))"
proof -
  have many: "plain_call derived i t (kube_collect renv service)" "plain_call derived i t (kube_events renv service)" for service
    unfolding plain_call_def using kube_collect_plain kube_events_plain by blast+
  have one: "plain_call derived i t (bindP (kube_logs renv service) (\<lambda>o1. returnP [o1]))"
      "plain_call derived i t (bindP (prometheus_query renv signal) (\<lambda>o1. returnP [o1]))" for service signal
    by (rule plain_call_one [OF _ kube_logs_plain], auto) (rule plain_call_one [OF _ prometheus_plain], auto)
  assume "c \<in> set (workload_calls renv)"
  then show ?thesis by (auto simp: workload_calls_def many one)
qed

lemma gathers_workload: "keeps (gathers derived (wp_incident plan) t) (workload_reads env t plan)"
proof -
  have m: "keeps (gathers derived i t) (map_prog (capture env i t) cs)" if "set cs \<subseteq> set (workload_calls (ce_read env))" for cs i
    using that by (induction cs) (auto intro!: gathers_capture workload_calls_plain)
  show ?thesis unfolding workload_reads_def by (intro gathers.frame_bindP gathers.frame_pure m order_refl)
qed

lemma gathers_snapshots: "keeps (gathers derived (wp_incident plan) t) (snapshots env t plan)"
  unfolding snapshots_def
  by (intro gathers.frame_bindP gathers.frame_map_prog gathers.frame_pure gathers_capture)
     (simp, rule plain_call_one [OF _ snapshot_plain], auto)

lemma observation_source: "make_observation src resource observed query summary payload = Inr o1 \<Longrightarrow> obv_source o1 = src"
  by (auto simp: make_observation_def)

lemma derived_sound:
  assumes "derive_stored env before after interval w = (Inr item, w')"
  shows "sound_item True (mi_incident interval) t (cw_store w') item" and "gathers True i u w w'"
proof -
  from assms obtain new_id now where d: "derive_payment_window (ce_window env) new_id now before after interval (cw_store w) = Inr (item, cw_store w')"
      and e: "cw_evidence w' = cw_evidence w"
    by (auto simp: derive_stored_def bindP_Inr_iff fresh_id_def clock_def read_now_def split: sum.splits prod.splits)
  from d obtain o1 a b where o1: "obv_source o1 = PAYMENT" and n: "normalize new_id now o1 (mi_incident interval) a b (cw_store w) = Inr (item, cw_store w')"
    unfolding derive_payment_window_def bindR_Inr_iff by (blast dest: observation_source)
  note item = normalize_item [OF n]
  show "sound_item True (mi_incident interval) t (cw_store w') item"
    using item o1 by (simp add: sound_item_def)
  show "gathers True i u w w'"
    using normalize_grows [OF n] e by (simp add: gathers_def)
qed

lemma gathers_derive_stored: "keeps (gathers True i t) (derive_stored env before after interval)"
  unfolding derive_stored_def
proof (rule gathers.frame_bindP [OF gathers_steps(2)], rule gathers.frame_bind_body [OF gathers_clients(6)])
  fix new_id now w
  show "gathers True i t w (snd (case derive_payment_window (ce_window env) new_id now before after interval (cw_store w) of
      Inl e \<Rightarrow> (Inl e, w) | Inr (item, st) \<Rightarrow> (Inr item, w\<lparr>cw_store := st\<rparr>)))"
    by (auto simp: gathers_same gathers_def derive_payment_window_def split: sum.split dest: normalize_grows)
       (simp add: store_grows_def)
qed

lemma gathers_derive:
  assumes "mi_incident interval = i"
  shows "keeps (gathers True i t) (derive_service env before after interval service)"
proof -
  have kept: "keeps (gathers True i t) (bindP (derive_stored env initial final interval) keep_evidence)" for initial final
    unfolding keeps_def
  proof
    fix w
    obtain r w1 where s: "derive_stored env initial final interval w = (r, w1)" by force
    have g: "gathers True i t w w1" by (rule keepsD [OF gathers_derive_stored s])
    show "gathers True i t w (snd (bindP (derive_stored env initial final interval) keep_evidence w))"
    proof (cases r)
      case (Inl e)
      with s g show ?thesis by (simp add: bindP_def)
    next
      case (Inr item)
      with s assms have "sound_item True i t (cw_store w1) item" using derived_sound(1) by blast
      from gathers.comp [OF g gathers_keep [OF this]] s Inr show ?thesis by (simp add: bindP_def)
    qed
  qed
  have body: "keeps (gathers True i t) (bindP (liftR a) (\<lambda>initial. bindP (liftR b) (\<lambda>final.
      bindP (derive_stored env initial final interval) keep_evidence)))" for a b
    by (rule gathers.frame_bindP [OF gathers.frame_pure(3)], rule gathers.frame_bindP [OF gathers.frame_pure(3)], rule kept)
  show ?thesis
    unfolding derive_service_def by (rule gathers.frame_bindP [OF gathers.frame_attempt [OF body]]) (auto split: sum.split)
qed

lemma gathers_measured:
  assumes "wp_incident plan = in_id incident"
  shows "keeps (gathers True (wp_incident plan) t) (measured env t incident plan)"
proof -
  have second: "keeps (gathers True (wp_incident plan) t) (second_snapshots env t plan before interval)"
    if "mi_incident interval = in_id incident" for before interval
    unfolding second_snapshots_def using that assms
    by (intro gathers.frame_bindP gathers.frame_map_prog gathers.frame_pure gathers_rest gathers_snapshots gathers_derive) simp
  show ?thesis
    unfolding measured_def
    by (intro gathers.frame_bindP gathers_snapshots gathers_workload gathers_rest gathers_clients)
       (auto simp: validate_interval_def bindR_def check_def second)
qed

lemma window_collection_sound:
  assumes "window_collect env incident w = (Inr c, w')"
  shows "co_incident c = in_id incident"
    and "\<exists>n. list_all (sound_item True (in_id incident) (kr_now (ce_read env) n - 300 * one_second) (cw_store w')) (co_evidence c)"
    and "cw_files w' ''collection.json'' = Some (Collection_record c)"
proof -
  from assms obtain plan w1 w2 start w3 w4 where p: "window_plan incident = Inr plan"
      and o: "open_batch env w2 = (Inr start, w3)" and m: "measured env start incident plan w3 = (Inr (), w4)"
      and c: "c = \<lparr>co_incident = wp_incident plan, co_evidence = cw_evidence w4, co_failures = cw_failures w4\<rparr>"
      and r: "retain_once env ''collection.json'' (Collection_record c) w4 = (Inr (), w')"
    by (auto simp: window_collect_def bindP_Inr_iff batch_result_def getP_def)
  from p have i: "wp_incident plan = in_id incident"
    by (auto simp: window_plan_def Let_def split: if_splits)
  with c show "co_incident c = in_id incident" by simp
  from o have start: "start = kr_now (ce_read env) (Suc (rw_tick w2)) - 300 * one_second" and e: "cw_evidence w3 = []"
    by (auto simp: open_batch_def bindP_Inr_iff disk_def clock_def read_now_def split: option.splits)
  from r have w': "cw_store w' = cw_store w4" "cw_files w' ''collection.json'' = Some (Collection_record c)"
    by (auto simp: retain_once_def bindP_Inr_iff getP_def put_record_def disk_def split: option.splits)
  then show "cw_files w' ''collection.json'' = Some (Collection_record c)" by simp
  have "gathers True (in_id incident) start w3 w4"
    using keepsD [OF gathers_measured [OF i] m] by (simp add: i)
  with e c w' start show "\<exists>n. list_all (sound_item True (in_id incident) (kr_now (ce_read env) n - 300 * one_second) (cw_store w')) (co_evidence c)"
    by (auto simp: gathers_def)
qed

section \<open>Properties\<close>

text \<open>A collection spends no more than was reserved for it. A local collection dispatches at most the reads that an
  investigation of the instant profile reserves, a window collection at most those of the window profile, and all
  of them are fixed commands or fixed queries; and however often window collections of one directory are started,
  for whatever incidents and wherever each of them dies, together they dispatch at most 34 reads.\<close>

theorem collection_within_reservation:
  "(\<exists>calls. rw_calls (snd (collect_local env incident_id w)) = rw_calls w @ calls
      \<and> int (length calls) \<le> required_reads (s\<lparr>iv_profile := Instant_v1\<rparr>) \<and> list_all (reads_backend (ce_read env)) calls)
   \<and> (\<exists>calls. rw_calls (snd (window_collect env incident w)) = rw_calls w @ calls
      \<and> int (length calls) \<le> required_reads (s\<lparr>iv_profile := Payment_windows_v1\<rparr>) \<and> list_all (reads_backend (ce_read env)) calls)
   \<and> length (rw_calls (restarts runs w)) \<le> length (rw_calls w) + 34"
proof -
  obtain a b where a: "rw_calls (snd (collect_local env incident_id w)) = rw_calls w @ a" "length a \<le> 30" "list_all (reads_backend (ce_read env)) a"
      and b: "rw_calls (snd (window_collect env incident w)) = rw_calls w @ b" "length b \<le> 34" "list_all (reads_backend (ce_read env)) b"
    using costs_collect_local [of env incident_id] window_run(3) [of env incident w] unfolding costs_def by (metis surjective_pairing)
  have "int (length a) \<le> required_reads (s\<lparr>iv_profile := Instant_v1\<rparr>)" "int (length b) \<le> required_reads (s\<lparr>iv_profile := Payment_windows_v1\<rparr>)"
    using a(2) b(2) by (simp_all add: required_reads_def)
  with a b restarts_bounded [of runs w] show ?thesis by blast
qed

text \<open>What a local collection reports can be trusted. Every item belongs to the incident of the collection, is a valid
  item observed no more than five minutes before the collection began, and passes the shared verification against
  the store the collection leaves, so that the investigation's own check of it succeeds; the incident is the given one; and
  the directory retains exactly the returned collection.\<close>

theorem local_collection_verifies:
  assumes "collect_local env incident_id w = (Inr c, w')"
  shows "(\<exists>n. list_all (\<lambda>item. ev_incident item = co_incident c \<and> valid_evidence_item item
             \<and> kr_now (ce_read env) n - 300 * one_second \<le> ev_observed item \<and> verify_evidence (cw_store w') item = Inr ()) (co_evidence c))
       \<and> incident_id \<in> {Some (co_incident c), None, Some []}
       \<and> cw_files w' ''collection.json'' = Some (Collection_record c)"
proof -
  note s = local_collection_sound [OF assms]
  from s(1) obtain n where "list_all (sound_item False (co_incident c) (kr_now (ce_read env) n - 300 * one_second) (cw_store w')) (co_evidence c)"
    by blast
  then have "list_all (\<lambda>item. ev_incident item = co_incident c \<and> valid_evidence_item item
             \<and> kr_now (ce_read env) n - 300 * one_second \<le> ev_observed item \<and> verify_evidence (cw_store w') item = Inr ()) (co_evidence c)"
    unfolding list_all_iff by (auto intro: sound_verified) (simp_all add: sound_item_def)
  with s(2,3) show ?thesis by (cases incident_id) auto
qed

text \<open>Only the log of one service answers.\<close>

definition sample_tail :: observation where
  "sample_tail = \<lparr>obv_source = LOG, obv_resource = ''ledger-sim'', obv_observed = 400000000, obv_query = ''logs.5m.100'',
     obv_summary = ''ok'', obv_payload = [(''lines'', JStr ''ok'')]\<rparr>"

definition sample_tail_item :: evidence_item where
  "sample_tail_item = \<lparr>ev_id = ''e1'', ev_incident = ''inc-1'', ev_source = LOG, ev_observed = 400000000, ev_collected = 400000000,
     ev_query = ''logs.5m.100'', ev_resource = ''ledger-sim'', ev_uri = ''pending://artifact'', ev_sha256 = replicate 64 (CHR ''0''),
     ev_summary = ''ok''\<rparr>"

definition sample_tail_envelope :: json_object where
  "sample_tail_envelope = evidence_envelope sample_tail_item (JObj [(''lines'', JStr ''ok'')])"

definition sample_collected :: evidence_item where
  "sample_collected = sample_tail_item\<lparr>ev_uri := ''sha256://'' @ sha256_hex (artifact_bytes sample_tail_envelope),
     ev_sha256 := sha256_hex (artifact_bytes sample_tail_envelope)\<rparr>"

definition sample_reader :: reader_env where
  "sample_reader =
     \<lparr>kr_prefix = [''kubectl''],
      kr_invoke = (\<lambda>n argv. if argv ! 1 = ''logs'' \<and> argv ! 2 = ''deployment/ledger-sim'' then Inr ''ok'' else Inl (OSError ''down'')),
      kr_http = (\<lambda>n query t. Inl (OSError ''down'')), kr_now = (\<lambda>n. 400000000),
      kr_loads = (\<lambda>s. Inr []), kr_loads_unique = (\<lambda>s. Inr []), kr_sample = (\<lambda>v. Inl (ValueError ''sample'')),
      kr_datetime = (\<lambda>s. None), kr_stamp = (\<lambda>t. ''0.0'')\<rparr>"

definition sample_collect_env :: collect_env where
  "sample_collect_env =
     \<lparr>ce_read = sample_reader, ce_new_id = (\<lambda>n. ''e1''), ce_fault = (\<lambda>n. None), ce_type_name = (\<lambda>e. ''OSError''),
      ce_window = (\<lambda>w. [])\<rparr>"

definition sample_collect_store :: evidence_store where
  "sample_collect_store =
     \<lparr>st_files = Map.empty, st_decode = (\<lambda>bytes. Inr (canonical_object sample_tail_envelope)),
      st_window = (\<lambda>_. Inl (ValueError ''none'')), st_trace_log = (\<lambda>_. Inl (ValueError ''none'')),
      st_trace_span = (\<lambda>_. Inl (ValueError ''none'')), st_lineage = (\<lambda>_. Inl (ValueError ''none''))\<rparr>"

definition sample_collect_world :: collect_world where
  "sample_collect_world = \<lparr>rw_tick = 0, rw_calls = [], cw_store = sample_collect_store, cw_evidence = [], cw_failures = [], cw_files = Map.empty\<rparr>"

lemma sample_tail_texts:
  "is_identifier ''ledger-sim''" "is_summary (strip ''logs.5m.100'')" "is_summary (strip ''ok'')" "strip ''ok'' = ''ok''"
  "strip (redact_text ''logs.5m.100'') = ''logs.5m.100''" "redact_text ''ok'' = ''ok''" "valid_evidence_item sample_tail_item"
  "SENSITIVE_KEY ''lines'' = False" "is_summary ''ok''" "is_summary ''logs.5m.100''"
  by code_simp+

lemma sample_tail_metadata: "evidence_metadata ''e1'' 400000000 sample_tail ''inc-1'' = sample_tail_item"
  by (simp add: evidence_metadata_def sample_tail_def sample_tail_item_def sample_tail_texts)

lemma sample_tail_redacted: "redact 0 (JObj (obv_payload sample_tail)) = Inr (JObj [(''lines'', JStr ''ok'')])"
  by (simp add: sample_tail_def hides_def sample_tail_texts sensitive_name_def)

lemma sample_tail_short: "length (artifact_bytes sample_tail_envelope) \<le> MAX_ARTIFACT_BYTES"
  unfolding sample_tail_envelope_def by (rule envelope_short) (simp_all add: sample_tail_item_def)

definition sample_full_store :: evidence_store where
  "sample_full_store = sample_collect_store\<lparr>st_files := [sha256_hex (artifact_bytes sample_tail_envelope) \<mapsto> artifact_bytes sample_tail_envelope]\<rparr>"

lemma sample_normalized:
  "normalize ''e1'' 400000000 sample_tail ''inc-1'' 100000000 (400000000 + one_second) sample_collect_store = Inr (sample_collected, sample_full_store)"
proof -
  have "normalize ''e1'' 400000000 sample_tail ''inc-1'' 100000000 (400000000 + one_second) sample_collect_store
    = Inr (sample_tail_item\<lparr>ev_uri := ''sha256://'' @ sha256_hex (artifact_bytes (evidence_envelope sample_tail_item (JObj [(''lines'', JStr ''ok'')]))),
             ev_sha256 := sha256_hex (artifact_bytes (evidence_envelope sample_tail_item (JObj [(''lines'', JStr ''ok'')])))\<rparr>,
           sample_collect_store\<lparr>st_files := (st_files sample_collect_store)(sha256_hex (artifact_bytes (evidence_envelope sample_tail_item (JObj [(''lines'', JStr ''ok'')])))
             \<mapsto> artifact_bytes (evidence_envelope sample_tail_item (JObj [(''lines'', JStr ''ok'')])))\<rparr>)"
    by (rule normalize_fresh [OF sample_tail_metadata _ _ sample_tail_redacted sample_tail_texts(7)])
       (use sample_tail_short in \<open>simp_all add: sample_tail_envelope_def sample_collect_store_def sample_tail_def one_second_def\<close>)
  then show ?thesis
    by (simp add: sample_collected_def sample_full_store_def sample_tail_envelope_def sample_collect_store_def)
qed

lemma sample_verified: "store_verify sample_full_store sample_collected = Inr (canonical_object sample_tail_envelope)"
proof -
  have "py_eq (canonical (evidence_json sample_tail_item)) (evidence_json sample_tail_item)" by (rule evidence_json_read)
  then show ?thesis
    using sample_tail_short
    by (simp add: store_verify_iff sample_full_store_def sample_collect_store_def sample_collected_def sample_tail_envelope_def envelope_fields)
qed

lemma map_prog_runs:
  assumes "\<And>x w. x \<in> set xs \<Longrightarrow> P w \<Longrightarrow> \<exists>y w'. f x w = (Inr y, w') \<and> P w'" and "P w"
  shows "\<exists>ys w'. map_prog f xs w = (Inr ys, w') \<and> P w'"
  using assms
proof (induction xs arbitrary: w)
  case (Cons x xs)
  then obtain y w1 where y: "f x w = (Inr y, w1)" "P w1" by force
  with Cons obtain ys w' where "map_prog f xs w1 = (Inr ys, w')" "P w'" by force
  with y show ?case by (simp add: bindP_def)
qed simp

lemma map_prog_append: "map_prog f (xs @ ys) = bindP (map_prog f xs) (\<lambda>a. bindP (map_prog f ys) (\<lambda>b. returnP (a @ b)))"
  by (induction xs) (simp_all add: fun_eq_iff bindP_def split: prod.split sum.split)

definition sample_call :: read_call where
  "sample_call = (''logs'', ''ledger-sim'', bindP (kube_logs sample_reader ''ledger-sim'') (\<lambda>o1. returnP [o1]))"

lemma sample_down:
  assumes "c \<in> set (local_calls sample_reader)" "c \<noteq> sample_call"
  shows "\<exists>w1. snd (snd c) w = (Inl (OSError ''down''), w1)"
proof -
  have services: "set READ_SERVICES = {''payments-api'', ''risk-sim'', ''processor-adapter'', ''ledger-sim'', ''webhook-sim''}"
    by (simp add: READ_SERVICES_def)
  have get: "kube_get sample_reader (a # args) w = (Inl (OSError ''down''), w\<lparr>rw_tick := Suc (rw_tick w),
        rw_calls := rw_calls w @ [Command (''kubectl'' # ''get'' # a # args @ [''-o'', ''json''])]\<rparr>)" for a args and w :: collect_world
    by (simp add: kube_get_def run_command_def bindP_def Let_def sample_reader_def)
  have many: "\<exists>w1. kube_collect sample_reader s w = (Inl (OSError ''down''), w1)" "\<exists>w1. kube_events sample_reader s w = (Inl (OSError ''down''), w1)"
    if "s \<in> set READ_SERVICES" for s
    using that by (auto simp: kube_collect_def kube_events_def bindP_def get)
  have logs: "\<exists>w1. kube_logs sample_reader s w = (Inl (OSError ''down''), w1)"
    if "s \<in> set READ_SERVICES" "s \<noteq> ''ledger-sim''" for s
    using that by (auto simp: kube_logs_def bindP_def run_command_def Let_def sample_reader_def services)
  have prom: "\<exists>w1. prometheus_query sample_reader s w = (Inl (OSError ''down''), w1)" if "s \<in> set (map fst QUERIES)" for s
  proof -
    from that obtain q where "map_of QUERIES s = Some q" by (metis map_of_eq_None_iff not_Some_eq set_map)
    then show ?thesis by (auto simp: prometheus_query_def bindP_def run_query_def sample_reader_def)
  qed
  have one: "(\<exists>w1. m w = (Inl e, w1)) \<Longrightarrow> \<exists>w1. bindP m (\<lambda>o1. returnP [o1]) w = (Inl e, w1)"
    for m :: "(collect_world, observation) prog" and e
    by (auto simp: bindP_def)
  from assms consider s where "s \<in> set READ_SERVICES" "snd (snd c) = kube_collect sample_reader s"
    | s where "s \<in> set READ_SERVICES" "snd (snd c) = kube_events sample_reader s"
    | s where "s \<in> set READ_SERVICES" "s \<noteq> ''ledger-sim''" "snd (snd c) = bindP (kube_logs sample_reader s) (\<lambda>o1. returnP [o1])"
    | s where "s \<in> set (map fst QUERIES)" "snd (snd c) = bindP (prometheus_query sample_reader s) (\<lambda>o1. returnP [o1])"
    unfolding local_calls_def sample_call_def by force
  then show ?thesis
  proof cases
    case (1 s)
    show ?thesis unfolding 1(2) by (rule many(1) [OF 1(1)])
  next
    case (2 s)
    show ?thesis unfolding 2(2) by (rule many(2) [OF 2(1)])
  next
    case (3 s)
    show ?thesis unfolding 3(3) by (rule one, rule logs [OF 3(1,2)])
  next
    case (4 s)
    show ?thesis unfolding 4(2) by (rule one, rule prom [OF 4(1)])
  qed
qed

lemma local_calls_distinct: "distinct (local_calls renv)"
  by (auto simp: local_calls_def distinct_map inj_on_def READ_SERVICES_def QUERIES_def)

lemma sample_skips:
  assumes "c \<in> set (local_calls sample_reader)" "c \<noteq> sample_call"
  shows "\<exists>u w'. local_read sample_collect_env i t c w = (Inr u, w') \<and> cw_store w' = cw_store w \<and> cw_evidence w' = cw_evidence w"
proof -
  obtain tool resource call where c: "c = (tool, resource, call)" by (cases c)
  with sample_down [OF assms] obtain w1 where d: "call w = (Inl (OSError ''down''), w1)" by auto
  have "keeps only_reads call" using assms(1) c by (auto simp: local_calls_def)
  then have "only_reads w w1" using d by (blast dest: keepsD)
  with d show ?thesis
    by (auto simp: c local_read_def bindP_def attempt_run is_read_error_def note_failure_def only_reads_def)
qed

lemma sample_tails:
  "kube_logs sample_reader ''ledger-sim'' w = (Inr sample_tail, w\<lparr>rw_tick := Suc (Suc (rw_tick w)),
     rw_calls := rw_calls (snd (kube_logs sample_reader ''ledger-sim'' w))\<rparr>)" for w :: collect_world
  by (simp add: kube_logs_def bindP_def run_command_def Let_def sample_reader_def READ_SERVICES_def read_now_def make_observation_def
      sample_tail_texts sample_tail_def utf8_def utf8_char_def last_chars_def logs_query)

lemma sample_kept:
  assumes "cw_store w = sample_collect_store"
  shows "\<exists>w'. store_observation sample_collect_env ''inc-1'' 100000000 sample_tail w = (Inr sample_collected, w')
    \<and> cw_store w' = sample_full_store \<and> cw_evidence w' = cw_evidence w"
  using assms
  by (simp add: store_observation_def normalize_stored_def bindP_def clock_def fresh_id_def read_now_def sample_collect_env_def
      sample_reader_def sample_normalized verify_stored_def getP_def discard_def sample_verified)

lemma sample_reads:
  assumes "cw_store w = sample_collect_store" "cw_evidence w = []"
  shows "\<exists>u w'. local_read sample_collect_env ''inc-1'' 100000000 sample_call w = (Inr u, w')
    \<and> cw_store w' = sample_full_store \<and> cw_evidence w' = [sample_collected]"
proof -
  obtain w1 where l1: "kube_logs sample_reader ''ledger-sim'' w = (Inr sample_tail, w1)" and w1: "w1 = w\<lparr>rw_tick := Suc (Suc (rw_tick w)),
     rw_calls := rw_calls (snd (kube_logs sample_reader ''ledger-sim'' w))\<rparr>" using sample_tails by blast
  have l: "kube_logs sample_reader ''ledger-sim'' w = (Inr sample_tail, w1)" "cw_store w1 = sample_collect_store" "cw_evidence w1 = []"
    by (rule l1) (simp_all add: w1 assms)
  then obtain w2 where k: "store_observation sample_collect_env ''inc-1'' 100000000 sample_tail w1 = (Inr sample_collected, w2)"
      "cw_store w2 = sample_full_store" "cw_evidence w2 = []" using sample_kept by force
  have "\<not> obv_observed sample_tail < 100000000" by (simp add: sample_tail_def)
  with l k show ?thesis
    by (simp add: local_read_def sample_call_def bindP_def attempt_run keep_evidence_def)
qed

text \<open>The one log makes the collection.\<close>

theorem local_collection_verifies_witness:
  "\<exists>c w'. collect_local sample_collect_env (Some ''inc-1'') sample_collect_world = (Inr c, w') \<and> co_evidence c = [sample_collected]
     \<and> verify_evidence (cw_store w') sample_collected = Inr () \<and> cw_files w' ''collection.json'' = Some (Collection_record c)"
proof -
  have "sample_call \<in> set (local_calls sample_reader)" by (simp add: local_calls_def sample_call_def READ_SERVICES_def)
  then obtain pre post where split: "local_calls sample_reader = pre @ sample_call # post" by (blast dest: split_list)
  with local_calls_distinct [of sample_reader] have others: "set pre \<subseteq> set (local_calls sample_reader) - {sample_call}"
      "set post \<subseteq> set (local_calls sample_reader) - {sample_call}" by auto
  let ?read = "local_read sample_collect_env ''inc-1'' 100000000"
  obtain w1 where o: "open_batch sample_collect_env sample_collect_world = (Inr 100000000, w1)" "cw_store w1 = sample_collect_store" "cw_evidence w1 = []"
    by (simp add: open_batch_def bindP_def disk_def clock_def read_now_def sample_collect_env_def sample_reader_def sample_collect_world_def one_second_def)
  have skip: "\<exists>us w'. map_prog ?read cs w = (Inr us, w') \<and> cw_store w' = st \<and> cw_evidence w' = es"
    if "set cs \<subseteq> set (local_calls sample_reader) - {sample_call}" "cw_store w = st" "cw_evidence w = es" for cs w st es
    using map_prog_runs [of cs "\<lambda>w. cw_store w = st \<and> cw_evidence w = es" ?read w] that sample_skips by blast
  obtain us w2 where p: "map_prog ?read pre w1 = (Inr us, w2)" "cw_store w2 = sample_collect_store" "cw_evidence w2 = []"
    using skip [OF others(1) o(2,3)] by blast
  obtain u w3 where r: "?read sample_call w2 = (Inr u, w3)" "cw_store w3 = sample_full_store" "cw_evidence w3 = [sample_collected]"
    using sample_reads [OF p(2,3)] by blast
  obtain vs w4 where q: "map_prog ?read post w3 = (Inr vs, w4)" "cw_store w4 = sample_full_store" "cw_evidence w4 = [sample_collected]"
    using skip [OF others(2) r(2,3)] by blast
  have "ce_read sample_collect_env = sample_reader" by (simp add: sample_collect_env_def)
  with o(1) split p(1) r(1) q(1) obtain c w' where run: "collect_local sample_collect_env (Some ''inc-1'') sample_collect_world = (Inr c, w')"
      and c: "co_evidence c = [sample_collected]"
    using q(3) by (simp add: collect_local_def chosen_incident_def bindP_def map_prog_append batch_result_def getP_def disk_def put_record_def
        sample_collect_env_def)
  from local_collection_verifies [OF run] c have "verify_evidence (cw_store w') sample_collected = Inr ()"
      "cw_files w' ''collection.json'' = Some (Collection_record c)" by auto
  with run c show ?thesis by blast
qed

end
