(* ===== verification/Spec2Isabelle.thy ===== *)
theory Spec2Isabelle
  imports ProtectedApi Deployment Lifecycle Loop Traces Provenance Collection
begin

text \<open>
  A verification library for PayOps, the incident investigator and remediation broker under
  \<^verbatim>\<open>src/payops/\<close>. Paths below are relative to that directory.

  \<^bold>\<open>The program.\<close> An incident is created over HTTP and investigated by a durable graph of five nodes. One
  node collects evidence from the cluster within reserved reads; every observation is redacted, normalised
  and retained in a content-addressed store, and whoever uses it later verifies it against that store and
  recomputes what was derived from it. The evidence is ranked by fixed rules or by a bounded reasoning loop,
  which charges every model call and every read to a ledger before it makes it. The report is stored with the
  incident. A remediation is a separate request: a proposal that the policy engine derives from the stored
  report, an approval by a second person, and a broker that claims the record and then dispatches at most one
  effect to the traffic control or to the deployment executor.

  \<^bold>\<open>How code becomes definitions.\<close> A class is a \<open>record\<close>, an enumeration or a tagged union a \<open>datatype\<close>.
  Pure code that may raise has the type \<open>exn + 'a\<close>. Code with state is a program
  \<open>'s \<Rightarrow> (exn + 'a) \<times> 's\<close>: the state survives an exception, as mutated objects and committed
  transactions do. Everything outside the repository (databases' clocks, \<^verbatim>\<open>kubectl\<close>, HTTP backends, identity
  and model providers, the graph library, pydantic's dumps of nested contracts, JSON readers, file faults) is a
  field of an environment record, and its answers take the number of the call, the tick of the world. So two
  calls may get different answers, and a theorem can say which call of a request gave which answer. Loops
  over data are structural recursion; the framing of the console log carries a state machine; the readiness
  loop of the executor is a \<open>partial_function\<close>, whose termination is a theorem of its own.

  \<^bold>\<open>Theories, from the bottom.\<close>
  \<^item> \<open>Prelude\<close>: exceptions, the two monads and their rules, frames, lists without duplicates.
    \<open>Sha256\<close>, \<open>ShaVectors\<close>, \<open>Json\<close>, \<open>PyText\<close>: the digest on 32-bit words and its evaluation in
    the kernel, JSON values and \<^verbatim>\<open>json.dumps\<close>, the operations of \<^verbatim>\<open>str\<close> and \<^verbatim>\<open>re\<close> that are used.
  \<^item> \<open>Contracts\<close> (\<^verbatim>\<open>contracts/__init__.py\<close>), \<open>Artifacts\<close> (\<^verbatim>\<open>evidence/artifacts.py\<close>),
    \<open>Normalize\<close> (\<^verbatim>\<open>evidence/redact.py\<close>, \<^verbatim>\<open>normalize.py\<close>), \<open>Window\<close> (\<^verbatim>\<open>payment_window.py\<close>),
    \<open>Spans\<close> (\<^verbatim>\<open>trace_span.py\<close>), \<open>Retrieval\<close> (the evidence parts of \<^verbatim>\<open>memory/data_clients.py\<close>),
    \<open>Verification\<close> (\<^verbatim>\<open>evidence/verification.py\<close>): evidence and its verification.
  \<^item> \<open>Readers\<close> (\<^verbatim>\<open>tools/kubernetes.py\<close>, \<^verbatim>\<open>prometheus.py\<close>, \<^verbatim>\<open>payment.py\<close>), \<open>Collection\<close>
    (\<^verbatim>\<open>tools/collect.py\<close>, \<^verbatim>\<open>window_collect.py\<close>), \<open>Traces\<close> (\<^verbatim>\<open>tools/traces.py\<close>): where evidence
    is read. \<open>Provenance\<close> joins the publishing and the verifying side.
  \<^item> \<open>Baseline\<close> (\<^verbatim>\<open>orchestrator/baseline.py\<close>), \<open>Diagnostics\<close> (\<^verbatim>\<open>evidence/diagnostics.py\<close>,
    \<^verbatim>\<open>diagnostic_slices.py\<close>, \<^verbatim>\<open>diagnostic_http.py\<close>, \<^verbatim>\<open>diagnostic_support.py\<close>), \<open>Context\<close>
    (\<^verbatim>\<open>evidence/context.py\<close>, \<^verbatim>\<open>log_context.py\<close>): what the evidence supports, and what a model is shown.
  \<^item> \<open>Reasoning\<close> (\<^verbatim>\<open>orchestrator/reasoning.py\<close>), \<open>Budget\<close> (\<^verbatim>\<open>budget.py\<close>), \<open>Registry\<close>
    (\<^verbatim>\<open>tools/registry.py\<close>), \<open>ModelRuntime\<close> (\<^verbatim>\<open>model_runtime.py\<close>), \<open>Receipts\<close> (\<^verbatim>\<open>loop_records.py\<close>),
    \<open>Loop\<close> (\<^verbatim>\<open>loop.py\<close>): the reasoning loop over its ledger, files, reads and provider.
  \<^item> \<open>Lifecycle\<close> (\<^verbatim>\<open>state.py\<close>, \<^verbatim>\<open>nodes.py\<close>, \<^verbatim>\<open>graph.py\<close>, \<^verbatim>\<open>graph_reasoning.py\<close>): the durable graph.
  \<^item> \<open>Policy\<close> (\<^verbatim>\<open>policy/\<close>), \<open>ActionStore\<close> (\<^verbatim>\<open>remediation/contracts.py\<close>, \<^verbatim>\<open>store.py\<close>), \<open>Broker\<close>
    (\<^verbatim>\<open>broker.py\<close>), \<open>Traffic\<close> (\<^verbatim>\<open>traffic_control.py\<close>, \<^verbatim>\<open>managed_traffic.py\<close>), \<open>Deployment\<close>
    (\<^verbatim>\<open>deployment.py\<close>, \<^verbatim>\<open>local_executor.py\<close>), \<open>Identity\<close> (\<^verbatim>\<open>auth/identity.py\<close>), \<open>Incidents\<close>
    (\<^verbatim>\<open>memory/store.py\<close>), \<open>ProtectedApi\<close> (\<^verbatim>\<open>protected_api.py\<close>, \<^verbatim>\<open>remediation/api.py\<close>,
    \<^verbatim>\<open>backend.py\<close>): requests, identities and effects.

  \<^bold>\<open>Interfaces.\<close> The locale \<open>versioned_rows\<close> (in \<open>ActionStore\<close>) is the contract of a table whose rows only
  move forward; the remediation ledger, the budget ledger, the incident table and the traffic table
  interpret it, and finality and exclusive claims follow from its facts. The locale \<open>frame\<close> (in
  \<open>Prelude\<close>) is a reflexive and transitive relation between the states before and after a program, with the
  rules that carry it through every program constructor; the loop (what it may spend, what it leaves of the
  evidence, what a replay leaves alone), the trace reader, the readers and the collectors interpret it.

  \<^bold>\<open>What the lemmas show.\<close> Per component: the outcome of every operation on success and which checks it has
  passed (\<open>..._Inr\<close>, \<open>..._iff\<close>), what it may change (the frames), its invariant over every sequence of
  operations, and the properties, which are numbered. The properties that span components are:
  an effect needs an authority that this request read, call by call (\<open>Broker\<close>), rests on the stored
  incident (\<open>ProtectedApi\<close>) and happens at most once under any interleaving (\<open>Broker\<close>,
  \<open>ActionStore\<close>); evidence is collected at most once per incident and within its reservation
  (\<open>Lifecycle\<close>, \<open>Collection\<close>); an undisturbed investigation ends with a grounded report
  (\<open>Lifecycle\<close>); a reasoning run spends within its limits and returns only what its evidence supports
  (\<open>Loop\<close>); and derived, traced and retrieved evidence leads back to retained originals (\<open>Provenance\<close>).

  \<^bold>\<open>Bounds.\<close> No property is limited to a number of steps. The graph's \<open>recursion_limit\<close> is the code's
  sixteen, of which an undisturbed run uses five; a loop takes at most \<^verbatim>\<open>limits.model_calls\<close> turns; a chain
  of citations has at most eight links; the executor polls until its deadline, which a clock that
  advances passes.

  \<^bold>\<open>Idealisations.\<close> Instants are integers of microseconds. Numbers of JSON texts are exact rationals: the
  rounding of double arithmetic is not modelled, but the conversions that the code guards or that raise outside
  the range of a double are. A character is a code point below 256. Collisions of SHA-256 are never assumed
  away: where two texts might share a digest the statement says so. The graph library is a parameter; the safety
  properties ask that it follows the declared edges (\<open>follows_graph\<close>), completion that it also runs an
  undisturbed graph to its end (\<open>runs_undisturbed\<close>), and \<open>reference_engine\<close> shows that both can hold.

  \<^bold>\<open>Not modelled.\<close> Drivers and services around the product path: the synthetic payment services
  (\<^verbatim>\<open>sandbox/\<close>), the fault-injection harness (\<^verbatim>\<open>scenarios/\<close>), the evaluation suites (\<^verbatim>\<open>evaluation/\<close>) and the
  command lines, which only wire or score. Adapters whose behaviour is that of third-party services: the model
  providers, the cloud and MCP transports, Firebase, GraphQL, Pub/Sub and Slack. Of partly modelled
  files: the subprocess and threads behind \<^verbatim>\<open>bounded_read\<close> in \<^verbatim>\<open>tools/traces.py\<close> (one drained pipe is
  modelled), the transports of \<^verbatim>\<open>memory/data_clients.py\<close>, and the wiring of the application in
  \<^verbatim>\<open>protected_api.py\<close> and \<^verbatim>\<open>remediation/api.py\<close>. The host's bindings in \<^verbatim>\<open>tools/operational_reads.py\<close> are
  not modelled: the registry takes its readers, its authority check and its verification as
  parameters. Tracing calls are left out everywhere.
\<close>

end
